(* ===== verification/Prelude.thy ===== *)
theory Prelude
  imports Complex_Main "HOL-Library.Char_ord" "HOL-Library.List_Lexorder"
begin

section \<open>Prelude: shared types, text helpers and the ordered map\<close>

text \<open>
  What every component of the model uses: names for the types of the C++ standard
  library the code relies on, the text helpers behind \<open>std::to_string\<close> and the
  \<open>printf\<close> formats, and \<open>std::map\<close> with string keys, which the code uses for JSON
  objects and for test evidence. The map is first an interface, the locale
  \<open>std_map\<close>, in which the facts its clients need are proved once; the sorted
  association lists below are its interpretation.
\<close>

named_theorems opt_simps \<open>unfolding equations of small option and result helpers\<close>

subsection \<open>Text\<close>

text \<open>\<open>c_str ()\<close> hands a C string on: the text up to the first NUL byte.\<close>

definition c_str :: "string \<Rightarrow> string" where
  "c_str s = takeWhile (\<lambda>c. c \<noteq> CHR 0x00) s"

definition nul_free :: "string \<Rightarrow> bool" where
  "nul_free s \<longleftrightarrow> CHR 0x00 \<notin> set s"

lemma c_str_nul_free [simp]: "nul_free s \<Longrightarrow> c_str s = s"
  by (auto simp: nul_free_def c_str_def takeWhile_eq_all_conv)

lemma nul_free_c_str [simp]: "nul_free (c_str s)"
  unfolding nul_free_def c_str_def by (metis set_takeWhileD)

lemma nul_free_Nil [simp]: "nul_free []"
  by (simp add: nul_free_def)

lemma nul_free_Cons [simp]: "nul_free (x # xs) \<longleftrightarrow> x \<noteq> CHR 0x00 \<and> nul_free xs"
  by (auto simp: nul_free_def)

lemma nul_free_append [simp]: "nul_free (a @ b) \<longleftrightarrow> nul_free a \<and> nul_free b"
  by (auto simp: nul_free_def)

definition digit_char :: "nat \<Rightarrow> char" where
  "digit_char d = ''0123456789'' ! (d mod 10)"

definition hex_char :: "nat \<Rightarrow> char" where
  "hex_char d = ''0123456789ABCDEF'' ! (d mod 16)"

text \<open>\<open>std::to_string\<close> of an unsigned value.\<close>

fun nat_text :: "nat \<Rightarrow> string" where
  "nat_text n = (if n < 10 then [digit_char n] else nat_text (n div 10) @ [digit_char n])"

declare nat_text.simps [simp del]

definition int_text :: "int \<Rightarrow> string" where
  "int_text i = (if i < 0 then ''-'' @ nat_text (nat (- i)) else nat_text (nat i))"

text \<open>The format \<open>%0wd\<close> for values that are not negative.\<close>

definition pad_text :: "nat \<Rightarrow> nat \<Rightarrow> string" where
  "pad_text w n = (let s = nat_text n in replicate (w - length s) (CHR ''0'') @ s)"

lemma nat_text_nonempty [simp]: "nat_text n \<noteq> []"
  by (subst nat_text.simps) simp

lemma digit_char_inj: "a < 10 \<Longrightarrow> b < 10 \<Longrightarrow> digit_char a = digit_char b \<Longrightarrow> a = b"
  using nth_eq_iff_index_eq [of "''0123456789''" a b] by (simp add: digit_char_def)

lemma digit_char_in: "digit_char d \<in> set ''0123456789''"
  unfolding digit_char_def by (rule nth_mem) simp

lemma digit_char_not_NUL [simp]: "digit_char d \<noteq> CHR 0x00"
  using digit_char_in [of d] by auto

lemma nul_free_nat_text [simp]: "nul_free (nat_text n)"
proof (induction n rule: nat_text.induct)
  case (1 n)
  then show ?case
    by (subst nat_text.simps) (auto simp: nul_free_def dest: sym)
qed

subsection \<open>std::map with string keys\<close>

text \<open>
  The interface the clients use: lookup, \<open>emplace\<close> (keeps the first value of a key),
  \<open>operator[]\<close> assignment (replaces it) and iteration in key order. The laws give what a
  lookup returns after each operation, that each operation keeps the invariant, and that a
  map is determined by its lookups.
\<close>

locale std_map =
  fixes empty :: "'m"
    and find :: "'m \<Rightarrow> string \<Rightarrow> 'v option"
    and emplace :: "string \<Rightarrow> 'v \<Rightarrow> 'm \<Rightarrow> 'm"
    and assign :: "string \<Rightarrow> 'v \<Rightarrow> 'm \<Rightarrow> 'm"
    and entries :: "'m \<Rightarrow> (string \<times> 'v) list"
    and valid :: "'m \<Rightarrow> bool"
  assumes valid_empty: "valid empty"
    and find_empty: "find empty k = None"
    and valid_emplace: "valid m \<Longrightarrow> valid (emplace k v m)"
    and valid_assign: "valid m \<Longrightarrow> valid (assign k v m)"
    and find_emplace: "valid m \<Longrightarrow>
      find (emplace k v m) j = (if j = k \<and> find m k = None then Some v else find m j)"
    and find_assign: "valid m \<Longrightarrow> find (assign k v m) j = (if j = k then Some v else find m j)"
    and find_entries: "valid m \<Longrightarrow> find m k = map_of (entries m) k"
    and sorted_entries: "valid m \<Longrightarrow> sorted_wrt (<) (map fst (entries m))"
    and map_ext: "valid m \<Longrightarrow> valid n \<Longrightarrow> (\<And>k. find m k = find n k) \<Longrightarrow> m = n"
begin

lemma distinct_keys: "valid m \<Longrightarrow> distinct (map fst (entries m))"
  using sorted_entries by (metis strict_sorted_iff)

lemma valid_fold_emplace: "valid m \<Longrightarrow> valid (fold (\<lambda>(k, v). emplace k v) kvs m)"
  by (induction kvs arbitrary: m) (auto simp: valid_emplace)

lemma valid_fold_assign: "valid m \<Longrightarrow> valid (fold (\<lambda>(k, v). assign k v) kvs m)"
  by (induction kvs arbitrary: m) (auto simp: valid_assign)

text \<open>Of several entries with one key the first inserted stays.\<close>

lemma find_fold_emplace:
  "valid m \<Longrightarrow> find (fold (\<lambda>(k, v). emplace k v) kvs m) j =
     (case find m j of Some v \<Rightarrow> Some v | None \<Rightarrow> map_of kvs j)"
proof (induction kvs arbitrary: m)
  case (Cons kv kvs)
  then show ?case
    by (cases kv) (auto simp: find_emplace valid_emplace split: option.splits)
qed (auto split: option.splits)

text \<open>Assigning entry by entry: the last entry of a key wins, other keys stay.\<close>

lemma find_fold_assign:
  "valid m \<Longrightarrow> find (fold (\<lambda>(k, v). assign k v) kvs m) j =
     (case map_of (rev kvs) j of Some v \<Rightarrow> Some v | None \<Rightarrow> find m j)"
proof (induction kvs arbitrary: m)
  case (Cons kv kvs)
  then show ?case
    by (cases kv) (auto simp: find_assign valid_assign map_add_def split: option.splits)
qed auto

text \<open>Inserting the entries of a map into the empty map rebuilds it.\<close>

lemma rebuild_emplace:
  assumes "valid m"
  shows "fold (\<lambda>(k, v). emplace k v) (entries m) empty = m"
proof (rule map_ext)
  show "valid (fold (\<lambda>(k, v). emplace k v) (entries m) empty)"
    by (rule valid_fold_emplace) (rule valid_empty)
  show "valid m" by (rule assms)
  show "find (fold (\<lambda>(k, v). emplace k v) (entries m) empty) k = find m k" for k
    using assms by (simp add: find_fold_emplace valid_empty find_empty find_entries)
qed

end

text \<open>The implementation: an association list kept in key order.\<close>

type_synonym 'v smap = "(string \<times> 'v) list"

fun smap_emplace :: "string \<Rightarrow> 'v \<Rightarrow> 'v smap \<Rightarrow> 'v smap" where
  "smap_emplace k v [] = [(k, v)]"
| "smap_emplace k v ((j, w) # m) =
     (if k < j then (k, v) # (j, w) # m
      else if k = j then (j, w) # m
      else (j, w) # smap_emplace k v m)"

fun smap_assign :: "string \<Rightarrow> 'v \<Rightarrow> 'v smap \<Rightarrow> 'v smap" where
  "smap_assign k v [] = [(k, v)]"
| "smap_assign k v ((j, w) # m) =
     (if k < j then (k, v) # (j, w) # m
      else if k = j then (k, v) # m
      else (j, w) # smap_assign k v m)"

definition smap_valid :: "'v smap \<Rightarrow> bool" where
  "smap_valid m \<longleftrightarrow> sorted_wrt (<) (map fst m)"

lemma fst_set_smap_emplace: "fst ` set (smap_emplace k v m) = insert k (fst ` set m)"
  by (induction k v m rule: smap_emplace.induct) auto

lemma fst_set_smap_assign: "fst ` set (smap_assign k v m) = insert k (fst ` set m)"
  by (induction k v m rule: smap_assign.induct) auto

lemma smap_valid_emplace: "smap_valid m \<Longrightarrow> smap_valid (smap_emplace k v m)"
  by (induction k v m rule: smap_emplace.induct)
    (auto simp: smap_valid_def fst_set_smap_emplace)

lemma smap_valid_assign: "smap_valid m \<Longrightarrow> smap_valid (smap_assign k v m)"
  by (induction k v m rule: smap_assign.induct)
    (auto simp: smap_valid_def fst_set_smap_assign)

lemma smap_key_less_None: "\<forall>y\<in>fst ` set m. (k::string) < y \<Longrightarrow> map_of m k = None"
  by (metis (no_types, lifting) map_of_eq_None_iff order_less_irrefl)

lemma smap_find_emplace:
  "smap_valid m \<Longrightarrow> map_of (smap_emplace k v m) j =
     (if j = k \<and> map_of m k = None then Some v else map_of m j)"
proof (induction k v m rule: smap_emplace.induct)
  case (2 k v i w m)
  then show ?case
    using smap_key_less_None [of m k]
    by (auto simp: smap_valid_def) (metis order.strict_trans)
qed auto

lemma smap_find_assign:
  "smap_valid m \<Longrightarrow> map_of (smap_assign k v m) j = (if j = k then Some v else map_of m j)"
  by (induction k v m rule: smap_assign.induct) (auto simp: smap_valid_def)

lemma smap_ext:
  "smap_valid m \<Longrightarrow> smap_valid n \<Longrightarrow> (\<And>k. map_of m k = map_of n k) \<Longrightarrow> m = n"
proof -
  assume v: "smap_valid m" "smap_valid n" and eq: "\<And>k. map_of m k = map_of n k"
  have d: "distinct (map fst m)" "distinct (map fst n)"
    using v by (auto simp: smap_valid_def strict_sorted_iff)
  have "set m = set n"
    using eq d by (metis map_of_inject_set ext)
  then show "m = n"
    using v d by (intro map_sorted_distinct_set_unique [where f = fst])
      (auto simp: smap_valid_def strict_sorted_iff distinct_map)
qed

interpretation smap: std_map "[]" map_of smap_emplace smap_assign "\<lambda>m. m" smap_valid
  by unfold_locales
    (auto simp: smap_valid_emplace smap_valid_assign smap_find_emplace smap_find_assign
      simp del: smap_emplace.simps smap_assign.simps intro: smap_ext, auto simp: smap_valid_def)

end
