(* ===== verification/Storage.thy ===== *)
theory Storage
  imports Prelude
begin

section \<open>Storage: replacing a file atomically\<close>

text \<open>
  Both persistent components replace a file through a temporary one: the session manager
  with \<open>write_text_file_atomic\<close> of src/src/model/test_session.cpp, the configuration store
  with \<open>write_atomic\<close> of src/src/model/app_config.cpp. The file system is the map from paths
  to contents; every system call that can fail has its outcome in a record of faults. A
  result \<open>None\<close> is the function's \<open>true\<close>, \<open>Some e\<close> is \<open>false\<close> with the error message.

  The interface \<open>atomic_writer\<close> is what a reader of the file may rely on whatever fails: the
  file holds its old content or the whole new text. \<open>strict_writer\<close> adds that a failure is
  never reported after the file was replaced; only the session manager's writer keeps it.
\<close>

type_synonym fs = "string \<rightharpoonup> string"

subsection \<open>The interfaces\<close>

locale atomic_writer =
  fixes put :: "'f \<Rightarrow> string \<Rightarrow> string \<Rightarrow> fs \<Rightarrow> string option \<times> fs"
    and scratch :: "'f \<Rightarrow> string \<Rightarrow> string"
  assumes put_done: "put f p t m = (None, m') \<Longrightarrow> m' p = Some t"
    and put_old_or_new: "put f p t m = (r, m') \<Longrightarrow> m' p = m p \<or> m' p = Some t"
    and put_frame: "put f p t m = (r, m') \<Longrightarrow> q \<noteq> p \<Longrightarrow> q \<noteq> scratch f p \<Longrightarrow> m' q = m q"
begin

text \<open>A run of writes to one file; the results are dropped, as a caller that retries does.\<close>

fun writes :: "string \<Rightarrow> ('f \<times> string) list \<Rightarrow> fs \<Rightarrow> fs" where
  "writes p [] m = m"
| "writes p ((f, t) # xs) m = writes p xs (snd (put f p t m))"

lemma writes_whole:
  "writes p xs m p = m p \<or> (\<exists>t. t \<in> snd ` set xs \<and> writes p xs m p = Some t)"
proof (induction xs arbitrary: m)
  case (Cons x xs)
  obtain f t where x: "x = (f, t)" by (cases x)
  obtain r m' where w: "put f p t m = (r, m')" by (cases "put f p t m")
  show ?case
    using Cons.IH [of m'] put_old_or_new [OF w] by (auto simp: x w)
qed simp

lemma writes_frame:
  "q \<noteq> p \<Longrightarrow> \<forall>(f, t)\<in>set xs. q \<noteq> scratch f p \<Longrightarrow> writes p xs m q = m q"
proof (induction xs arbitrary: m)
  case (Cons x xs)
  obtain f t where x: "x = (f, t)" by (cases x)
  obtain r m' where w: "put f p t m = (r, m')" by (cases "put f p t m")
  show ?case
    using Cons put_frame [OF w, of q] by (auto simp: x w)
qed simp

end

locale strict_writer = atomic_writer +
  assumes put_failed: "put f p t m = (Some e, m') \<Longrightarrow> m' p = m p"
begin

lemma put_cases:
  assumes "put f p t m = (r, m')"
  obtains (stored) "r = None" "m' p = Some t" | (failed) e where "r = Some e" "m' p = m p"
  using assms put_done put_failed by (cases r) auto

end

subsection \<open>The session manager's writer\<close>

text \<open>
  Outcomes of \<open>create_directories\<close>, of opening and writing the temporary file, of \<open>fsync\<close>
  and of \<open>rename\<close>. A stream that fails has written some prefix of the text. The last
  \<open>sync_file\<close> on the directory is ignored by the code.
\<close>

record io_fault =
  f_mkdir :: "string option"
  f_open :: bool
  f_written :: "nat option"
  f_sync :: bool
  f_rename :: "string option"

definition io_ok :: io_fault where
  "io_ok = \<lparr>f_mkdir = None, f_open = True, f_written = None, f_sync = True, f_rename = None\<rparr>"

definition session_scratch :: "io_fault \<Rightarrow> string \<Rightarrow> string" where
  "session_scratch f p = p @ ''.tmp''"

definition write_text_file_atomic ::
  "io_fault \<Rightarrow> string \<Rightarrow> string \<Rightarrow> fs \<Rightarrow> string option \<times> fs" where
  "write_text_file_atomic f path txt m =
     (case f_mkdir f of
        Some msg \<Rightarrow> (Some (''failed to create session directory: '' @ msg), m)
      | None \<Rightarrow>
          (let temporary = path @ ''.tmp'' in
           if \<not> f_open f then (Some ''failed to open temporary session file'', m)
           else case f_written f of
             Some n \<Rightarrow>
               (Some ''failed to write temporary session file'', m(temporary \<mapsto> take n txt))
           | None \<Rightarrow>
               (let m1 = m(temporary \<mapsto> txt) in
                if \<not> f_sync f then (Some ''failed to sync temporary session file'', m1)
                else case f_rename f of
                  Some msg \<Rightarrow> (Some (''failed to replace session file: '' @ msg), m1)
                | None \<Rightarrow> (None, (m1(temporary := None))(path \<mapsto> txt)))))"

lemma write_text_file_atomic_ok: "fst (write_text_file_atomic io_ok p t m) = None"
  by (simp add: write_text_file_atomic_def io_ok_def)

interpretation session_writer: strict_writer write_text_file_atomic session_scratch
  by unfold_locales
    (auto simp: write_text_file_atomic_def session_scratch_def Let_def
      split: option.splits if_splits)

end
