(* ===== verification/Numbers.thy ===== *)
theory Numbers
  imports Prelude
begin

section \<open>Numbers: doubles, sizes and their conversions\<close>

text \<open>
  The code keeps counts as \<open>std::size_t\<close> or \<open>std::uint64_t\<close> and stores every JSON number
  as a \<open>double\<close>. A double is a rational value, a negative zero, an infinity or not a
  number; no arithmetic is done on doubles in the modelled code, only comparisons,
  \<open>floor\<close> and conversions. Unsigned 64-bit values are naturals with the wrap-around written
  out. The target is 64-bit ARM, where a conversion of an out-of-range double to an
  unsigned type saturates; C++ leaves it undefined.
\<close>

datatype dbl = Fin rat | NegZero | PosInf | NegInf | NaN

definition u64_max :: nat where "u64_max = 2 ^ 64 - 1"

definition u64_add :: "nat \<Rightarrow> nat \<Rightarrow> nat" where
  "u64_add a b = (a + b) mod 2 ^ 64"

lemma u64_add_exact: "a + b < 2 ^ 64 \<Longrightarrow> u64_add a b = a + b"
  by (simp add: u64_add_def)

text \<open>The value of a finite double; a negative zero counts as zero in every comparison.\<close>

fun dbl_value :: "dbl \<Rightarrow> rat option" where
  "dbl_value (Fin r) = Some r"
| "dbl_value NegZero = Some 0"
| "dbl_value _ = None"

definition dbl_finite :: "dbl \<Rightarrow> bool" where
  "dbl_finite d \<longleftrightarrow> dbl_value d \<noteq> None"

text \<open>\<open>d >= 0.0\<close>: false for NaN, true for plus infinity.\<close>

fun dbl_nonneg :: "dbl \<Rightarrow> bool" where
  "dbl_nonneg (Fin r) = (0 \<le> r)"
| "dbl_nonneg NegZero = True"
| "dbl_nonneg PosInf = True"
| "dbl_nonneg _ = False"

text \<open>\<open>std::floor (d) == d\<close>.\<close>

fun dbl_integral :: "dbl \<Rightarrow> bool" where
  "dbl_integral (Fin r) = (of_int (floor r) = r)"
| "dbl_integral NaN = False"
| "dbl_integral _ = True"

text \<open>\<open>static_cast\<close> of a double to \<open>std::size_t\<close>: truncation, saturating out of range.\<close>

fun dbl_to_u64 :: "dbl \<Rightarrow> nat" where
  "dbl_to_u64 (Fin r) = min u64_max (nat (floor r))"
| "dbl_to_u64 PosInf = u64_max"
| "dbl_to_u64 _ = 0"

subsection \<open>An unsigned value as a double\<close>

text \<open>
  Values of at most 53 bits are exact; a longer one is rounded to 53 significant bits, to
  the nearest value and to the even one on a tie.
\<close>

fun bit_len :: "nat \<Rightarrow> nat" where
  "bit_len n = (if n = 0 then 0 else Suc (bit_len (n div 2)))"

declare bit_len.simps [simp del]

definition round_to_53 :: "nat \<Rightarrow> nat" where
  "round_to_53 n =
     (if n \<le> 2 ^ 53 then n
      else let k = bit_len n - 53; q = n div 2 ^ k; r = n mod 2 ^ k
           in (q + (if 2 * r > 2 ^ k \<or> 2 * r = 2 ^ k \<and> odd q then 1 else 0)) * 2 ^ k)"

definition dbl_of_nat :: "nat \<Rightarrow> dbl" where
  "dbl_of_nat n = Fin (of_nat (round_to_53 n))"

definition dbl_of_int :: "int \<Rightarrow> dbl" where
  "dbl_of_int i = Fin (of_int i)"

definition exact_size :: "nat \<Rightarrow> bool" where
  "exact_size n \<longleftrightarrow> n \<le> 2 ^ 53"

lemma round_to_53_exact [simp]: "exact_size n \<Longrightarrow> round_to_53 n = n"
  by (simp add: exact_size_def round_to_53_def)

text \<open>A count of at most 53 bits survives the way through a double unchanged.\<close>

lemma dbl_size_roundtrip [simp]: "exact_size n \<Longrightarrow> dbl_to_u64 (dbl_of_nat n) = n"
  by (auto simp: dbl_of_nat_def exact_size_def u64_max_def)

lemma dbl_nonneg_of_nat [simp]: "dbl_nonneg (dbl_of_nat n)"
  by (simp add: dbl_of_nat_def)

lemma dbl_finite_simps [simp]:
  "dbl_finite (Fin r)" "dbl_finite NegZero"
  "\<not> dbl_finite PosInf" "\<not> dbl_finite NegInf" "\<not> dbl_finite NaN"
  by (simp_all add: dbl_finite_def)

lemma exact_size_Suc: "n < 2 ^ 53 \<Longrightarrow> exact_size (Suc n)"
  by (simp add: exact_size_def)

end
