(* ===== verification/Json.thy ===== *)
theory Json
  imports Numbers
begin

section \<open>Json: the cJSON library as a parameter\<close>

text \<open>
  cJSON is not part of the repository. Its trees are the datatype \<open>json\<close> (an object is its
  list of members in insertion order); its printer, its parser and the integer view
  \<open>valueint\<close> of a number are the fields of the record \<open>cjson\<close>, an argument of every
  operation that uses them. \<open>cj_documented\<close> is what the code relies on: printing a tree and
  parsing the text, with or without a trailing newline, gives the tree back, for trees
  whose numbers the library's decimal text keeps (\<open>cj_keeps\<close>; at least the integers of up
  to 15 digits, the precision it prints) and whose strings hold no NUL byte.
\<close>

datatype json =
    JNull
  | JBool bool
  | JNum dbl
  | JStr string
  | JArr "json list"
  | JObj "(string \<times> json) list"

record cjson =
  cj_print :: "bool \<Rightarrow> json \<Rightarrow> string option"
  cj_parse :: "string \<Rightarrow> json option"
  cj_valueint :: "dbl \<Rightarrow> int"
  cj_keeps :: "dbl \<Rightarrow> bool"

fun json_kept :: "cjson \<Rightarrow> json \<Rightarrow> bool" where
  "json_kept c JNull = True"
| "json_kept c (JBool b) = True"
| "json_kept c (JNum d) = cj_keeps c d"
| "json_kept c (JStr s) = nul_free s"
| "json_kept c (JArr js) = list_all (json_kept c) js"
| "json_kept c (JObj kvs) = list_all (\<lambda>(k, j). nul_free k \<and> json_kept c j) kvs"

definition small_int :: "int \<Rightarrow> bool" where
  "small_int i \<longleftrightarrow> \<bar>i\<bar> < 10 ^ 15"

definition cj_documented :: "cjson \<Rightarrow> bool" where
  "cj_documented c \<longleftrightarrow>
     (\<forall>formatted j t. json_kept c j \<longrightarrow> cj_print c formatted j = Some t \<longrightarrow>
        t \<noteq> [] \<and> cj_parse c t = Some j \<and> cj_parse c (t @ [CHR 0x0A]) = Some j) \<and>
     (\<forall>i. small_int i \<longrightarrow> cj_keeps c (Fin (of_int i))) \<and>
     (\<forall>i. - (2 ^ 31) \<le> i \<and> i < 2 ^ 31 \<longrightarrow> cj_valueint c (Fin (of_int i)) = i)"

lemma cj_documented_parse:
  assumes "cj_documented c" "json_kept c j" "cj_print c formatted j = Some t"
  shows "t \<noteq> []" "cj_parse c t = Some j" "cj_parse c (t @ [CHR 0x0A]) = Some j"
  using assms by (auto simp: cj_documented_def)

lemma cj_documented_keeps: "cj_documented c \<Longrightarrow> small_int i \<Longrightarrow> cj_keeps c (Fin (of_int i))"
  by (auto simp: cj_documented_def)

lemma cj_keeps_dbl_of_nat:
  assumes "cj_documented c" "n < 10 ^ 15"
  shows "cj_keeps c (dbl_of_nat n)"
proof -
  have "exact_size n" "small_int (int n)"
    using assms(2) by (auto simp: exact_size_def small_int_def)
  then show ?thesis
    using cj_documented_keeps [OF assms(1), of "int n"] by (simp add: dbl_of_nat_def)
qed

lemma cj_documented_valueint:
  "cj_documented c \<Longrightarrow> - (2 ^ 31) \<le> i \<Longrightarrow> i < 2 ^ 31 \<Longrightarrow> cj_valueint c (Fin (of_int i)) = i"
  unfolding cj_documented_def by blast

subsection \<open>The accessors the code uses\<close>

text \<open>\<open>cJSON_GetObjectItemCaseSensitive\<close>: the first member of that name; null for anything
  that is not an object with one.\<close>

fun json_member :: "json \<Rightarrow> string \<Rightarrow> json option" where
  "json_member (JObj kvs) k = map_of kvs k"
| "json_member _ k = None"

fun is_obj :: "json \<Rightarrow> bool" where
  "is_obj (JObj _) = True"
| "is_obj _ = False"

fun is_arr :: "json \<Rightarrow> bool" where
  "is_arr (JArr _) = True"
| "is_arr _ = False"

fun items :: "json \<Rightarrow> json list" where
  "items (JArr js) = js"
| "items _ = []"

subsection \<open>Printing a built tree\<close>

text \<open>\<open>print_json\<close> of test_session.cpp: empty when the library cannot print.\<close>

definition print_json :: "cjson \<Rightarrow> bool \<Rightarrow> json \<Rightarrow> string" where
  "print_json c formatted tree =
     (case cj_print c formatted tree of
        Some t \<Rightarrow> t @ (if formatted then [CHR 0x0A] else [])
      | None \<Rightarrow> [])"

lemma print_json_parse:
  assumes "cj_documented c" "json_kept c j" "print_json c formatted j \<noteq> []"
  shows "cj_parse c (print_json c formatted j) = Some j"
proof (cases "cj_print c formatted j")
  case None
  with assms(3) show ?thesis by (simp add: print_json_def)
next
  case (Some t)
  with cj_documented_parse [OF assms(1,2) Some] show ?thesis by (simp add: print_json_def)
qed

end
