(* ===== verification/Session.thy ===== *)
theory Session
  imports Storage Json Paths
begin

section \<open>Session: the test session and its manager\<close>

text \<open>
  The class \<open>SessionManager\<close> of src/src/model/test_session.cpp: the plan of tests, the
  evidence and result of each, and the file that makes a session survive a restart. The
  manager's fields, the file system and a counter of environment interactions form one
  record; the clock, the outcome of each file operation and of each JSON construction are
  functions of that counter in \<open>session_env\<close>, so a theorem for every environment covers
  every pattern of failures. Log output is not modelled.
\<close>

subsection \<open>Data (test_session.h)\<close>

datatype test_result = PASS | FAIL

record named_test_result =
  ntr_name :: string
  ntr_result :: test_result

record test_definition =
  td_id :: string
  td_name :: string

record session_metadata =
  md_sku :: string
  md_serial_number :: string
  md_station :: string
  md_firmware :: string
  md_commit :: string

definition metadata_default :: session_metadata where
  "metadata_default = \<lparr>md_sku = [], md_serial_number = [], md_station = ''AUTO_TEST'',
     md_firmware = [], md_commit = []\<rparr>"

datatype evidence_value = EvBoolean bool | EvNumber dbl | EvString string

type_synonym test_evidence = "evidence_value smap"

record test_record =
  tr_id :: string
  tr_name :: string
  tr_completed :: bool
  tr_result :: test_result
  tr_attempted :: bool
  tr_attempt_count :: nat
  tr_attempt_started_at :: string
  tr_attempt_finished_at :: string
  tr_completed_at :: string
  tr_evidence :: test_evidence
  tr_details :: "named_test_result list"

definition test_record_default :: test_record where
  "test_record_default = \<lparr>tr_id = [], tr_name = [], tr_completed = False, tr_result = FAIL,
     tr_attempted = False, tr_attempt_count = 0, tr_attempt_started_at = [],
     tr_attempt_finished_at = [], tr_completed_at = [], tr_evidence = [], tr_details = []\<rparr>"

definition has_evidence :: "test_record \<Rightarrow> bool" where
  "has_evidence t \<longleftrightarrow> tr_evidence t \<noteq> []"

datatype session_state = NONE | IN_PROGRESS | COMPLETED | ABANDONED

record session_summary =
  ss_state :: session_state
  ss_total :: nat
  ss_completed :: nat
  ss_passed :: nat
  ss_failed :: nat
  ss_missing_evidence :: nat

text \<open>Where building the JSON tree fails: at the fixed members, at one test, or not.\<close>

datatype build_fault = BuildOk | BuildRootFails | BuildTestFails nat

record session_env =
  se_json :: cjson
  se_clock :: "nat \<Rightarrow> nat" \<comment> \<open>milliseconds since the epoch\<close>
  se_io :: "nat \<Rightarrow> io_fault"
  se_build :: "nat \<Rightarrow> build_fault"
  se_getenv :: "string \<Rightarrow> string option"

record session_manager =
  sm_state :: session_state
  sm_session_id :: string
  sm_sequence_number :: nat
  sm_started_at :: string
  sm_updated_at :: string
  sm_completed_at :: string
  sm_current_test_id :: string
  sm_session_path :: string
  sm_result_path :: string
  sm_last_error :: string
  sm_metadata :: session_metadata
  sm_tests :: "test_record list"
  sm_files :: fs
  sm_steps :: nat

definition set_error :: "string \<Rightarrow> session_manager \<Rightarrow> session_manager" where
  "set_error msg s = s\<lparr>sm_last_error := msg\<rparr>"

definition reset :: "session_manager \<Rightarrow> session_manager" where
  "reset s = s\<lparr>sm_state := NONE, sm_session_id := [], sm_sequence_number := 0,
     sm_started_at := [], sm_updated_at := [], sm_completed_at := [], sm_current_test_id := [],
     sm_session_path := [], sm_result_path := [], sm_last_error := [],
     sm_metadata := metadata_default, sm_tests := []\<rparr>"

subsection \<open>Time stamps\<close>

record tm =
  tm_year :: nat
  tm_mon :: nat
  tm_mday :: nat
  tm_hour :: nat
  tm_min :: nat
  tm_sec :: nat

text \<open>\<open>gmtime_r\<close> for a time in seconds since 1970: the proleptic Gregorian calendar.\<close>

definition utc_time :: "nat \<Rightarrow> tm" where
  "utc_time secs =
     (let z = secs div 86400 + 719468; r = secs mod 86400;
          era = z div 146097; doe = z mod 146097;
          yoe = (doe - doe div 1460 + doe div 36524 - doe div 146096) div 365;
          doy = doe - (365 * yoe + yoe div 4 - yoe div 100);
          mp = (5 * doy + 2) div 153;
          m = (if mp < 10 then mp + 3 else mp - 9)
      in \<lparr>tm_year = yoe + era * 400 + (if m \<le> 2 then 1 else 0), tm_mon = m,
          tm_mday = doy - (153 * mp + 2) div 5 + 1,
          tm_hour = r div 3600, tm_min = r mod 3600 div 60, tm_sec = r mod 60\<rparr>)"

definition iso_timestamp :: "nat \<Rightarrow> string" where
  "iso_timestamp now =
     (let t = utc_time (now div 1000) in
      pad_text 4 (tm_year t) @ ''-'' @ pad_text 2 (tm_mon t) @ ''-'' @ pad_text 2 (tm_mday t) @
      ''T'' @ pad_text 2 (tm_hour t) @ '':'' @ pad_text 2 (tm_min t) @ '':'' @
      pad_text 2 (tm_sec t) @ ''Z'')"

definition session_timestamp :: "nat \<Rightarrow> string" where
  "session_timestamp now =
     (let t = utc_time (now div 1000) in
      pad_text 4 (tm_year t) @ pad_text 2 (tm_mon t) @ pad_text 2 (tm_mday t) @ ''-'' @
      pad_text 2 (tm_hour t) @ pad_text 2 (tm_min t) @ pad_text 2 (tm_sec t) @ ''-'' @
      pad_text 3 (now mod 1000))"

definition tick :: "session_manager \<Rightarrow> session_manager" where
  "tick s = s\<lparr>sm_steps := Suc (sm_steps s)\<rparr>"

definition now_iso_timestamp :: "session_env \<Rightarrow> session_manager \<Rightarrow> string \<times> session_manager" where
  "now_iso_timestamp e s = (iso_timestamp (se_clock e (sm_steps s)), tick s)"

subsection \<open>Paths and names\<close>

definition has_suffix :: "string \<Rightarrow> string \<Rightarrow> bool" where
  "has_suffix v suf \<longleftrightarrow> length suf \<le> length v \<and> drop (length v - length suf) v = suf"

definition session_suffix :: string where "session_suffix = ''.session.json''"
definition result_suffix :: string where "result_suffix = ''.result.json''"
definition sequence_name :: string where "sequence_name = ''cp0-full-v1''"
definition session_schema_version :: int where "session_schema_version = 2"

definition result_path_for_session :: "string \<Rightarrow> string" where
  "result_path_for_session session_path =
     (let filename = path_filename session_path;
          base = (if has_suffix filename session_suffix
                  then take (length filename - length session_suffix) filename else filename)
      in path_join (path_parent session_path) (base @ result_suffix))"

text \<open>\<open>std::getenv\<close> of a variable that is set and not empty.\<close>

definition getenv_nonempty :: "session_env \<Rightarrow> string \<Rightarrow> string option" where
  "getenv_nonempty e name =
     (case se_getenv e name of Some v \<Rightarrow> if v = [] then None else Some v | None \<Rightarrow> None)"

definition default_session_directory :: "session_env \<Rightarrow> string" where
  "default_session_directory e =
     (case getenv_nonempty e ''FACTORY_TEST_SESSION_DIR'' of
        Some configured \<Rightarrow> configured
      | None \<Rightarrow>
        case getenv_nonempty e ''XDG_STATE_HOME'' of
          Some state_home \<Rightarrow> path_join (path_join state_home ''factory-test'') ''sessions''
        | None \<Rightarrow>
          case getenv_nonempty e ''HOME'' of
            Some user_home \<Rightarrow>
              path_join (path_join (path_join (path_join user_home ''.local'') ''state'')
                ''factory-test'') ''sessions''
          | None \<Rightarrow> path_join (path_join ''/tmp'' ''factory-test'') ''sessions'')"

definition nonempty_or :: "string \<Rightarrow> string \<Rightarrow> string" where
  "nonempty_or v fallback = (if v = [] then fallback else v)"

definition short_commit :: "string \<Rightarrow> string" where
  "short_commit v = take 8 (nonempty_or v ''UNKNOWN'')"

subsection \<open>Texts of the enumerations\<close>

fun test_result_text :: "test_result \<Rightarrow> string" where
  "test_result_text PASS = ''PASS''"
| "test_result_text FAIL = ''FAIL''"

definition test_result_from_text :: "string option \<Rightarrow> test_result" where
  "test_result_from_text v = (if v = Some ''PASS'' then PASS else FAIL)"

fun session_state_text :: "session_state \<Rightarrow> string" where
  "session_state_text IN_PROGRESS = ''in_progress''"
| "session_state_text COMPLETED = ''completed''"
| "session_state_text ABANDONED = ''abandoned''"
| "session_state_text NONE = ''none''"

definition session_state_from_text :: "string \<Rightarrow> session_state" where
  "session_state_from_text v =
     (if v = ''in_progress'' then IN_PROGRESS
      else if v = ''completed'' then COMPLETED
      else if v = ''abandoned'' then ABANDONED
      else NONE)"

subsection \<open>The persisted document\<close>

fun evidence_json :: "evidence_value \<Rightarrow> json" where
  "evidence_json (EvBoolean b) = JBool b"
| "evidence_json (EvNumber d) = JNum d"
| "evidence_json (EvString v) = JStr (c_str v)"

definition evidence_object :: "test_evidence \<Rightarrow> json" where
  "evidence_object ev = JObj (map (\<lambda>(k, v). (c_str k, evidence_json v)) ev)"

definition details_json :: "named_test_result list \<Rightarrow> json" where
  "details_json ds =
     JArr (map (\<lambda>d. JObj [(''name'', JStr (c_str (ntr_name d))),
                          (''result'', JStr (test_result_text (ntr_result d)))]) ds)"

definition jstr :: "string \<Rightarrow> json" where "jstr v = JStr (c_str v)"

definition test_json :: "test_record \<Rightarrow> json" where
  "test_json t =
     JObj ([(''id'', jstr (tr_id t)), (''name'', jstr (tr_name t)),
            (''completed'', JBool (tr_completed t)), (''attempted'', JBool (tr_attempted t)),
            (''attempt_count'', JNum (dbl_of_nat (tr_attempt_count t))),
            (''attempt_started_at'', jstr (tr_attempt_started_at t)),
            (''attempt_finished_at'', jstr (tr_attempt_finished_at t)),
            (''completed_at'', jstr (tr_completed_at t))] @
           (if tr_completed t then [(''result'', jstr (test_result_text (tr_result t)))] else []) @
           (if tr_evidence t \<noteq> [] then [(''evidence'', evidence_object (tr_evidence t))] else []) @
           (if tr_details t \<noteq> [] then [(''details'', details_json (tr_details t))] else []))"

definition session_json :: "session_manager \<Rightarrow> json" where
  "session_json s =
     JObj [(''session'', JObj [
              (''id'', jstr (sm_session_id s)),
              (''state'', jstr (session_state_text (sm_state s))),
              (''sequence'', jstr sequence_name),
              (''sequence_number'', JNum (dbl_of_nat (sm_sequence_number s))),
              (''started_at'', jstr (sm_started_at s)),
              (''updated_at'', jstr (sm_updated_at s)),
              (''completed_at'', jstr (sm_completed_at s)),
              (''current_test'', jstr (sm_current_test_id s))]),
           (''device'', JObj [
              (''sku'', jstr (md_sku (sm_metadata s))),
              (''sn'', jstr (md_serial_number (sm_metadata s))),
              (''station'', jstr (md_station (sm_metadata s))),
              (''firmware'', jstr (md_firmware (sm_metadata s))),
              (''commit'', jstr (md_commit (sm_metadata s)))]),
           (''tests'', JArr (map test_json (sm_tests s))),
           (''schema_version'', JNum (dbl_of_int session_schema_version)),
           (''result_path'', jstr (sm_result_path s))]"

text \<open>Where the construction of the tree for \<open>n\<close> tests stops, as an error message.\<close>

definition build_error :: "build_fault \<Rightarrow> nat \<Rightarrow> string option" where
  "build_error b n =
     (case b of
        BuildOk \<Rightarrow> None
      | BuildRootFails \<Rightarrow> Some ''failed to build session JSON''
      | BuildTestFails i \<Rightarrow> if i < n then Some ''failed to build session test JSON'' else None)"

text \<open>
  \<open>persist_\<close>: the document is built, printed and put in place of the session file. A
  missing time stamp is filled in first.
\<close>

definition touch_updated :: "session_env \<Rightarrow> session_manager \<Rightarrow> session_manager" where
  "touch_updated e s =
     (if sm_updated_at s = []
      then (let (now, s') = now_iso_timestamp e s in s'\<lparr>sm_updated_at := now\<rparr>) else s)"

definition persist :: "session_env \<Rightarrow> session_manager \<Rightarrow> bool \<times> session_manager" where
  "persist e s =
     (if sm_session_path s = [] then (False, set_error ''session path is empty'' s)
      else
        let s1 = touch_updated e s; k = sm_steps s1; s2 = tick s1
        in case build_error (se_build e k) (length (sm_tests s)) of
             Some err \<Rightarrow> (False, set_error err s2)
           | None \<Rightarrow>
               (let txt = print_json (se_json e) True (session_json s2) in
                if txt = [] then (False, set_error ''failed to format session JSON'' s2)
                else case write_text_file_atomic (se_io e k) (sm_session_path s2) txt (sm_files s2) of
                       (None, m) \<Rightarrow> (True, s2\<lparr>sm_files := m, sm_last_error := []\<rparr>)
                     | (Some err, m) \<Rightarrow>
                         (False, set_error (if err = [] then ''failed to format session JSON'' else err)
                                   (s2\<lparr>sm_files := m\<rparr>))))"

subsection \<open>Queries\<close>

definition active :: "session_manager \<Rightarrow> bool" where
  "active s \<longleftrightarrow> sm_state s = IN_PROGRESS"

definition recoverable :: "session_manager \<Rightarrow> bool" where
  "recoverable s \<longleftrightarrow> active s \<and> sm_session_path s \<noteq> []"

fun summarize :: "test_record list \<Rightarrow> session_summary \<Rightarrow> session_summary" where
  "summarize [] r = r"
| "summarize (t # ts) r =
     (if \<not> tr_completed t then summarize ts r
      else summarize ts
        (r\<lparr>ss_completed := ss_completed r + 1,
           ss_passed := ss_passed r + (if tr_result t = PASS then 1 else 0),
           ss_failed := ss_failed r + (if tr_result t = PASS then 0 else 1),
           ss_missing_evidence := ss_missing_evidence r + (if has_evidence t then 0 else 1)\<rparr>))"

definition summary :: "session_manager \<Rightarrow> session_summary" where
  "summary s = summarize (sm_tests s)
     \<lparr>ss_state = sm_state s, ss_total = length (sm_tests s), ss_completed = 0, ss_passed = 0,
      ss_failed = 0, ss_missing_evidence = 0\<rparr>"

definition next_incomplete_index :: "session_manager \<Rightarrow> nat" where
  "next_incomplete_index s = length (takeWhile tr_completed (sm_tests s))"

text \<open>\<open>find_test_\<close> returns a pointer into the vector: here the index of the test.\<close>

fun find_test :: "string \<Rightarrow> test_record list \<Rightarrow> nat option" where
  "find_test i [] = None"
| "find_test i (t # ts) = (if tr_id t = i then Some 0 else map_option Suc (find_test i ts))"

subsection \<open>The result documents\<close>

definition session_passed :: "session_manager \<Rightarrow> bool" where
  "session_passed s \<longleftrightarrow>
     ss_completed (summary s) = ss_total (summary s) \<and> ss_failed (summary s) = 0"

definition result_header :: "session_manager \<Rightarrow> (string \<times> json) list" where
  "result_header s =
     [(''seq'', JNum (dbl_of_nat (sm_sequence_number s))),
      (''sku'', jstr (md_sku (sm_metadata s))),
      (''sn'', jstr (md_serial_number (sm_metadata s))),
      (''station'', jstr (md_station (sm_metadata s))),
      (''status'', jstr (if session_passed s then ''PASS'' else ''FAIL'')),
      (''firmware'', jstr (md_firmware (sm_metadata s))),
      (''commit'', jstr (md_commit (sm_metadata s)))]"

definition test_result_json :: "test_record \<Rightarrow> json" where
  "test_result_json t =
     JObj ([(''result'', jstr (if tr_completed t then test_result_text (tr_result t) else ''FAIL'')),
            (''attempted'', JBool (tr_attempted t)),
            (''has_evidence'', JBool (has_evidence t))] @
           (if tr_evidence t \<noteq> [] then [(''evidence'', evidence_object (tr_evidence t))] else []) @
           (if tr_details t \<noteq> [] then [(''details'', details_json (tr_details t))] else []))"

definition result_tree :: "session_manager \<Rightarrow> json" where
  "result_tree s =
     JObj ((''test_details'', JObj [
              (''tests'', JObj (map (\<lambda>t. (c_str (tr_id t), test_result_json t)) (sm_tests s))),
              (''detail_schema'', jstr sequence_name),
              (''session_id'', jstr (sm_session_id s)),
              (''started_at'', jstr (sm_started_at s)),
              (''completed_at'', jstr (sm_completed_at s))]) # result_header s)"

definition build_result_json :: "cjson \<Rightarrow> build_fault \<Rightarrow> bool \<Rightarrow> session_manager \<Rightarrow> string" where
  "build_result_json c b formatted s =
     (if sm_session_id s = [] \<or> sm_tests s = [] then []
      else if build_error b (length (sm_tests s)) \<noteq> None then []
      else print_json c formatted (result_tree s))"

definition upload_tree :: "session_manager \<Rightarrow> json" where
  "upload_tree s =
     JObj ((''test_details'',
            JObj (map (\<lambda>t. (c_str (tr_id t), JBool (tr_completed t \<and> tr_result t = PASS)))
                   (sm_tests s))) # result_header s)"

definition build_upload_result_json ::
  "cjson \<Rightarrow> build_fault \<Rightarrow> bool \<Rightarrow> session_manager \<Rightarrow> string" where
  "build_upload_result_json c b formatted s =
     (if sm_session_id s = [] \<or> sm_tests s = [] \<or> sm_state s \<noteq> COMPLETED then []
      else if build_error b (length (sm_tests s)) \<noteq> None then []
      else print_json c formatted (upload_tree s))"

definition write_result :: "session_env \<Rightarrow> session_manager \<Rightarrow> bool \<times> session_manager" where
  "write_result e s =
     (let k = sm_steps s; s1 = tick s;
          txt = build_result_json (se_json e) (se_build e k) True s1
      in if txt = [] then (False, set_error ''failed to build protocol result JSON'' s1)
         else case write_text_file_atomic (se_io e k) (sm_result_path s1) txt (sm_files s1) of
                (None, m) \<Rightarrow> (True, s1\<lparr>sm_files := m\<rparr>)
              | (Some err, m) \<Rightarrow> (False, set_error err (s1\<lparr>sm_files := m\<rparr>)))"

subsection \<open>Operations\<close>

definition abandon :: "session_env \<Rightarrow> session_manager \<Rightarrow> bool \<times> session_manager" where
  "abandon e s =
     (if sm_state s \<noteq> IN_PROGRESS then (True, s)
      else
        let s1 = s\<lparr>sm_state := ABANDONED, sm_current_test_id := []\<rparr>;
            (now, s2) = now_iso_timestamp e s1;
            (ok, s3) = persist e (s2\<lparr>sm_updated_at := now\<rparr>)
        in if \<not> ok
           then (False, s3\<lparr>sm_state := sm_state s, sm_current_test_id := sm_current_test_id s,
                           sm_updated_at := sm_updated_at s\<rparr>)
           else (True, s3))"

fun valid_plan :: "test_definition list \<Rightarrow> string list \<Rightarrow> bool" where
  "valid_plan [] ids = True"
| "valid_plan (t # ts) ids =
     (td_id t \<noteq> [] \<and> td_name t \<noteq> [] \<and> td_id t \<notin> set ids \<and> valid_plan ts (td_id t # ids))"

definition fresh_record :: "test_definition \<Rightarrow> test_record" where
  "fresh_record t = test_record_default\<lparr>tr_id := td_id t, tr_name := td_name t\<rparr>"

definition normalize_metadata :: "session_metadata \<Rightarrow> session_metadata" where
  "normalize_metadata md =
     \<lparr>md_sku = nonempty_or (md_sku md) ''UNKNOWN'',
      md_serial_number = nonempty_or (md_serial_number md) ''UNKNOWN'',
      md_station = nonempty_or (md_station md) ''AUTO_TEST'',
      md_firmware = nonempty_or (md_firmware md) ''UNKNOWN'',
      md_commit = short_commit (md_commit md)\<rparr>"

definition open_session ::
  "session_env \<Rightarrow> test_definition list \<Rightarrow> session_metadata \<Rightarrow> session_manager \<Rightarrow> session_manager" where
  "open_session e tests md s =
     (let now = se_clock e (sm_steps s); s1 = tick s;
          sid = ''factorytest-'' @ session_timestamp now;
          path = path_join (default_session_directory e) (sid @ session_suffix)
      in s1\<lparr>sm_session_id := sid, sm_sequence_number := now mod 2 ^ 64,
            sm_started_at := iso_timestamp now, sm_updated_at := iso_timestamp now,
            sm_state := IN_PROGRESS, sm_metadata := normalize_metadata md,
            sm_session_path := path, sm_result_path := result_path_for_session path,
            sm_tests := map fresh_record tests\<rparr>)"

definition start_new ::
  "session_env \<Rightarrow> test_definition list \<Rightarrow> session_metadata \<Rightarrow> session_manager \<Rightarrow>
   bool \<times> session_manager" where
  "start_new e tests md s =
     (let s0 = s\<lparr>sm_last_error := []\<rparr> in
      if tests = [] then (False, set_error ''test plan is empty'' s0)
      else if \<not> valid_plan tests []
      then (False, set_error ''test plan contains an invalid or duplicate id'' s0)
      else case (if sm_state s0 = IN_PROGRESS then abandon e s0 else (True, s0)) of
             (False, s1) \<Rightarrow> (False, s1)
           | (True, s1) \<Rightarrow>
               (case persist e (open_session e tests md (reset s1)) of
                  (True, s2) \<Rightarrow> (True, s2)
                | (False, s2) \<Rightarrow> (False, (reset s2)\<lparr>sm_last_error := sm_last_error s2\<rparr>)))"

definition set_current_test ::
  "session_env \<Rightarrow> string \<Rightarrow> session_manager \<Rightarrow> bool \<times> session_manager" where
  "set_current_test e test_id s =
     (if \<not> active s \<or> find_test test_id (sm_tests s) = None
      then (False, set_error ''cannot select a test outside an active session'' s)
      else if sm_current_test_id s = test_id then (True, s)
      else
        let (now, s1) = now_iso_timestamp e (s\<lparr>sm_current_test_id := test_id\<rparr>);
            (ok, s2) = persist e (s1\<lparr>sm_updated_at := now\<rparr>)
        in if \<not> ok
           then (False, s2\<lparr>sm_current_test_id := sm_current_test_id s, sm_updated_at := sm_updated_at s\<rparr>)
           else (True, s2))"

definition begin_test ::
  "session_env \<Rightarrow> string \<Rightarrow> session_manager \<Rightarrow> bool \<times> session_manager" where
  "begin_test e test_id s =
     (case (if active s then find_test test_id (sm_tests s) else None) of
        None \<Rightarrow> (False, set_error ''cannot begin an unavailable test'' s)
      | Some i \<Rightarrow>
          (let t = sm_tests s ! i in
           if tr_completed t then (False, set_error ''cannot begin an unavailable test'' s)
           else
             let (now, s1) = now_iso_timestamp e s;
                 t' = t\<lparr>tr_attempted := True, tr_attempt_count := u64_add (tr_attempt_count t) 1,
                        tr_attempt_started_at := now, tr_attempt_finished_at := [],
                        tr_evidence := []\<rparr>;
                 (ok, s2) = persist e (s1\<lparr>sm_current_test_id := test_id,
                                          sm_tests := (sm_tests s)[i := t'], sm_updated_at := now\<rparr>)
             in if \<not> ok
                then (False, s2\<lparr>sm_tests := (sm_tests s2)[i := t],
                                sm_current_test_id := sm_current_test_id s,
                                sm_updated_at := sm_updated_at s\<rparr>)
                else (True, s2)))"

fun evidence_ok :: "string \<times> evidence_value \<Rightarrow> bool" where
  "evidence_ok (k, EvNumber d) = (k \<noteq> [] \<and> dbl_finite d)"
| "evidence_ok (k, _) = (k \<noteq> [])"

definition first_attempt :: "session_env \<Rightarrow> test_record \<Rightarrow> session_manager \<Rightarrow>
    test_record \<times> session_manager" where
  "first_attempt e t s =
     (if tr_attempted t then (t, s)
      else let (now, s1) = now_iso_timestamp e s
           in (t\<lparr>tr_attempted := True, tr_attempt_count := 1, tr_attempt_started_at := now\<rparr>, s1))"

definition record_evidence ::
  "session_env \<Rightarrow> string \<Rightarrow> test_evidence \<Rightarrow> session_manager \<Rightarrow> bool \<times> session_manager" where
  "record_evidence e test_id evidence s =
     (case (if active s then find_test test_id (sm_tests s) else None) of
        None \<Rightarrow> (False, set_error ''cannot record evidence for an unavailable test'' s)
      | Some i \<Rightarrow>
          (let t = sm_tests s ! i in
           if tr_completed t \<or> evidence = []
           then (False, set_error ''cannot record evidence for an unavailable test'' s)
           else if \<not> list_all evidence_ok evidence
           then (False, set_error ''test evidence contains an invalid key or number'' s)
           else
             let (t1, s1) = first_attempt e t s;
                 t2 = t1\<lparr>tr_evidence := fold (\<lambda>(k, v). smap_assign k v) evidence (tr_evidence t1)\<rparr>;
                 (now, s2) = now_iso_timestamp e s1;
                 (ok, s3) = persist e (s2\<lparr>sm_tests := (sm_tests s)[i := t2], sm_updated_at := now\<rparr>)
             in if \<not> ok
                then (False, s3\<lparr>sm_tests := (sm_tests s3)[i := t], sm_updated_at := sm_updated_at s\<rparr>)
                else (True, s3)))"

definition record_evidence_value ::
  "session_env \<Rightarrow> string \<Rightarrow> string \<Rightarrow> evidence_value \<Rightarrow> session_manager \<Rightarrow> bool \<times> session_manager" where
  "record_evidence_value e test_id key v s = record_evidence e test_id (smap_emplace key v []) s"

definition finalize :: "session_env \<Rightarrow> session_manager \<Rightarrow> bool \<times> session_manager" where
  "finalize e s =
     (if sm_state s = COMPLETED then (True, s)
      else if \<not> active s \<or> next_incomplete_index s < length (sm_tests s)
      then (False, set_error ''cannot finalize an incomplete test session'' s)
      else
        let (now, s1) = now_iso_timestamp e (s\<lparr>sm_state := COMPLETED\<rparr>);
            s2 = s1\<lparr>sm_completed_at := now, sm_updated_at := now, sm_current_test_id := []\<rparr>;
            (written, s3) = write_result e s2;
            (ok, s4) = (if written then persist e s3 else (False, s3))
        in if \<not> ok
           then (False, s4\<lparr>sm_state := sm_state s, sm_completed_at := sm_completed_at s,
                           sm_updated_at := sm_updated_at s, sm_current_test_id := sm_current_test_id s\<rparr>)
           else (True, s4))"

definition complete_test ::
  "session_env \<Rightarrow> string \<Rightarrow> test_result \<Rightarrow> named_test_result list \<Rightarrow> session_manager \<Rightarrow>
   bool \<times> session_manager" where
  "complete_test e test_id result details s =
     (case (if active s then find_test test_id (sm_tests s) else None) of
        None \<Rightarrow> (False, set_error ''cannot complete a test outside an active session'' s)
      | Some i \<Rightarrow>
          (let t = sm_tests s ! i;
               (now, s1) = now_iso_timestamp e s;
               t1 = t\<lparr>tr_completed := True, tr_result := result, tr_completed_at := now,
                      tr_details := details\<rparr>;
               t2 = (if tr_attempted t1 then t1\<lparr>tr_attempt_finished_at := now\<rparr> else t1);
               (ok, s2) = persist e (s1\<lparr>sm_tests := (sm_tests s)[i := t2], sm_updated_at := now\<rparr>)
           in if \<not> ok
              then (False, s2\<lparr>sm_tests := (sm_tests s2)[i := t], sm_updated_at := sm_updated_at s\<rparr>)
              else if length (sm_tests s2) \<le> next_incomplete_index s2 then finalize e s2
              else (True, s2)))"

subsection \<open>Reading a session file back\<close>

definition json_string :: "json \<Rightarrow> string \<Rightarrow> string option" where
  "json_string obj key = (case json_member obj key of Some (JStr v) \<Rightarrow> Some v | _ \<Rightarrow> None)"

definition json_string_or :: "json \<Rightarrow> string \<Rightarrow> string \<Rightarrow> string" where
  "json_string_or obj key fallback =
     (case json_string obj key of Some v \<Rightarrow> v | None \<Rightarrow> fallback)"

definition json_bool :: "json \<Rightarrow> string \<Rightarrow> bool" where
  "json_bool obj key = (case json_member obj key of Some (JBool b) \<Rightarrow> b | _ \<Rightarrow> False)"

definition json_size :: "json \<Rightarrow> string \<Rightarrow> nat" where
  "json_size obj key =
     (case json_member obj key of
        Some (JNum d) \<Rightarrow> if dbl_nonneg d then dbl_to_u64 d else 0
      | _ \<Rightarrow> 0)"

fun parse_evidence_items :: "(string \<times> json) list \<Rightarrow> test_evidence \<Rightarrow> test_evidence option" where
  "parse_evidence_items [] ev = Some ev"
| "parse_evidence_items ((key, child) # rest) ev =
     (if key = [] then None
      else case child of
          JBool b \<Rightarrow> parse_evidence_items rest (smap_emplace key (EvBoolean b) ev)
        | JNum d \<Rightarrow> if dbl_finite d
                   then parse_evidence_items rest (smap_emplace key (EvNumber d) ev) else None
        | JStr v \<Rightarrow> parse_evidence_items rest (smap_emplace key (EvString v) ev)
        | _ \<Rightarrow> None)"

definition parse_evidence :: "json option \<Rightarrow> test_evidence option" where
  "parse_evidence item =
     (case item of None \<Rightarrow> Some []
      | Some (JObj kvs) \<Rightarrow> parse_evidence_items kvs []
      | Some _ \<Rightarrow> None)"

fun parse_detail_items ::
  "json list \<Rightarrow> named_test_result list \<Rightarrow> named_test_result list option" where
  "parse_detail_items [] ds = Some ds"
| "parse_detail_items (child # rest) ds =
     (case (is_obj child, json_string child ''name'', json_string child ''result'') of
        (True, Some n, Some r) \<Rightarrow>
          parse_detail_items rest
            (ds @ [\<lparr>ntr_name = n, ntr_result = test_result_from_text (Some r)\<rparr>])
      | _ \<Rightarrow> None)"

definition parse_details :: "json option \<Rightarrow> named_test_result list option" where
  "parse_details item =
     (case item of None \<Rightarrow> Some []
      | Some (JArr js) \<Rightarrow> parse_detail_items js []
      | Some _ \<Rightarrow> None)"

definition parse_test :: "json \<Rightarrow> string + test_record" where
  "parse_test test =
     (if \<not> is_obj test then Inl ''session test entry is invalid''
      else case (json_string test ''id'', json_string test ''name'') of
        (Some i, Some n) \<Rightarrow>
          (case (parse_evidence (json_member test ''evidence''),
                 parse_details (json_member test ''details'')) of
             (Some ev, Some ds) \<Rightarrow>
               Inr \<lparr>tr_id = i, tr_name = n, tr_completed = json_bool test ''completed'',
                    tr_result = (if json_bool test ''completed''
                                 then test_result_from_text (json_string test ''result'') else FAIL),
                    tr_attempted = json_bool test ''attempted'',
                    tr_attempt_count = json_size test ''attempt_count'',
                    tr_attempt_started_at = json_string_or test ''attempt_started_at'' [],
                    tr_attempt_finished_at = json_string_or test ''attempt_finished_at'' [],
                    tr_completed_at = json_string_or test ''completed_at'' [],
                    tr_evidence = ev, tr_details = ds\<rparr>
           | _ \<Rightarrow> Inl ''session test evidence is invalid'')
      | _ \<Rightarrow> Inl ''session test identity is missing'')"

fun parse_tests :: "json list \<Rightarrow> test_record list \<Rightarrow> string + test_record list" where
  "parse_tests [] acc = Inr acc"
| "parse_tests (j # js) acc =
     (case parse_test j of Inl err \<Rightarrow> Inl err | Inr r \<Rightarrow> parse_tests js (acc @ [r]))"

record loaded_session =
  ls_state :: session_state
  ls_id :: string
  ls_sequence_number :: nat
  ls_started_at :: string
  ls_updated_at :: string
  ls_completed_at :: string
  ls_current_test_id :: string
  ls_result_path :: string
  ls_metadata :: session_metadata
  ls_tests :: "test_record list"

definition json_member_or_null :: "json \<Rightarrow> string \<Rightarrow> json" where
  "json_member_or_null obj key = (case json_member obj key of Some j \<Rightarrow> j | None \<Rightarrow> JNull)"

definition parse_session_document :: "cjson \<Rightarrow> string \<Rightarrow> string + loaded_session" where
  "parse_session_document c txt =
     (case cj_parse c txt of
        None \<Rightarrow> Inl ''invalid session JSON''
      | Some doc \<Rightarrow>
        if \<not> is_obj doc then Inl ''invalid session JSON''
        else case json_member doc ''schema_version'' of
          Some (JNum v) \<Rightarrow>
            if cj_valueint c v \<noteq> session_schema_version then Inl ''unsupported session schema''
            else
              let session = json_member_or_null doc ''session'';
                  device = json_member_or_null doc ''device'';
                  tests = json_member_or_null doc ''tests''
              in if \<not> is_obj session \<or> \<not> is_obj device \<or> \<not> is_arr tests
                 then Inl ''session JSON is missing required sections''
                 else case (json_string session ''id'', json_string session ''state'',
                            json_string session ''started_at'') of
                   (Some sid, Some st, Some started) \<Rightarrow>
                     (case parse_tests (items tests) [] of
                        Inl err \<Rightarrow> Inl err
                      | Inr ts \<Rightarrow> Inr
                          \<lparr>ls_state = session_state_from_text st, ls_id = sid,
                           ls_sequence_number = json_size session ''sequence_number'',
                           ls_started_at = started,
                           ls_updated_at = nonempty_or (json_string_or session ''updated_at'' []) started,
                           ls_completed_at = json_string_or session ''completed_at'' [],
                           ls_current_test_id = json_string_or session ''current_test'' [],
                           ls_result_path = json_string_or doc ''result_path'' [],
                           ls_metadata =
                             \<lparr>md_sku = json_string_or device ''sku'' ''UNKNOWN'',
                              md_serial_number = json_string_or device ''sn'' ''UNKNOWN'',
                              md_station = json_string_or device ''station'' ''AUTO_TEST'',
                              md_firmware = json_string_or device ''firmware'' ''UNKNOWN'',
                              md_commit = json_string_or device ''commit'' ''UNKNOWN''\<rparr>,
                           ls_tests = ts\<rparr>)
                 | _ \<Rightarrow> Inl ''session JSON is missing identity fields''
        | _ \<Rightarrow> Inl ''unsupported session schema'')"

text \<open>
  The scan of the session directory. An entry's \<open>is_regular_file\<close> answers with a boolean,
  or with an error (\<open>None\<close>), which it leaves in the shared \<open>ec\<close>; its
  \<open>last_write_time\<close> answers with a time or an error, which the code clears.
\<close>

record dir_entry =
  de_path :: string
  de_regular :: "bool option"
  de_mtime :: "nat option"

fun scan_sessions :: "dir_entry list \<Rightarrow> bool \<Rightarrow> (string \<times> nat) option \<Rightarrow> (string \<times> nat) option" where
  "scan_sessions [] ec best = best"
| "scan_sessions (d # ds) ec best =
     (if ec then scan_sessions ds True best
      else case de_regular d of
          None \<Rightarrow> scan_sessions ds True best
        | Some False \<Rightarrow> scan_sessions ds False best
        | Some True \<Rightarrow>
            if \<not> has_suffix (path_filename (de_path d)) session_suffix
            then scan_sessions ds False best
            else case de_mtime d of
                None \<Rightarrow> scan_sessions ds False best
              | Some t \<Rightarrow>
                  (case best of
                     None \<Rightarrow> scan_sessions ds False (Some (de_path d, t))
                   | Some (p, bt) \<Rightarrow>
                       if bt < t \<or> (t = bt \<and> path_filename p < path_filename (de_path d))
                       then scan_sessions ds False (Some (de_path d, t))
                       else scan_sessions ds False best))"

text \<open>The loaded tests take the names of the current plan when all ids agree, in order.\<close>

fun match_plan :: "test_record list \<Rightarrow> test_definition list \<Rightarrow> test_record list option" where
  "match_plan [] [] = Some []"
| "match_plan (t # ts) (d # ds) =
     (if tr_id t \<noteq> td_id d then None
      else map_option (\<lambda>rest. t\<lparr>tr_name := td_name d\<rparr> # rest) (match_plan ts ds))"
| "match_plan _ _ = None"

definition install_loaded ::
  "string \<Rightarrow> loaded_session \<Rightarrow> test_record list \<Rightarrow> session_manager \<Rightarrow> session_manager" where
  "install_loaded path l ts s =
     s\<lparr>sm_state := ls_state l, sm_session_id := ls_id l,
       sm_sequence_number := ls_sequence_number l, sm_started_at := ls_started_at l,
       sm_updated_at := ls_updated_at l, sm_completed_at := ls_completed_at l,
       sm_current_test_id := ls_current_test_id l, sm_session_path := path,
       sm_result_path := (if ls_result_path l = [] then result_path_for_session path else ls_result_path l),
       sm_metadata := ls_metadata l, sm_tests := ts\<rparr>"

text \<open>\<open>listing\<close> is the directory's entries in iteration order, \<open>None\<close> for no directory.\<close>

definition load_latest_recoverable ::
  "session_env \<Rightarrow> dir_entry list option \<Rightarrow> test_definition list \<Rightarrow> session_manager \<Rightarrow>
   bool \<times> session_manager" where
  "load_latest_recoverable e listing expected s =
     (let s0 = reset s in
      case listing of
        None \<Rightarrow> (False, s0)
      | Some entries \<Rightarrow>
          (case scan_sessions entries False None of
             None \<Rightarrow> (False, s0)
           | Some (path, _) \<Rightarrow>
               (let txt = (case sm_files s0 path of Some t \<Rightarrow> t | None \<Rightarrow> []) in
                if txt = [] then (False, s0)
                else case parse_session_document (se_json e) txt of
                    Inl _ \<Rightarrow> (False, s0)
                  | Inr l \<Rightarrow>
                      if ls_state l \<noteq> IN_PROGRESS then (False, s0)
                      else case match_plan (ls_tests l) expected of
                          None \<Rightarrow> (False, s0)
                        | Some ts \<Rightarrow> (True, install_loaded path l ts s0))))"

end
