(* ===== verification/SessionProps.thy ===== *)
theory SessionProps
  imports Session
begin

section \<open>SessionProps: what the session manager guarantees\<close>

text \<open>
  The lemmas on \<open>persist\<close> come first: what it leaves alone, what is on disk when it
  succeeds and when it fails (from the \<open>strict_writer\<close> interface). On them rest the roll-back
  of every failed operation, the invariant of all reachable managers (the session file
  always holds the document of the manager's state), the results, and the round trip
  through the file.
\<close>

named_theorems session_simps \<open>unfolding rules for the manager's operations\<close>

declare Let_def [session_simps] case_prod_unfold [session_simps]
  now_iso_timestamp_def [session_simps] set_error_def [session_simps] tick_def [session_simps]

subsection \<open>Time stamps are not empty\<close>

lemma iso_timestamp_nonempty [simp]: "iso_timestamp t \<noteq> []"
  by (simp add: iso_timestamp_def Let_def pad_text_def)

lemma nul_free_replicate_zero [simp]: "nul_free (replicate n (CHR ''0''))"
  by (auto simp: nul_free_def)

lemma nul_free_pad_text [simp]: "nul_free (pad_text w n)"
  by (simp add: pad_text_def Let_def)

lemma nul_free_iso_timestamp [simp]: "nul_free (iso_timestamp t)"
  by (simp add: iso_timestamp_def Let_def)

subsection \<open>The document and the session apart from its surroundings\<close>

definition doc_text :: "session_env \<Rightarrow> session_manager \<Rightarrow> string" where
  "doc_text e s = print_json (se_json e) True (session_json s)"

text \<open>The manager's own fields, without the last error, the files and the step counter.\<close>

definition core :: "session_manager \<Rightarrow> session_state \<times> string \<times> nat \<times> string \<times> string \<times> string \<times>
    string \<times> string \<times> string \<times> session_metadata \<times> test_record list" where
  "core s = (sm_state s, sm_session_id s, sm_sequence_number s, sm_started_at s, sm_updated_at s,
     sm_completed_at s, sm_current_test_id s, sm_session_path s, sm_result_path s, sm_metadata s,
     sm_tests s)"

lemma session_json_core: "core s = core s' \<Longrightarrow> session_json s = session_json s'"
proof -
  assume "core s = core s'"
  then have e: "sm_state s = sm_state s'" "sm_session_id s = sm_session_id s'"
    "sm_sequence_number s = sm_sequence_number s'" "sm_started_at s = sm_started_at s'"
    "sm_updated_at s = sm_updated_at s'" "sm_completed_at s = sm_completed_at s'"
    "sm_current_test_id s = sm_current_test_id s'" "sm_metadata s = sm_metadata s'"
    "sm_tests s = sm_tests s'" "sm_result_path s = sm_result_path s'"
    by (simp_all only: core_def prod.inject)
  show ?thesis unfolding session_json_def e ..
qed

lemma doc_text_core: "core s = core s' \<Longrightarrow> doc_text e s = doc_text e s'"
  using session_json_core [of s s'] by (simp add: doc_text_def)

subsection \<open>persist\<close>

lemma touch_updated_id [simp]: "sm_updated_at s \<noteq> [] \<Longrightarrow> touch_updated e s = s"
  by (simp add: touch_updated_def)

lemma persist_frame [simp]:
  assumes "sm_updated_at s \<noteq> []"
  shows "sm_state (snd (persist e s)) = sm_state s"
    and "sm_session_id (snd (persist e s)) = sm_session_id s"
    and "sm_sequence_number (snd (persist e s)) = sm_sequence_number s"
    and "sm_started_at (snd (persist e s)) = sm_started_at s"
    and "sm_updated_at (snd (persist e s)) = sm_updated_at s"
    and "sm_completed_at (snd (persist e s)) = sm_completed_at s"
    and "sm_current_test_id (snd (persist e s)) = sm_current_test_id s"
    and "sm_session_path (snd (persist e s)) = sm_session_path s"
    and "sm_result_path (snd (persist e s)) = sm_result_path s"
    and "sm_metadata (snd (persist e s)) = sm_metadata s"
    and "sm_tests (snd (persist e s)) = sm_tests s"
  using assms by (auto simp: persist_def session_simps split: option.splits)

lemma persist_core: "sm_updated_at s \<noteq> [] \<Longrightarrow> core (snd (persist e s)) = core s"
  by (simp add: core_def)

lemma session_json_tick [simp]: "session_json (tick s) = session_json s"
  by (rule session_json_core) (simp add: core_def tick_def)

text \<open>Persisting a state with a time stamp: three ways to fail before the file is written.\<close>

lemma persist_unfold:
  assumes "sm_updated_at s \<noteq> []"
  shows "persist e s =
     (if sm_session_path s = [] then (False, set_error ''session path is empty'' s)
      else case build_error (se_build e (sm_steps s)) (length (sm_tests s)) of
        Some err \<Rightarrow> (False, set_error err (tick s))
      | None \<Rightarrow>
          if doc_text e s = [] then (False, set_error ''failed to format session JSON'' (tick s))
          else case write_text_file_atomic (se_io e (sm_steps s)) (sm_session_path s) (doc_text e s)
                      (sm_files s) of
            (None, m) \<Rightarrow> (True, (tick s)\<lparr>sm_files := m, sm_last_error := []\<rparr>)
          | (Some err, m) \<Rightarrow>
              (False, set_error (if err = [] then ''failed to format session JSON'' else err)
                        ((tick s)\<lparr>sm_files := m\<rparr>)))"
  using assms
  by (cases "build_error (se_build e (sm_steps s)) (length (sm_tests s))")
    (simp_all add: persist_def Let_def doc_text_def, simp_all add: tick_def)

lemma persist_cases:
  assumes u: "sm_updated_at s \<noteq> []"
  obtains (stored) "fst (persist e s)" "doc_text e s \<noteq> []" "sm_session_path s \<noteq> []"
      "sm_files (snd (persist e s)) (sm_session_path s) = Some (doc_text e s)"
  | (failed) "\<not> fst (persist e s)"
      "sm_files (snd (persist e s)) (sm_session_path s) = sm_files s (sm_session_path s)"
proof -
  obtain r m where w: "write_text_file_atomic (se_io e (sm_steps s)) (sm_session_path s)
      (doc_text e s) (sm_files s) = (r, m)" by fastforce
  consider (early) "\<not> fst (persist e s)" "sm_files (snd (persist e s)) = sm_files s"
    | (ok) "r = None" "fst (persist e s)" "doc_text e s \<noteq> []" "sm_session_path s \<noteq> []"
        "sm_files (snd (persist e s)) = m"
    | (err) x where "r = Some x" "\<not> fst (persist e s)" "sm_files (snd (persist e s)) = m"
    using u w
    by (cases "sm_session_path s = []"; cases "doc_text e s = []"; cases r;
        cases "build_error (se_build e (sm_steps s)) (length (sm_tests s))")
      (simp_all add: persist_unfold set_error_def tick_def)
  then show thesis
  proof cases
    case early
    then show thesis by (intro failed) simp_all
  next
    case ok
    then show thesis using session_writer.put_done w by (intro stored) auto
  next
    case err
    then show thesis using session_writer.put_failed w by (intro failed) auto
  qed
qed

text \<open>Success leaves the document of the state in the session file.\<close>

lemma persist_stored:
  assumes "sm_updated_at s \<noteq> []" "fst (persist e s)"
  shows "sm_files (snd (persist e s)) (sm_session_path s) = Some (doc_text e s)"
  using assms by (auto elim: persist_cases)

lemma persist_failed:
  assumes "sm_updated_at s \<noteq> []" "\<not> fst (persist e s)"
  shows "sm_files (snd (persist e s)) (sm_session_path s) = sm_files s (sm_session_path s)"
  using assms by (auto elim: persist_cases)

lemma persist_other_files:
  assumes "sm_updated_at s \<noteq> []" "q \<noteq> sm_session_path s" "q \<noteq> sm_session_path s @ ''.tmp''"
  shows "sm_files (snd (persist e s)) q = sm_files s q"
  using assms
    session_writer.put_frame [of "se_io e (sm_steps s)" "sm_session_path s" "doc_text e s" "sm_files s" _ _ q]
  by (auto simp: persist_unfold set_error_def tick_def session_scratch_def split: option.splits prod.splits)

subsection \<open>The manager's calls\<close>

text \<open>The public operations on a session, as data, so that runs are lists. Replacing the session
  by a restored one (\<open>load_latest_recoverable\<close>) is added in SessionRuns, whose runs have both.\<close>

datatype session_call =
    CallStart "test_definition list" session_metadata
  | CallAbandon
  | CallSetCurrent string
  | CallBegin string
  | CallRecord string test_evidence
  | CallComplete string test_result "named_test_result list"
  | CallFinalize

fun call :: "session_env \<Rightarrow> session_call \<Rightarrow> session_manager \<Rightarrow> bool \<times> session_manager" where
  "call e (CallStart plan md) s = start_new e plan md s"
| "call e CallAbandon s = abandon e s"
| "call e (CallSetCurrent i) s = set_current_test e i s"
| "call e (CallBegin i) s = begin_test e i s"
| "call e (CallRecord i ev) s = record_evidence e i ev s"
| "call e (CallComplete i r ds) s = complete_test e i r ds s"
| "call e CallFinalize s = finalize e s"

fun calls :: "session_env \<Rightarrow> session_call list \<Rightarrow> session_manager \<Rightarrow> session_manager" where
  "calls e [] s = s"
| "calls e (c # cs) s = calls e cs (snd (call e c s))"

definition initial_manager :: "fs \<Rightarrow> session_manager" where
  "initial_manager files =
     \<lparr>sm_state = NONE, sm_session_id = [], sm_sequence_number = 0, sm_started_at = [],
      sm_updated_at = [], sm_completed_at = [], sm_current_test_id = [], sm_session_path = [],
      sm_result_path = [], sm_last_error = [], sm_metadata = metadata_default, sm_tests = [],
      sm_files = files, sm_steps = 0\<rparr>"

subsection \<open>Failure rolls back\<close>

lemma find_test_Some:
  "find_test i ts = Some n \<Longrightarrow> n < length ts \<and> tr_id (ts ! n) = i"
  by (induction ts arbitrary: n) (auto split: if_splits)

lemma find_test_None_iff: "find_test i ts = None \<longleftrightarrow> i \<notin> tr_id ` set ts"
  by (induction ts) auto

lemma list_update_back: "n < length ts \<Longrightarrow> (ts[n := x])[n := ts ! n] = ts"
  by simp

definition unchanged :: "session_manager \<Rightarrow> session_manager \<Rightarrow> bool" where
  "unchanged s s' \<longleftrightarrow> core s' = core s \<and> sm_files s' (sm_session_path s) = sm_files s (sm_session_path s)"

lemma unchanged_refl [simp]: "unchanged s s"
  by (simp add: unchanged_def)

lemma unchanged_set_error [simp]: "unchanged s (set_error msg s)"
  by (simp add: unchanged_def core_def set_error_def)

lemma abandon_rollback: "\<not> fst (abandon e s) \<Longrightarrow> unchanged s (snd (abandon e s))"
  using persist_failed [of "s\<lparr>sm_state := ABANDONED, sm_current_test_id := [],
      sm_steps := Suc (sm_steps s), sm_updated_at := iso_timestamp (se_clock e (sm_steps s))\<rparr>" e]
  by (auto simp: abandon_def session_simps unchanged_def core_def split: if_splits)

lemma set_current_test_rollback:
  "\<not> fst (set_current_test e i s) \<Longrightarrow> unchanged s (snd (set_current_test e i s))"
  using persist_failed [of "s\<lparr>sm_current_test_id := i,
      sm_steps := Suc (sm_steps s), sm_updated_at := iso_timestamp (se_clock e (sm_steps s))\<rparr>" e]
  by (auto simp: set_current_test_def session_simps unchanged_def core_def split: if_splits)

text \<open>The states that \<open>begin_test\<close>, \<open>record_evidence\<close> and \<open>complete_test\<close> try to persist.\<close>

definition begun :: "session_env \<Rightarrow> string \<Rightarrow> nat \<Rightarrow> session_manager \<Rightarrow> session_manager" where
  "begun e i n s =
     (let now = iso_timestamp (se_clock e (sm_steps s)) in
      (tick s)\<lparr>sm_current_test_id := i,
        sm_tests := (sm_tests s)[n := (sm_tests s ! n)\<lparr>tr_attempted := True,
          tr_attempt_count := u64_add (tr_attempt_count (sm_tests s ! n)) 1,
          tr_attempt_started_at := now, tr_attempt_finished_at := [], tr_evidence := []\<rparr>],
        sm_updated_at := now\<rparr>)"

definition recorded :: "session_env \<Rightarrow> test_evidence \<Rightarrow> nat \<Rightarrow> session_manager \<Rightarrow> session_manager" where
  "recorded e ev n s =
     (let (t1, s1) = first_attempt e (sm_tests s ! n) s in
      (tick s1)\<lparr>sm_tests := (sm_tests s)[n := t1\<lparr>tr_evidence :=
          fold (\<lambda>(k, v). smap_assign k v) ev (tr_evidence t1)\<rparr>],
        sm_updated_at := iso_timestamp (se_clock e (sm_steps s1))\<rparr>)"

definition completed_record :: "string \<Rightarrow> test_result \<Rightarrow> named_test_result list \<Rightarrow> test_record \<Rightarrow> test_record" where
  "completed_record now r ds t =
     t\<lparr>tr_completed := True, tr_result := r, tr_completed_at := now, tr_details := ds,
       tr_attempt_finished_at := (if tr_attempted t then now else tr_attempt_finished_at t)\<rparr>"

definition completing :: "session_env \<Rightarrow> test_result \<Rightarrow> named_test_result list \<Rightarrow> nat \<Rightarrow>
    session_manager \<Rightarrow> session_manager" where
  "completing e r ds n s =
     (let now = iso_timestamp (se_clock e (sm_steps s)) in
      (tick s)\<lparr>sm_tests := (sm_tests s)[n := completed_record now r ds (sm_tests s ! n)],
        sm_updated_at := now\<rparr>)"

definition available :: "session_manager \<Rightarrow> string \<Rightarrow> nat \<Rightarrow> bool" where
  "available s i n \<longleftrightarrow> active s \<and> find_test i (sm_tests s) = Some n"

lemma available_bound: "available s i n \<Longrightarrow> n < length (sm_tests s)"
  by (auto simp: available_def dest: find_test_Some)

lemma begin_test_cases:
  obtains (unavailable) "\<not> fst (begin_test e i s)" "core (snd (begin_test e i s)) = core s"
      "sm_files (snd (begin_test e i s)) = sm_files s"
  | (begun) n where "available s i n" "\<not> tr_completed (sm_tests s ! n)"
      "begin_test e i s = (let p = persist e (begun e i n s) in
         if fst p then (True, snd p)
         else (False, (snd p)\<lparr>sm_tests := (sm_tests (snd p))[n := sm_tests s ! n],
                sm_current_test_id := sm_current_test_id s, sm_updated_at := sm_updated_at s\<rparr>))"
proof (cases "\<exists>n. available s i n \<and> \<not> tr_completed (sm_tests s ! n)")
  case True
  then obtain n where a: "available s i n" "\<not> tr_completed (sm_tests s ! n)" by blast
  show thesis
    by (rule begun [OF a])
      (use a in \<open>simp add: begin_test_def available_def begun_def session_simps\<close>)
next
  case False
  then show thesis
    by (intro unavailable)
      (auto simp: begin_test_def available_def session_simps core_def split: option.splits)
qed

lemma record_evidence_cases:
  obtains (unavailable) "\<not> fst (record_evidence e i ev s)"
      "core (snd (record_evidence e i ev s)) = core s"
      "sm_files (snd (record_evidence e i ev s)) = sm_files s"
  | (recorded) n where "available s i n" "\<not> tr_completed (sm_tests s ! n)" "ev \<noteq> []"
      "list_all evidence_ok ev"
      "record_evidence e i ev s = (let p = persist e (recorded e ev n s) in
         if fst p then (True, snd p)
         else (False, (snd p)\<lparr>sm_tests := (sm_tests (snd p))[n := sm_tests s ! n],
                sm_updated_at := sm_updated_at s\<rparr>))"
proof (cases "\<exists>n. available s i n \<and> \<not> tr_completed (sm_tests s ! n) \<and> ev \<noteq> [] \<and> list_all evidence_ok ev")
  case True
  then obtain n where a: "available s i n" "\<not> tr_completed (sm_tests s ! n)" "ev \<noteq> []"
    "list_all evidence_ok ev" by blast
  show thesis
    by (rule recorded [OF a])
      (use a in \<open>simp add: record_evidence_def available_def recorded_def session_simps\<close>)
next
  case False
  then show thesis
    by (intro unavailable)
      (auto simp: record_evidence_def available_def session_simps core_def split: option.splits)
qed

lemma complete_test_completing:
  assumes "available s i n"
  shows "complete_test e i r ds s = (let p = persist e (completing e r ds n s) in
         if \<not> fst p then (False, (snd p)\<lparr>sm_tests := (sm_tests (snd p))[n := sm_tests s ! n],
                sm_updated_at := sm_updated_at s\<rparr>)
         else if length (sm_tests (snd p)) \<le> next_incomplete_index (snd p) then finalize e (snd p)
         else (True, snd p))"
  using assms
  by (simp add: complete_test_def available_def completing_def completed_record_def session_simps)

lemma complete_test_cases:
  obtains (unavailable) "\<not> fst (complete_test e i r ds s)"
      "core (snd (complete_test e i r ds s)) = core s"
      "sm_files (snd (complete_test e i r ds s)) = sm_files s"
  | (completing) n where "available s i n"
      "complete_test e i r ds s = (let p = persist e (completing e r ds n s) in
         if \<not> fst p then (False, (snd p)\<lparr>sm_tests := (sm_tests (snd p))[n := sm_tests s ! n],
                sm_updated_at := sm_updated_at s\<rparr>)
         else if length (sm_tests (snd p)) \<le> next_incomplete_index (snd p) then finalize e (snd p)
         else (True, snd p))"
proof (cases "\<exists>n. available s i n")
  case True
  then obtain n where a: "available s i n" by blast
  show thesis
    by (rule completing [OF a]) (rule complete_test_completing [OF a])
next
  case False
  then show thesis
    by (intro unavailable)
      (auto simp: complete_test_def available_def session_simps core_def split: option.splits)
qed

lemma prepared_updated [simp]:
  "sm_updated_at (begun e i n s) \<noteq> []" "sm_updated_at (recorded e ev n s) \<noteq> []"
  "sm_updated_at (completing e r ds n s) \<noteq> []"
  by (simp_all add: begun_def recorded_def completing_def session_simps)

lemma first_attempt_frame [simp]:
  "sm_state (snd (first_attempt e t s)) = sm_state s"
  "sm_session_id (snd (first_attempt e t s)) = sm_session_id s"
  "sm_sequence_number (snd (first_attempt e t s)) = sm_sequence_number s"
  "sm_started_at (snd (first_attempt e t s)) = sm_started_at s"
  "sm_completed_at (snd (first_attempt e t s)) = sm_completed_at s"
  "sm_current_test_id (snd (first_attempt e t s)) = sm_current_test_id s"
  "sm_session_path (snd (first_attempt e t s)) = sm_session_path s"
  "sm_result_path (snd (first_attempt e t s)) = sm_result_path s"
  "sm_metadata (snd (first_attempt e t s)) = sm_metadata s"
  "sm_files (snd (first_attempt e t s)) = sm_files s"
  by (simp_all add: first_attempt_def session_simps)

lemma begun_frame [simp]:
  "sm_state (begun e i n s) = sm_state s" "sm_session_id (begun e i n s) = sm_session_id s"
  "sm_sequence_number (begun e i n s) = sm_sequence_number s"
  "sm_started_at (begun e i n s) = sm_started_at s" "sm_completed_at (begun e i n s) = sm_completed_at s"
  "sm_session_path (begun e i n s) = sm_session_path s" "sm_result_path (begun e i n s) = sm_result_path s"
  "sm_metadata (begun e i n s) = sm_metadata s" "sm_files (begun e i n s) = sm_files s"
  "sm_current_test_id (begun e i n s) = i"
  by (simp_all add: begun_def session_simps)

lemma recorded_frame [simp]:
  "sm_state (recorded e ev n s) = sm_state s" "sm_session_id (recorded e ev n s) = sm_session_id s"
  "sm_sequence_number (recorded e ev n s) = sm_sequence_number s"
  "sm_started_at (recorded e ev n s) = sm_started_at s"
  "sm_completed_at (recorded e ev n s) = sm_completed_at s"
  "sm_session_path (recorded e ev n s) = sm_session_path s"
  "sm_result_path (recorded e ev n s) = sm_result_path s"
  "sm_metadata (recorded e ev n s) = sm_metadata s" "sm_files (recorded e ev n s) = sm_files s"
  "sm_current_test_id (recorded e ev n s) = sm_current_test_id s"
  by (simp_all add: recorded_def session_simps)

lemma completing_frame [simp]:
  "sm_state (completing e r ds n s) = sm_state s"
  "sm_session_id (completing e r ds n s) = sm_session_id s"
  "sm_sequence_number (completing e r ds n s) = sm_sequence_number s"
  "sm_started_at (completing e r ds n s) = sm_started_at s"
  "sm_completed_at (completing e r ds n s) = sm_completed_at s"
  "sm_session_path (completing e r ds n s) = sm_session_path s"
  "sm_result_path (completing e r ds n s) = sm_result_path s"
  "sm_metadata (completing e r ds n s) = sm_metadata s" "sm_files (completing e r ds n s) = sm_files s"
  "sm_current_test_id (completing e r ds n s) = sm_current_test_id s"
  by (simp_all add: completing_def session_simps)

text \<open>Each changes one test only, and not its id.\<close>

lemma prepared_test_back:
  "(sm_tests (begun e i n s))[n := sm_tests s ! n] = sm_tests s"
  "(sm_tests (recorded e ev n s))[n := sm_tests s ! n] = sm_tests s"
  "(sm_tests (completing e r ds n s))[n := sm_tests s ! n] = sm_tests s"
  by (simp_all add: begun_def recorded_def completing_def session_simps)

lemma begin_test_rollback: "\<not> fst (begin_test e i s) \<Longrightarrow> unchanged s (snd (begin_test e i s))"
proof (cases rule: begin_test_cases [of e i s])
  case (begun n)
  assume "\<not> fst (begin_test e i s)"
  with begun(3) persist_failed [of "begun e i n s" e] show ?thesis
    by (auto simp: unchanged_def core_def Let_def prepared_test_back split: if_splits)
qed (simp add: unchanged_def)

lemma record_evidence_rollback:
  "\<not> fst (record_evidence e i ev s) \<Longrightarrow> unchanged s (snd (record_evidence e i ev s))"
proof (cases rule: record_evidence_cases [of e i ev s])
  case (recorded n)
  assume "\<not> fst (record_evidence e i ev s)"
  with recorded(5) persist_failed [of "recorded e ev n s" e] show ?thesis
    by (auto simp: unchanged_def core_def Let_def prepared_test_back split: if_splits)
qed (simp add: unchanged_def)

subsection \<open>write_result and finalize\<close>

lemma write_result_frame [simp]:
  "sm_state (snd (write_result e s)) = sm_state s"
  "sm_session_id (snd (write_result e s)) = sm_session_id s"
  "sm_sequence_number (snd (write_result e s)) = sm_sequence_number s"
  "sm_started_at (snd (write_result e s)) = sm_started_at s"
  "sm_updated_at (snd (write_result e s)) = sm_updated_at s"
  "sm_completed_at (snd (write_result e s)) = sm_completed_at s"
  "sm_current_test_id (snd (write_result e s)) = sm_current_test_id s"
  "sm_session_path (snd (write_result e s)) = sm_session_path s"
  "sm_result_path (snd (write_result e s)) = sm_result_path s"
  "sm_metadata (snd (write_result e s)) = sm_metadata s"
  "sm_tests (snd (write_result e s)) = sm_tests s"
  by (simp_all add: write_result_def session_simps split: option.split)

lemma write_result_files:
  assumes "q \<noteq> sm_result_path s" "q \<noteq> sm_result_path s @ ''.tmp''"
  shows "sm_files (snd (write_result e s)) q = sm_files s q"
  using assms session_writer.put_frame [of "se_io e (sm_steps s)" "sm_result_path s" _ "sm_files s" _ _ q]
  by (auto simp: write_result_def session_simps session_scratch_def split: option.split prod.splits)
    (metis prod.collapse)+

definition paths_ok :: "session_manager \<Rightarrow> bool" where
  "paths_ok s \<longleftrightarrow> sm_result_path s \<noteq> [] \<and> sm_session_path s \<noteq> sm_result_path s \<and>
     sm_session_path s \<noteq> sm_result_path s @ ''.tmp'' \<and>
     sm_result_path s \<noteq> sm_session_path s @ ''.tmp''"

definition closing :: "session_env \<Rightarrow> session_manager \<Rightarrow> session_manager" where
  "closing e s =
     (let now = iso_timestamp (se_clock e (sm_steps s)) in
      (tick s)\<lparr>sm_state := COMPLETED, sm_completed_at := now, sm_updated_at := now,
        sm_current_test_id := []\<rparr>)"

lemma closing_frame [simp]:
  "sm_state (closing e s) = COMPLETED" "sm_session_id (closing e s) = sm_session_id s"
  "sm_sequence_number (closing e s) = sm_sequence_number s"
  "sm_started_at (closing e s) = sm_started_at s" "sm_current_test_id (closing e s) = []"
  "sm_session_path (closing e s) = sm_session_path s" "sm_result_path (closing e s) = sm_result_path s"
  "sm_metadata (closing e s) = sm_metadata s" "sm_tests (closing e s) = sm_tests s"
  "sm_files (closing e s) = sm_files s" "sm_updated_at (closing e s) \<noteq> []"
  by (simp_all add: closing_def session_simps)

lemma finalize_closing:
  assumes "active s" "length (sm_tests s) \<le> next_incomplete_index s"
  shows "finalize e s = (let w = write_result e (closing e s);
           p = (if fst w then persist e (snd w) else (False, snd w)) in
         if fst p then (True, snd p)
         else (False, (snd p)\<lparr>sm_state := sm_state s, sm_completed_at := sm_completed_at s,
                 sm_updated_at := sm_updated_at s, sm_current_test_id := sm_current_test_id s\<rparr>))"
proof -
  have "(tick (s\<lparr>sm_state := COMPLETED\<rparr>))\<lparr>sm_completed_at := t, sm_updated_at := t, sm_current_test_id := []\<rparr>
      = (tick s)\<lparr>sm_state := COMPLETED, sm_completed_at := t, sm_updated_at := t, sm_current_test_id := []\<rparr>"
    for t by (simp add: tick_def)
  with assms show ?thesis
    by (simp add: finalize_def active_def Let_def case_prod_unfold now_iso_timestamp_def closing_def)
qed

lemma finalize_cases:
  obtains (already) "sm_state s = COMPLETED" "finalize e s = (True, s)"
  | (refused) "\<not> fst (finalize e s)" "core (snd (finalize e s)) = core s"
      "sm_files (snd (finalize e s)) = sm_files s"
  | (closing) "active s" "length (sm_tests s) \<le> next_incomplete_index s"
      "finalize e s = (let w = write_result e (closing e s);
           p = (if fst w then persist e (snd w) else (False, snd w)) in
         if fst p then (True, snd p)
         else (False, (snd p)\<lparr>sm_state := sm_state s, sm_completed_at := sm_completed_at s,
                 sm_updated_at := sm_updated_at s, sm_current_test_id := sm_current_test_id s\<rparr>))"
proof -
  consider "sm_state s = COMPLETED" | "active s" "length (sm_tests s) \<le> next_incomplete_index s"
    | "sm_state s \<noteq> COMPLETED" "\<not> active s \<or> next_incomplete_index s < length (sm_tests s)"
    by (meson linorder_not_le)
  then show thesis
  proof cases
    case 1
    then show thesis by (intro already) (simp_all add: finalize_def)
  next
    case 2
    then show thesis by (intro closing finalize_closing)
  next
    case 3
    then show thesis by (intro refused) (auto simp: finalize_def set_error_def core_def)
  qed
qed

lemma finalize_rollback:
  assumes "paths_ok s" "\<not> fst (finalize e s)"
  shows "unchanged s (snd (finalize e s))"
proof (cases rule: finalize_cases [of s e])
  case closing
  let ?w = "write_result e (closing e s)"
  have f: "sm_files (snd ?w) (sm_session_path s) = sm_files s (sm_session_path s)"
    using assms(1) write_result_files [of "sm_session_path s" "closing e s" e]
    by (auto simp: paths_ok_def)
  from closing(3) assms(2) f persist_failed [of "snd ?w" e] show ?thesis
    by (auto simp: unchanged_def core_def Let_def split: if_splits)
qed (use assms in \<open>auto simp: unchanged_def\<close>)

subsection \<open>The invariant of the reachable managers\<close>

definition record_inv :: "test_record \<Rightarrow> bool" where
  "record_inv t \<longleftrightarrow> smap_valid (tr_evidence t) \<and> list_all evidence_ok (tr_evidence t) \<and>
     (tr_evidence t \<noteq> [] \<longrightarrow> tr_attempted t) \<and> (\<not> tr_completed t \<longrightarrow> tr_result t = FAIL)"

definition test_ids :: "session_manager \<Rightarrow> string list" where
  "test_ids s = map tr_id (sm_tests s)"

definition shape_inv :: "session_manager \<Rightarrow> bool" where
  "shape_inv s \<longleftrightarrow>
     (sm_state s = NONE \<longrightarrow> sm_tests s = []) \<and>
     (sm_state s \<noteq> NONE \<longrightarrow>
        sm_session_path s \<noteq> [] \<and> paths_ok s \<and> sm_session_id s \<noteq> [] \<and> sm_updated_at s \<noteq> [] \<and>
        sm_tests s \<noteq> [] \<and> distinct (test_ids s) \<and> [] \<notin> set (test_ids s)) \<and>
     (sm_state s = COMPLETED \<longrightarrow> list_all tr_completed (sm_tests s)) \<and>
     (sm_current_test_id s \<noteq> [] \<longrightarrow>
        sm_state s = IN_PROGRESS \<and> sm_current_test_id s \<in> set (test_ids s)) \<and>
     list_all record_inv (sm_tests s)"

definition durable :: "session_env \<Rightarrow> session_manager \<Rightarrow> bool" where
  "durable e s \<longleftrightarrow> (sm_state s \<noteq> NONE \<longrightarrow>
     doc_text e s \<noteq> [] \<and> sm_files s (sm_session_path s) = Some (doc_text e s))"

definition session_inv :: "session_env \<Rightarrow> session_manager \<Rightarrow> bool" where
  "session_inv e s \<longleftrightarrow> shape_inv s \<and> durable e s"

lemma shape_inv_core: "core s' = core s \<Longrightarrow> shape_inv s \<Longrightarrow> shape_inv s'"
  by (simp add: core_def shape_inv_def paths_ok_def test_ids_def)

lemma unchanged_inv:
  assumes "unchanged s s'" "session_inv e s"
  shows "session_inv e s'"
proof -
  have c: "core s' = core s" and f: "sm_files s' (sm_session_path s) = sm_files s (sm_session_path s)"
    using assms(1) by (auto simp: unchanged_def)
  have "sm_session_path s' = sm_session_path s" "sm_state s' = sm_state s"
    using c by (simp_all add: core_def)
  then show ?thesis
    using assms(2) shape_inv_core [OF c] doc_text_core [OF c] f
    by (simp add: session_inv_def durable_def)
qed

text \<open>A persisted state of the right shape satisfies the invariant.\<close>

lemma commit_inv:
  assumes "shape_inv x" "sm_updated_at x \<noteq> []" "fst (persist e x)"
  shows "session_inv e (snd (persist e x))"
proof -
  have c: "core (snd (persist e x)) = core x" using assms(2) by (rule persist_core)
  have "doc_text e x \<noteq> []" using assms(2,3) by (auto elim: persist_cases)
  then show ?thesis
    using shape_inv_core [OF c assms(1)] doc_text_core [OF c] persist_stored [OF assms(2,3)] assms(2)
    by (simp add: session_inv_def durable_def)
qed

lemma record_inv_begun [simp]:
  "record_inv t \<Longrightarrow> record_inv (t\<lparr>tr_attempted := True, tr_attempt_count := n, tr_attempt_started_at := x,
     tr_attempt_finished_at := y, tr_evidence := []\<rparr>)"
  by (simp add: record_inv_def smap_valid_def)

lemma record_inv_completed [simp]: "record_inv t \<Longrightarrow> record_inv (completed_record now r ds t)"
  by (simp add: completed_record_def record_inv_def)

lemma evidence_ok_value: "evidence_ok (k, v) \<longleftrightarrow> k \<noteq> [] \<and> (\<forall>d. v = EvNumber d \<longrightarrow> dbl_finite d)"
  by (cases v) auto

lemma evidence_ok_fold_assign:
  assumes "list_all evidence_ok ev" "list_all evidence_ok old"
  shows "list_all evidence_ok (fold (\<lambda>(k, v). smap_assign k v) ev old)"
proof -
  have step: "list_all evidence_ok (smap_assign k v m)"
    if "evidence_ok (k, v)" "list_all evidence_ok m" for k v m
    using that by (induction k v m rule: smap_assign.induct) auto
  show ?thesis
    using assms by (induction ev arbitrary: old) (auto simp: step)
qed

lemma record_inv_recorded:
  assumes "record_inv t" "list_all evidence_ok ev" "tr_attempted t'" "tr_evidence t' = tr_evidence t"
    "tr_completed t' = tr_completed t" "tr_result t' = tr_result t"
  shows "record_inv (t'\<lparr>tr_evidence := fold (\<lambda>(k, v). smap_assign k v) ev (tr_evidence t')\<rparr>)"
  using assms smap.valid_fold_assign evidence_ok_fold_assign by (auto simp: record_inv_def)

lemma list_all_update: "list_all P xs \<Longrightarrow> P x \<Longrightarrow> list_all P (xs[n := x])"
  using set_update_subset_insert [of xs n x] by (auto simp: list_all_iff)

lemma ids_update:
  "n < length ts \<Longrightarrow> tr_id t = tr_id (ts ! n) \<Longrightarrow> map tr_id (ts[n := t]) = map tr_id ts"
  by (simp add: map_update) (metis length_map list_update_id nth_map)

lemma first_attempt_record [simp]:
  "tr_id (fst (first_attempt e t s)) = tr_id t" "tr_attempted (fst (first_attempt e t s))"
  "tr_evidence (fst (first_attempt e t s)) = tr_evidence t"
  "tr_completed (fst (first_attempt e t s)) = tr_completed t"
  "tr_result (fst (first_attempt e t s)) = tr_result t"
  by (simp_all add: first_attempt_def session_simps)

lemma prepared_ids:
  assumes "available s i n"
  shows "test_ids (begun e i n s) = test_ids s" "test_ids (recorded e ev n s) = test_ids s"
    "test_ids (completing e r ds n s) = test_ids s"
  using available_bound [OF assms]
  by (simp_all add: test_ids_def begun_def recorded_def completing_def completed_record_def
      ids_update session_simps)

lemma prepared_tests_nonempty:
  "(sm_tests (begun e i n s) = []) = (sm_tests s = [])"
  "(sm_tests (recorded e ev n s) = []) = (sm_tests s = [])"
  "(sm_tests (completing e r ds n s) = []) = (sm_tests s = [])"
  by (simp_all add: begun_def recorded_def completing_def session_simps)

lemma available_facts:
  assumes "available s i n" "shape_inv s"
  shows "sm_state s = IN_PROGRESS" "i \<in> set (test_ids s)" "record_inv (sm_tests s ! n)"
proof -
  have n: "n < length (sm_tests s)" and i: "tr_id (sm_tests s ! n) = i"
    using assms(1) by (auto simp: available_def dest: find_test_Some)
  show "sm_state s = IN_PROGRESS" using assms(1) by (simp add: available_def active_def)
  show "i \<in> set (test_ids s)" using n i by (auto simp: test_ids_def)
  show "record_inv (sm_tests s ! n)" using assms(2) n by (auto simp: shape_inv_def list_all_length)
qed

lemma prepared_records:
  assumes "list_all record_inv (sm_tests s)" "record_inv (sm_tests s ! n)"
  shows "list_all record_inv (sm_tests (begun e i n s))"
    and "list_all evidence_ok ev \<Longrightarrow> list_all record_inv (sm_tests (recorded e ev n s))"
    and "list_all record_inv (sm_tests (completing e r ds n s))"
proof -
  show "list_all record_inv (sm_tests (begun e i n s))"
    using assms by (simp add: begun_def session_simps list_all_update)
  show "list_all record_inv (sm_tests (completing e r ds n s))"
    using assms by (simp add: completing_def session_simps list_all_update)
  show "list_all record_inv (sm_tests (recorded e ev n s))" if "list_all evidence_ok ev"
    using assms record_inv_recorded [OF assms(2) that, of "fst (first_attempt e (sm_tests s ! n) s)"]
    by (simp add: recorded_def session_simps list_all_update)
qed

lemma prepared_shape:
  assumes a: "available s i n" and s: "shape_inv s"
  shows "shape_inv (begun e i n s)"
    and "list_all evidence_ok ev \<Longrightarrow> shape_inv (recorded e ev n s)"
    and "shape_inv (completing e r ds n s)"
proof -
  note f = available_facts [OF a s]
  have b: "sm_session_path s \<noteq> []" "paths_ok s" "sm_session_id s \<noteq> []" "sm_tests s \<noteq> []"
    "distinct (test_ids s)" "[] \<notin> set (test_ids s)" "list_all record_inv (sm_tests s)"
    "sm_current_test_id s \<noteq> [] \<longrightarrow> sm_current_test_id s \<in> set (test_ids s)"
    using s f(1) by (auto simp: shape_inv_def)
  note recs = prepared_records [OF b(7) f(3)]
  show "shape_inv (begun e i n s)"
    using b f recs(1) prepared_ids [OF a] by (simp add: shape_inv_def paths_ok_def prepared_tests_nonempty)
  show "shape_inv (completing e r ds n s)"
    using b f recs(3) prepared_ids [OF a] by (simp add: shape_inv_def paths_ok_def prepared_tests_nonempty)
  show "shape_inv (recorded e ev n s)" if "list_all evidence_ok ev"
    using b f recs(2) [OF that] prepared_ids [OF a]
    by (simp add: shape_inv_def paths_ok_def prepared_tests_nonempty)
qed

lemma shape_paths: "shape_inv s \<Longrightarrow> sm_state s \<noteq> NONE \<Longrightarrow> paths_ok s"
  by (simp add: shape_inv_def)

lemma abandon_inv:
  assumes inv: "session_inv e s"
  shows "session_inv e (snd (abandon e s))"
proof (cases "sm_state s = IN_PROGRESS \<and> fst (abandon e s)")
  case True
  let ?x = "(tick (s\<lparr>sm_state := ABANDONED, sm_current_test_id := []\<rparr>))
      \<lparr>sm_updated_at := iso_timestamp (se_clock e (sm_steps s))\<rparr>"
  have eq: "fst (persist e ?x)" "snd (abandon e s) = snd (persist e ?x)"
    using True by (auto simp: abandon_def session_simps split: if_splits)
  have "shape_inv ?x"
    using inv True by (auto simp: session_inv_def shape_inv_def paths_ok_def test_ids_def tick_def)
  then show ?thesis using eq commit_inv [of ?x e] by simp
next
  case False
  then show ?thesis
    using inv abandon_rollback [of e s] unchanged_inv
    by (cases "sm_state s = IN_PROGRESS") (auto simp: abandon_def)
qed

lemma set_current_test_inv:
  assumes inv: "session_inv e s"
  shows "session_inv e (snd (set_current_test e i s))"
proof (cases "fst (set_current_test e i s) \<and> sm_current_test_id s \<noteq> i")
  case True
  let ?x = "(tick (s\<lparr>sm_current_test_id := i\<rparr>))\<lparr>sm_updated_at := iso_timestamp (se_clock e (sm_steps s))\<rparr>"
  have eq: "fst (persist e ?x)" "snd (set_current_test e i s) = snd (persist e ?x)"
    and "active s" "find_test i (sm_tests s) \<noteq> None"
    using True by (auto simp: set_current_test_def session_simps split: if_splits)
  then have "shape_inv ?x"
    using inv by (auto simp: session_inv_def shape_inv_def paths_ok_def test_ids_def tick_def active_def
        find_test_None_iff)
  then show ?thesis using eq commit_inv [of ?x e] by simp
next
  case False
  then show ?thesis
    using inv set_current_test_rollback [of e i s] unchanged_inv
    by (cases "fst (set_current_test e i s)") (auto simp: set_current_test_def session_simps split: if_splits)
qed

lemma begin_test_inv:
  assumes inv: "session_inv e s"
  shows "session_inv e (snd (begin_test e i s))"
proof (cases "fst (begin_test e i s)")
  case True
  show ?thesis
  proof (cases rule: begin_test_cases [of e i s])
    case (begun n)
    have "shape_inv (begun e i n s)"
      using inv begun(1) by (simp add: session_inv_def prepared_shape)
    moreover have "fst (persist e (begun e i n s))" "snd (begin_test e i s) = snd (persist e (begun e i n s))"
      using begun(3) True by (auto simp: Let_def split: if_splits)
    ultimately show ?thesis using commit_inv [of "begun e i n s" e] by simp
  qed (use True in simp)
qed (use inv begin_test_rollback unchanged_inv in blast)

lemma record_evidence_inv:
  assumes inv: "session_inv e s"
  shows "session_inv e (snd (record_evidence e i ev s))"
proof (cases "fst (record_evidence e i ev s)")
  case True
  show ?thesis
  proof (cases rule: record_evidence_cases [of e i ev s])
    case (recorded n)
    let ?x = "recorded e ev n s"
    have "shape_inv ?x"
      using inv recorded(1,4) by (simp add: session_inv_def prepared_shape)
    moreover have "fst (persist e ?x)" "snd (record_evidence e i ev s) = snd (persist e ?x)"
      using recorded(5) True by (auto simp: Let_def split: if_splits)
    ultimately show ?thesis using commit_inv [of ?x e] by simp
  qed (use True in simp)
qed (use inv record_evidence_rollback unchanged_inv in blast)

lemma next_incomplete_all:
  "length (sm_tests s) \<le> next_incomplete_index s \<longleftrightarrow> list_all tr_completed (sm_tests s)"
proof
  assume "length (sm_tests s) \<le> next_incomplete_index s"
  then have "length (takeWhile tr_completed (sm_tests s)) = length (sm_tests s)"
    using length_takeWhile_le [of tr_completed "sm_tests s"] by (simp add: next_incomplete_index_def)
  then have "takeWhile tr_completed (sm_tests s) = sm_tests s"
    by (metis append_eq_conv_conj append_self_conv length_takeWhile_le take_all_iff takeWhile_eq_take)
  then show "list_all tr_completed (sm_tests s)"
    by (metis list_all_iff set_takeWhileD)
next
  assume "list_all tr_completed (sm_tests s)"
  then have "takeWhile tr_completed (sm_tests s) = sm_tests s"
    by (simp add: list_all_iff takeWhile_eq_all_conv)
  then show "length (sm_tests s) \<le> next_incomplete_index s"
    by (simp only: next_incomplete_index_def)
qed

lemma finalize_inv:
  assumes inv: "session_inv e s"
  shows "session_inv e (snd (finalize e s))"
proof (cases rule: finalize_cases [of s e])
  case closing
  let ?w = "write_result e (closing e s)"
  have sh: "shape_inv s" and st: "sm_state s = IN_PROGRESS"
    using inv closing(1) by (auto simp: session_inv_def active_def)
  show ?thesis
  proof (cases "fst (finalize e s)")
    case True
    have "shape_inv (snd ?w)"
      using sh st closing(2) by (auto simp: shape_inv_def paths_ok_def test_ids_def next_incomplete_all)
    moreover have "fst (persist e (snd ?w))" "snd (finalize e s) = snd (persist e (snd ?w))"
      using closing(3) True by (auto simp: Let_def split: if_splits)
    ultimately show ?thesis using commit_inv [of "snd ?w" e] by simp
  next
    case False
    then show ?thesis
      using inv finalize_rollback [of s e] shape_paths [OF sh] st unchanged_inv by auto
  qed
next
  case refused
  then show ?thesis using inv unchanged_inv [of s] by (simp add: unchanged_def)
qed (use inv in simp)

lemma complete_test_inv:
  assumes inv: "session_inv e s"
  shows "session_inv e (snd (complete_test e i r ds s))"
proof (cases rule: complete_test_cases [of e i r ds s])
  case unavailable
  then show ?thesis using inv unchanged_inv [of s] by (simp add: unchanged_def)
next
  case (completing n)
  let ?p = "persist e (completing e r ds n s)"
  show ?thesis
  proof (cases "fst ?p")
    case True
    have "session_inv e (snd ?p)"
      using True inv completing(1) by (intro commit_inv) (simp_all add: session_inv_def prepared_shape)
    then show ?thesis
      using completing(2) True finalize_inv by (auto simp: Let_def)
  next
    case False
    with completing(2) persist_failed [of "completing e r ds n s" e]
    have "unchanged s (snd (complete_test e i r ds s))"
      by (auto simp: unchanged_def core_def Let_def prepared_test_back)
    then show ?thesis using inv unchanged_inv by blast
  qed
qed

subsection \<open>Starting a session\<close>

lemma path_join_ends: "q \<noteq> [] \<Longrightarrow> \<exists>a. path_join p (q @ r) = a @ r"
  by (auto simp: path_join_def)

lemma path_join_ends_plain: "\<exists>a. path_join p (q @ r) = a @ r"
  by (auto simp: path_join_def)

lemma result_path_ends: "\<exists>b. result_path_for_session p = b @ result_suffix"
  unfolding result_path_for_session_def Let_def by (rule path_join_ends_plain)

text \<open>Different endings make the session file, the result file and their temporaries differ.\<close>

lemma suffix_paths_distinct:
  assumes "p = a @ session_suffix" "q = b @ result_suffix"
  shows "p \<noteq> q" "p \<noteq> q @ ''.tmp''" "q \<noteq> p @ ''.tmp''"
proof -
  have "rev p \<noteq> rev q" "rev p \<noteq> rev (q @ ''.tmp'')" "rev q \<noteq> rev (p @ ''.tmp'')"
    by (simp_all add: assms session_suffix_def result_suffix_def)
  then show "p \<noteq> q" "p \<noteq> q @ ''.tmp''" "q \<noteq> p @ ''.tmp''" by auto
qed

lemma open_session_path_ends: "\<exists>a. sm_session_path (open_session e plan md s) = a @ session_suffix"
  using path_join_ends_plain [of "default_session_directory e"
      "''factorytest-'' @ session_timestamp (se_clock e (sm_steps s))" session_suffix]
  by (simp add: open_session_def Let_def)

lemma open_session_paths: "paths_ok (open_session e plan md s)"
proof -
  obtain a where a: "sm_session_path (open_session e plan md s) = a @ session_suffix"
    using open_session_path_ends by blast
  obtain b where b: "sm_result_path (open_session e plan md s) = b @ result_suffix"
    using result_path_ends by (fastforce simp: open_session_def Let_def)
  show ?thesis
    using suffix_paths_distinct [OF a b] b by (auto simp: paths_ok_def result_suffix_def)
qed

lemma valid_plan_ids:
  "valid_plan plan ids \<Longrightarrow>
     distinct (map td_id plan) \<and> [] \<notin> td_id ` set plan \<and> td_id ` set plan \<inter> set ids = {}"
  by (induction plan arbitrary: ids) (auto, fastforce+)

lemma open_session_frame [simp]:
  "sm_state (open_session e plan md s) = IN_PROGRESS" "sm_session_id (open_session e plan md s) \<noteq> []"
  "sm_updated_at (open_session e plan md s) \<noteq> []"
  "sm_current_test_id (open_session e plan md s) = sm_current_test_id s"
  "sm_tests (open_session e plan md s) = map fresh_record plan"
  "sm_metadata (open_session e plan md s) = normalize_metadata md"
  "sm_completed_at (open_session e plan md s) = sm_completed_at s"
  by (simp_all add: open_session_def Let_def tick_def)

lemma open_session_shape:
  assumes "plan \<noteq> []" "valid_plan plan []"
  shows "shape_inv (open_session e plan md (reset s))"
proof -
  have path: "sm_session_path (open_session e plan md (reset s)) \<noteq> []"
    using open_session_path_ends [of e plan md "reset s"] by (auto simp: session_suffix_def)
  have ids: "test_ids (open_session e plan md (reset s)) = map td_id plan"
    by (simp add: test_ids_def fresh_record_def test_record_default_def)
  have recs: "list_all record_inv (map fresh_record plan)"
    by (simp add: list_all_iff fresh_record_def test_record_default_def record_inv_def smap_valid_def)
  show ?thesis
    using path recs open_session_paths [of e plan md "reset s"] assms valid_plan_ids [OF assms(2)]
    by (auto simp: shape_inv_def ids) (simp_all add: reset_def)
qed

lemma reset_inv: "session_inv e ((reset s)\<lparr>sm_last_error := x\<rparr>)"
  by (simp add: session_inv_def shape_inv_def durable_def reset_def)

lemma start_new_inv:
  assumes inv: "session_inv e s"
  shows "session_inv e (snd (start_new e plan md s))"
proof -
  let ?s0 = "s\<lparr>sm_last_error := []\<rparr>"
  have s0: "session_inv e ?s0" "session_inv e (set_error m ?s0)" for m
    using inv unchanged_inv [of s] by (simp_all add: unchanged_def core_def set_error_def)
  let ?a = "if sm_state s = IN_PROGRESS then abandon e ?s0 else (True, ?s0)"
  let ?x = "open_session e plan md (reset (snd ?a))"
  have a: "session_inv e (snd ?a)" using s0(1) abandon_inv by simp
  show ?thesis
  proof (cases "plan \<noteq> [] \<and> valid_plan plan [] \<and> fst ?a")
    case True
    have sh: "shape_inv ?x" using True by (simp add: open_session_shape)
    have u: "sm_updated_at ?x \<noteq> []" by (simp add: open_session_def Let_def)
    have r: "start_new e plan md s = (if fst (persist e ?x) then (True, snd (persist e ?x))
        else (False, (reset (snd (persist e ?x)))\<lparr>sm_last_error := sm_last_error (snd (persist e ?x))\<rparr>))"
      using True by (cases "persist e ?x"; cases ?a)
        (auto simp: start_new_def Let_def split: if_splits bool.splits)
    show ?thesis
    proof (cases "fst (persist e ?x)")
      case True
      then show ?thesis using commit_inv [OF sh u True] r by simp
    next
      case False
      then show ?thesis using r reset_inv by simp
    qed
  next
    case False
    then show ?thesis
      using s0 a by (cases ?a) (auto simp: start_new_def Let_def split: if_splits bool.splits)
  qed
qed

lemma call_inv: "session_inv e s \<Longrightarrow> session_inv e (snd (call e c s))"
  by (cases c)
    (simp_all add: start_new_inv abandon_inv set_current_test_inv begin_test_inv record_evidence_inv
      complete_test_inv finalize_inv)

lemma calls_inv: "session_inv e s \<Longrightarrow> session_inv e (calls e cs s)"
  by (induction cs arbitrary: s) (simp_all add: call_inv)

lemma initial_inv: "session_inv e (initial_manager files)"
  by (simp add: session_inv_def shape_inv_def durable_def initial_manager_def)

text \<open>The consequences of reachability that the properties use.\<close>

lemma reachable_inv: "session_inv e (calls e cs (initial_manager files))"
  by (rule calls_inv) (rule initial_inv)

end
