(* ===== verification/SessionFile.thy ===== *)
theory SessionFile
  imports SessionProps
begin

section \<open>SessionFile: the document survives the way through the file\<close>

text \<open>
  Parsing what \<open>persist\<close> wrote gives the session back, field by field, for a cJSON that
  behaves as documented and for texts without NUL bytes; with it, a restarted manager that
  finds the file as the latest one resumes the same session.
\<close>

subsection \<open>Sessions whose texts and numbers the file format keeps\<close>

fun evidence_plain :: "cjson \<Rightarrow> string \<times> evidence_value \<Rightarrow> bool" where
  "evidence_plain c (k, EvBoolean b) = nul_free k"
| "evidence_plain c (k, EvNumber d) = (nul_free k \<and> cj_keeps c d)"
| "evidence_plain c (k, EvString v) = (nul_free k \<and> nul_free v)"

definition record_plain :: "cjson \<Rightarrow> test_record \<Rightarrow> bool" where
  "record_plain c t \<longleftrightarrow>
     nul_free (tr_id t) \<and> nul_free (tr_name t) \<and> nul_free (tr_attempt_started_at t) \<and>
     nul_free (tr_attempt_finished_at t) \<and> nul_free (tr_completed_at t) \<and>
     tr_attempt_count t < 10 ^ 15 \<and> list_all (evidence_plain c) (tr_evidence t) \<and>
     list_all (\<lambda>d. nul_free (ntr_name d)) (tr_details t)"

definition metadata_plain :: "session_metadata \<Rightarrow> bool" where
  "metadata_plain md \<longleftrightarrow> nul_free (md_sku md) \<and> nul_free (md_serial_number md) \<and>
     nul_free (md_station md) \<and> nul_free (md_firmware md) \<and> nul_free (md_commit md)"

definition session_plain :: "cjson \<Rightarrow> session_manager \<Rightarrow> bool" where
  "session_plain c s \<longleftrightarrow>
     nul_free (sm_session_id s) \<and> nul_free (sm_started_at s) \<and> nul_free (sm_updated_at s) \<and>
     nul_free (sm_completed_at s) \<and> nul_free (sm_current_test_id s) \<and>
     nul_free (sm_result_path s) \<and> sm_sequence_number s < 10 ^ 15 \<and>
     metadata_plain (sm_metadata s) \<and> list_all (record_plain c) (sm_tests s)"

lemma jstr_plain [simp]: "nul_free v \<Longrightarrow> jstr v = JStr v"
  by (simp add: jstr_def)

lemma nul_free_result_text [simp]: "nul_free (test_result_text r)"
  by (cases r) simp_all

lemma nul_free_state_text [simp]: "nul_free (session_state_text st)"
  by (cases st) simp_all

lemma nul_free_sequence_name [simp]: "nul_free sequence_name"
  by (simp add: sequence_name_def)

lemma evidence_entry_plain:
  "evidence_plain c (k, v) \<Longrightarrow> nul_free k \<and> json_kept c (evidence_json v)"
  by (cases v) auto

lemma json_kept_evidence:
  "list_all (evidence_plain c) ev \<Longrightarrow> json_kept c (evidence_object ev)"
  by (induction ev) (auto simp: evidence_object_def dest: evidence_entry_plain)

lemma json_kept_details:
  "list_all (\<lambda>d. nul_free (ntr_name d)) ds \<Longrightarrow> json_kept c (details_json ds)"
  by (induction ds) (auto simp: details_json_def)

lemma json_kept_test:
  assumes "cj_documented c" "record_plain c t"
  shows "json_kept c (test_json t)"
  using assms(2) cj_keeps_dbl_of_nat [OF assms(1), of "tr_attempt_count t"]
    json_kept_evidence [of c "tr_evidence t"] json_kept_details [of "tr_details t" c]
  by (auto simp: test_json_def record_plain_def)

lemma json_kept_session:
  assumes "cj_documented c" "session_plain c s"
  shows "json_kept c (session_json s)"
proof -
  have "cj_keeps c (dbl_of_nat (sm_sequence_number s))"
    using assms by (simp add: session_plain_def cj_keeps_dbl_of_nat)
  moreover have "cj_keeps c (dbl_of_int session_schema_version)"
    using cj_documented_keeps [OF assms(1), of 2]
    by (simp add: dbl_of_int_def session_schema_version_def small_int_def)
  moreover have "list_all (json_kept c) (map test_json (sm_tests s))"
    using assms by (auto simp: session_plain_def list_all_iff json_kept_test)
  ultimately show ?thesis
    using assms(2) by (simp add: session_json_def session_plain_def metadata_plain_def)
qed

subsection \<open>Reading the parts back\<close>

lemma parse_evidence_items_back:
  "list_all evidence_ok ev \<Longrightarrow> list_all (evidence_plain c) ev \<Longrightarrow>
     parse_evidence_items (map (\<lambda>(k, v). (c_str k, evidence_json v)) ev) acc =
     Some (fold (\<lambda>(k, v). smap_emplace k v) ev acc)"
proof (induction ev arbitrary: acc)
  case (Cons kv ev)
  obtain k v where "kv = (k, v)" by (cases kv)
  with Cons show ?case by (cases v) auto
qed simp

lemma parse_evidence_back:
  assumes "smap_valid ev" "list_all evidence_ok ev" "list_all (evidence_plain c) ev"
  shows "parse_evidence (Some (evidence_object ev)) = Some ev"
  using assms parse_evidence_items_back [OF assms(2,3)] smap.rebuild_emplace [OF assms(1)]
  by (simp add: parse_evidence_def evidence_object_def)

lemma result_text_back [simp]: "test_result_from_text (Some (test_result_text r)) = r"
  by (cases r) (simp_all add: test_result_from_text_def)

lemma state_text_back [simp]: "session_state_from_text (session_state_text st) = st"
  by (cases st) (simp_all add: session_state_from_text_def)

lemma parse_detail_items_back:
  "list_all (\<lambda>d. nul_free (ntr_name d)) ds \<Longrightarrow>
     parse_detail_items (map (\<lambda>d. JObj [(''name'', JStr (c_str (ntr_name d))),
        (''result'', JStr (test_result_text (ntr_result d)))]) ds) acc = Some (acc @ ds)"
  by (induction ds arbitrary: acc) (auto simp: json_string_def)

lemma parse_details_back:
  "list_all (\<lambda>d. nul_free (ntr_name d)) ds \<Longrightarrow> parse_details (Some (details_json ds)) = Some ds"
  by (simp add: parse_details_def details_json_def parse_detail_items_back)

lemma parse_test_back:
  assumes p: "record_plain c t" and i: "record_inv t"
  shows "parse_test (test_json t) = Inr t"
proof -
  have n: "exact_size (tr_attempt_count t)"
    using p by (simp add: record_plain_def exact_size_def)
  have ev: "parse_evidence (json_member (test_json t) ''evidence'') = Some (tr_evidence t)"
    using p i parse_evidence_back [of "tr_evidence t" c]
    by (auto simp: test_json_def record_plain_def record_inv_def) (simp_all add: parse_evidence_def)
  have ds: "parse_details (json_member (test_json t) ''details'') = Some (tr_details t)"
    using p parse_details_back [of "tr_details t"]
    by (auto simp: test_json_def record_plain_def) (simp_all add: parse_details_def)
  have res: "tr_completed t \<Longrightarrow> json_string (test_json t) ''result'' = Some (test_result_text (tr_result t))"
    by (simp add: test_json_def json_string_def)
  have flds: "json_string (test_json t) ''id'' = Some (tr_id t)"
    "json_string (test_json t) ''name'' = Some (tr_name t)"
    "json_bool (test_json t) ''completed'' = tr_completed t"
    "json_bool (test_json t) ''attempted'' = tr_attempted t"
    "json_size (test_json t) ''attempt_count'' = tr_attempt_count t"
    "json_string_or (test_json t) ''attempt_started_at'' [] = tr_attempt_started_at t"
    "json_string_or (test_json t) ''attempt_finished_at'' [] = tr_attempt_finished_at t"
    "json_string_or (test_json t) ''completed_at'' [] = tr_completed_at t"
    "is_obj (test_json t)"
    using p n by (simp_all add: test_json_def json_string_def json_bool_def json_size_def
        json_string_or_def record_plain_def)
  have "tr_completed t \<or> tr_result t = FAIL" using i by (auto simp: record_inv_def)
  then show ?thesis
    by (cases "tr_completed t") (simp_all add: parse_test_def flds ev ds res)
qed

lemma parse_tests_back:
  "list_all (record_plain c) ts \<Longrightarrow> list_all record_inv ts \<Longrightarrow>
     parse_tests (map test_json ts) acc = Inr (acc @ ts)"
  by (induction ts arbitrary: acc) (auto simp: parse_test_back)

subsection \<open>The whole document\<close>

definition loaded_of :: "session_manager \<Rightarrow> loaded_session" where
  "loaded_of s =
     \<lparr>ls_state = sm_state s, ls_id = sm_session_id s, ls_sequence_number = sm_sequence_number s,
      ls_started_at = sm_started_at s, ls_updated_at = sm_updated_at s,
      ls_completed_at = sm_completed_at s, ls_current_test_id = sm_current_test_id s,
      ls_result_path = sm_result_path s, ls_metadata = sm_metadata s, ls_tests = sm_tests s\<rparr>"

lemma doc_fields:
  assumes p: "session_plain c s"
  shows "json_member (session_json s) ''schema_version'' = Some (JNum (dbl_of_int 2))"
    and "json_string_or (session_json s) ''result_path'' [] = sm_result_path s"
    and "is_obj (session_json s)"
    and "json_member_or_null (session_json s) ''tests'' = JArr (map test_json (sm_tests s))"
  using p by (simp_all add: session_json_def session_plain_def json_string_or_def json_string_def
      json_member_or_null_def session_schema_version_def)

lemma doc_session_fields:
  assumes p: "session_plain c s"
  defines "j \<equiv> json_member_or_null (session_json s) ''session''"
  shows "is_obj j" "json_string j ''id'' = Some (sm_session_id s)"
    "json_string j ''state'' = Some (session_state_text (sm_state s))"
    "json_string j ''started_at'' = Some (sm_started_at s)"
    "json_size j ''sequence_number'' = sm_sequence_number s"
    "json_string_or j ''updated_at'' [] = sm_updated_at s"
    "json_string_or j ''completed_at'' [] = sm_completed_at s"
    "json_string_or j ''current_test'' [] = sm_current_test_id s"
proof -
  have n: "exact_size (sm_sequence_number s)"
    using p by (simp add: session_plain_def exact_size_def)
  have j: "j = JObj [
      (''id'', JStr (sm_session_id s)), (''state'', JStr (session_state_text (sm_state s))),
      (''sequence'', JStr sequence_name), (''sequence_number'', JNum (dbl_of_nat (sm_sequence_number s))),
      (''started_at'', JStr (sm_started_at s)), (''updated_at'', JStr (sm_updated_at s)),
      (''completed_at'', JStr (sm_completed_at s)), (''current_test'', JStr (sm_current_test_id s))]"
    using p by (simp add: j_def json_member_or_null_def session_json_def session_plain_def)
  show "is_obj j" "json_string j ''id'' = Some (sm_session_id s)"
    "json_string j ''state'' = Some (session_state_text (sm_state s))"
    "json_string j ''started_at'' = Some (sm_started_at s)"
    "json_size j ''sequence_number'' = sm_sequence_number s"
    "json_string_or j ''updated_at'' [] = sm_updated_at s"
    "json_string_or j ''completed_at'' [] = sm_completed_at s"
    "json_string_or j ''current_test'' [] = sm_current_test_id s"
    using n by (simp_all add: j json_string_def json_string_or_def json_size_def)
qed

lemma doc_device_fields:
  assumes p: "session_plain c s"
  defines "j \<equiv> json_member_or_null (session_json s) ''device''"
  shows "is_obj j" "json_string_or j ''sku'' u1 = md_sku (sm_metadata s)"
    "json_string_or j ''sn'' u2 = md_serial_number (sm_metadata s)"
    "json_string_or j ''station'' u3 = md_station (sm_metadata s)"
    "json_string_or j ''firmware'' u4 = md_firmware (sm_metadata s)"
    "json_string_or j ''commit'' u5 = md_commit (sm_metadata s)"
  using p by (simp_all add: j_def json_member_or_null_def session_json_def session_plain_def
      metadata_plain_def json_string_def json_string_or_def)

lemma document_back:
  assumes c: "cj_documented c" and p: "session_plain c s" and i: "list_all record_inv (sm_tests s)"
    and u: "sm_updated_at s \<noteq> []" and t: "print_json c True (session_json s) \<noteq> []"
  shows "parse_session_document c (print_json c True (session_json s)) = Inr (loaded_of s)"
proof -
  have parsed: "cj_parse c (print_json c True (session_json s)) = Some (session_json s)"
    by (rule print_json_parse [OF c json_kept_session [OF c p] t])
  have v: "cj_valueint c (dbl_of_int 2) = session_schema_version"
    using cj_documented_valueint [OF c, of 2] by (simp add: dbl_of_int_def session_schema_version_def)
  have ts: "parse_tests (map test_json (sm_tests s)) [] = Inr (sm_tests s)"
    using p i parse_tests_back [of c "sm_tests s" "[]"] by (simp add: session_plain_def)
  have upd: "nonempty_or (sm_updated_at s) x = sm_updated_at s" for x
    using u by (simp add: nonempty_or_def)
  show ?thesis
    by (simp add: parse_session_document_def parsed v doc_fields [OF p] doc_session_fields [OF p]
        doc_device_fields [OF p] ts upd loaded_of_def Let_def)
qed

lemma match_plan_self:
  "match_plan ts (map (\<lambda>t. \<lparr>td_id = tr_id t, td_name = tr_name t\<rparr>) ts) = Some ts"
  by (induction ts) simp_all

text \<open>The plan a session was started with: the ids and names of its tests.\<close>

definition plan_of :: "session_manager \<Rightarrow> test_definition list" where
  "plan_of s = map (\<lambda>t. \<lparr>td_id = tr_id t, td_name = tr_name t\<rparr>) (sm_tests s)"

lemma recovery_back:
  assumes c: "cj_documented (se_json e)" and p: "session_plain (se_json e) s"
    and inv: "session_inv e s" and a: "active s"
    and files: "sm_files r = sm_files s"
    and latest: "scan_sessions entries False None = Some (sm_session_path s, t)"
  shows "fst (load_latest_recoverable e (Some entries) (plan_of s) r)"
    and "core (snd (load_latest_recoverable e (Some entries) (plan_of s) r)) = core s"
proof -
  have st: "sm_state s = IN_PROGRESS" using a by (simp add: active_def)
  have doc: "doc_text e s \<noteq> []" "sm_files s (sm_session_path s) = Some (doc_text e s)"
    and i: "list_all record_inv (sm_tests s)" and u: "sm_updated_at s \<noteq> []"
    and rp: "sm_result_path s \<noteq> []"
    using inv st by (auto simp: session_inv_def durable_def shape_inv_def paths_ok_def)
  have parsed: "parse_session_document (se_json e) (doc_text e s) = Inr (loaded_of s)"
    using document_back [OF c p i u] doc(1) by (simp add: doc_text_def)
  have load: "load_latest_recoverable e (Some entries) (plan_of s) r =
      (True, install_loaded (sm_session_path s) (loaded_of s) (sm_tests s) (reset r))"
    using doc files latest parsed st match_plan_self [of "sm_tests s"]
    by (simp add: load_latest_recoverable_def Let_def plan_of_def loaded_of_def reset_def)
  show "fst (load_latest_recoverable e (Some entries) (plan_of s) r)"
    and "core (snd (load_latest_recoverable e (Some entries) (plan_of s) r)) = core s"
    using rp by (simp_all add: load install_loaded_def loaded_of_def core_def)
qed

end
