(* ===== verification/SessionTheorems.thy ===== *)
theory SessionTheorems
  imports SessionFile
begin

section \<open>SessionTheorems: the properties of the session manager\<close>

text \<open>
  The statements a user of the session manager relies on, each over the operations of
  theory Session for every environment, with a witness at a concrete session where it has
  a hypothesis. \<open>demo\<close> is that session: one test of a plan of two is complete.
\<close>

subsection \<open>A concrete session\<close>

definition demo_tests :: "test_record list" where
  "demo_tests =
     [test_record_default\<lparr>tr_id := ''input'', tr_name := ''Input Test'', tr_completed := True,
        tr_result := PASS, tr_attempted := True, tr_attempt_count := 1, tr_completed_at := ''T1'',
        tr_evidence := [(''keys'', EvBoolean True)]\<rparr>,
      test_record_default\<lparr>tr_id := ''audio'', tr_name := ''Audio Test''\<rparr>]"

definition demo :: session_manager where
  "demo = \<lparr>sm_state = IN_PROGRESS, sm_session_id = ''S'', sm_sequence_number = 7,
     sm_started_at = ''T0'', sm_updated_at = ''T1'', sm_completed_at = [],
     sm_current_test_id = ''audio'', sm_session_path = ''/d/S.session.json'',
     sm_result_path = ''/d/S.result.json'', sm_last_error = [], sm_metadata = metadata_default,
     sm_tests = demo_tests, sm_files = [''/d/S.session.json'' \<mapsto> ''J'' @ [CHR 0x0A]], sm_steps = 0\<rparr>"

text \<open>A cJSON that knows one document, printed as \<open>J\<close>; enough for what is documented.\<close>

definition one_document :: "json \<Rightarrow> cjson" where
  "one_document doc =
     \<lparr>cj_print = (\<lambda>formatted j. if j = doc then Some ''J'' else None),
      cj_parse = (\<lambda>t. if t = ''J'' \<or> t = ''J'' @ [CHR 0x0A] then Some doc else None),
      cj_valueint = (\<lambda>d. case d of Fin r \<Rightarrow> floor r | _ \<Rightarrow> 0),
      cj_keeps = (\<lambda>d. True)\<rparr>"

text \<open>A cJSON that prints every tree to the same text: enough where nothing is parsed.\<close>

definition constant_printer :: cjson where
  "constant_printer = (one_document JNull)\<lparr>cj_print := (\<lambda>formatted j. Some ''J'')\<rparr>"

definition quiet_env :: "cjson \<Rightarrow> session_env" where
  "quiet_env c = \<lparr>se_json = c, se_clock = (\<lambda>n. 1000 * n), se_io = (\<lambda>n. io_ok),
     se_build = (\<lambda>n. BuildOk), se_getenv = (\<lambda>v. if v = ''FACTORY_TEST_SESSION_DIR'' then Some ''/d'' else None)\<rparr>"

definition full_disk_env :: "cjson \<Rightarrow> session_env" where
  "full_disk_env c = (quiet_env c)\<lparr>se_io := (\<lambda>n. io_ok\<lparr>f_written := Some 0\<rparr>)\<rparr>"

lemma one_document_documented: "cj_documented (one_document doc)"
  by (auto simp: cj_documented_def one_document_def)

lemma demo_inv: "session_inv (quiet_env (one_document (session_json demo))) demo"
  by (simp add: session_inv_def shape_inv_def durable_def doc_text_def print_json_def one_document_def
      quiet_env_def demo_def demo_tests_def paths_ok_def test_ids_def record_inv_def smap_valid_def
      test_record_default_def)

lemma demo_plain: "session_plain (one_document doc) demo"
  by (simp add: session_plain_def demo_def demo_tests_def record_plain_def metadata_plain_def
      metadata_default_def test_record_default_def one_document_def)

text \<open>A manager that has just started a session of one test, and what it holds.\<close>

definition start_run :: "session_call list" where
  "start_run = [CallStart [\<lparr>td_id = ''a'', td_name = ''A''\<rparr>] metadata_default]"

definition started :: session_manager where
  "started = \<lparr>sm_state = IN_PROGRESS, sm_session_id = ''factorytest-19700101-000000-000'',
     sm_sequence_number = 0, sm_started_at = ''1970-01-01T00:00:00Z'',
     sm_updated_at = ''1970-01-01T00:00:00Z'', sm_completed_at = [], sm_current_test_id = [],
     sm_session_path = ''/d/factorytest-19700101-000000-000.session.json'',
     sm_result_path = ''/d/factorytest-19700101-000000-000.result.json'', sm_last_error = [],
     sm_metadata = normalize_metadata metadata_default,
     sm_tests = [fresh_record \<lparr>td_id = ''a'', td_name = ''A''\<rparr>],
     sm_files = [''/d/factorytest-19700101-000000-000.session.json'' \<mapsto> ''J'' @ [CHR 0x0A]],
     sm_steps = 2\<rparr>"

definition started_env :: session_env where
  "started_env = quiet_env (one_document (session_json started))"

lemma replicate_two: "replicate 2 x = [x, x]"
  by (simp add: numeral_2_eq_2)

lemma utc_timeI:
  assumes "secs div 86400 + 719468 = z" "secs mod 86400 = r" "z div 146097 = era" "z mod 146097 = doe"
    "(doe - doe div 1460 + doe div 36524 - doe div 146096) div 365 = yoe"
    "doe - (365 * yoe + yoe div 4 - yoe div 100) = doy" "(5 * doy + 2) div 153 = mp"
    "(if mp < 10 then mp + 3 else mp - 9) = m"
  shows "utc_time secs = \<lparr>tm_year = yoe + era * 400 + (if m \<le> 2 then 1 else 0), tm_mon = m,
    tm_mday = doy - (153 * mp + 2) div 5 + 1, tm_hour = r div 3600, tm_min = r mod 3600 div 60, tm_sec = r mod 60\<rparr>"
  unfolding utc_time_def Let_def assms by (rule refl)

lemma epoch_time:
  "utc_time 0 = \<lparr>tm_year = 1970, tm_mon = 1, tm_mday = 1, tm_hour = 0, tm_min = 0, tm_sec = 0\<rparr>"
  by (subst utc_timeI [where z = 719468 and r = 0 and era = 4 and doe = 135080 and yoe = 369
        and doy = 306 and mp = 10 and m = 1]) simp_all
lemma nat_text_digit: "n < 10 \<Longrightarrow> nat_text n = [digit_char n]"
  by (simp add: nat_text.simps)

lemma small_texts:
  "nat_text 0 = ''0''" "nat_text 1 = ''1''" "nat_text 1970 = ''1970''"
  by (simp_all add: nat_text.simps [of 1970] nat_text.simps [of 197] nat_text.simps [of 19]
      nat_text_digit digit_char_def)

lemma small_pads:
  "pad_text 2 0 = ''00''" "pad_text 2 1 = ''01''" "pad_text 3 0 = ''000''" "pad_text 4 1970 = ''1970''"
  unfolding pad_text_def small_texts by code_simp+

lemma epoch_stamps:
  "iso_timestamp 0 = ''1970-01-01T00:00:00Z''" "session_timestamp 0 = ''19700101-000000-000''"
  by (simp_all add: iso_timestamp_def session_timestamp_def epoch_time small_pads small_pads [unfolded One_nat_def])

lemma quiet_directory: "default_session_directory (quiet_env c) = ''/d''"
  by (simp add: default_session_directory_def quiet_env_def getenv_nonempty_def path_join_def)

lemma started_paths:
  "path_join ''/d'' ((''factorytest-'' @ ''19700101-000000-000'') @ session_suffix) =
     ''/d/factorytest-19700101-000000-000.session.json''"
  "result_path_for_session ''/d/factorytest-19700101-000000-000.session.json'' =
     ''/d/factorytest-19700101-000000-000.result.json''"
  by code_simp+

lemma started_opened:
  "open_session (quiet_env c) [\<lparr>td_id = ''a'', td_name = ''A''\<rparr>] metadata_default
     (initial_manager (\<lambda>p. None)) = started\<lparr>sm_files := (\<lambda>p. None), sm_steps := 1\<rparr>"
  using epoch_stamps started_paths
  by (simp add: open_session_def Let_def quiet_directory initial_manager_def tick_def started_def)
    (simp add: quiet_env_def)

lemma started_reached:
  assumes "cj_print c True (session_json started) = Some ''J''"
  shows "calls (quiet_env c) start_run (initial_manager (\<lambda>p. None)) = started"
proof -
  let ?o = "started\<lparr>sm_files := (\<lambda>p. None), sm_steps := 1\<rparr>"
  have r: "reset ((initial_manager (\<lambda>p. None))\<lparr>sm_last_error := []\<rparr>) = initial_manager (\<lambda>p. None)"
    by (simp add: reset_def initial_manager_def)
  have v: "valid_plan [\<lparr>td_id = ''a'', td_name = ''A''\<rparr>] []"
    "sm_state ((initial_manager (\<lambda>p. None))\<lparr>sm_last_error := []\<rparr>) = NONE"
    by (simp_all add: initial_manager_def)
  have "session_json ?o = session_json started"
    by (rule session_json_core) (simp add: core_def)
  then have d: "doc_text (quiet_env c) ?o = ''J'' @ [CHR 0x0A]"
    using assms by (simp add: doc_text_def print_json_def quiet_env_def)
  have u: "sm_updated_at ?o \<noteq> []" by (simp add: started_def)
  have "persist (quiet_env c) ?o = (True, started)"
    unfolding persist_unfold [OF u] d
    by (simp add: started_def quiet_env_def write_text_file_atomic_def io_ok_def build_error_def
        tick_def)
  then show ?thesis
    by (simp add: start_run_def start_new_def Let_def r v started_opened del: valid_plan.simps)
qed

lemma started_plain: "session_plain (one_document d) started"
  by (simp add: started_def session_plain_def record_plain_def metadata_plain_def fresh_record_def
      normalize_metadata_def nonempty_or_def short_commit_def metadata_default_def
      test_record_default_def)

lemma started_env_run: "calls started_env start_run (initial_manager (\<lambda>p. None)) = started"
  unfolding started_env_def by (rule started_reached) (simp add: one_document_def)

subsection \<open>Lemmas on completing and on the scan\<close>

lemma finalize_done:
  assumes "active s" "fst (finalize e s)"
  shows "sm_state (snd (finalize e s)) = COMPLETED" "sm_tests (snd (finalize e s)) = sm_tests s"
    "list_all tr_completed (sm_tests s)"
proof -
  show "sm_tests (snd (finalize e s)) = sm_tests s"
    by (cases rule: finalize_cases [of s e]) (auto simp: core_def Let_def split: if_splits)
  show "sm_state (snd (finalize e s)) = COMPLETED"
    using assms by (cases rule: finalize_cases [of s e]) (auto simp: active_def Let_def split: if_splits)
  show "list_all tr_completed (sm_tests s)"
    using assms by (cases rule: finalize_cases [of s e]) (auto simp: active_def next_incomplete_all)
qed

lemma completing_tests:
  "sm_tests (completing e r ds n s) =
     (sm_tests s)[n := completed_record (iso_timestamp (se_clock e (sm_steps s))) r ds (sm_tests s ! n)]"
  by (simp add: completing_def session_simps)

text \<open>What the scan looks for: a regular file with the session suffix and a time stamp.\<close>

lemma scan_sessions_error: "scan_sessions ds True best = best"
  by (induction ds arbitrary: best) simp_all

definition candidate :: "dir_entry \<Rightarrow> string \<times> nat \<Rightarrow> bool" where
  "candidate d c \<longleftrightarrow> de_regular d = Some True \<and> has_suffix (path_filename (de_path d)) session_suffix \<and>
     de_path d = fst c \<and> de_mtime d = Some (snd c)"

definition not_newer :: "string \<times> nat \<Rightarrow> string \<times> nat \<Rightarrow> bool" where
  "not_newer a b \<longleftrightarrow> snd a < snd b \<or> snd a = snd b \<and> path_filename (fst a) \<le> path_filename (fst b)"

lemma not_newer_trans: "not_newer a b \<Longrightarrow> not_newer b c \<Longrightarrow> not_newer a c"
  by (auto simp: not_newer_def)

lemma not_newer_linear: "\<not> not_newer a b \<Longrightarrow> not_newer b a"
  by (auto simp: not_newer_def)

lemma not_newer_refl: "not_newer a a"
  by (simp add: not_newer_def)

lemma scan_step:
  assumes "de_regular d \<noteq> None"
  shows "scan_sessions (d # ds) False best =
    scan_sessions ds False
     (if \<exists>c. candidate d c then
        let c = (de_path d, the (de_mtime d)) in
        case best of None \<Rightarrow> Some c | Some b \<Rightarrow> if not_newer c b then Some b else Some c
      else best)"
proof -
  obtain r where r: "de_regular d = Some r" using assms by auto
  show ?thesis
    by (cases r; cases "de_mtime d"; cases best) (auto simp: r candidate_def not_newer_def not_le not_less)
qed

lemma candidate_unique: "candidate d c \<Longrightarrow> c = (de_path d, the (de_mtime d))"
  by (cases c) (auto simp: candidate_def)

lemma scan_best:
  "\<forall>d\<in>set ds. de_regular d \<noteq> None \<Longrightarrow>
   (case scan_sessions ds False best of
      None \<Rightarrow> best = None \<and> (\<forall>d\<in>set ds. \<forall>c. \<not> candidate d c)
    | Some b \<Rightarrow> (best = Some b \<or> (\<exists>d\<in>set ds. candidate d b)) \<and>
        (\<forall>d\<in>set ds. \<forall>c. candidate d c \<longrightarrow> not_newer c b) \<and> (\<forall>c. best = Some c \<longrightarrow> not_newer c b))"
proof (induction ds arbitrary: best)
  case Nil
  then show ?case by (auto simp: not_newer_refl split: option.split)
next
  case (Cons d ds)
  show ?case
  proof (cases "\<exists>c. candidate d c")
    case False
    then show ?thesis using Cons.IH [of best] Cons.prems 
      by (auto simp: scan_step simp del: scan_sessions.simps split: option.splits)
  next
    case True
    then obtain c where c: "candidate d c" "c = (de_path d, the (de_mtime d))" "\<And>c'. candidate d c' \<longleftrightarrow> c' = c"
      using candidate_unique by metis
    let ?best = "case best of None \<Rightarrow> Some c | Some b \<Rightarrow> if not_newer c b then Some b else Some c"
    have s: "scan_sessions (d # ds) False best = scan_sessions ds False ?best"
      using True Cons.prems c(2) [symmetric] by (simp add: scan_step Let_def del: scan_sessions.simps)
    show ?thesis
      using Cons.IH [of ?best] Cons.prems c unfolding s
      by (cases best; cases "scan_sessions ds False ?best")
        (auto simp del: scan_sessions.simps split: if_splits
          intro: not_newer_refl dest: not_newer_linear elim: not_newer_trans)
  qed
qed

subsection \<open>Lemmas on the summary and the upload document\<close>

lemma summarize_counts:
  "summarize ts r = r\<lparr>ss_completed := ss_completed r + length (filter tr_completed ts),
     ss_passed := ss_passed r + length (filter (\<lambda>t. tr_completed t \<and> tr_result t = PASS) ts),
     ss_failed := ss_failed r + length (filter (\<lambda>t. tr_completed t \<and> tr_result t = FAIL) ts),
     ss_missing_evidence := ss_missing_evidence r + length (filter (\<lambda>t. tr_completed t \<and> tr_evidence t = []) ts)\<rparr>"
proof (induction ts r rule: summarize.induct)
  case (2 t ts r)
  then show ?case by (cases "tr_result t") (auto simp: has_evidence_def)
qed simp

lemma session_passed_all: "session_passed s \<longleftrightarrow> list_all (\<lambda>t. tr_completed t \<and> tr_result t = PASS) (sm_tests s)"
proof -
  have "length (filter tr_completed ts) = length ts \<longleftrightarrow> list_all tr_completed ts" for ts
    by (metis filter_True length_filter_less list_all_iff order_less_irrefl)
  moreover have "r = FAIL \<longleftrightarrow> r \<noteq> PASS" for r by (cases r) auto
  ultimately show ?thesis
    by (auto simp: session_passed_def summary_def summarize_counts filter_empty_conv list_all_iff)
qed

lemma upload_kept:
  assumes "cj_documented c" "session_plain c s"
  shows "json_kept c (upload_tree s)"
proof -
  have "cj_keeps c (dbl_of_nat (sm_sequence_number s))"
    using assms by (simp add: session_plain_def cj_keeps_dbl_of_nat)
  moreover have "list_all (\<lambda>t. nul_free (tr_id t)) (sm_tests s)"
    using assms(2) by (auto simp: session_plain_def list_all_iff record_plain_def)
  ultimately show ?thesis
    using assms(2) by (simp add: upload_tree_def result_header_def session_plain_def metadata_plain_def list_all_iff)
qed

lemma map_of_ids:
  "distinct (map tr_id ts) \<Longrightarrow> t \<in> set ts \<Longrightarrow> map_of (map (\<lambda>t. (tr_id t, f t)) ts) (tr_id t) = Some (f t)"
  by (induction ts) (auto simp: image_iff)

definition demo_done :: session_manager where
  "demo_done = demo\<lparr>sm_state := COMPLETED, sm_completed_at := ''T2'', sm_current_test_id := [],
     sm_tests := [hd demo_tests]\<rparr>"

definition no_result_printer :: cjson where
  "no_result_printer = constant_printer\<lparr>cj_print := (\<lambda>formatted j.
     if json_member j ''test_details'' = None then Some ''J'' else None)\<rparr>"

subsection \<open>Failure, completion and recovery\<close>

text \<open>C9: a call of \<open>abandon\<close>, \<open>set_current_test\<close>, \<open>begin_test\<close> or \<open>record_evidence\<close> that
  fails, at whichever of its fallible steps, leaves every field of the session and the
  session file as they were: only the error text and the temporary file may change.\<close>

theorem failed_call_rolls_back:
  "(fst (abandon e s) \<or> unchanged s (snd (abandon e s))) \<and>
   (fst (set_current_test e i s) \<or> unchanged s (snd (set_current_test e i s))) \<and>
   (fst (begin_test e i s) \<or> unchanged s (snd (begin_test e i s))) \<and>
   (fst (record_evidence e i ev s) \<or> unchanged s (snd (record_evidence e i ev s)))"
  using abandon_rollback set_current_test_rollback begin_test_rollback record_evidence_rollback by blast

text \<open>C14: a test that \<open>complete_test\<close> reports as complete is the one of that id, it alone is
  changed, to complete with the given result and details at the time of the call, and the
  session is completed by the call exactly when no test is left.\<close>

theorem complete_test_success:
  assumes "fst (complete_test e i r ds s)"
  shows "\<exists>n < length (sm_tests s). tr_id (sm_tests s ! n) = i \<and>
     sm_tests (snd (complete_test e i r ds s)) =
       (sm_tests s)[n := completed_record (iso_timestamp (se_clock e (sm_steps s))) r ds (sm_tests s ! n)] \<and>
     sm_state (snd (complete_test e i r ds s)) =
       (if list_all tr_completed (sm_tests (snd (complete_test e i r ds s))) then COMPLETED else IN_PROGRESS)"
proof (cases rule: complete_test_cases [of e i r ds s])
  case unavailable
  with assms show ?thesis by simp
next
  case (completing n)
  let ?p = "persist e (completing e r ds n s)"
  have n: "n < length (sm_tests s)" "tr_id (sm_tests s ! n) = i" and a: "sm_state s = IN_PROGRESS"
    using completing(1) find_test_Some by (auto simp: available_def active_def)
  have p: "fst ?p" using completing(2) assms by (auto simp: Let_def split: if_splits)
  have ap: "active (snd ?p)" using a by (simp add: active_def)
  have all: "(length (sm_tests s) \<le> next_incomplete_index (snd ?p)) = list_all tr_completed (sm_tests (snd ?p))"
    using next_incomplete_all [of "snd ?p"] by (simp add: completing_tests)
  show ?thesis
    using n a p completing(2) assms finalize_done [OF ap, of e] all
    by (intro exI [of _ n]) (auto simp: Let_def completing_tests split: if_splits)
qed

theorem complete_test_success_witness:
  "sm_tests (snd (complete_test (quiet_env constant_printer) ''audio'' PASS [] demo)) =
     demo_tests[1 := completed_record (iso_timestamp 0) PASS [] (demo_tests ! 1)] \<and>
   sm_state (snd (complete_test (quiet_env constant_printer) ''audio'' PASS [] demo)) = COMPLETED"
proof -
  have ok: "fst (complete_test (quiet_env constant_printer) ''audio'' PASS [] demo)"
    by (simp add: complete_test_def demo_def demo_tests_def active_def persist_def quiet_env_def
        constant_printer_def one_document_def test_record_default_def session_simps print_json_def
        write_text_file_atomic_def io_ok_def build_error_def finalize_def next_incomplete_index_def
        write_result_def build_result_json_def)
  obtain n where "n < length (sm_tests demo)" "tr_id (sm_tests demo ! n) = ''audio''"
    and eff: "sm_tests (snd (complete_test (quiet_env constant_printer) ''audio'' PASS [] demo)) =
       (sm_tests demo)[n := completed_record (iso_timestamp 0) PASS [] (sm_tests demo ! n)]"
      "sm_state (snd (complete_test (quiet_env constant_printer) ''audio'' PASS [] demo)) =
       (if list_all tr_completed (sm_tests (snd (complete_test (quiet_env constant_printer) ''audio'' PASS [] demo)))
        then COMPLETED else IN_PROGRESS)"
    using complete_test_success [OF ok] by (auto simp: demo_def quiet_env_def)
  then have "n = 1" by (auto simp: demo_def demo_tests_def test_record_default_def less_Suc_eq numeral_2_eq_2)
  with eff show ?thesis
    by (simp add: demo_def demo_tests_def completed_record_def test_record_default_def)
qed

text \<open>C19: when \<open>complete_test\<close> fails in a session, started or restored, whose result file is
  not its session file, either nothing has changed or the test's completion is kept, on disk
  too, all tests are complete and the session stays open: only closing it failed, and
  repeating the call can finish it.\<close>

theorem failed_completion:
  assumes paths: "paths_ok s" and fail: "\<not> fst (complete_test e i r ds s)"
  shows "unchanged s (snd (complete_test e i r ds s)) \<or>
     sm_state (snd (complete_test e i r ds s)) = IN_PROGRESS \<and>
     list_all tr_completed (sm_tests (snd (complete_test e i r ds s))) \<and>
     sm_files (snd (complete_test e i r ds s)) (sm_session_path s) =
       Some (doc_text e (snd (complete_test e i r ds s)))"
proof (cases rule: complete_test_cases [of e i r ds s])
  case unavailable
  then show ?thesis by (simp add: unchanged_def)
next
  case (completing n)
  let ?p = "persist e (completing e r ds n s)"
  show ?thesis
  proof (cases "fst ?p")
    case False
    with completing(2) persist_failed [of "completing e r ds n s" e]
    show ?thesis by (auto simp: unchanged_def core_def Let_def prepared_test_back)
  next
    case True
    have a: "sm_state (snd ?p) = IN_PROGRESS"
      using completing(1) by (simp add: available_def active_def)
    have f: "complete_test e i r ds s = finalize e (snd ?p)" "\<not> fst (finalize e (snd ?p))"
      "length (sm_tests (snd ?p)) \<le> next_incomplete_index (snd ?p)"
      using True completing(2) fail by (auto simp: Let_def split: if_splits)
    have u: "unchanged (snd ?p) (snd (finalize e (snd ?p)))"
      using f(2) paths by (intro finalize_rollback) (auto simp: paths_ok_def)
    then have "doc_text e (snd (finalize e (snd ?p))) = doc_text e (completing e r ds n s)"
      using doc_text_core [OF persist_core, of "completing e r ds n s" e e]
        doc_text_core [of "snd (finalize e (snd ?p))" "snd ?p" e]
      by (simp add: unchanged_def)
    then have "sm_files (snd (finalize e (snd ?p))) (sm_session_path s) =
        Some (doc_text e (snd (finalize e (snd ?p))))"
      using u True persist_stored [of "completing e r ds n s" e] by (simp add: unchanged_def)
    moreover have "list_all tr_completed (sm_tests (snd ?p))"
      using f(3) next_incomplete_all by blast
    ultimately show ?thesis
      using a u f(1) by (auto simp: unchanged_def core_def)
  qed
qed

theorem failed_completion_witness:
  "list_all tr_completed (sm_tests (snd (complete_test (quiet_env no_result_printer) ''a'' PASS [] started)))"
proof -
  have f: "\<not> fst (complete_test (quiet_env no_result_printer) ''a'' PASS [] started)"
    "tr_completed (hd (sm_tests (snd (complete_test (quiet_env no_result_printer) ''a'' PASS [] started))))"
    by (simp_all add: complete_test_def started_def active_def persist_def quiet_env_def no_result_printer_def
        constant_printer_def one_document_def test_record_default_def session_simps print_json_def
        write_text_file_atomic_def io_ok_def build_error_def finalize_def next_incomplete_index_def
        write_result_def build_result_json_def fresh_record_def session_json_def result_tree_def)
  have "paths_ok started" by (simp add: started_def paths_ok_def)
  from failed_completion [OF this f(1)] f(2) show ?thesis
    by (auto simp: unchanged_def core_def started_def fresh_record_def test_record_default_def)
qed

text \<open>A test that was begun is current, has one attempt more (counted at 64 bits), its
  evidence is gone and it is not complete; no other test changes and the file shows it.\<close>

lemma begin_test_effect:
  assumes "fst (begin_test e i s)"
  shows "\<exists>n t. n < length (sm_tests s) \<and> tr_id (sm_tests s ! n) = i \<and> \<not> tr_completed (sm_tests s ! n) \<and>
     sm_tests (snd (begin_test e i s)) = (sm_tests s)[n := t] \<and> sm_current_test_id (snd (begin_test e i s)) = i \<and>
     tr_id t = i \<and> tr_attempted t \<and> tr_attempt_count t = u64_add (tr_attempt_count (sm_tests s ! n)) 1 \<and>
     tr_evidence t = [] \<and> \<not> tr_completed t \<and>
     sm_files (snd (begin_test e i s)) (sm_session_path s) = Some (doc_text e (snd (begin_test e i s)))"
proof (cases rule: begin_test_cases [of e i s])
  case unavailable
  with assms show ?thesis by simp
next
  case (begun n)
  let ?p = "persist e (begun e i n s)"
  have p: "fst ?p" "begin_test e i s = ?p"
    using assms begun(3) by (cases ?p; auto simp: Let_def split: if_splits)+
  have n: "n < length (sm_tests s)" "tr_id (sm_tests s ! n) = i"
    using begun(1) find_test_Some by (auto simp: available_def)
  have d: "doc_text e (snd ?p) = doc_text e (begun e i n s)"
    by (rule doc_text_core) (simp add: persist_core)
  show ?thesis
    using n begun(2) p persist_stored [of "begun e i n s" e] d
    by (intro exI [of _ n] exI [of _ "sm_tests (begun e i n s) ! n"]) (auto simp: begun_def session_simps)
qed

theorem begin_test_effect_witness:
  "\<exists>t. sm_tests (snd (begin_test (quiet_env constant_printer) ''a'' started)) = [t] \<and> tr_attempt_count t = 1"
proof -
  have "fst (begin_test (quiet_env constant_printer) ''a'' started)"
    by (simp add: begin_test_def started_def active_def persist_def quiet_env_def
        constant_printer_def one_document_def test_record_default_def session_simps print_json_def
        write_text_file_atomic_def io_ok_def build_error_def fresh_record_def)
  from begin_test_effect [OF this] show ?thesis
    by (auto simp: started_def fresh_record_def test_record_default_def u64_add_def)
qed

text \<open>Recorded evidence is merged into the test's map: a given key has the given value
  (the last one given for it), every other key what it had, and the test counts as attempted.\<close>

theorem record_evidence_effect:
  assumes s: "s = calls e cs (initial_manager files)"
    and ok: "fst (record_evidence e i ev s)"
  shows "\<exists>n t. n < length (sm_tests s) \<and> tr_id (sm_tests s ! n) = i \<and> \<not> tr_completed (sm_tests s ! n) \<and>
     sm_tests (snd (record_evidence e i ev s)) = (sm_tests s)[n := t] \<and> tr_attempted t \<and> \<not> tr_completed t \<and>
     (\<forall>k. map_of (tr_evidence t) k =
        (case map_of (rev ev) k of Some v \<Rightarrow> Some v | None \<Rightarrow> map_of (tr_evidence (sm_tests s ! n)) k))"
proof (cases rule: record_evidence_cases [of e i ev s])
  case unavailable
  with ok show ?thesis by simp
next
  case (recorded n)
  let ?p = "persist e (recorded e ev n s)"
  have p: "fst ?p" "record_evidence e i ev s = ?p"
    using ok recorded(5) by (cases ?p; auto simp: Let_def split: if_splits)+
  have n: "n < length (sm_tests s)" "tr_id (sm_tests s ! n) = i"
    using recorded(1) find_test_Some by (auto simp: available_def)
  have "record_inv (sm_tests s ! n)"
    using reachable_inv [of e cs files] recorded(1) by (auto simp: s session_inv_def dest: available_facts)
  then have v: "smap_valid (tr_evidence (sm_tests s ! n))" by (simp add: record_inv_def)
  show ?thesis
    using n recorded(2) p smap.find_fold_assign [OF v, of ev]
    by (intro exI [of _ n] exI [of _ "sm_tests (recorded e ev n s) ! n"]) (auto simp: recorded_def session_simps)
qed

theorem record_evidence_effect_witness:
  "\<exists>t. sm_tests (snd (record_evidence (quiet_env constant_printer) ''a'' [(''k'', EvBoolean True)] started)) = [t] \<and>
     map_of (tr_evidence t) ''k'' = Some (EvBoolean True)"
proof -
  have "fst (record_evidence (quiet_env constant_printer) ''a'' [(''k'', EvBoolean True)] started)"
    by (simp add: record_evidence_def started_def active_def persist_def quiet_env_def first_attempt_def
        constant_printer_def one_document_def test_record_default_def session_simps print_json_def
        write_text_file_atomic_def io_ok_def build_error_def fresh_record_def)
  from record_evidence_effect [OF started_reached [symmetric] this] show ?thesis
    by (auto simp: started_def fresh_record_def test_record_default_def constant_printer_def)
qed

text \<open>The file of a reachable session, read back and parsed, gives every field of the
  session and of all its tests, where cJSON keeps its documented promises and the texts have
  no NUL byte.\<close>

theorem document_roundtrip:
  assumes s: "s = calls e cs (initial_manager files)" and open': "sm_state s \<noteq> NONE"
    and c: "cj_documented (se_json e)" and plain: "session_plain (se_json e) s"
  shows "\<exists>txt. sm_files s (sm_session_path s) = Some txt \<and>
     parse_session_document (se_json e) txt = Inr (loaded_of s)"
proof -
  have inv: "session_inv e s" unfolding s by (rule reachable_inv)
  then have "list_all record_inv (sm_tests s)" "sm_updated_at s \<noteq> []" "doc_text e s \<noteq> []"
    "sm_files s (sm_session_path s) = Some (doc_text e s)"
    using open' by (auto simp: session_inv_def shape_inv_def durable_def)
  with document_back [OF c plain] show ?thesis by (simp add: doc_text_def)
qed

theorem document_roundtrip_witness:
  "\<exists>txt. sm_files started (sm_session_path started) = Some txt \<and>
     parse_session_document (one_document (session_json started)) txt = Inr (loaded_of started)"
  using document_roundtrip [OF started_env_run [symmetric]] started_plain one_document_documented
  by (simp add: started_env_def quiet_env_def started_def)

text \<open>C11: a manager started on the file system a session in progress left, whose scan finds
  that session's file, resumes exactly that session: all fields, the current test included.\<close>

theorem restart_resumes:
  assumes s: "s = calls e cs (initial_manager files)" and a: "active s"
    and c: "cj_documented (se_json e)" and plain: "session_plain (se_json e) s"
    and latest: "scan_sessions entries False None = Some (sm_session_path s, t)"
  shows "let r = load_latest_recoverable e (Some entries) (plan_of s) (initial_manager (sm_files s))
    in fst r \<and> core (snd r) = core s"
  using recovery_back [OF c plain _ a _ latest] reachable_inv [of e cs files]
  by (simp add: s Let_def initial_manager_def)

theorem restart_resumes_witness:
  "let r = load_latest_recoverable started_env
       (Some [\<lparr>de_path = sm_session_path started, de_regular = Some True, de_mtime = Some 5\<rparr>])
       (plan_of started) (initial_manager (sm_files started))
   in fst r \<and> core (snd r) = core started"
proof (rule restart_resumes [OF started_env_run [symmetric]])
  show "active started" by (simp add: started_def active_def)
  show "cj_documented (se_json started_env)" by (simp add: started_env_def quiet_env_def one_document_documented)
  show "session_plain (se_json started_env) started" by (simp add: started_env_def quiet_env_def started_plain)
  show "scan_sessions [\<lparr>de_path = sm_session_path started, de_regular = Some True, de_mtime = Some 5\<rparr>] False None
    = Some (sm_session_path started, 5)"
    by (simp add: started_def) code_simp
qed

text \<open>When every directory entry can be examined, the scan returns the candidate with the
  latest time stamp, the greatest name among equals, and nothing only if there is none.\<close>

theorem scan_picks_latest:
  assumes "\<forall>d\<in>set ds. de_regular d \<noteq> None"
  shows "case scan_sessions ds False None of
      None \<Rightarrow> \<forall>d\<in>set ds. \<forall>c. \<not> candidate d c
    | Some b \<Rightarrow> (\<exists>d\<in>set ds. candidate d b) \<and> (\<forall>d\<in>set ds. \<forall>c. candidate d c \<longrightarrow> not_newer c b)"
  using scan_best [OF assms, of None] by (auto split: option.splits)

theorem scan_picks_latest_witness:
  "case scan_sessions [\<lparr>de_path = ''/d/a.session.json'', de_regular = Some True, de_mtime = Some 3\<rparr>,
       \<lparr>de_path = ''/d/b.session.json'', de_regular = Some True, de_mtime = Some 3\<rparr>] False None of
     None \<Rightarrow> False
   | Some b \<Rightarrow> not_newer (''/d/a.session.json'', 3) b \<and> not_newer (''/d/b.session.json'', 3) b"
  using scan_picks_latest [of "[\<lparr>de_path = ''/d/a.session.json'', de_regular = Some True, de_mtime = Some 3\<rparr>,
       \<lparr>de_path = ''/d/b.session.json'', de_regular = Some True, de_mtime = Some 3\<rparr>]"]
  by (auto simp: candidate_def path_filename_def has_suffix_def session_suffix_def split: option.splits)

text \<open>An entry whose \<open>is_regular_file\<close> fails (a dangling link) ends the search: the error
  stays in the shared \<open>ec\<close>, and no entry after it is considered, whatever it holds.\<close>

theorem scan_error_hides_rest:
  assumes "de_regular d = None"
  shows "scan_sessions (xs @ d # ys) ec best = scan_sessions xs ec best"
  using assms by (induction xs arbitrary: ec best) (auto simp: scan_sessions_error split: option.splits bool.splits)

theorem scan_error_hides_rest_witness:
  "scan_sessions [\<lparr>de_path = ''/d/link'', de_regular = None, de_mtime = None\<rparr>,
      \<lparr>de_path = ''/d/b.session.json'', de_regular = Some True, de_mtime = Some 3\<rparr>] False None = None"
  using scan_error_hides_rest [of "\<lparr>de_path = ''/d/link'', de_regular = None, de_mtime = None\<rparr>" "[]"] by simp

text \<open>The summary counts the completed, passed and failed tests and those completed without
  evidence, and every completed test is either passed or failed.\<close>

lemma summary_counts:
  "summary s = \<lparr>ss_state = sm_state s, ss_total = length (sm_tests s),
     ss_completed = length (filter tr_completed (sm_tests s)),
     ss_passed = length (filter (\<lambda>t. tr_completed t \<and> tr_result t = PASS) (sm_tests s)),
     ss_failed = length (filter (\<lambda>t. tr_completed t \<and> tr_result t = FAIL) (sm_tests s)),
     ss_missing_evidence = length (filter (\<lambda>t. tr_completed t \<and> tr_evidence t = []) (sm_tests s))\<rparr> \<and>
   ss_passed (summary s) + ss_failed (summary s) = ss_completed (summary s)"
proof -
  have "length (filter (\<lambda>t. tr_completed t \<and> tr_result t = PASS) ts) +
      length (filter (\<lambda>t. tr_completed t \<and> tr_result t = FAIL) ts) = length (filter tr_completed ts)" for ts
  proof (induction ts)
    case (Cons t ts)
    then show ?case by (cases "tr_result t") auto
  qed simp
  then show ?thesis by (simp add: summary_def summarize_counts)
qed

text \<open>C20: an upload document is built only for a completed session, and a receiver that parses
  it reads status PASS exactly when every test passed, the serial number, and under each test's
  id whether it passed.\<close>

theorem upload_result_faithful:
  assumes inv: "session_inv e s" and c: "cj_documented c" and plain: "session_plain c s"
    and nonempty: "build_upload_result_json c b formatted s \<noteq> []"
  shows "\<exists>tree. cj_parse c (build_upload_result_json c b formatted s) = Some tree \<and>
     sm_state s = COMPLETED \<and>
     json_string tree ''status'' = Some (if list_all (\<lambda>t. tr_result t = PASS) (sm_tests s) then ''PASS'' else ''FAIL'') \<and>
     json_string tree ''sn'' = Some (md_serial_number (sm_metadata s)) \<and>
     (\<forall>t\<in>set (sm_tests s). json_member (json_member_or_null tree ''test_details'') (tr_id t) = Some (JBool (tr_result t = PASS)))"
proof -
  have built: "build_upload_result_json c b formatted s = print_json c formatted (upload_tree s)"
    and st: "sm_state s = COMPLETED"
    using nonempty by (auto simp: build_upload_result_json_def split: if_splits)
  have parsed: "cj_parse c (build_upload_result_json c b formatted s) = Some (upload_tree s)"
    using print_json_parse [OF c upload_kept [OF c plain], of formatted] nonempty by (simp add: built)
  have done': "list_all tr_completed (sm_tests s)" and d: "distinct (map tr_id (sm_tests s))"
    using inv st by (auto simp: session_inv_def shape_inv_def test_ids_def)
  let ?d = "JObj (map (\<lambda>t. (tr_id t, JBool (tr_result t = PASS))) (sm_tests s))"
  have details: "json_member_or_null (upload_tree s) ''test_details'' = ?d"
    using plain done' by (auto simp: json_member_or_null_def upload_tree_def session_plain_def record_plain_def list_all_iff)
  have "json_string (upload_tree s) ''status'' = Some (if list_all (\<lambda>t. tr_result t = PASS) (sm_tests s) then ''PASS'' else ''FAIL'')"
    using done' by (auto simp: upload_tree_def result_header_def json_string_def session_passed_all list_all_iff)
  moreover have "json_string (upload_tree s) ''sn'' = Some (md_serial_number (sm_metadata s))"
    using plain by (simp add: upload_tree_def result_header_def json_string_def session_plain_def metadata_plain_def)
  ultimately show ?thesis
    using parsed st details map_of_ids [OF d, where f = "\<lambda>t. JBool (tr_result t = PASS)"] by (intro exI [of _ "upload_tree s"]) simp
qed

theorem upload_result_faithful_witness:
  "\<exists>tree. cj_parse (one_document (upload_tree demo_done)) ''J'' = Some tree \<and>
     json_string tree ''status'' = Some ''PASS''"
proof -
  let ?c = "one_document (upload_tree demo_done)"
  have "session_inv (quiet_env constant_printer) demo_done"
    by (simp add: session_inv_def shape_inv_def durable_def doc_text_def print_json_def one_document_def
        quiet_env_def constant_printer_def demo_done_def demo_def demo_tests_def paths_ok_def test_ids_def
        record_inv_def smap_valid_def test_record_default_def)
  moreover have "session_plain ?c demo_done"
    using demo_plain [of "upload_tree demo_done"] 
    by (simp add: session_plain_def demo_done_def demo_def demo_tests_def)
  moreover have "build_upload_result_json ?c BuildOk False demo_done = ''J''"
    by (simp add: build_upload_result_json_def build_error_def print_json_def one_document_def)
      (simp add: demo_done_def demo_def demo_tests_def)
  ultimately show ?thesis
    using upload_result_faithful [of "quiet_env constant_printer" demo_done ?c BuildOk False]
      one_document_documented [of "upload_tree demo_done"]
    by (auto simp: demo_done_def demo_tests_def)
qed

end
