(* ===== verification/SessionRuns.thy ===== *)
theory SessionRuns
  imports SessionTheorems
begin

section \<open>SessionRuns: every public operation in any order, restoring included\<close>

text \<open>
  The manager's public operations that change it are the calls of \<open>session_call\<close> and
  \<open>load_latest_recoverable\<close>, which replaces the session by the one in the newest session
  file. A run here is any list of both. \<open>outcome\<close> describes what one call does in general:
  it keeps the session and its file, or it saves a new state. The file of a session is the
  document of its state once something has been saved, and the document it was restored
  from before.
\<close>

subsection \<open>Runs\<close>

text \<open>\<open>Restore listing plan\<close> restores from a directory with that listing for that plan.\<close>

datatype manager_call =
    Operate session_call
  | Restore "dir_entry list option" "test_definition list"

fun manager_step :: "session_env \<Rightarrow> manager_call \<Rightarrow> session_manager \<Rightarrow> session_manager" where
  "manager_step e (Operate c) s = snd (call e c s)"
| "manager_step e (Restore listing plan) s = snd (load_latest_recoverable e listing plan s)"

fun manager_run :: "session_env \<Rightarrow> manager_call list \<Rightarrow> session_manager \<Rightarrow> session_manager" where
  "manager_run e [] s = s"
| "manager_run e (c # cs) s = manager_run e cs (manager_step e c s)"

subsection \<open>What a call does\<close>

text \<open>Kept: the fields, and the session file where the result file is a different one.\<close>

definition kept :: "session_manager \<Rightarrow> session_manager \<Rightarrow> bool" where
  "kept s s' \<longleftrightarrow> core s' = core s \<and>
     (paths_ok s \<longrightarrow> sm_files s' (sm_session_path s) = sm_files s (sm_session_path s))"

definition outcome :: "session_env \<Rightarrow> session_manager \<Rightarrow> session_manager \<Rightarrow> bool" where
  "outcome e s s' \<longleftrightarrow> kept s s' \<or>
     (\<exists>x. (shape_inv s \<longrightarrow> shape_inv x) \<and> sm_state x \<noteq> NONE \<and>
       (sm_state x = COMPLETED \<longrightarrow> list_all tr_completed (sm_tests x)) \<and>
       (sm_current_test_id x = [] \<or> sm_state x = IN_PROGRESS) \<and>
       sm_updated_at x \<noteq> [] \<and> fst (persist e x) \<and> s' = snd (persist e x))"

lemma outcome_keptI: "kept s s' \<Longrightarrow> outcome e s s'"
  by (simp add: outcome_def)

lemma unchanged_kept: "unchanged s s' \<Longrightarrow> kept s s'"
  by (simp add: unchanged_def kept_def)

lemma kept_refl [simp]: "kept s s"
  by (simp add: kept_def)

lemma outcome_savedI:
  assumes "shape_inv s \<Longrightarrow> shape_inv x" "sm_state x = IN_PROGRESS" "sm_updated_at x \<noteq> []"
    "fst (persist e x)" "s' = snd (persist e x)"
  shows "outcome e s s'"
  using assms by (auto simp: outcome_def)

lemma abandon_outcome: "outcome e s (snd (abandon e s))"
proof (cases "sm_state s = IN_PROGRESS \<and> fst (abandon e s)")
  case True
  let ?x = "(tick (s\<lparr>sm_state := ABANDONED, sm_current_test_id := []\<rparr>))
      \<lparr>sm_updated_at := iso_timestamp (se_clock e (sm_steps s))\<rparr>"
  have "fst (persist e ?x)" "snd (abandon e s) = snd (persist e ?x)"
    using True by (auto simp: abandon_def session_simps split: if_splits)
  moreover have "shape_inv s \<Longrightarrow> shape_inv ?x"
    using True by (auto simp: shape_inv_def paths_ok_def test_ids_def tick_def)
  ultimately show ?thesis
    unfolding outcome_def by (intro disjI2 exI [of _ ?x]) (simp add: tick_def)
next
  case False
  then show ?thesis
    using abandon_rollback [of e s]
    by (intro outcome_keptI) (cases "sm_state s = IN_PROGRESS", auto simp: abandon_def intro: unchanged_kept)
qed

lemma set_current_test_outcome: "outcome e s (snd (set_current_test e i s))"
proof (cases "fst (set_current_test e i s) \<and> sm_current_test_id s \<noteq> i")
  case True
  let ?x = "(tick (s\<lparr>sm_current_test_id := i\<rparr>))\<lparr>sm_updated_at := iso_timestamp (se_clock e (sm_steps s))\<rparr>"
  have eq: "fst (persist e ?x)" "snd (set_current_test e i s) = snd (persist e ?x)"
    and a: "active s" "find_test i (sm_tests s) \<noteq> None"
    using True by (auto simp: set_current_test_def session_simps split: if_splits)
  have "shape_inv s \<Longrightarrow> shape_inv ?x"
    using a by (auto simp: shape_inv_def paths_ok_def test_ids_def tick_def active_def find_test_None_iff)
  moreover have "sm_state ?x = IN_PROGRESS" "sm_updated_at ?x \<noteq> []"
    using a by (simp_all add: active_def tick_def)
  ultimately show ?thesis using eq by (intro outcome_savedI)
next
  case False
  then show ?thesis
    using set_current_test_rollback [of e i s]
    by (intro outcome_keptI)
      (cases "fst (set_current_test e i s)",
        auto simp: set_current_test_def session_simps intro: unchanged_kept split: if_splits)
qed

lemma begin_test_outcome: "outcome e s (snd (begin_test e i s))"
proof (cases "fst (begin_test e i s)")
  case True
  show ?thesis
  proof (cases rule: begin_test_cases [of e i s])
    case (begun n)
    have "fst (persist e (begun e i n s))" "snd (begin_test e i s) = snd (persist e (begun e i n s))"
      using begun(3) True by (auto simp: Let_def split: if_splits)
    then show ?thesis
      using begun(1) by (intro outcome_savedI) (auto simp: prepared_shape available_def active_def)
  qed (use True in simp)
qed (blast intro: outcome_keptI unchanged_kept begin_test_rollback)

lemma record_evidence_outcome: "outcome e s (snd (record_evidence e i ev s))"
proof (cases "fst (record_evidence e i ev s)")
  case True
  show ?thesis
  proof (cases rule: record_evidence_cases [of e i ev s])
    case (recorded n)
    have "fst (persist e (recorded e ev n s))"
      "snd (record_evidence e i ev s) = snd (persist e (recorded e ev n s))"
      using recorded(5) True by (auto simp: Let_def split: if_splits)
    then show ?thesis
      using recorded(1,4) by (intro outcome_savedI) (auto simp: prepared_shape available_def active_def)
  qed (use True in simp)
qed (blast intro: outcome_keptI unchanged_kept record_evidence_rollback)

text \<open>A failed \<open>finalize\<close> keeps the fields in any case; the result file it may have written
  is the session file only where \<open>paths_ok\<close> does not hold.\<close>

lemma finalize_failed_core: "\<not> fst (finalize e s) \<Longrightarrow> core (snd (finalize e s)) = core s"
  by (cases rule: finalize_cases [of s e]) (auto simp: core_def Let_def split: if_splits)

lemma finalize_outcome: "outcome e s (snd (finalize e s))"
proof (cases "fst (finalize e s)")
  case True
  show ?thesis
  proof (cases rule: finalize_cases [of s e])
    case closing
    let ?w = "snd (write_result e (closing e s))"
    have "fst (persist e ?w)" "snd (finalize e s) = snd (persist e ?w)"
      using closing(3) True by (auto simp: Let_def split: if_splits)
    moreover have "shape_inv s \<Longrightarrow> shape_inv ?w"
      using closing(1,2) by (auto simp: shape_inv_def paths_ok_def test_ids_def next_incomplete_all active_def)
    moreover have "list_all tr_completed (sm_tests ?w)"
      using closing(2) by (simp add: next_incomplete_all)
    ultimately show ?thesis
      unfolding outcome_def by (intro disjI2 exI [of _ ?w]) simp
  qed (use True in \<open>auto simp: outcome_keptI\<close>)
next
  case False
  then show ?thesis
    using finalize_failed_core finalize_rollback [of s e]
    by (intro outcome_keptI) (auto simp: kept_def unchanged_def)
qed

lemma complete_test_outcome:
  "\<exists>m. outcome e s m \<and> outcome e m (snd (complete_test e i r ds s))"
proof (cases rule: complete_test_cases [of e i r ds s])
  case unavailable
  then show ?thesis by (intro exI [of _ s]) (auto simp: kept_def intro!: outcome_keptI)
next
  case (completing n)
  let ?p = "persist e (completing e r ds n s)"
  show ?thesis
  proof (cases "fst ?p")
    case True
    have "outcome e s (snd ?p)"
      using True completing(1)
      by (intro outcome_savedI [of _ "completing e r ds n s"]) (auto simp: prepared_shape available_def active_def)
    moreover have "outcome e (snd ?p) (snd (complete_test e i r ds s))"
      using True completing(2) finalize_outcome by (auto simp: Let_def intro: outcome_keptI)
    ultimately show ?thesis by blast
  next
    case False
    with completing(2) persist_failed [of "completing e r ds n s" e]
    have "unchanged s (snd (complete_test e i r ds s))"
      by (auto simp: unchanged_def core_def Let_def prepared_test_back)
    then show ?thesis by (intro exI [of _ s]) (auto intro: outcome_keptI unchanged_kept)
  qed
qed

text \<open>Starting a session abandons the one before, and saves the new one or ends without one.\<close>

lemma start_new_outcome:
  "\<exists>m. outcome e s m \<and> (outcome e m (snd (start_new e plan md s)) \<or>
     sm_state (snd (start_new e plan md s)) = NONE \<and> shape_inv (snd (start_new e plan md s)) \<or>
     (\<exists>x. shape_inv x \<and> sm_state x = IN_PROGRESS \<and> sm_current_test_id x = [] \<and> sm_updated_at x \<noteq> [] \<and>
        fst (persist e x) \<and> snd (start_new e plan md s) = snd (persist e x)))"
proof -
  let ?s0 = "s\<lparr>sm_last_error := []\<rparr>"
  let ?a = "if sm_state s = IN_PROGRESS then abandon e ?s0 else (True, ?s0)"
  let ?x = "open_session e plan md (reset (snd ?a))"
  have k: "kept s ?s0" "kept s (set_error m ?s0)" for m
    by (simp_all add: kept_def core_def set_error_def)
  have o0: "outcome e s x" if "outcome e ?s0 x" for x
    using that unfolding outcome_def kept_def
    by (simp add: core_def shape_inv_def paths_ok_def test_ids_def)
  have a: "outcome e s (snd ?a)"
    using o0 abandon_outcome k by (simp add: outcome_keptI)
  show ?thesis
  proof (cases "plan \<noteq> [] \<and> valid_plan plan [] \<and> fst ?a")
    case True
    have sh: "shape_inv ?x" using True by (simp add: open_session_shape)
    have cur: "sm_current_test_id ?x = []" by (simp add: reset_def)
    have u: "sm_updated_at ?x \<noteq> []" by simp
    have r: "start_new e plan md s = (if fst (persist e ?x) then (True, snd (persist e ?x))
        else (False, (reset (snd (persist e ?x)))\<lparr>sm_last_error := sm_last_error (snd (persist e ?x))\<rparr>))"
      using True by (cases "persist e ?x"; cases ?a)
        (auto simp: start_new_def Let_def split: if_splits bool.splits)
    have n: "sm_state ((reset y)\<lparr>sm_last_error := l\<rparr>) = NONE \<and> shape_inv ((reset y)\<lparr>sm_last_error := l\<rparr>)" for y l
      by (simp add: shape_inv_def reset_def)
    show ?thesis
    proof (cases "fst (persist e ?x)")
      case True
      then show ?thesis using a sh u cur r open_session_frame(1)
        by (intro exI [of _ "snd ?a"] conjI disjI2 exI [of _ ?x]) simp_all
    next
      case False
      then show ?thesis using a r n by (intro exI [of _ "snd ?a"]) simp
    qed
  next
    case False
    then have "snd (start_new e plan md s) = snd ?a \<or> (\<exists>m. snd (start_new e plan md s) = set_error m ?s0)"
      by (cases ?a) (auto simp: start_new_def Let_def split: if_splits bool.splits)
    then show ?thesis
    proof
      assume "snd (start_new e plan md s) = snd ?a"
      then show ?thesis using a by (intro exI [of _ "snd ?a"]) (simp add: outcome_keptI)
    next
      assume "\<exists>m. snd (start_new e plan md s) = set_error m ?s0"
      then show ?thesis using k by (intro exI [of _ s]) (auto intro: outcome_keptI)
    qed
  qed
qed

text \<open>An invariant that keeping and saving preserve, and that holds without a session and of
  a session saved when it starts, is preserved by every call.\<close>

lemma call_preserves:
  assumes p: "P s"
    and kept: "\<And>s s'. outcome e s s' \<Longrightarrow> P s \<Longrightarrow> P s'"
    and none: "\<And>s. sm_state s = NONE \<Longrightarrow> shape_inv s \<Longrightarrow> P s"
    and fresh: "\<And>x. shape_inv x \<Longrightarrow> sm_state x = IN_PROGRESS \<Longrightarrow> sm_current_test_id x = [] \<Longrightarrow>
      sm_updated_at x \<noteq> [] \<Longrightarrow> fst (persist e x) \<Longrightarrow> P (snd (persist e x))"
  shows "P (snd (call e c s))"
proof (cases c)
  case (CallStart plan md)
  obtain m where m: "outcome e s m" and alt: "outcome e m (snd (start_new e plan md s)) \<or>
     sm_state (snd (start_new e plan md s)) = NONE \<and> shape_inv (snd (start_new e plan md s)) \<or>
     (\<exists>x. shape_inv x \<and> sm_state x = IN_PROGRESS \<and> sm_current_test_id x = [] \<and> sm_updated_at x \<noteq> [] \<and>
        fst (persist e x) \<and> snd (start_new e plan md s) = snd (persist e x))"
    using start_new_outcome by blast
  have "P m" using kept m p .
  with alt kept none fresh show ?thesis using CallStart by auto
next
  case (CallComplete i r ds)
  obtain m where "outcome e s m" "outcome e m (snd (complete_test e i r ds s))"
    using complete_test_outcome by blast
  with kept p show ?thesis using CallComplete by auto
qed (simp_all add: kept [OF abandon_outcome p] kept [OF set_current_test_outcome p]
    kept [OF begin_test_outcome p] kept [OF record_evidence_outcome p] kept [OF finalize_outcome p])

subsection \<open>Restoring\<close>

text \<open>The fields of the session are those read from the text, with the names of the plan.\<close>

definition restored_text :: "session_env \<Rightarrow> string \<Rightarrow> session_manager \<Rightarrow> bool" where
  "restored_text e tx s \<longleftrightarrow>
     (case parse_session_document (se_json e) tx of
        Inl _ \<Rightarrow> False
      | Inr l \<Rightarrow> ls_state l = IN_PROGRESS \<and> match_plan (ls_tests l) (plan_of s) = Some (sm_tests s) \<and>
          core s = core (install_loaded (sm_session_path s) l (sm_tests s) s))"

lemma match_plan_result:
  "match_plan ts ds = Some us \<Longrightarrow>
     ds = map (\<lambda>t. \<lparr>td_id = tr_id t, td_name = tr_name t\<rparr>) us \<and> map tr_id us = map tr_id ts \<and>
     list_all record_inv us = list_all record_inv ts"
proof (induction ts ds arbitrary: us rule: match_plan.induct)
  case (2 t ts d ds)
  have "record_inv (t\<lparr>tr_name := n\<rparr>) = record_inv t" for n by (simp add: record_inv_def)
  with 2 show ?case by (auto split: if_splits)
qed auto

lemma install_loaded_core:
  "core (install_loaded path l ts s) = core (install_loaded path l ts s')"
  "core (install_loaded path l ts (reset s)) = core (install_loaded path l ts s)"
  by (simp_all add: install_loaded_def core_def)

text \<open>Restoring fails and leaves no session, or installs the session of the newest file.\<close>

lemma restore_cases:
  obtains (failed) "sm_state (snd (load_latest_recoverable e listing plan s)) = NONE"
      "shape_inv (snd (load_latest_recoverable e listing plan s))"
  | (restored) entries path tm tx l ts where "listing = Some entries"
      "scan_sessions entries False None = Some (path, tm)" "sm_files s path = Some tx" "tx \<noteq> []"
      "parse_session_document (se_json e) tx = Inr l" "ls_state l = IN_PROGRESS"
      "match_plan (ls_tests l) plan = Some ts"
      "snd (load_latest_recoverable e listing plan s) = install_loaded path l ts (reset s)"
proof (cases "fst (load_latest_recoverable e listing plan s)")
  case False
  then have "snd (load_latest_recoverable e listing plan s) = reset s"
    by (simp add: load_latest_recoverable_def Let_def split: option.splits prod.splits sum.splits if_splits)
  then show thesis by (intro failed) (simp_all add: reset_def shape_inv_def)
next
  case True
  obtain entries where l: "listing = Some entries"
    using True by (cases listing) (auto simp: load_latest_recoverable_def Let_def)
  obtain path tm where sc: "scan_sessions entries False None = Some (path, tm)"
    using True by (cases "scan_sessions entries False None") (auto simp: load_latest_recoverable_def Let_def l)
  have files: "sm_files (reset s) = sm_files s" by (simp add: reset_def)
  obtain tx where f: "sm_files s path = Some tx" and t: "tx \<noteq> []"
    using True
    by (cases "sm_files s path") (auto simp: load_latest_recoverable_def Let_def l sc files split: if_splits)
  obtain d where d: "parse_session_document (se_json e) tx = Inr d" "ls_state d = IN_PROGRESS"
    using True t
    by (cases "parse_session_document (se_json e) tx")
      (auto simp: load_latest_recoverable_def Let_def l sc files f split: if_splits)
  obtain ts where m: "match_plan (ls_tests d) plan = Some ts"
    using True t d
    by (cases "match_plan (ls_tests d) plan") (auto simp: load_latest_recoverable_def Let_def l sc files f)
  show thesis
    by (rule restored [OF l sc f t d m])
      (use t d m in \<open>simp add: load_latest_recoverable_def Let_def l sc files f\<close>)
qed

subsection \<open>The file and the state\<close>

definition file_current :: "session_env \<Rightarrow> session_manager \<Rightarrow> bool" where
  "file_current e s \<longleftrightarrow> sm_state s = NONE \<or> \<not> paths_ok s \<or>
     (\<exists>tx. sm_files s (sm_session_path s) = Some tx \<and> (tx = doc_text e s \<or> restored_text e tx s))"

lemma restored_text_core:
  assumes "core s' = core s"
  shows "restored_text e tx s' = restored_text e tx s"
proof -
  have e: "sm_session_path s' = sm_session_path s" "sm_tests s' = sm_tests s"
    using assms by (simp_all add: core_def)
  have "core (install_loaded path l ts s') = core (install_loaded path l ts s)" for path l ts
    by (rule install_loaded_core)
  then show ?thesis by (simp add: restored_text_def plan_of_def e assms cong: sum.case_cong)
qed

lemma saved_file:
  assumes "sm_updated_at x \<noteq> []" "fst (persist e x)"
  shows "sm_files (snd (persist e x)) (sm_session_path (snd (persist e x))) =
    Some (doc_text e (snd (persist e x)))"
  using assms persist_stored [OF assms] doc_text_core [OF persist_core [OF assms(1)]] by simp

lemma outcome_current:
  assumes "outcome e s s'" "file_current e s"
  shows "file_current e s'"
proof (cases "kept s s'")
  case True
  then have c: "core s' = core s" by (simp add: kept_def)
  then have f: "sm_state s' = sm_state s" "sm_session_path s' = sm_session_path s" "paths_ok s' = paths_ok s"
    by (simp_all add: core_def paths_ok_def)
  show ?thesis
    using assms(2) True
    by (auto simp: file_current_def f doc_text_core [OF c] restored_text_core [OF c] kept_def)
next
  case False
  then show ?thesis using assms(1) saved_file by (auto simp: outcome_def file_current_def)
qed

lemma load_current: "file_current e (snd (load_latest_recoverable e listing plan s))"
proof (cases rule: restore_cases [of e listing plan s])
  case failed
  then show ?thesis by (simp add: file_current_def)
next
  case (restored entries path tm tx l ts)
  let ?s = "install_loaded path l ts (reset s)"
  have "restored_text e tx ?s"
    using restored(5,6,7) match_plan_result [OF restored(7)]
    by (simp add: restored_text_def plan_of_def install_loaded_def core_def)
  moreover have "sm_files ?s (sm_session_path ?s) = Some tx"
    using restored(3) by (simp add: install_loaded_def reset_def)
  ultimately show ?thesis by (simp add: restored(8) file_current_def)
qed

lemma step_current: "file_current e s \<Longrightarrow> file_current e (manager_step e c s)"
proof (cases c)
  case (Operate d)
  assume "file_current e s"
  then have "file_current e (snd (call e d s))"
    by (rule call_preserves [of "file_current e"])
      (erule outcome_current, assumption, simp_all add: file_current_def saved_file del: persist_frame)
  then show ?thesis by (simp add: Operate)
qed (simp add: load_current)

lemma run_current: "file_current e s \<Longrightarrow> file_current e (manager_run e cs s)"
  by (induction cs arbitrary: s) (simp_all add: step_current)

subsection \<open>The shape of the session\<close>

text \<open>The part of the shape that holds whatever file was restored.\<close>

definition loose_inv :: "session_manager \<Rightarrow> bool" where
  "loose_inv s \<longleftrightarrow> (sm_state s = NONE \<longrightarrow> sm_tests s = []) \<and>
     (sm_state s = COMPLETED \<longrightarrow> list_all tr_completed (sm_tests s)) \<and>
     (sm_current_test_id s = [] \<or> sm_state s = IN_PROGRESS)"

lemma outcome_loose: "outcome e s s' \<Longrightarrow> loose_inv s \<Longrightarrow> loose_inv s'"
  by (auto simp: outcome_def kept_def loose_inv_def core_def)

lemma outcome_shape:
  assumes "outcome e s s'" "shape_inv s"
  shows "shape_inv s'"
  using assms shape_inv_core persist_core by (fastforce simp: outcome_def kept_def)

text \<open>A file that a session manager wrote for a session of its own.\<close>

definition written_session :: "session_env \<Rightarrow> string \<Rightarrow> string \<Rightarrow> bool" where
  "written_session e path tx \<longleftrightarrow> (\<exists>x. shape_inv x \<and> sm_state x \<noteq> NONE \<and>
     session_plain (se_json e) x \<and> sm_session_path x = path \<and> doc_text e x = tx)"

fun restores_written :: "session_env \<Rightarrow> manager_call list \<Rightarrow> session_manager \<Rightarrow> bool" where
  "restores_written e [] s = True"
| "restores_written e (Operate c # cs) s = restores_written e cs (manager_step e (Operate c) s)"
| "restores_written e (Restore listing plan # cs) s =
     ((case listing of
         None \<Rightarrow> True
       | Some entries \<Rightarrow>
           (case scan_sessions entries False None of
              None \<Rightarrow> True
            | Some (path, _) \<Rightarrow>
                (case sm_files s path of None \<Rightarrow> True | Some tx \<Rightarrow> tx = [] \<or> written_session e path tx))) \<and>
      restores_written e cs (manager_step e (Restore listing plan) s))"

lemma install_shape:
  assumes x: "shape_inv x" "sm_state x = IN_PROGRESS"
    and ts: "map tr_id ts = test_ids x" "list_all record_inv ts"
  shows "shape_inv (install_loaded (sm_session_path x) (loaded_of x) ts r)"
proof -
  let ?s = "install_loaded (sm_session_path x) (loaded_of x) ts r"
  have "test_ids ?s = test_ids x" "sm_state ?s = IN_PROGRESS" "paths_ok ?s = paths_ok x" "sm_tests ?s = ts"
    "sm_session_path ?s = sm_session_path x" "sm_session_id ?s = sm_session_id x"
    "sm_updated_at ?s = sm_updated_at x" "sm_current_test_id ?s = sm_current_test_id x"
    using x ts by (auto simp: install_loaded_def loaded_of_def test_ids_def paths_ok_def shape_inv_def)
  moreover have "ts \<noteq> []" using x ts by (auto simp: shape_inv_def test_ids_def)
  ultimately show ?thesis using x ts(2) by (simp add: shape_inv_def)
qed

lemma load_shape:
  assumes c: "cj_documented (se_json e)" and w: "restores_written e (Restore listing plan # cs) s"
  shows "shape_inv (snd (load_latest_recoverable e listing plan s))"
proof (cases rule: restore_cases [of e listing plan s])
  case (restored entries path tm tx l ts)
  obtain x where x: "shape_inv x" "sm_state x \<noteq> NONE" "session_plain (se_json e) x"
      "sm_session_path x = path" "doc_text e x = tx"
    using w restored(1-4) by (auto simp: written_session_def)
  have l: "l = loaded_of x"
    using document_back [OF c x(3)] x restored(4,5) by (simp add: doc_text_def shape_inv_def)
  have "list_all record_inv (sm_tests x)" using x(1) by (simp add: shape_inv_def)
  then have "shape_inv (install_loaded (sm_session_path x) (loaded_of x) ts (reset s))"
    using x(1) restored(6) match_plan_result [OF restored(7)]
    by (intro install_shape) (simp_all add: l loaded_of_def test_ids_def)
  then show ?thesis by (simp add: restored(8) l x(4))
qed simp

lemma run_loose: "loose_inv s \<Longrightarrow> loose_inv (manager_run e cs s)"
proof (induction cs arbitrary: s)
  case (Cons c cs)
  have "loose_inv (manager_step e c s)"
  proof (cases c)
    case (Operate d)
    have "loose_inv (snd (call e d s))"
      using Cons.prems by (rule call_preserves [of loose_inv])
        (erule outcome_loose, assumption, simp_all add: loose_inv_def shape_inv_def)
    then show ?thesis by (simp add: Operate)
  next
    case (Restore listing plan)
    show ?thesis unfolding Restore
      by (cases rule: restore_cases [of e listing plan s])
        (auto simp: loose_inv_def shape_inv_def install_loaded_def)
  qed
  then show ?case using Cons.IH by simp
qed simp

lemma run_shape:
  assumes c: "cj_documented (se_json e)"
  shows "restores_written e cs s \<Longrightarrow> shape_inv s \<Longrightarrow> shape_inv (manager_run e cs s)"
proof (induction cs arbitrary: s)
  case (Cons m cs)
  show ?case
  proof (cases m)
    case (Operate d)
    have "shape_inv (snd (call e d s))"
      using Cons.prems(2) by (rule call_preserves [of shape_inv])
        (erule outcome_shape, assumption, assumption, rule shape_inv_core [OF persist_core])
    then show ?thesis using Cons Operate by simp
  next
    case (Restore listing plan)
    have "shape_inv (manager_step e m s)"
      using load_shape [OF c, of listing plan cs s] Cons.prems(1) by (simp only: Restore manager_step.simps)
    then show ?thesis using Cons.IH [of "manager_step e m s"] Cons.prems(1) Restore by simp
  qed
qed simp

subsection \<open>A run that starts a session and restores it\<close>

definition restart_run :: "manager_call list" where
  "restart_run =
     [Operate (CallStart [\<lparr>td_id = ''a'', td_name = ''A''\<rparr>] metadata_default),
      Restore (Some [\<lparr>de_path = sm_session_path started, de_regular = Some True, de_mtime = Some 5\<rparr>])
        (plan_of started)]"

lemma load_files [simp]: "sm_files (snd (load_latest_recoverable e listing plan s)) = sm_files s"
  by (auto simp: load_latest_recoverable_def Let_def install_loaded_def reset_def
      split: option.splits sum.splits)

lemma restart_scan:
  "scan_sessions [\<lparr>de_path = sm_session_path started, de_regular = Some True, de_mtime = Some 5\<rparr>] False None
    = Some (sm_session_path started, 5)"
  by (simp add: started_def) code_simp

lemma started_inv: "session_inv started_env started"
  using reachable_inv [of started_env start_run "\<lambda>p. None"] by (simp add: started_env_run)

lemma started_env_facts:
  "cj_documented (se_json started_env)" "session_plain (se_json started_env) started" "active started"
  by (simp_all add: started_env_def quiet_env_def one_document_documented started_plain)
    (simp add: started_def active_def)

lemma restart_first:
  "snd (start_new started_env [\<lparr>td_id = ''a'', td_name = ''A''\<rparr>] metadata_default
     (initial_manager (\<lambda>p. None))) = started"
  using started_env_run by (simp add: start_run_def)

lemma restart_reached:
  "core (manager_run started_env restart_run (initial_manager (\<lambda>p. None))) = core started"
  "sm_files (manager_run started_env restart_run (initial_manager (\<lambda>p. None))) = sm_files started"
  using recovery_back(2) [OF started_env_facts(1,2) started_inv started_env_facts(3) refl restart_scan]
  by (simp_all add: restart_run_def restart_first)

lemma restart_written:
  "restores_written started_env restart_run (initial_manager (\<lambda>p. None))"
proof -
  have "\<exists>tx. sm_files started (sm_session_path started) = Some tx \<and>
      written_session started_env (sm_session_path started) tx"
    using started_inv started_env_facts(2)
    by (auto simp: written_session_def session_inv_def durable_def started_def)
  then show ?thesis
    by (auto simp: restart_run_def restart_first restart_scan)
qed

subsection \<open>The properties\<close>

text \<open>C1: whatever public operations are called, restoring included, in whatever order and
  with whatever outcomes of the clock, the JSON library and the file system: a session whose
  result file is not its session file (or one's temporary file the other) has in its file
  either the whole document of its state, or, while nothing has been saved since it was
  restored, the document it was restored from. So the file never lags behind a successful
  call and never shows a failed one. Every session that is started names a result file of
  its own; only a restored file can name one that is not, and there \<open>finalize\<close> may
  overwrite the session file.\<close>

theorem session_file_current:
  "let s = manager_run e cs (initial_manager files) in
   sm_state s = NONE \<or> \<not> paths_ok s \<or>
   (\<exists>tx. sm_files s (sm_session_path s) = Some tx \<and> (tx = doc_text e s \<or> restored_text e tx s))"
  using run_current [of e "initial_manager files" cs]
  by (simp add: file_current_def Let_def initial_manager_def)

theorem session_file_current_witness:
  "let s = manager_run started_env restart_run (initial_manager (\<lambda>p. None)) in
   sm_state s = IN_PROGRESS \<and>
   (\<exists>tx. sm_files s (sm_session_path s) = Some tx \<and> (tx = doc_text started_env s \<or> restored_text started_env tx s))"
proof -
  let ?s = "manager_run started_env restart_run (initial_manager (\<lambda>p. None))"
  have "sm_state ?s = IN_PROGRESS" "paths_ok ?s"
    using restart_reached(1) started_inv started_env_facts(3)
    by (simp_all add: core_def paths_ok_def session_inv_def shape_inv_def active_def)
  then show ?thesis
    using session_file_current [of started_env restart_run "\<lambda>p. None"] by (simp add: Let_def)
qed

text \<open>C18: every reachable manager, whatever it restored: without a session it has no tests, a
  completed session has every test completed, and only a session in progress has a current
  test. If besides each file it restored from was written by a session manager (and cJSON is
  as documented), the test ids are distinct and not empty, the current test is one of
  them, and the session, result and temporary files are different files.\<close>

theorem reachable_well_formed:
  "let s = manager_run e cs (initial_manager files) in
   (sm_state s = NONE \<longrightarrow> sm_tests s = []) \<and>
   (sm_state s = COMPLETED \<longrightarrow> list_all tr_completed (sm_tests s)) \<and>
   (sm_current_test_id s = [] \<or> sm_state s = IN_PROGRESS) \<and>
   (cj_documented (se_json e) \<and> restores_written e cs (initial_manager files) \<longrightarrow>
      distinct (test_ids s) \<and> [] \<notin> set (test_ids s) \<and>
      (sm_current_test_id s = [] \<or> sm_current_test_id s \<in> set (test_ids s)) \<and>
      (sm_state s = NONE \<or> paths_ok s))"
proof -
  let ?s = "manager_run e cs (initial_manager files)"
  have i: "shape_inv (initial_manager files)" "loose_inv (initial_manager files)"
    by (simp_all add: shape_inv_def loose_inv_def initial_manager_def)
  have "shape_inv ?s" if "cj_documented (se_json e) \<and> restores_written e cs (initial_manager files)"
    using that i by (blast intro: run_shape)
  moreover have "loose_inv ?s" using i by (simp add: run_loose)
  ultimately show ?thesis
    by (cases "sm_state ?s = NONE") (auto simp: shape_inv_def loose_inv_def Let_def test_ids_def)
qed

theorem reachable_well_formed_witness:
  "let s = manager_run started_env restart_run (initial_manager (\<lambda>p. None)) in
   sm_state s = IN_PROGRESS \<and> test_ids s = [''a''] \<and> distinct (test_ids s) \<and> paths_ok s"
proof -
  have "sm_state started = IN_PROGRESS" "test_ids started = [''a'']"
    by (simp_all add: started_def test_ids_def fresh_record_def)
  then show ?thesis
    using reachable_well_formed [of started_env restart_run "\<lambda>p. None"] restart_written
      started_env_facts(1) restart_reached(1)
    by (simp add: Let_def core_def test_ids_def)
qed

end
