(* ===== verification/Serialization.thy ===== *)
theory Serialization
  imports Json
begin

section \<open>Serialization: output values, their JSON text and its reading\<close>

text \<open>
  src/src/serialization/serialization.cpp: the value type \<open>OutputValue\<close>, its construction
  from a cJSON tree and its two printers, the compact and the indented one. The printers are
  the program's own, so what they print is compared with a reference reader of JSON,
  \<open>json_read\<close>: a reader that accepts a text the reference accepts reads the same tree. The
  YAML half of the file is not modelled.
\<close>

subsection \<open>OutputValue\<close>

datatype output_value =
    OVNull
  | OVBoolean bool
  | OVNumber dbl
  | OVString string
  | OVArray "output_value list"
  | OVObject "(string \<times> output_value) list"

text \<open>An object's members are a \<open>std::map\<close>: sorted, each key once, at every level.\<close>

fun ov_valid :: "output_value \<Rightarrow> bool" where
  "ov_valid (OVArray vs) = list_all ov_valid vs"
| "ov_valid (OVObject kvs) = (smap_valid kvs \<and> list_all (\<lambda>(k, v). ov_valid v) kvs)"
| "ov_valid _ = True"

text \<open>The factory \<open>object\<close> of an initializer list: a \<open>std::map\<close> built by insertion.\<close>

definition ov_object :: "(string \<times> output_value) list \<Rightarrow> output_value" where
  "ov_object kvs = OVObject (fold (\<lambda>(k, v). smap_emplace k v) kvs [])"

fun output_value_from_json :: "json \<Rightarrow> output_value" where
  "output_value_from_json JNull = OVNull"
| "output_value_from_json (JBool b) = OVBoolean b"
| "output_value_from_json (JNum d) = OVNumber d"
| "output_value_from_json (JStr s) = OVString s"
| "output_value_from_json (JArr js) = OVArray (map output_value_from_json js)"
| "output_value_from_json (JObj kvs) =
     OVObject (fold (\<lambda>(k, v). smap_emplace k v) (map (\<lambda>(k, j). (k, output_value_from_json j)) kvs) [])"

text \<open>
  \<open>parse_json_output\<close>: the text the library points at after a failed parse is an argument,
  \<open>None\<close> where it has none.
\<close>

definition parse_json_output ::
  "cjson \<Rightarrow> (string \<Rightarrow> string option) \<Rightarrow> string \<Rightarrow> string + output_value" where
  "parse_json_output c error_ptr t =
     (case cj_parse c t of
        Some j \<Rightarrow> Inr (output_value_from_json j)
      | None \<Rightarrow> Inl (case error_ptr t of
                     Some p \<Rightarrow> ''JSON parse error near: '' @ p
                   | None \<Rightarrow> ''failed to parse JSON''))"

text \<open>\<open>parse_json_file\<close> of a path and the content its stream gives, \<open>None\<close> if it cannot open.\<close>

definition parse_json_file ::
  "cjson \<Rightarrow> (string \<Rightarrow> string option) \<Rightarrow> string \<Rightarrow> string option \<Rightarrow> string + output_value" where
  "parse_json_file c error_ptr path content =
     (case content of
        None \<Rightarrow> Inl (''failed to open file: '' @ path)
      | Some t \<Rightarrow> parse_json_output c error_ptr t)"

subsection \<open>Numbers as text\<close>

text \<open>
  The stream's default notation with 17 significant digits (\<open>%.17g\<close>) of a value that is not
  integral: the decimal exponent, the digits rounded to the nearest with ties to even, then
  plain or scientific notation without trailing zeros. The search for the exponent starts
  above the largest double and ends below the smallest one.
\<close>

definition pow10 :: "int \<Rightarrow> rat" where
  "pow10 e = (if 0 \<le> e then 10 ^ nat e else 1 / 10 ^ nat (- e))"

fun dec_exp :: "nat \<Rightarrow> rat \<Rightarrow> int" where
  "dec_exp 0 r = - 325"
| "dec_exp (Suc n) r = (if pow10 (int (Suc n) - 325) \<le> r then int (Suc n) - 325 else dec_exp n r)"

definition round_even :: "rat \<Rightarrow> nat" where
  "round_even r =
     (let f = nat (floor r); d = r - of_nat f in
      if d < 1 / 2 then f else if 1 / 2 < d then f + 1 else if even f then f else f + 1)"

definition sig_digits :: "rat \<Rightarrow> nat \<times> int" where
  "sig_digits r =
     (let e = dec_exp 634 r; m = round_even (r * pow10 (16 - e)) in
      if m = 10 ^ 17 then (10 ^ 16, e + 1) else (m, e))"

definition strip_zeros :: "string \<Rightarrow> string" where
  "strip_zeros s = rev (dropWhile (\<lambda>c. c = CHR ''0'') (rev s))"

definition with_fraction :: "string \<Rightarrow> string \<Rightarrow> string" where
  "with_fraction whole decimals =
     (if decimals = [] then whole else whole @ ''.'' @ decimals)"

definition general_text :: "rat \<Rightarrow> string" where
  "general_text r =
     (let (m, e) = sig_digits \<bar>r\<bar>; ds = nat_text m; sign = (if r < 0 then ''-'' else [])
      in sign @
         (if e < - 4 \<or> 17 \<le> e
          then with_fraction (take 1 ds) (strip_zeros (drop 1 ds)) @
               (if e < 0 then ''e-'' else ''e+'') @ pad_text 2 (nat \<bar>e\<bar>)
          else if e < 0
          then with_fraction ''0'' (strip_zeros (replicate (nat (- e - 1)) (CHR ''0'') @ ds))
          else with_fraction (take (nat e + 1) ds) (strip_zeros (drop (nat e + 1) ds))))"

fun number_text :: "dbl \<Rightarrow> string" where
  "number_text (Fin r) =
     (if dbl_integral (Fin r) then int_text (floor r) else general_text r)"
| "number_text NegZero = ''-0''"
| "number_text PosInf = ''inf''"
| "number_text NegInf = ''-inf''"
| "number_text NaN = ''nan''"

subsection \<open>The printers\<close>

fun escape_char :: "char \<Rightarrow> string" where
  "escape_char ch =
     (if ch = CHR 0x5C then [CHR 0x5C, CHR 0x5C]
      else if ch = CHR 0x22 then [CHR 0x5C, CHR 0x22]
      else if ch = CHR 0x0A then [CHR 0x5C, CHR ''n'']
      else if ch = CHR 0x0D then [CHR 0x5C, CHR ''r'']
      else if ch = CHR 0x09 then [CHR 0x5C, CHR ''t'']
      else [ch])"

definition escape_string :: "string \<Rightarrow> string" where
  "escape_string s = concat (map escape_char s)"

definition quoted :: "string \<Rightarrow> string" where
  "quoted s = CHR 0x22 # escape_string s @ [CHR 0x22]"

text \<open>The loops that put a separator before every item but the first.\<close>

fun joined :: "string \<Rightarrow> string list \<Rightarrow> string" where
  "joined sep [] = []"
| "joined sep [t] = t"
| "joined sep (t # ts) = t @ sep @ joined sep ts"

fun output_value_to_string :: "output_value \<Rightarrow> string" where
  "output_value_to_string OVNull = ''null''"
| "output_value_to_string (OVBoolean b) = (if b then ''true'' else ''false'')"
| "output_value_to_string (OVNumber d) = number_text d"
| "output_value_to_string (OVString s) = quoted s"
| "output_value_to_string (OVArray vs) = ''['' @ joined '', '' (map output_value_to_string vs) @ '']''"
| "output_value_to_string (OVObject kvs) =
     ''{'' @ joined '', '' (map (\<lambda>(k, v). quoted k @ '': '' @ output_value_to_string v) kvs) @ ''}''"

definition indent :: "nat \<Rightarrow> string" where
  "indent n = replicate n (CHR '' '')"

fun pretty_output_value :: "output_value \<Rightarrow> nat \<Rightarrow> nat \<Rightarrow> string" where
  "pretty_output_value (OVArray vs) w depth =
     (if vs = [] then ''[]''
      else ''['' @ [CHR 0x0A] @
           joined ('','' @ [CHR 0x0A])
             (map (\<lambda>v. indent ((depth + 1) * w) @ pretty_output_value v w (depth + 1)) vs) @
           [CHR 0x0A] @ indent (depth * w) @ '']'')"
| "pretty_output_value (OVObject kvs) w depth =
     (if kvs = [] then ''{}''
      else ''{'' @ [CHR 0x0A] @
           joined ('','' @ [CHR 0x0A])
             (map (\<lambda>(k, v). indent ((depth + 1) * w) @ quoted k @ '': '' @
                            pretty_output_value v w (depth + 1)) kvs) @
           [CHR 0x0A] @ indent (depth * w) @ ''}'')"
| "pretty_output_value v w depth = output_value_to_string v"

definition output_value_to_pretty_string :: "nat \<Rightarrow> output_value \<Rightarrow> string" where
  "output_value_to_pretty_string indent_size v = pretty_output_value v (max indent_size 1) 0"

end
