(* ===== verification/JsonText.thy ===== *)
theory JsonText
  imports Serialization
begin

section \<open>JsonText: a reference reader of JSON text and what the printers print\<close>

text \<open>
  \<open>json_read\<close> reads JSON text as RFC 8259 defines it, for the numbers that are integers of
  at most 53 bits; every text it accepts is JSON, and a JSON library reads it as the same
  tree. It is the yardstick for the printers of theory Serialization: what they print for a
  value of plain texts and integral numbers is read back as that value, and what they print
  for a text with other control characters is not JSON. The readers take fuel, at most one
  unit per character, so the length of the text is enough.
\<close>

subsection \<open>The reader\<close>

definition is_ws :: "char \<Rightarrow> bool" where
  "is_ws c \<longleftrightarrow> c = CHR 0x20 \<or> c = CHR 0x0A \<or> c = CHR 0x0D \<or> c = CHR 0x09"

definition skip_ws :: "string \<Rightarrow> string" where
  "skip_ws s = dropWhile is_ws s"

definition unescape :: "char \<Rightarrow> char option" where
  "unescape c =
     (if c = CHR 0x22 \<or> c = CHR 0x5C \<or> c = CHR 0x2F then Some c
      else if c = CHR ''b'' then Some (CHR 0x08)
      else if c = CHR ''f'' then Some (CHR 0x0C)
      else if c = CHR ''n'' then Some (CHR 0x0A)
      else if c = CHR ''r'' then Some (CHR 0x0D)
      else if c = CHR ''t'' then Some (CHR 0x09)
      else None)"

fun read_string :: "string \<Rightarrow> (string \<times> string) option" where
  "read_string [] = None"
| "read_string (c # r) =
     (if c = CHR 0x22 then Some ([], r)
      else if c = CHR 0x5C then
        (case r of [] \<Rightarrow> None
         | d # r' \<Rightarrow>
             (case unescape d of None \<Rightarrow> None
              | Some x \<Rightarrow> map_option (\<lambda>(s, q). (x # s, q)) (read_string r')))
      else if c < CHR 0x20 then None
      else map_option (\<lambda>(s, q). (c # s, q)) (read_string r))"

definition is_digit :: "char \<Rightarrow> bool" where
  "is_digit c \<longleftrightarrow> c \<in> set ''0123456789''"

fun digit_value :: "char \<Rightarrow> nat" where
  "digit_value c = of_char c - 48"

definition digits_value :: "string \<Rightarrow> nat" where
  "digits_value ds = fold (\<lambda>c n. n * 10 + digit_value c) ds 0"

definition ends_number :: "string \<Rightarrow> bool" where
  "ends_number r \<longleftrightarrow> (case r of [] \<Rightarrow> True
     | c # _ \<Rightarrow> \<not> is_digit c \<and> c \<noteq> CHR ''.'' \<and> c \<noteq> CHR ''e'' \<and> c \<noteq> CHR ''E'')"

definition read_digits :: "string \<Rightarrow> (nat \<times> string) option" where
  "read_digits s =
     (let ds = takeWhile is_digit s; r = dropWhile is_digit s; n = digits_value ds in
      if ds = [] \<or> (hd ds = CHR ''0'' \<and> tl ds \<noteq> []) \<or> \<not> ends_number r \<or> 2 ^ 53 < n then None
      else Some (n, r))"

definition read_number :: "string \<Rightarrow> (json \<times> string) option" where
  "read_number s =
     (case s of [] \<Rightarrow> None
      | c # r \<Rightarrow>
          if c = CHR ''-''
          then map_option (\<lambda>(n, q). (JNum (if n = 0 then NegZero else Fin (- of_nat n)), q)) (read_digits r)
          else map_option (\<lambda>(n, q). (JNum (Fin (of_nat n)), q)) (read_digits s))"

definition read_word :: "string \<Rightarrow> json \<Rightarrow> string \<Rightarrow> (json \<times> string) option" where
  "read_word w j s = (if take (length w) s = w then Some (j, drop (length w) s) else None)"

definition read_scalar :: "string \<Rightarrow> (json \<times> string) option" where
  "read_scalar s =
     (case s of [] \<Rightarrow> None
      | c # r \<Rightarrow>
          if c = CHR ''n'' then read_word ''null'' JNull s
          else if c = CHR ''t'' then read_word ''true'' (JBool True) s
          else if c = CHR ''f'' then read_word ''false'' (JBool False) s
          else if c = CHR 0x22 then map_option (\<lambda>(v, q). (JStr v, q)) (read_string r)
          else read_number s)"

fun read_value :: "nat \<Rightarrow> string \<Rightarrow> (json \<times> string) option"
  and read_items :: "nat \<Rightarrow> string \<Rightarrow> (json list \<times> string) option"
  and read_members :: "nat \<Rightarrow> string \<Rightarrow> ((string \<times> json) list \<times> string) option" where
  "read_value 0 s = None"
| "read_value (Suc n) s =
     (case skip_ws s of [] \<Rightarrow> None
      | c # r \<Rightarrow>
          if c = CHR ''['' then
            (case skip_ws r of [] \<Rightarrow> None
             | d # q \<Rightarrow> if d = CHR '']'' then Some (JArr [], q)
                      else map_option (\<lambda>(js, q'). (JArr js, q')) (read_items n r))
          else if c = CHR ''{'' then
            (case skip_ws r of [] \<Rightarrow> None
             | d # q \<Rightarrow> if d = CHR ''}'' then Some (JObj [], q)
                      else map_option (\<lambda>(kvs, q'). (JObj kvs, q')) (read_members n r))
          else read_scalar (c # r))"
| "read_items 0 s = None"
| "read_items (Suc n) s =
     (case read_value n s of None \<Rightarrow> None
      | Some (j, r) \<Rightarrow>
          (case skip_ws r of [] \<Rightarrow> None
           | d # q \<Rightarrow>
               if d = CHR '']'' then Some ([j], q)
               else if d = CHR '','' then map_option (\<lambda>(js, q'). (j # js, q')) (read_items n q)
               else None))"
| "read_members 0 s = None"
| "read_members (Suc n) s =
     (case skip_ws s of [] \<Rightarrow> None
      | c # r \<Rightarrow>
          if c \<noteq> CHR 0x22 then None
          else (case read_string r of None \<Rightarrow> None
            | Some (k, r1) \<Rightarrow>
                (case skip_ws r1 of [] \<Rightarrow> None
                 | d # r2 \<Rightarrow>
                     if d \<noteq> CHR '':'' then None
                     else (case read_value n r2 of None \<Rightarrow> None
                       | Some (j, r3) \<Rightarrow>
                           (case skip_ws r3 of [] \<Rightarrow> None
                            | x # q \<Rightarrow>
                                if x = CHR ''}'' then Some ([(k, j)], q)
                                else if x = CHR '','' then
                                  map_option (\<lambda>(kvs, q'). ((k, j) # kvs, q')) (read_members n q)
                                else None)))))"

definition json_read :: "string \<Rightarrow> json option" where
  "json_read s =
     (case read_value (2 * length s + 1) s of
        Some (j, r) \<Rightarrow> if skip_ws r = [] then Some j else None
      | None \<Rightarrow> None)"

text \<open>A JSON library that reads every text the reference accepts as the reference does.\<close>

definition reads_json :: "cjson \<Rightarrow> bool" where
  "reads_json c \<longleftrightarrow> (\<forall>t j. json_read t = Some j \<longrightarrow> cj_parse c t = Some j)"

subsection \<open>Texts and numbers are read back\<close>

definition text_ok :: "string \<Rightarrow> bool" where
  "text_ok s \<longleftrightarrow> list_all (\<lambda>c. CHR 0x20 \<le> c \<or> c = CHR 0x0A \<or> c = CHR 0x0D \<or> c = CHR 0x09) s"

lemma text_ok_simps [simp]:
  "text_ok []" "text_ok (c # s) \<longleftrightarrow> (CHR 0x20 \<le> c \<or> c = CHR 0x0A \<or> c = CHR 0x0D \<or> c = CHR 0x09) \<and> text_ok s"
  by (simp_all add: text_ok_def)

lemma escape_string_simps [simp]:
  "escape_string [] = []" "escape_string (c # s) = escape_char c @ escape_string s"
  by (simp_all add: escape_string_def)

lemma read_string_escape:
  "text_ok s \<Longrightarrow> read_string (escape_string s @ CHR 0x22 # rest) = Some (s, rest)"
  by (induction s) (auto simp: unescape_def)

lemma is_digit_digit_char [simp]: "is_digit (digit_char d)"
  using digit_char_in by (simp add: is_digit_def)

lemma digit_value_digit_char: "d < 10 \<Longrightarrow> digit_value (digit_char d) = d"
proof -
  assume "d < 10"
  then have "d \<in> set [0, 1, 2, 3, 4, 5, 6, 7, 8, 9]" by auto
  then show ?thesis by (auto simp: digit_char_def)
qed

lemma nat_text_digits: "list_all is_digit (nat_text n)"
proof (induction n rule: nat_text.induct)
  case (1 n)
  then show ?case by (subst nat_text.simps) (auto simp: Let_def)
qed

lemma digits_value_append: "digits_value (a @ [c]) = digits_value a * 10 + digit_value c"
  by (simp add: digits_value_def)

lemma digits_value_nat_text: "digits_value (nat_text n) = n"
proof (induction n rule: nat_text.induct)
  case (1 n)
  show ?case
  proof (cases "n < 10")
    case True
    then show ?thesis
      by (subst nat_text.simps) (simp add: digits_value_def digit_value_digit_char del: digit_value.simps)
  next
    case False
    have "digit_value (digit_char n) = n mod 10"
      using digit_value_digit_char [of "n mod 10"] by (simp add: digit_char_def del: digit_value.simps)
    then show ?thesis
      using False 1 by (subst nat_text.simps) (simp add: digits_value_append del: digit_value.simps)
  qed
qed

lemma hd_nat_text: "hd (nat_text n) = CHR ''0'' \<Longrightarrow> nat_text n = ''0''"
proof (induction n rule: nat_text.induct)
  case (1 n)
  show ?case
  proof (cases "n < 10")
    case True
    then show ?thesis using 1(2) by (subst nat_text.simps) (simp add: nat_text.simps [of n])
  next
    case False
    then have h: "hd (nat_text (n div 10)) = CHR ''0''"
      using 1(2) by (simp add: nat_text.simps [of n])
    from 1(1) [OF False h] have "digits_value (nat_text (n div 10)) = digits_value ''0''" by simp
    then have "n div 10 = 0" by (simp only: digits_value_nat_text) (simp add: digits_value_def)
    with False show ?thesis by simp
  qed
qed

lemma read_digits_nat_text:
  assumes "n \<le> 2 ^ 53" "ends_number rest"
  shows "read_digits (nat_text n @ rest) = Some (n, rest)"
proof -
  have d: "\<forall>c\<in>set (nat_text n). is_digit c"
    using nat_text_digits by (simp add: list_all_iff)
  have r: "takeWhile is_digit rest = []" "dropWhile is_digit rest = rest"
    using assms(2) by (cases rest; simp add: ends_number_def)+
  have t: "takeWhile is_digit (nat_text n @ rest) = nat_text n" "dropWhile is_digit (nat_text n @ rest) = rest"
    using d r by (simp_all add: takeWhile_append2 dropWhile_append2)
  show ?thesis
    using assms hd_nat_text [of n] by (auto simp: read_digits_def Let_def t digits_value_nat_text)
qed

definition json_num :: "dbl \<Rightarrow> bool" where
  "json_num d \<longleftrightarrow> d = NegZero \<or> (\<exists>i. d = Fin (of_int i) \<and> \<bar>i\<bar> \<le> 2 ^ 53)"

lemma nat_text_hd_digit: "\<exists>c r. nat_text n = c # r \<and> is_digit c"
proof -
  have "nat_text n \<noteq> []" by simp
  then obtain c r where "nat_text n = c # r" by (cases "nat_text n") auto
  then show ?thesis using nat_text_digits [of n] by auto
qed

lemma read_scalar_digit: "is_digit c \<or> c = CHR ''-'' \<Longrightarrow> read_scalar (c # r) = read_number (c # r)"
  by (auto simp: read_scalar_def is_digit_def)

lemma read_scalar_number:
  assumes "json_num d" "ends_number rest"
  shows "read_scalar (number_text d @ rest) = Some (JNum d, rest)"
proof (cases "d = NegZero")
  case True
  have "nat_text 0 = ''0''" by (simp add: nat_text.simps digit_char_def)
  with read_digits_nat_text [of 0 rest] assms(2) True show ?thesis
    by (simp add: read_scalar_digit) (simp add: read_number_def)
next
  case False
  then obtain i where i: "d = Fin (of_int i)" "\<bar>i\<bar> \<le> 2 ^ 53" using assms(1) by (auto simp: json_num_def)
  show ?thesis
  proof (cases "i < 0")
    case True
    have n: "nat (- i) \<noteq> 0" "nat (- i) \<le> 2 ^ 53" "rat_of_nat (nat (- i)) = - of_int i" using True i(2) by auto
    show ?thesis
      using n read_digits_nat_text [OF n(2) assms(2)] True
      by (simp add: i(1) int_text_def read_scalar_digit) (simp add: read_number_def)
  next
    case False
    have n: "nat i \<le> 2 ^ 53" "rat_of_nat (nat i) = of_int i" using False i(2) by auto
    obtain c r where c: "nat_text (nat i) = c # r" "is_digit c" using nat_text_hd_digit by blast
    have "c \<noteq> CHR ''-''" using c(2) by (auto simp: is_digit_def)
    then show ?thesis
      using n read_digits_nat_text [OF n(1) assms(2)] False c
      by (simp add: i(1) int_text_def read_scalar_digit) (simp add: read_number_def)
  qed
qed

subsection \<open>Values are read back\<close>

fun json_of :: "output_value \<Rightarrow> json" where
  "json_of OVNull = JNull"
| "json_of (OVBoolean b) = JBool b"
| "json_of (OVNumber d) = JNum d"
| "json_of (OVString s) = JStr s"
| "json_of (OVArray vs) = JArr (map json_of vs)"
| "json_of (OVObject kvs) = JObj (map (\<lambda>(k, v). (k, json_of v)) kvs)"

fun printable :: "output_value \<Rightarrow> bool" where
  "printable (OVNumber d) = json_num d"
| "printable (OVString s) = text_ok s"
| "printable (OVArray vs) = list_all printable vs"
| "printable (OVObject kvs) = list_all (\<lambda>(k, v). text_ok k \<and> printable v) kvs"
| "printable _ = True"

definition ends_value :: "string \<Rightarrow> bool" where
  "ends_value r \<longleftrightarrow> (case r of [] \<Rightarrow> True
     | c # _ \<Rightarrow> is_ws c \<or> c = CHR '','' \<or> c = CHR '']'' \<or> c = CHR ''}'')"

lemma ends_value_number [simp]: "ends_value r \<Longrightarrow> ends_number r"
  by (cases r) (auto simp: ends_value_def ends_number_def is_digit_def is_ws_def)

lemma skip_ws_append [simp]: "list_all is_ws w \<Longrightarrow> skip_ws (w @ s) = skip_ws s"
  by (induction w) (simp_all add: skip_ws_def)

lemma skip_ws_Cons [simp]: "\<not> is_ws c \<Longrightarrow> skip_ws (c # s) = c # s"
  by (simp add: skip_ws_def)

lemma read_value_ws: "list_all is_ws w \<Longrightarrow> read_value n (w @ s) = read_value n s"
  by (cases n) simp_all

lemma read_members_ws: "list_all is_ws w \<Longrightarrow> read_members n (w @ s) = read_members n s"
  by (cases n) simp_all

lemma indent_ws [simp]: "list_all is_ws (indent n)"
  by (simp add: indent_def is_ws_def list_all_iff)

text \<open>A text reads as a tree: whatever may follow a value, with fuel for its length.\<close>

definition reads :: "string \<Rightarrow> json \<Rightarrow> bool" where
  "reads t j \<longleftrightarrow> (\<forall>n rest. 2 * length t < n \<longrightarrow> ends_value rest \<longrightarrow>
     read_value n (t @ rest) = Some (j, rest))"

lemma readsD: "reads t j \<Longrightarrow> 2 * length t < n \<Longrightarrow> ends_value rest \<Longrightarrow> read_value n (t @ rest) = Some (j, rest)"
  by (simp add: reads_def)

lemma reads_scalar:
  assumes "\<And>rest. ends_value rest \<Longrightarrow> read_scalar (t @ rest) = Some (j, rest)"
    and "t = c # r" "\<not> is_ws c" "c \<noteq> CHR ''[''" "c \<noteq> CHR ''{''"
  shows "reads t j"
  unfolding reads_def
proof (intro allI impI)
  fix n rest
  assume "2 * length t < n" "ends_value rest"
  then show "read_value n (t @ rest) = Some (j, rest)"
    using assms(1) [of rest] assms(2-) by (cases n) simp_all
qed

lemma reads_quoted: "text_ok s \<Longrightarrow> reads (quoted s) (JStr s)"
  by (rule reads_scalar [of _ _ "CHR 0x22" "escape_string s @ [CHR 0x22]"])
    (simp_all add: quoted_def read_scalar_def read_string_escape is_ws_def)

lemma reads_number: "json_num d \<Longrightarrow> reads (number_text d) (JNum d)"
proof -
  assume d: "json_num d"
  then have "\<exists>c r. number_text d = c # r \<and> (is_digit c \<or> c = CHR ''-'')"
  proof (cases "d = NegZero")
    case False
    then obtain i where "d = Fin (of_int i)" using d by (auto simp: json_num_def)
    then show ?thesis using nat_text_hd_digit [of "nat i"] by (auto simp: int_text_def)
  qed simp
  then obtain c r where c: "number_text d = c # r" "is_digit c \<or> c = CHR ''-''" by blast
  show ?thesis
  proof (rule reads_scalar [OF _ c(1)])
    show "ends_value rest \<Longrightarrow> read_scalar (number_text d @ rest) = Some (JNum d, rest)" for rest
      using read_scalar_number [OF d] by simp
    show "\<not> is_ws c" "c \<noteq> CHR ''[''" "c \<noteq> CHR ''{''"
      using c(2) by (auto simp: is_ws_def is_digit_def)
  qed
qed

lemma reads_words: "reads ''null'' JNull" "reads ''true'' (JBool True)" "reads ''false'' (JBool False)"
  by (simp_all add: reads_scalar [OF _ refl] read_scalar_def read_word_def is_ws_def)

text \<open>Items joined by a comma and white space, closed after white space.\<close>

lemma read_items_joined:
  assumes "\<forall>(t, j)\<in>set tjs. reads t j" "list_all is_ws w" "list_all is_ws w2" "tjs \<noteq> []"
    and "2 * length (joined ('','' @ w) (map fst tjs)) + 1 < n"
  shows "read_items n (joined ('','' @ w) (map fst tjs) @ w2 @ '']'' @ rest) = Some (map snd tjs, rest)"
  using assms(1,4,5)
proof (induction tjs arbitrary: n)
  case (Cons tj tjs)
  obtain t j where tj: "tj = (t, j)" by (cases tj)
  obtain m where n: "n = Suc m" using Cons.prems(3) by (cases n) auto
  have e: "ends_value (w2 @ '']'' @ rest)"
    using assms(3) by (cases w2) (simp_all add: ends_value_def)
  show ?case
  proof (cases "tjs = []")
    case True
    have "read_value m (t @ w2 @ '']'' @ rest) = Some (j, w2 @ '']'' @ rest)"
      using Cons.prems e by (intro readsD) (auto simp: tj True n)
    then show ?thesis using assms(3) by (simp add: True tj n is_ws_def)
  next
    case False
    let ?r = "joined ('','' @ w) (map fst tjs)"
    have j: "joined ('','' @ w) (map fst (tj # tjs)) = t @ '','' @ w @ ?r"
      using False by (cases tjs) (simp_all add: tj)
    have len: "2 * length t < m" "2 * length ?r + 1 < m"
      using Cons.prems(3) unfolding j n by simp_all
    have "read_value m (t @ ('','' @ w @ ?r @ w2 @ '']'' @ rest)) = Some (j, '','' @ w @ ?r @ w2 @ '']'' @ rest)"
      using Cons.prems(1) len(1) by (intro readsD) (auto simp: tj ends_value_def)
    moreover have "read_items m (w @ ?r @ w2 @ '']'' @ rest) = Some (map snd tjs, rest)"
    proof -
      obtain k where m: "m = Suc k" using len by (cases m) auto
      have "read_items m (?r @ w2 @ '']'' @ rest) = Some (map snd tjs, rest)"
        using Cons.prems(1) False len(2) by (intro Cons.IH) auto
      then show ?thesis by (simp add: m read_value_ws [OF assms(2)])
    qed
    ultimately show ?thesis unfolding n j by (simp add: tj is_ws_def)
  qed
qed simp

lemma read_members_joined:
  assumes "\<forall>(k, t, j)\<in>set ktjs. text_ok k \<and> reads t j" "list_all is_ws w" "list_all is_ws w2" "ktjs \<noteq> []"
    and "2 * length (joined ('','' @ w) (map (\<lambda>(k, t, j). quoted k @ '': '' @ t) ktjs)) + 1 < n"
  shows "read_members n (joined ('','' @ w) (map (\<lambda>(k, t, j). quoted k @ '': '' @ t) ktjs) @ w2 @ ''}'' @ rest) =
    Some (map (\<lambda>(k, t, j). (k, j)) ktjs, rest)"
  using assms(1,4,5)
proof (induction ktjs arbitrary: n)
  case (Cons ktj ktjs)
  obtain k t j where ktj: "ktj = (k, t, j)" by (cases ktj)
  obtain m where n: "n = Suc m" using Cons.prems(3) by (cases n) auto
  have key: "read_string (escape_string k @ CHR 0x22 # s) = Some (k, s)" for s
    using Cons.prems(1) read_string_escape by (simp add: ktj)
  have val: "read_value m (CHR 0x20 # t @ r) = Some (j, r)" if "ends_value r" "2 * length t < m" for r
    using readsD [of t j m r] read_value_ws [of "[CHR 0x20]" m "t @ r"] Cons.prems(1) that
    by (simp add: ktj is_ws_def)
  show ?case
  proof (cases "ktjs = []")
    case True
    have "ends_value (w2 @ '']'' @ rest)" "ends_value (w2 @ ''}'' @ rest)"
      using assms(3) by (cases w2; simp add: ends_value_def)+
    then show ?thesis
      using assms(3) val [of "w2 @ ''}'' @ rest"] Cons.prems(3)
      by (simp add: True ktj n is_ws_def quoted_def key)
  next
    case False
    let ?r = "joined ('','' @ w) (map (\<lambda>(k, t, j). quoted k @ '': '' @ t) ktjs)"
    have j: "joined ('','' @ w) (map (\<lambda>(k, t, j). quoted k @ '': '' @ t) (ktj # ktjs)) =
        quoted k @ '': '' @ t @ '','' @ w @ ?r"
      using False by (cases ktjs) (simp_all add: ktj)
    have len: "2 * length t < m" "2 * length ?r + 1 < m"
      using Cons.prems(3) unfolding j n by simp_all
    have v: "read_value m (CHR 0x20 # t @ ('','' @ w @ ?r @ w2 @ ''}'' @ rest)) = Some (j, '','' @ w @ ?r @ w2 @ ''}'' @ rest)"
      using len(1) by (intro val) (simp_all add: ends_value_def)
    have "read_members m (?r @ w2 @ ''}'' @ rest) = Some (map (\<lambda>(k, t, j). (k, j)) ktjs, rest)"
      using Cons.prems(1) False len(2) by (intro Cons.IH) auto
    then have "read_members m (w @ ?r @ w2 @ ''}'' @ rest) = Some (map (\<lambda>(k, t, j). (k, j)) ktjs, rest)"
      by (simp only: read_members_ws [OF assms(2)])
    with v show ?thesis unfolding n j by (simp add: ktj is_ws_def quoted_def key)
  qed
qed simp

lemma read_items_hd:
  assumes "read_items n s = Some x"
  obtains d q where "skip_ws s = d # q" "d \<noteq> CHR '']''"
proof (cases "skip_ws s")
  case Nil
  then show thesis using assms by (cases n) (auto simp: gr0_conv_Suc elim!: read_value.elims split: option.splits)
next
  case (Cons d q)
  have "d \<noteq> CHR '']''"
  proof
    assume "d = CHR '']''"
    then have "read_value m s = None" for m
      using Cons by (cases m) (simp_all add: read_scalar_def read_number_def read_digits_def is_digit_def Let_def)
    then show False using assms by (cases n) simp_all
  qed
  with Cons show thesis by (rule that)
qed

lemma read_members_hd:
  assumes "read_members n s = Some x"
  obtains d q where "skip_ws s = d # q" "d \<noteq> CHR ''}''"
  using assms by (cases n; cases "skip_ws s") (auto split: if_splits)

lemma reads_empty: "reads ''[]'' (JArr [])" "reads ''{}'' (JObj [])"
  unfolding reads_def by (intro allI impI, case_tac n; simp add: is_ws_def)+

lemma reads_array:
  assumes "\<forall>(t, j)\<in>set tjs. reads t j" "list_all is_ws w1" "list_all is_ws w" "list_all is_ws w2" "tjs \<noteq> []"
  shows "reads (''['' @ w1 @ joined ('','' @ w) (map fst tjs) @ w2 @ '']'') (JArr (map snd tjs))"
  unfolding reads_def
proof (intro allI impI)
  fix n rest
  let ?b = "joined ('','' @ w) (map fst tjs)"
  assume n: "2 * length (''['' @ w1 @ ?b @ w2 @ '']'') < n" and "ends_value rest"
  obtain m where m: "n = Suc m" using n by (cases n) auto
  obtain k where k: "m = Suc k" using n m by (cases m) auto
  have "read_items m (?b @ w2 @ '']'' @ rest) = Some (map snd tjs, rest)"
    using n m by (intro read_items_joined) (use assms in auto)
  then have i: "read_items m (w1 @ ?b @ w2 @ '']'' @ rest) = Some (map snd tjs, rest)"
    by (simp add: k read_value_ws [OF assms(2)])
  obtain d q where "skip_ws (w1 @ ?b @ w2 @ '']'' @ rest) = d # q" "d \<noteq> CHR '']''"
    by (rule read_items_hd [OF i])
  then show "read_value n ((''['' @ w1 @ ?b @ w2 @ '']'') @ rest) = Some (JArr (map snd tjs), rest)"
    using i by (simp add: m is_ws_def)
qed

lemma reads_object:
  assumes "\<forall>(k, t, j)\<in>set ktjs. text_ok k \<and> reads t j" "list_all is_ws w1" "list_all is_ws w"
    "list_all is_ws w2" "ktjs \<noteq> []"
  shows "reads (''{'' @ w1 @ joined ('','' @ w) (map (\<lambda>(k, t, j). quoted k @ '': '' @ t) ktjs) @ w2 @ ''}'')
    (JObj (map (\<lambda>(k, t, j). (k, j)) ktjs))"
  unfolding reads_def
proof (intro allI impI)
  fix n rest
  let ?b = "joined ('','' @ w) (map (\<lambda>(k, t, j). quoted k @ '': '' @ t) ktjs)"
  let ?o = "map (\<lambda>(k, t, j). (k, j)) ktjs"
  assume n: "2 * length (''{'' @ w1 @ ?b @ w2 @ ''}'') < n" and "ends_value rest"
  obtain m where m: "n = Suc m" using n by (cases n) auto
  have "read_members m (?b @ w2 @ ''}'' @ rest) = Some (?o, rest)"
    using n m by (intro read_members_joined) (use assms in auto)
  then have i: "read_members m (w1 @ ?b @ w2 @ ''}'' @ rest) = Some (?o, rest)"
    by (simp only: read_members_ws [OF assms(2)])
  obtain d q where "skip_ws (w1 @ ?b @ w2 @ ''}'' @ rest) = d # q" "d \<noteq> CHR ''}''"
    by (rule read_members_hd [OF i])
  then show "read_value n ((''{'' @ w1 @ ?b @ w2 @ ''}'') @ rest) = Some (JObj ?o, rest)"
    using i by (simp add: m is_ws_def)
qed

lemma reads_ws: "reads t j \<Longrightarrow> list_all is_ws w \<Longrightarrow> reads (w @ t) j"
  by (auto simp: reads_def read_value_ws)

lemma joined_indent:
  "xs \<noteq> [] \<Longrightarrow> joined sep (map (\<lambda>x. w @ f x) xs) = w @ joined (sep @ w) (map f xs)"
proof (induction xs)
  case (Cons x xs)
  then show ?case by (cases xs) simp_all
qed simp

subsection \<open>The printers print JSON\<close>

lemma compact_reads: "printable v \<Longrightarrow> reads (output_value_to_string v) (json_of v)"
proof (induction v)
  case (OVArray vs)
  show ?case
  proof (cases "vs = []")
    case False
    let ?tjs = "map (\<lambda>v. (output_value_to_string v, json_of v)) vs"
    have "reads (''['' @ [] @ joined ('','' @ '' '') (map fst ?tjs) @ [] @ '']'') (JArr (map snd ?tjs))"
      using OVArray False by (intro reads_array) (auto simp: list_all_iff is_ws_def)
    then show ?thesis by (simp add: comp_def)
  qed (simp add: reads_empty)
next
  case (OVObject kvs)
  show ?case
  proof (cases "kvs = []")
    case False
    have mem: "\<forall>(k, v)\<in>set kvs. text_ok k \<and> reads (output_value_to_string v) (json_of v)"
    proof clarify
      fix k v assume "(k, v) \<in> set kvs"
      then show "text_ok k \<and> reads (output_value_to_string v) (json_of v)"
        using OVObject.IH [of "(k, v)" v] OVObject.prems by (auto simp: list_all_iff)
    qed
    let ?ktjs = "map (\<lambda>(k, v). (k, output_value_to_string v, json_of v)) kvs"
    have "reads (''{'' @ [] @ joined ('','' @ '' '') (map (\<lambda>(k, t, j). quoted k @ '': '' @ t) ?ktjs) @ [] @ ''}'')
        (JObj (map (\<lambda>(k, t, j). (k, j)) ?ktjs))"
      using mem False by (intro reads_object) (auto simp: is_ws_def)
    then show ?thesis by (simp add: comp_def case_prod_unfold)
  qed (simp add: reads_empty)
qed (simp_all add: reads_words reads_number reads_quoted)

lemma pretty_reads: "printable v \<Longrightarrow> reads (pretty_output_value v w depth) (json_of v)"
proof (induction v arbitrary: depth)
  case (OVArray vs)
  show ?case
  proof (cases "vs = []")
    case False
    let ?i = "indent ((depth + 1) * w)"
    let ?tjs = "map (\<lambda>v. (?i @ pretty_output_value v w (depth + 1), json_of v)) vs"
    have "reads (''['' @ [CHR 0x0A] @ joined ('','' @ [CHR 0x0A]) (map fst ?tjs) @
        ([CHR 0x0A] @ indent (depth * w)) @ '']'') (JArr (map snd ?tjs))"
      using OVArray False by (intro reads_array) (auto simp: list_all_iff is_ws_def reads_ws indent_def)
    then show ?thesis using False by (simp add: comp_def)
  qed (simp add: reads_empty)
next
  case (OVObject kvs)
  show ?case
  proof (cases "kvs = []")
    case False
    let ?i = "indent ((depth + 1) * w)"
    have mem: "\<forall>(k, v)\<in>set kvs. text_ok k \<and> reads (pretty_output_value v w (depth + 1)) (json_of v)"
    proof clarify
      fix k v assume "(k, v) \<in> set kvs"
      then show "text_ok k \<and> reads (pretty_output_value v w (depth + 1)) (json_of v)"
        using OVObject.IH [of "(k, v)" v] OVObject.prems by (auto simp: list_all_iff)
    qed
    let ?f = "\<lambda>(k, v). (k, pretty_output_value v w (depth + 1), json_of v)"
    have "reads (''{'' @ ([CHR 0x0A] @ ?i) @ joined ('','' @ ([CHR 0x0A] @ ?i))
        (map (\<lambda>(k, t, j). quoted k @ '': '' @ t) (map ?f kvs)) @ ([CHR 0x0A] @ indent (depth * w)) @ ''}'')
        (JObj (map (\<lambda>(k, t, j). (k, j)) (map ?f kvs)))"
      using mem False by (intro reads_object) (auto simp: is_ws_def)
    then show ?thesis
      using False joined_indent [of kvs "'','' @ [CHR 0x0A]" ?i
          "\<lambda>(k, v). quoted k @ '': '' @ pretty_output_value v w (depth + 1)"]
      by (simp add: comp_def case_prod_unfold)
  qed (simp add: reads_empty)
qed (simp_all add: reads_words reads_number reads_quoted)

lemma reads_json_read:
  assumes "reads t j" "list_all is_ws w"
  shows "json_read (t @ w) = Some j"
proof -
  have "ends_value w" using assms(2) by (cases w) (simp_all add: ends_value_def)
  then have "read_value (2 * length (t @ w) + 1) (t @ w) = Some (j, w)"
    by (intro readsD [OF assms(1)]) simp_all
  moreover have "skip_ws w = []" using skip_ws_append [OF assms(2), of "[]"] by (simp add: skip_ws_def)
  ultimately show ?thesis by (simp add: json_read_def)
qed

lemma output_value_back: "ov_valid v \<Longrightarrow> output_value_from_json (json_of v) = v"
proof (induction v)
  case (OVArray vs)
  then show ?case by (simp add: list_all_iff map_idI)
next
  case (OVObject kvs)
  have "map (\<lambda>(k, j). (k, output_value_from_json j)) (map (\<lambda>(k, v). (k, json_of v)) kvs) = kvs"
    using OVObject by (auto simp: list_all_iff intro!: map_idI)
  then show ?case
    using OVObject.prems smap.rebuild_emplace [of kvs] by simp
qed simp_all

lemma read_string_refuses: "\<not> text_ok s \<Longrightarrow> read_string (escape_string s @ rest) = None"
proof (induction s)
  case (Cons c s)
  then show ?case by (cases "text_ok s") (auto simp: unescape_def not_le)
qed simp

subsection \<open>Properties\<close>

text \<open>C22: for a value of plain texts and integral numbers of at most 53 bits, both printers print
  JSON: any library that reads JSON as the standard defines it gives the value back, with or
  without the newline the configuration store adds.\<close>

theorem printers_roundtrip:
  assumes "reads_json c" "ov_valid v" "printable v"
  shows "parse_json_output c err (output_value_to_string v) = Inr v \<and>
    parse_json_output c err (output_value_to_pretty_string w v) = Inr v \<and>
    parse_json_output c err (output_value_to_pretty_string w v @ [CHR 0x0A]) = Inr v"
proof -
  have "json_read (output_value_to_string v) = Some (json_of v)"
    using reads_json_read [OF compact_reads [OF assms(3)], of "[]"] by simp
  moreover have "json_read (output_value_to_pretty_string w v @ ws) = Some (json_of v)" if "list_all is_ws ws" for ws
    unfolding output_value_to_pretty_string_def using reads_json_read [OF pretty_reads [OF assms(3)] that] .
  from this [of "[]"] this [of "[CHR 0x0A]"] have
    "json_read (output_value_to_pretty_string w v) = Some (json_of v)"
    "json_read (output_value_to_pretty_string w v @ [CHR 0x0A]) = Some (json_of v)"
    by (simp_all add: is_ws_def)
  ultimately show ?thesis
    using assms(1) output_value_back [OF assms(2)] by (simp add: reads_json_def parse_json_output_def)
qed

definition reference_cjson :: cjson where
  "reference_cjson = \<lparr>cj_print = (\<lambda>formatted j. None), cj_parse = json_read,
     cj_valueint = (\<lambda>d. 0), cj_keeps = (\<lambda>d. False)\<rparr>"

theorem printers_roundtrip_witness:
  "parse_json_output reference_cjson (\<lambda>t. None)
     (output_value_to_string (OVObject [(''a'', OVNumber (Fin 5)), (''b'', OVString ''x'')])) =
   Inr (OVObject [(''a'', OVNumber (Fin 5)), (''b'', OVString ''x'')])"
proof -
  have "json_num (Fin 5)" unfolding json_num_def by (rule disjI2, rule exI [of _ 5]) simp
  then have "printable (OVObject [(''a'', OVNumber (Fin 5)), (''b'', OVString ''x'')])" by simp
  then show ?thesis
    using printers_roundtrip [of reference_cjson "OVObject [(''a'', OVNumber (Fin 5)), (''b'', OVString ''x'')]" "\<lambda>t. None" 2]
    by (simp add: reads_json_def reference_cjson_def smap_valid_def)
qed

text \<open>A text is printed as JSON exactly when its only control characters are the newline,
  the carriage return and the tab: the printer escapes no other.\<close>

theorem text_printed_as_json:
  "json_read (output_value_to_string (OVString s)) = (if text_ok s then Some (JStr s) else None)"
  using reads_json_read [OF reads_quoted, of s "[]"] read_string_refuses [of s "[CHR 0x22]"]
  by (simp add: json_read_def quoted_def is_ws_def read_scalar_def)

end
