(* ===== verification/AppConfig.thy ===== *)
theory AppConfig
  imports Storage JsonText Paths
begin

section \<open>AppConfig: the configuration and its store\<close>

text \<open>
  src/src/model/app_config.cpp: the validated configuration, its JSON form and the class
  \<open>AppConfigStore\<close>, which loads it, repairs what is missing or invalid and writes it back
  through a temporary file of a fresh name. The store's fields, the file system, the process
  wide sequence number of temporary files and a counter of environment interactions form one
  record; what each system call answers is a function of that counter in \<open>config_env\<close>.
\<close>

subsection \<open>Data (app_config.h)\<close>

record config_ui =
  ui_dark_mode :: bool
  ui_language :: string
  ui_key_click_enabled :: bool
  ui_key_click_volume_percent :: int

record config_network =
  net_iperf_host :: string
  net_iperf_port :: int

record config_logging =
  log_level :: string
  log_max_segment_size_bytes :: nat
  log_max_directory_size_bytes :: nat

record app_config =
  cf_ui :: config_ui
  cf_network :: config_network
  cf_baud_rate :: int
  cf_logging :: config_logging
  cf_station_id :: string
  cf_schema_version :: int

definition config_schema_version :: int where "config_schema_version = 1"

definition config_default :: app_config where
  "config_default =
     \<lparr>cf_ui = \<lparr>ui_dark_mode = True, ui_language = ''en'', ui_key_click_enabled = True,
               ui_key_click_volume_percent = 70\<rparr>,
      cf_network = \<lparr>net_iperf_host = ''192.168.10.187'', net_iperf_port = 5201\<rparr>,
      cf_baud_rate = 9600,
      cf_logging = \<lparr>log_level = ''debug'', log_max_segment_size_bytes = 5 * 1024 * 1024,
                    log_max_directory_size_bytes = 50 * 1024 * 1024\<rparr>,
      cf_station_id = ''AUTO_TEST'', cf_schema_version = config_schema_version\<rparr>"

definition min_log_segment_size :: nat where "min_log_segment_size = 64 * 1024"
definition uart_baud_rates :: "int list" where
  "uart_baud_rates = [9600, 19200, 38400, 57600, 115200]"
definition log_levels :: "string list" where
  "log_levels = [''trace'', ''debug'', ''info'', ''warn'', ''error'', ''fatal'', ''off'']"
definition languages :: "string list" where "languages = [''en'', ''zh_CN'']"

text \<open>The largest count the reader takes: the smaller of \<open>size_t\<close> and 53 bits.\<close>

definition max_exact_json_integer :: int where "max_exact_json_integer = 9007199254740991"

subsection \<open>Reading fields\<close>

text \<open>The flag \<open>corrected\<close> and the diagnostics are threaded through the readers.\<close>

type_synonym repair = "bool \<times> string list"

fun object_member :: "output_value option \<Rightarrow> string \<Rightarrow> output_value option" where
  "object_member (Some (OVObject kvs)) key = map_of kvs key"
| "object_member _ key = None"

definition use_default :: "string \<Rightarrow> repair \<Rightarrow> repair" where
  "use_default field r =
     (True, snd r @ [''config field '' @ [CHR 0x27] @ field @ [CHR 0x27] @
                     '' is missing or invalid; using default''])"

definition read_bool :: "output_value option \<Rightarrow> string \<Rightarrow> string \<Rightarrow> bool \<Rightarrow> repair \<Rightarrow> bool \<times> repair" where
  "read_bool obj key field fallback r =
     (case object_member obj key of
        Some (OVBoolean b) \<Rightarrow> (b, r)
      | _ \<Rightarrow> (fallback, use_default field r))"

definition read_text :: "output_value option \<Rightarrow> string \<Rightarrow> string \<Rightarrow> string \<Rightarrow> string list option \<Rightarrow>
    repair \<Rightarrow> string \<times> repair" where
  "read_text obj key field fallback allowed r =
     (case object_member obj key of
        Some (OVString v) \<Rightarrow>
          if v \<noteq> [] \<and> (case allowed of None \<Rightarrow> True | Some vs \<Rightarrow> v \<in> set vs) then (v, r)
          else (fallback, use_default field r)
      | _ \<Rightarrow> (fallback, use_default field r))"

definition integer_value :: "output_value option \<Rightarrow> int \<Rightarrow> int \<Rightarrow> int option" where
  "integer_value v minimum maximum =
     (case v of
        Some (OVNumber d) \<Rightarrow>
          (case dbl_value d of
             None \<Rightarrow> None
           | Some r \<Rightarrow>
               if \<not> dbl_integral d \<or> r < of_int minimum \<or> of_int maximum < r then None
               else Some (floor r))
      | _ \<Rightarrow> None)"

definition read_int :: "output_value option \<Rightarrow> string \<Rightarrow> string \<Rightarrow> int \<Rightarrow> int \<Rightarrow> int \<Rightarrow> repair \<Rightarrow>
    int \<times> repair" where
  "read_int obj key field fallback minimum maximum r =
     (case integer_value (object_member obj key) minimum maximum of
        Some v \<Rightarrow> (v, r)
      | None \<Rightarrow> (fallback, use_default field r))"

definition read_size :: "output_value option \<Rightarrow> string \<Rightarrow> string \<Rightarrow> nat \<Rightarrow> nat \<Rightarrow> repair \<Rightarrow>
    nat \<times> repair" where
  "read_size obj key field fallback minimum r =
     (case integer_value (object_member obj key) (int minimum) max_exact_json_integer of
        Some v \<Rightarrow> (nat v, r)
      | None \<Rightarrow> (fallback, use_default field r))"

definition is_supported_baud_rate :: "int \<Rightarrow> bool" where
  "is_supported_baud_rate b \<longleftrightarrow> b \<in> set uart_baud_rates"

text \<open>The fields of a document whose schema version is right, in the order of the code.\<close>

definition read_ui :: "output_value \<Rightarrow> repair \<Rightarrow> config_ui \<times> repair" where
  "read_ui doc r0 =
     (let d = cf_ui config_default; ui = object_member (Some doc) ''ui'';
          (dark, r1) = read_bool ui ''dark_mode'' ''ui.dark_mode'' (ui_dark_mode d) r0;
          (lang, r2) = read_text ui ''language'' ''ui.language'' (ui_language d) (Some languages) r1;
          (click, r3) = read_bool ui ''key_click_enabled'' ''ui.key_click_enabled''
                          (ui_key_click_enabled d) r2;
          (volume, r4) = read_int ui ''key_click_volume_percent'' ''ui.key_click_volume_percent''
                          (ui_key_click_volume_percent d) 0 100 r3
      in (\<lparr>ui_dark_mode = dark, ui_language = lang, ui_key_click_enabled = click,
           ui_key_click_volume_percent = volume\<rparr>, r4))"

definition read_network :: "output_value \<Rightarrow> repair \<Rightarrow> config_network \<times> repair" where
  "read_network doc r0 =
     (let d = cf_network config_default; net = object_member (Some doc) ''network'';
          (host, r1) = read_text net ''iperf_host'' ''network.iperf_host'' (net_iperf_host d) None r0;
          (port, r2) = read_int net ''iperf_port'' ''network.iperf_port'' (net_iperf_port d) 1 65535 r1
      in (\<lparr>net_iperf_host = host, net_iperf_port = port\<rparr>, r2))"

definition read_baud_rate :: "output_value \<Rightarrow> repair \<Rightarrow> int \<times> repair" where
  "read_baud_rate doc r0 =
     (let d = cf_baud_rate config_default; uart = object_member (Some doc) ''uart'';
          (rate, r1) = read_int uart ''baud_rate'' ''uart.baud_rate'' d 1 1000000 r0
      in if \<not> is_supported_baud_rate rate then (d, use_default ''uart.baud_rate'' r1) else (rate, r1))"

definition read_logging :: "output_value \<Rightarrow> repair \<Rightarrow> config_logging \<times> repair" where
  "read_logging doc r0 =
     (let d = cf_logging config_default; lg = object_member (Some doc) ''logging'';
          (level, r1) = read_text lg ''level'' ''logging.level'' (log_level d) (Some log_levels) r0;
          (seg, r2) = read_size lg ''max_segment_size_bytes'' ''logging.max_segment_size_bytes''
                        (log_max_segment_size_bytes d) min_log_segment_size r1;
          (dir, r3) = read_size lg ''max_directory_size_bytes'' ''logging.max_directory_size_bytes''
                        (log_max_directory_size_bytes d) min_log_segment_size r2
      in if dir < seg
         then (\<lparr>log_level = level, log_max_segment_size_bytes = log_max_segment_size_bytes d,
                log_max_directory_size_bytes = log_max_directory_size_bytes d\<rparr>,
               (True, snd r3 @ [''logging.max_directory_size_bytes must be at least '' @
                                ''max_segment_size_bytes; using defaults'']))
         else (\<lparr>log_level = level, log_max_segment_size_bytes = seg,
                log_max_directory_size_bytes = dir\<rparr>, r3))"

definition read_config :: "output_value \<Rightarrow> repair \<Rightarrow> app_config \<times> repair" where
  "read_config doc r0 =
     (let (ui, r1) = read_ui doc r0; (net, r2) = read_network doc r1;
          (rate, r3) = read_baud_rate doc r2; (lg, r4) = read_logging doc r3;
          (station, r5) = read_text (object_member (Some doc) ''factory'') ''station_id''
                            ''factory.station_id'' (cf_station_id config_default) None r4
      in (\<lparr>cf_ui = ui, cf_network = net, cf_baud_rate = rate, cf_logging = lg,
           cf_station_id = station, cf_schema_version = config_schema_version\<rparr>, r5))"

subsection \<open>Writing the document\<close>

definition config_to_output :: "app_config \<Rightarrow> output_value" where
  "config_to_output c =
     ov_object
      [(''factory'', ov_object [(''station_id'', OVString (cf_station_id c))]),
       (''logging'', ov_object
          [(''level'', OVString (log_level (cf_logging c))),
           (''max_directory_size_bytes'',
              OVNumber (dbl_of_nat (log_max_directory_size_bytes (cf_logging c)))),
           (''max_segment_size_bytes'',
              OVNumber (dbl_of_nat (log_max_segment_size_bytes (cf_logging c))))]),
       (''network'', ov_object
          [(''iperf_host'', OVString (net_iperf_host (cf_network c))),
           (''iperf_port'', OVNumber (dbl_of_int (net_iperf_port (cf_network c))))]),
       (''schema_version'', OVNumber (dbl_of_int (cf_schema_version c))),
       (''uart'', ov_object [(''baud_rate'', OVNumber (dbl_of_int (cf_baud_rate c)))]),
       (''ui'', ov_object
          [(''dark_mode'', OVBoolean (ui_dark_mode (cf_ui c))),
           (''key_click_enabled'', OVBoolean (ui_key_click_enabled (cf_ui c))),
           (''key_click_volume_percent'',
              OVNumber (dbl_of_int (ui_key_click_volume_percent (cf_ui c)))),
           (''language'', OVString (ui_language (cf_ui c)))])]"

text \<open>
  \<open>write_all\<close>: the \<open>n\<close>-th \<open>write\<close>, asked for the remaining bytes, answers with a count; zero
  or less is a failure. The result is the success and the bytes written.
\<close>

function write_all :: "(nat \<Rightarrow> nat \<Rightarrow> int) \<Rightarrow> nat \<Rightarrow> nat \<Rightarrow> nat \<Rightarrow> bool \<times> nat" where
  "write_all wr n offset len =
     (if offset < len then
        (let written = wr n (len - offset) in
         if written \<le> 0 then (False, offset)
         else write_all wr (n + 1) (offset + nat written) len)
      else (True, offset))"
  by auto
termination by (relation "measure (\<lambda>(wr, n, offset, len). len - offset)") auto

declare write_all.simps [simp del]

record write_attempt =
  wa_pid :: int
  wa_sequence :: nat
  wa_mkdir :: "string option"
  wa_permissions :: "string option"
  wa_open :: "string option"
  wa_write :: "nat \<Rightarrow> nat \<Rightarrow> int"
  wa_sync :: bool
  wa_rename :: "string option"
  wa_remove :: bool
  wa_sync_directory :: bool

definition temporary_config :: "write_attempt \<Rightarrow> string \<Rightarrow> string" where
  "temporary_config a path =
     path @ ''.tmp-'' @ int_text (wa_pid a) @ ''-'' @ nat_text (wa_sequence a)"

definition write_atomic ::
  "write_attempt \<Rightarrow> string \<Rightarrow> string \<Rightarrow> fs \<Rightarrow> string option \<times> fs" where
  "write_atomic a path t m =
     (case wa_mkdir a of
        Some msg \<Rightarrow> (Some (''failed to create config directory: '' @ msg), m)
      | None \<Rightarrow>
      (case wa_permissions a of
        Some msg \<Rightarrow> (Some (''failed to secure config directory: '' @ msg), m)
      | None \<Rightarrow>
        (let temporary = temporary_config a path in
         case (if m temporary \<noteq> None then Some ''File exists'' else wa_open a) of
           Some msg \<Rightarrow> (Some (''failed to create temporary config file: '' @ msg), m)
         | None \<Rightarrow>
           (let (written, n) = write_all (wa_write a) 0 0 (length t);
                m1 = m(temporary \<mapsto> take n t); synced = (written \<and> wa_sync a);
                removed = (if wa_remove a then m1(temporary := None) else m1)
            in if \<not> written \<or> \<not> synced
               then (Some (if written then ''failed to sync temporary config file''
                           else ''failed to write temporary config file''), removed)
               else case wa_rename a of
                 Some msg \<Rightarrow> (Some (''failed to replace config file: '' @ msg), removed)
               | None \<Rightarrow>
                   (let m2 = (m1(temporary := None))(path \<mapsto> take n t) in
                    if \<not> wa_sync_directory a then (Some ''failed to sync config directory'', m2)
                    else (None, m2))))))"

lemma write_all_done: "write_all wr n offset len = (True, k) \<Longrightarrow> len \<le> k"
proof (induction wr n offset len rule: write_all.induct)
  case (1 wr n offset len)
  from 1(2) show ?case
    by (subst (asm) write_all.simps) (auto simp: Let_def dest: 1(1) split: if_splits)
qed

lemma temporary_config_neq [simp]: "temporary_config a p \<noteq> p" "p \<noteq> temporary_config a p"
  by (simp_all add: temporary_config_def)

interpretation config_writer: atomic_writer write_atomic temporary_config
proof
  fix f :: write_attempt and p t q :: string and m m' :: fs and r :: "string option"
  let ?w = "write_all (wa_write f) 0 0 (length t)"
  have full: "fst ?w \<Longrightarrow> take (snd ?w) t = t"
    using write_all_done [of "wa_write f" 0 0 "length t" "snd ?w"] by (cases ?w) auto
  show "write_atomic f p t m = (None, m') \<Longrightarrow> m' p = Some t"
    using full by (auto simp: write_atomic_def Let_def case_prod_unfold split: option.splits if_splits)
  show "write_atomic f p t m = (r, m') \<Longrightarrow> m' p = m p \<or> m' p = Some t"
    using full by (auto simp: write_atomic_def Let_def case_prod_unfold split: option.splits if_splits)
  show "write_atomic f p t m = (r, m') \<Longrightarrow> q \<noteq> p \<Longrightarrow> q \<noteq> temporary_config f p \<Longrightarrow> m' q = m q"
    by (auto simp: write_atomic_def Let_def case_prod_unfold split: option.splits if_splits)
qed

subsection \<open>The store\<close>

record config_env =
  ce_json :: cjson
  ce_error_ptr :: "string \<Rightarrow> string option"
  ce_home :: "string option"
  ce_pid :: int
  ce_exists_error :: "nat \<Rightarrow> string option"
  ce_readable :: "nat \<Rightarrow> bool"
  ce_attempt :: "nat \<Rightarrow> write_attempt"

record config_store =
  cs_path :: string
  cs_config :: app_config
  cs_last_error :: string
  cs_diagnostics :: "string list"
  cs_files :: fs
  cs_sequence :: nat
  cs_steps :: nat

definition default_config_path :: "config_env \<Rightarrow> string" where
  "default_config_path e =
     (case ce_home e of
        None \<Rightarrow> []
      | Some home \<Rightarrow>
          if home = [] then []
          else path_join (path_join (path_join home ''.config'') ''factory-test'') ''config.json'')"

definition no_home_error :: string where
  "no_home_error = ''HOME is not set; cannot resolve config path''"

text \<open>
  The attempt's outcomes with the process id and the next sequence number, which is taken
  from the counter once the directory is ready.
\<close>

definition next_attempt :: "config_env \<Rightarrow> config_store \<Rightarrow> write_attempt" where
  "next_attempt e s =
     (ce_attempt e (cs_steps s))\<lparr>wa_pid := ce_pid e, wa_sequence := cs_sequence s\<rparr>"

definition after_attempt :: "write_attempt \<Rightarrow> config_store \<Rightarrow> config_store" where
  "after_attempt a s =
     s\<lparr>cs_sequence := (if wa_mkdir a = None \<and> wa_permissions a = None
                       then (cs_sequence s + 1) mod 2 ^ 64 else cs_sequence s),
       cs_steps := Suc (cs_steps s)\<rparr>"

definition save :: "config_env \<Rightarrow> config_store \<Rightarrow> bool \<times> config_store" where
  "save e s0 =
     (let s = s0\<lparr>cs_last_error := []\<rparr> in
      if cs_path s = [] then (False, s\<lparr>cs_last_error := no_home_error\<rparr>)
      else
        let t = output_value_to_pretty_string 2 (config_to_output (cs_config s)) @ [CHR 0x0A];
            a = next_attempt e s
        in case write_atomic a (cs_path s) t (cs_files s) of
             (None, m) \<Rightarrow> (True, (after_attempt a s)\<lparr>cs_files := m\<rparr>)
           | (Some err, m) \<Rightarrow> (False, (after_attempt a s)\<lparr>cs_files := m, cs_last_error := err\<rparr>))"

definition add_diagnostic :: "string \<Rightarrow> config_store \<Rightarrow> config_store" where
  "add_diagnostic d s = s\<lparr>cs_diagnostics := cs_diagnostics s @ [d]\<rparr>"

text \<open>The file exists and parses to an object: its fields are read and repaired.\<close>

definition load_document :: "config_env \<Rightarrow> output_value \<Rightarrow> config_store \<Rightarrow> bool \<times> config_store" where
  "load_document e doc s =
     (case integer_value (object_member (Some doc) ''schema_version'')
              config_schema_version config_schema_version of
        None \<Rightarrow>
          (True, add_diagnostic ''unsupported or missing config schema_version; using defaults'' s)
      | Some _ \<Rightarrow>
          (let (c, corrected, ds) = read_config doc (False, cs_diagnostics s);
               s1 = s\<lparr>cs_config := c, cs_diagnostics := ds\<rparr>
           in if \<not> corrected then (True, s1)
              else case save e s1 of
                  (True, s2) \<Rightarrow> (True, s2)
                | (False, s2) \<Rightarrow> (False, add_diagnostic (cs_last_error s2) s2)))"

definition load :: "config_env \<Rightarrow> config_store \<Rightarrow> bool \<times> config_store" where
  "load e s0 =
     (let s = s0\<lparr>cs_config := config_default, cs_last_error := [], cs_diagnostics := []\<rparr> in
      if cs_path s = []
      then (False, add_diagnostic no_home_error (s\<lparr>cs_last_error := no_home_error\<rparr>))
      else let k = cs_steps s; s1 = s\<lparr>cs_steps := Suc k\<rparr> in
        case ce_exists_error e k of
          Some msg \<Rightarrow>
            (let err = ''failed to inspect config file: '' @ msg in
             (False, add_diagnostic err (s1\<lparr>cs_last_error := err\<rparr>)))
        | None \<Rightarrow>
          if cs_files s1 (cs_path s1) = None
          then (case save e s1 of
                  (True, s2) \<Rightarrow> (True, s2)
                | (False, s2) \<Rightarrow> (False, add_diagnostic (cs_last_error s2) s2))
          else
            (case parse_json_file (ce_json e) (ce_error_ptr e) (cs_path s1)
                    (if ce_readable e k then cs_files s1 (cs_path s1) else None) of
               Inl err \<Rightarrow>
                 (True, add_diagnostic (err @ ''; using defaults without overwriting the file'')
                          (s1\<lparr>cs_last_error := err\<rparr>))
             | Inr doc \<Rightarrow>
                 (case doc of
                    OVObject kvs \<Rightarrow> load_document e doc s1
                  | _ \<Rightarrow>
                    (let err = ''config root must be a JSON object'' in
                     (True, add_diagnostic (err @ ''; using defaults without overwriting the file'')
                              (s1\<lparr>cs_last_error := err\<rparr>))))))"

definition initial_store :: "config_env \<Rightarrow> fs \<Rightarrow> config_store" where
  "initial_store e files =
     \<lparr>cs_path = default_config_path e, cs_config = config_default, cs_last_error = [],
      cs_diagnostics = [], cs_files = files, cs_sequence = 0, cs_steps = 0\<rparr>"

end
