(* ===== verification/AppConfigTheorems.thy ===== *)
theory AppConfigTheorems
  imports AppConfig
begin

section \<open>AppConfigTheorems: what the configuration store guarantees\<close>

text \<open>
  A load never ends with an invalid configuration, repairing one is enough (what is written
  back needs no further repair), saving and loading give the same configuration, and the
  file always holds its old content or a whole new document.
\<close>

subsection \<open>Valid configurations\<close>

definition config_valid :: "app_config \<Rightarrow> bool" where
  "config_valid c \<longleftrightarrow>
     ui_language (cf_ui c) \<in> set languages \<and>
     0 \<le> ui_key_click_volume_percent (cf_ui c) \<and> ui_key_click_volume_percent (cf_ui c) \<le> 100 \<and>
     net_iperf_host (cf_network c) \<noteq> [] \<and>
     1 \<le> net_iperf_port (cf_network c) \<and> net_iperf_port (cf_network c) \<le> 65535 \<and>
     is_supported_baud_rate (cf_baud_rate c) \<and>
     log_level (cf_logging c) \<in> set log_levels \<and>
     min_log_segment_size \<le> log_max_segment_size_bytes (cf_logging c) \<and>
     log_max_segment_size_bytes (cf_logging c) \<le> log_max_directory_size_bytes (cf_logging c) \<and>
     int (log_max_directory_size_bytes (cf_logging c)) \<le> max_exact_json_integer \<and>
     cf_station_id c \<noteq> [] \<and> cf_schema_version c = config_schema_version"

lemma config_default_valid: "config_valid config_default"
  by (simp add: config_valid_def config_default_def languages_def is_supported_baud_rate_def
      uart_baud_rates_def log_levels_def min_log_segment_size_def max_exact_json_integer_def)

lemma integer_value_range:
  "integer_value v lo hi = Some i \<Longrightarrow> lo \<le> i \<and> i \<le> hi"
  by (auto simp: integer_value_def le_floor_iff floor_le_iff split: option.splits output_value.splits if_splits)

lemma read_int_range:
  "lo \<le> d \<Longrightarrow> d \<le> hi \<Longrightarrow> lo \<le> fst (read_int obj k f d lo hi r) \<and> fst (read_int obj k f d lo hi r) \<le> hi"
  by (auto simp: read_int_def split: option.split dest: integer_value_range)

lemma read_size_range:
  "lo \<le> d \<Longrightarrow> int d \<le> max_exact_json_integer \<Longrightarrow>
     lo \<le> fst (read_size obj k f d lo r) \<and> int (fst (read_size obj k f d lo r)) \<le> max_exact_json_integer"
  by (auto simp: read_size_def split: option.split dest!: integer_value_range)

lemma read_text_nonempty: "d \<noteq> [] \<Longrightarrow> fst (read_text obj k f d allowed r) \<noteq> []"
  by (auto simp: read_text_def split: option.split output_value.split)

lemma read_text_allowed: "d \<in> set vs \<Longrightarrow> fst (read_text obj k f d (Some vs) r) \<in> set vs"
  by (auto simp: read_text_def split: option.split output_value.split)

lemma read_logging_valid:
  "log_level (fst (read_logging doc r)) \<in> set log_levels \<and>
   min_log_segment_size \<le> log_max_segment_size_bytes (fst (read_logging doc r)) \<and>
   log_max_segment_size_bytes (fst (read_logging doc r)) \<le> log_max_directory_size_bytes (fst (read_logging doc r)) \<and>
   int (log_max_directory_size_bytes (fst (read_logging doc r))) \<le> max_exact_json_integer"
proof -
  let ?d = "cf_logging config_default"
  have d: "log_level ?d \<in> set log_levels" "min_log_segment_size \<le> log_max_segment_size_bytes ?d"
    "min_log_segment_size \<le> log_max_directory_size_bytes ?d"
    "log_max_segment_size_bytes ?d \<le> log_max_directory_size_bytes ?d"
    "int (log_max_segment_size_bytes ?d) \<le> max_exact_json_integer"
    "int (log_max_directory_size_bytes ?d) \<le> max_exact_json_integer"
    by (simp_all add: config_default_def log_levels_def min_log_segment_size_def max_exact_json_integer_def)
  show ?thesis
    using d read_text_allowed [OF d(1)] read_size_range [OF d(2,5)] read_size_range [OF d(3,6)]
    by (simp add: read_logging_def Let_def case_prod_unfold)
qed

lemma read_baud_rate_valid: "is_supported_baud_rate (fst (read_baud_rate doc r))"
  using config_default_valid by (simp add: read_baud_rate_def Let_def case_prod_unfold config_valid_def)

lemma read_config_valid: "config_valid (fst (read_config doc r))"
proof -
  have d: "config_valid config_default" by (rule config_default_valid)
  show ?thesis
    using d read_logging_valid [of doc] read_baud_rate_valid [of doc]
    by (simp add: config_valid_def read_config_def read_ui_def read_network_def Let_def case_prod_unfold
        read_text_allowed read_text_nonempty read_int_range)
qed

subsection \<open>A valid configuration is read back\<close>

definition config_plain :: "app_config \<Rightarrow> bool" where
  "config_plain c \<longleftrightarrow> text_ok (net_iperf_host (cf_network c)) \<and> text_ok (cf_station_id c)"

lemma json_num_int: "\<bar>i\<bar> \<le> 2 ^ 53 \<Longrightarrow> json_num (dbl_of_int i)"
  by (auto simp: json_num_def dbl_of_int_def)

lemma json_num_nat: "n \<le> 2 ^ 53 \<Longrightarrow> json_num (dbl_of_nat n)"
  by (auto simp: json_num_def dbl_of_nat_def exact_size_def intro!: exI [of _ "int n"])

lemma valid_texts:
  "v \<in> set languages \<Longrightarrow> text_ok v" "v \<in> set log_levels \<Longrightarrow> text_ok v"
  by (auto simp: languages_def log_levels_def)

lemma valid_baud: "is_supported_baud_rate b \<Longrightarrow> 1 \<le> b \<and> b \<le> 1000000"
  by (auto simp: is_supported_baud_rate_def uart_baud_rates_def)

lemma config_output_valid: "ov_valid (config_to_output c)"
  by (simp add: config_to_output_def ov_object_def smap_valid_def)

lemma config_output_printable:
  assumes "config_valid c" "config_plain c"
  shows "printable (config_to_output c)"
  using assms valid_baud [of "cf_baud_rate c"]
  by (simp add: config_to_output_def ov_object_def config_valid_def config_plain_def json_num_int json_num_nat
      valid_texts max_exact_json_integer_def config_schema_version_def)

lemma integer_value_int: "lo \<le> i \<Longrightarrow> i \<le> hi \<Longrightarrow> integer_value (Some (OVNumber (dbl_of_int i))) lo hi = Some i"
  by (simp add: integer_value_def dbl_of_int_def)

lemma integer_value_nat:
  "lo \<le> n \<Longrightarrow> int n \<le> max_exact_json_integer \<Longrightarrow>
     integer_value (Some (OVNumber (dbl_of_nat n))) (int lo) max_exact_json_integer = Some (int n)"
  by (simp add: integer_value_def dbl_of_nat_def exact_size_def max_exact_json_integer_def)

lemma read_ui_back:
  "config_valid c \<Longrightarrow> read_ui (config_to_output c) r = (cf_ui c, r)"
  by (cases "cf_ui c") (simp add: read_ui_def config_to_output_def ov_object_def read_bool_def read_text_def
      read_int_def integer_value_int config_valid_def Let_def, auto simp: languages_def)

lemma read_network_back:
  "config_valid c \<Longrightarrow> read_network (config_to_output c) r = (cf_network c, r)"
  by (simp add: read_network_def config_to_output_def ov_object_def read_text_def
      read_int_def integer_value_int config_valid_def Let_def)

lemma read_baud_back:
  "config_valid c \<Longrightarrow> read_baud_rate (config_to_output c) r = (cf_baud_rate c, r)"
  using valid_baud [of "cf_baud_rate c"]
  by (simp add: read_baud_rate_def config_to_output_def ov_object_def
      read_int_def integer_value_int config_valid_def Let_def)

lemma read_logging_back:
  "config_valid c \<Longrightarrow> read_logging (config_to_output c) r = (cf_logging c, r)"
  by (cases "cf_logging c") (simp add: read_logging_def config_to_output_def ov_object_def read_text_def
      read_size_def integer_value_nat config_valid_def Let_def, auto simp: log_levels_def)

lemma read_config_back:
  assumes "config_valid c"
  shows "read_config (config_to_output c) r = (c, r)"
  using assms
  by (simp add: read_config_def read_ui_back read_network_back read_baud_back read_logging_back)
    (simp add: config_to_output_def ov_object_def read_text_def config_valid_def)

subsection \<open>What save and load leave alone\<close>

definition config_text :: "app_config \<Rightarrow> string" where
  "config_text c = output_value_to_pretty_string 2 (config_to_output c) @ [CHR 0x0A]"

lemma save_frame [simp]:
  "cs_path (snd (save e s)) = cs_path s" "cs_config (snd (save e s)) = cs_config s"
  "cs_diagnostics (snd (save e s)) = cs_diagnostics s"
  by (simp_all add: save_def after_attempt_def Let_def split: option.split prod.split)

lemma save_cases:
  obtains (no_path) "cs_path s = []" "\<not> fst (save e s)" "cs_files (snd (save e s)) = cs_files s"
  | (tried) r m where "cs_path s \<noteq> []"
      "write_atomic (next_attempt e s) (cs_path s) (config_text (cs_config s)) (cs_files s) = (r, m)"
      "fst (save e s) = (r = None)" "cs_files (snd (save e s)) = m"
proof (cases "cs_path s = []")
  case True
  then show thesis by (intro no_path) (simp_all add: save_def Let_def)
next
  case False
  obtain r m where w: "write_atomic (next_attempt e s) (cs_path s) (config_text (cs_config s)) (cs_files s) = (r, m)"
    by fastforce
  have "next_attempt e (s\<lparr>cs_last_error := []\<rparr>) = next_attempt e s" by (simp add: next_attempt_def)
  with False w show thesis
    by (intro tried [OF False w]; cases r) (simp_all add: save_def Let_def config_text_def after_attempt_def)
qed

lemma save_stored:
  "fst (save e s) \<Longrightarrow> cs_files (snd (save e s)) (cs_path s) = Some (config_text (cs_config s))"
  by (cases rule: save_cases [of s e]) (auto dest: config_writer.put_done)

lemma save_whole:
  "cs_files (snd (save e s)) (cs_path s) = cs_files s (cs_path s) \<or>
   cs_files (snd (save e s)) (cs_path s) = Some (config_text (cs_config s))"
  by (cases rule: save_cases [of s e]) (auto dest: config_writer.put_old_or_new)

text \<open>A load keeps the path and the files, or has saved a valid configuration; it saves only
  where there was no file or the document has the right schema version.\<close>

lemma load_cases:
  obtains (kept) "cs_files (snd (load e s)) = cs_files s" "config_valid (cs_config (snd (load e s)))"
  | (saved) s1 where "cs_path s1 = cs_path s" "cs_files s1 = cs_files s" "config_valid (cs_config s1)"
      "fst (load e s) = fst (save e s1)" "cs_files (snd (load e s)) = cs_files (snd (save e s1))"
      "cs_config (snd (load e s)) = cs_config s1"
      "cs_files s (cs_path s) = None \<or> (\<exists>t kvs. cs_files s (cs_path s) = Some t \<and>
         parse_json_output (ce_json e) (ce_error_ptr e) t = Inr (OVObject kvs) \<and>
         integer_value (object_member (Some (OVObject kvs)) ''schema_version'') 1 1 \<noteq> None)"
proof -
  let ?s1 = "s\<lparr>cs_config := config_default, cs_last_error := [], cs_diagnostics := [], cs_steps := Suc (cs_steps s)\<rparr>"
  consider (early) "cs_path s = [] \<or> ce_exists_error e (cs_steps s) \<noteq> None"
    | (fresh) "cs_path s \<noteq> []" "ce_exists_error e (cs_steps s) = None" "cs_files s (cs_path s) = None"
    | (present) t where "cs_path s \<noteq> []" "ce_exists_error e (cs_steps s) = None" "cs_files s (cs_path s) = Some t"
    by auto
  then show thesis
  proof cases
    case early
    then show thesis
      by (intro kept) (auto simp: load_def Let_def add_diagnostic_def config_default_valid)
  next
    case fresh
    then have "load e s = (fst (save e ?s1), if fst (save e ?s1) then snd (save e ?s1)
        else add_diagnostic (cs_last_error (snd (save e ?s1))) (snd (save e ?s1)))"
      by (cases "save e ?s1") (simp add: load_def Let_def split: bool.split)
    then show thesis
      using fresh by (intro saved [of ?s1]) (simp_all add: config_default_valid add_diagnostic_def)
  next
    case (present t)
    let ?p = "parse_json_file (ce_json e) (ce_error_ptr e) (cs_path s) (if ce_readable e (cs_steps s) then Some t else None)"
    show thesis
    proof (cases "\<exists>kvs. ?p = Inr (OVObject kvs) \<and>
        integer_value (object_member (Some (OVObject kvs)) ''schema_version'') config_schema_version config_schema_version \<noteq> None")
      case False
      with present show thesis
        by (intro kept) (auto simp: load_def Let_def add_diagnostic_def config_default_valid load_document_def
            split: sum.split output_value.split option.split)
    next
      case True
      then obtain kvs v where p: "?p = Inr (OVObject kvs)"
        "integer_value (object_member (Some (OVObject kvs)) ''schema_version'') config_schema_version config_schema_version = Some v"
        by auto
      have rd: "ce_readable e (cs_steps s)" using p(1) by (rule contrapos_pp) (simp add: parse_json_file_def)
      have q: "parse_json_file (ce_json e) (ce_error_ptr e) (cs_path s) (Some t) = Inr (OVObject kvs)"
        using p(1) rd by simp
      obtain c corrected ds where rc: "read_config (OVObject kvs) (False, []) = (c, corrected, ds)"
        by (cases "read_config (OVObject kvs) (False, [])") auto
      let ?s2 = "?s1\<lparr>cs_config := c, cs_diagnostics := ds\<rparr>"
      have v: "config_valid c" using read_config_valid [of "OVObject kvs" "(False, [])"] rc by simp
      have l: "load e s = (if \<not> corrected then (True, ?s2) else (fst (save e ?s2), if fst (save e ?s2) then snd (save e ?s2)
          else add_diagnostic (cs_last_error (snd (save e ?s2))) (snd (save e ?s2))))"
        using present p(2) q rd rc by (cases "save e ?s2") (simp add: load_def Let_def load_document_def split: bool.split)
      show thesis
      proof (cases corrected)
        case False
        then show thesis using l v by (intro kept) simp_all
      next
        case True
        have "parse_json_output (ce_json e) (ce_error_ptr e) t = Inr (OVObject kvs)"
          using q by (simp add: parse_json_file_def)
        then show thesis
          using True l v p(2) present
          by (intro saved [of ?s2]) (simp_all add: add_diagnostic_def config_schema_version_def)
      qed
    qed
  qed
qed

subsection \<open>Properties\<close>

text \<open>C12: whatever the file holds and whatever fails, a load ends with a valid configuration.\<close>

theorem load_valid: "config_valid (cs_config (snd (load e s)))"
  by (cases rule: load_cases [of e s]) simp_all

text \<open>What a load writes back needs no second repair: the repaired configuration of any
  document, turned into a document and read again, is itself, with no diagnostic added.\<close>

theorem repair_converges:
  "read_config (config_to_output (fst (read_config doc r))) r' = (fst (read_config doc r), r')"
  by (rule read_config_back) (rule read_config_valid)

text \<open>C17: the file after a load is the old one or the whole document of a valid configuration, and
  the old one is only replaced where there was none or where it is a JSON object of the
  current schema version: a file of another program or version is never overwritten.\<close>

theorem load_file_whole:
  "cs_files (snd (load e s)) (cs_path s) = cs_files s (cs_path s) \<or>
   (\<exists>c. config_valid c \<and> cs_files (snd (load e s)) (cs_path s) = Some (config_text c) \<and>
      (cs_files s (cs_path s) = None \<or> (\<exists>t kvs. cs_files s (cs_path s) = Some t \<and>
         parse_json_output (ce_json e) (ce_error_ptr e) t = Inr (OVObject kvs) \<and>
         integer_value (object_member (Some (OVObject kvs)) ''schema_version'') 1 1 \<noteq> None)))"
proof (cases rule: load_cases [of e s])
  case kept
  then show ?thesis by simp
next
  case (saved s1)
  then show ?thesis using save_whole [of e s1] by metis
qed

text \<open>C21: a saved configuration that is valid and whose iperf host and station id are plain text --
  without control characters other than newline, carriage return and tab, which the writer of JSON
  does not escape -- is loaded again as it was, without a diagnostic and without a write, by any store
  on that file that can read it.\<close>

theorem save_load_roundtrip:
  assumes c: "config_valid (cs_config s)" "config_plain (cs_config s)" and ok: "fst (save e s)"
    and j: "reads_json (ce_json e')" and r: "cs_path r = cs_path s" "cs_files r = cs_files (snd (save e s))"
    and io: "ce_exists_error e' (cs_steps r) = None" "ce_readable e' (cs_steps r)"
  shows "fst (load e' r) \<and> cs_config (snd (load e' r)) = cs_config s \<and>
    cs_diagnostics (snd (load e' r)) = [] \<and> cs_files (snd (load e' r)) = cs_files r"
proof -
  let ?c = "cs_config s"
  have p: "cs_path s \<noteq> []" using ok by (cases rule: save_cases [of s e]) simp_all
  have f: "cs_files r (cs_path s) = Some (config_text ?c)" using save_stored [OF ok] r(2) by simp
  have "json_read (config_text ?c) = Some (json_of (config_to_output ?c))"
    unfolding config_text_def output_value_to_pretty_string_def
    by (rule reads_json_read [OF pretty_reads [OF config_output_printable [OF c]]]) (simp add: is_ws_def)
  then have parsed: "parse_json_output (ce_json e') (ce_error_ptr e') (config_text ?c) = Inr (config_to_output ?c)"
    using j output_value_back [OF config_output_valid] by (simp add: parse_json_output_def reads_json_def)
  have schema: "integer_value (object_member (Some (config_to_output ?c)) ''schema_version'')
      config_schema_version config_schema_version = Some config_schema_version"
    using c(1) integer_value_int [of config_schema_version config_schema_version config_schema_version]
    by (simp add: config_to_output_def ov_object_def config_valid_def)
  obtain kvs where k: "config_to_output ?c = OVObject kvs" by (simp add: config_to_output_def ov_object_def)
  show ?thesis
    using p f parsed schema read_config_back [OF c(1), of "(False, [])"] io r
    by (simp add: load_def Let_def parse_json_file_def load_document_def k)
qed

definition write_ok :: write_attempt where
  "write_ok = \<lparr>wa_pid = 1, wa_sequence = 0, wa_mkdir = None, wa_permissions = None, wa_open = None,
     wa_write = (\<lambda>n k. int k), wa_sync = True, wa_rename = None, wa_remove = True,
     wa_sync_directory = True\<rparr>"

definition config_env_ok :: config_env where
  "config_env_ok = \<lparr>ce_json = reference_cjson, ce_error_ptr = (\<lambda>t. None), ce_home = Some ''/h'', ce_pid = 1,
     ce_exists_error = (\<lambda>n. None), ce_readable = (\<lambda>n. True), ce_attempt = (\<lambda>n. write_ok)\<rparr>"

lemma write_all_ok: "write_all (\<lambda>n k. int k) 0 0 n = (True, n)"
  by (cases "n = 0") (simp_all add: write_all.simps)

lemma save_ok: "fst (save config_env_ok (initial_store config_env_ok (\<lambda>p. None)))"
  by (simp add: save_def Let_def initial_store_def default_config_path_def config_env_ok_def path_join_def
      write_atomic_def next_attempt_def write_ok_def write_all_ok)

theorem save_load_roundtrip_witness:
  "let s = initial_store config_env_ok (\<lambda>p. None); r = initial_store config_env_ok (cs_files (snd (save config_env_ok s)))
   in cs_config (snd (load config_env_ok r)) = config_default \<and> cs_diagnostics (snd (load config_env_ok r)) = []"
proof -
  let ?s = "initial_store config_env_ok (\<lambda>p. None)"
  let ?r = "initial_store config_env_ok (cs_files (snd (save config_env_ok ?s)))"
  have "config_valid (cs_config ?s)" "config_plain (cs_config ?s)"
    using config_default_valid by (simp_all add: initial_store_def config_plain_def config_default_def)
  moreover have "reads_json (ce_json config_env_ok)"
    by (simp add: config_env_ok_def reads_json_def reference_cjson_def)
  ultimately show ?thesis
    using save_load_roundtrip [of ?s config_env_ok config_env_ok ?r] save_ok
    by (simp add: Let_def initial_store_def config_env_ok_def)
qed

text \<open>A failing sync of the directory is reported as a failed write although the file has
  already been replaced: unlike the session's writer, a failure of this one does not mean
  that the file is the old one.\<close>

theorem late_failure_replaces_file:
  assumes "m (temporary_config write_ok path) = None"
  shows "let (r, m') = write_atomic (write_ok\<lparr>wa_sync_directory := False\<rparr>) path t m
    in r = Some ''failed to sync config directory'' \<and> m' path = Some t"
  using assms by (simp add: write_atomic_def write_ok_def write_all_ok Let_def temporary_config_def)

theorem late_failure_replaces_file_witness:
  "snd (write_atomic (write_ok\<lparr>wa_sync_directory := False\<rparr>) ''/c'' ''new'' [''/c'' \<mapsto> ''old'']) ''/c'' = Some ''new''"
  using late_failure_replaces_file [of "[''/c'' \<mapsto> ''old'']" "''/c''" "''new''"]
  by (auto simp: temporary_config_def case_prod_unfold Let_def)

end
