(* ===== verification/CapFrame.thy ===== *)
theory CapFrame
  imports Prelude "HOL-Library.Word"
begin

unbundle bit_operations_syntax

section \<open>CapFrame: the UART frames of the CAP fixture\<close>

text \<open>
  The framing code at the top of src/src/model/cap_fixture_test_model.cpp: the Modbus CRC,
  the 16-byte frame of a header, a type, a payload of ten bytes and the CRC, its check, and
  the search for a header in a received stream. Bytes are \<open>8 word\<close>, the CRC is a \<open>16 word\<close>.
\<close>

type_synonym byte = "8 word"

text \<open>\<open>hex_bytes\<close>: two upper case digits per byte, separated by blanks.\<close>

definition hex_byte :: "byte \<Rightarrow> string" where
  "hex_byte b = [hex_char (unat b div 16), hex_char (unat b)]"

fun hex_bytes :: "byte list \<Rightarrow> string" where
  "hex_bytes [] = []"
| "hex_bytes [b] = hex_byte b"
| "hex_bytes (b # bs) = hex_byte b @ '' '' @ hex_bytes bs"

subsection \<open>The CRC\<close>

definition crc_bit :: "16 word \<Rightarrow> 16 word" where
  "crc_bit crc = (if crc AND 1 \<noteq> 0 then drop_bit 1 crc XOR 0xA001 else drop_bit 1 crc)"

definition crc_byte :: "16 word \<Rightarrow> byte \<Rightarrow> 16 word" where
  "crc_byte crc b = (crc_bit ^^ 8) (crc XOR ucast b)"

fun crc_bytes :: "16 word \<Rightarrow> byte list \<Rightarrow> 16 word" where
  "crc_bytes crc [] = crc"
| "crc_bytes crc (b # bs) = crc_bytes (crc_byte crc b) bs"

definition crc16_modbus :: "byte list \<Rightarrow> 16 word" where
  "crc16_modbus data = crc_bytes 0xFFFF data"

definition crc_low :: "16 word \<Rightarrow> byte" where
  "crc_low crc = ucast (crc AND 0xFF)"

definition crc_high :: "16 word \<Rightarrow> byte" where
  "crc_high crc = ucast (drop_bit 8 crc AND 0xFF)"

subsection \<open>Frames\<close>

definition make_uart_frame :: "byte \<Rightarrow> byte list \<Rightarrow> byte \<Rightarrow> byte list" where
  "make_uart_frame type payload payload_size =
     (let frame = [0xA5, 0x5A, type, payload_size] @ payload; crc = crc16_modbus frame
      in frame @ [crc_low crc, crc_high crc])"

definition validate_uart_frame :: "byte list \<Rightarrow> byte \<Rightarrow> byte \<Rightarrow> byte list \<Rightarrow> string option" where
  "validate_uart_frame frame expected_type expected_length expected_payload =
     (if frame ! 0 \<noteq> 0xA5 \<or> frame ! 1 \<noteq> 0x5A then Some ''invalid UART frame header''
      else if frame ! 2 \<noteq> expected_type \<or> frame ! 3 \<noteq> expected_length
      then Some ''unexpected UART frame type or payload length''
      else if take 10 (drop 4 frame) \<noteq> expected_payload then Some ''UART payload mismatch''
      else
        let expected_crc = crc16_modbus (take 14 frame);
            received_crc = (ucast (frame ! 14) :: 16 word) OR push_bit 8 (ucast (frame ! 15))
        in if received_crc \<noteq> expected_crc then Some ''UART CRC mismatch'' else None)"

text \<open>\<open>received.find\<close> of the two header bytes.\<close>

fun find_header :: "byte list \<Rightarrow> nat option" where
  "find_header (a # b # bs) =
     (if a = 0xA5 \<and> b = 0x5A then Some 0 else map_option Suc (find_header (b # bs)))"
| "find_header _ = None"

definition frame_size :: nat where "frame_size = 16"

text \<open>
  One pass of the receive loop over what has been received so far: a frame, or what is kept
  for the next pass. Without a header only the last byte is kept: it may be the first half
  of one.
\<close>

definition scan_received :: "byte list \<Rightarrow> byte list + byte list" where
  "scan_received received =
     (case find_header received of
        Some h \<Rightarrow>
          if frame_size \<le> length received - h then Inr (take frame_size (drop h received))
          else Inl received
      | None \<Rightarrow>
          Inl (if 1 < length received then drop (length received - 1) received else received))"

subsection \<open>Receiving in pieces\<close>

definition first_frame :: "byte list \<Rightarrow> byte list option" where
  "first_frame stream =
     (case find_header stream of
        Some h \<Rightarrow> if frame_size \<le> length stream - h then Some (take frame_size (drop h stream)) else None
      | None \<Rightarrow> None)"

fun receive :: "byte list \<Rightarrow> byte list list \<Rightarrow> byte list option" where
  "receive kept [] = None"
| "receive kept (c # cs) =
     (case scan_received (kept @ c) of Inr f \<Rightarrow> Some f | Inl k \<Rightarrow> receive k cs)"

lemma find_header_append: "find_header r = Some h \<Longrightarrow> find_header (r @ s) = Some h"
  by (induction r arbitrary: h rule: find_header.induct) (auto split: if_splits)

lemma find_header_bound: "find_header r = Some h \<Longrightarrow> h + 2 \<le> length r"
  by (induction r arbitrary: h rule: find_header.induct) (auto split: if_splits)

lemma find_header_last:
  "find_header r = None \<Longrightarrow> r \<noteq> [] \<Longrightarrow>
     find_header (r @ s) = map_option (\<lambda>h. h + (length r - 1)) (find_header (last r # s))"
proof (induction r rule: find_header.induct)
  case (1 a b bs)
  then have n: "\<not> (a = 0xA5 \<and> b = 0x5A)" "find_header (b # bs) = None" by (auto split: if_splits)
  from 1(1) [OF n] show ?case
    using n by (cases "find_header (last (b # bs) # s)") (auto simp: option.map_comp comp_def)
qed (auto simp: option.map_ident)

lemma first_frame_shift:
  assumes "find_header (r @ s) = map_option (\<lambda>h. h + (length r - 1)) (find_header (last r # s))" "r \<noteq> []"
  shows "first_frame (r @ s) = first_frame (last r # s)"
proof -
  obtain q x where r: "r = q @ [x]" using assms(2) by (cases r rule: rev_cases) auto
  show ?thesis
    using assms(1) by (cases "find_header (x # s)") (auto simp: first_frame_def r)
qed

lemma scan_received_kept:
  assumes "scan_received r = Inl k"
  shows "first_frame (k @ s) = first_frame (r @ s)"
proof (cases "find_header r")
  case None
  show ?thesis
  proof (cases "1 < length r")
    case True
    have d: "drop (length r - Suc 0) r = [last r]"
      using True by (cases r rule: rev_cases) auto
    have "r \<noteq> []" using True by auto
    then show ?thesis
      using assms None True first_frame_shift [OF find_header_last [OF None], of s]
      by (auto simp: scan_received_def d)
  qed (use assms None in \<open>auto simp: scan_received_def\<close>)
next
  case (Some h)
  then show ?thesis using assms by (auto simp: scan_received_def split: if_splits)
qed

lemma scan_received_found:
  assumes "scan_received r = Inr f"
  shows "first_frame (r @ s) = Some f"
proof -
  obtain h where h: "find_header r = Some h" "frame_size \<le> length r - h" "f = take frame_size (drop h r)"
    using assms by (auto simp: scan_received_def split: option.splits if_splits)
  then show ?thesis
    by (simp add: first_frame_def find_header_append)
qed

lemma scan_received_idem: "scan_received r = Inl k \<Longrightarrow> scan_received k = Inl k"
proof (cases "find_header r")
  case None
  moreover assume "scan_received r = Inl k"
  ultimately have "k = r \<and> length r \<le> 1 \<or> length k = 1"
    by (auto simp: scan_received_def split: if_splits)
  then have "length k \<le> 1" by auto
  moreover from this have "find_header k = None" by (cases k rule: find_header.cases) auto
  ultimately show "scan_received k = Inl k" by (auto simp: scan_received_def)
qed (auto simp: scan_received_def split: if_splits)

lemma receive_first_frame: "scan_received kept = Inl kept \<Longrightarrow> receive kept cs = first_frame (kept @ concat cs)"
proof (induction cs arbitrary: kept)
  case Nil
  then show ?case
    by (auto simp: scan_received_def first_frame_def split: option.splits if_splits)
next
  case (Cons c cs)
  show ?case
  proof (cases "scan_received (kept @ c)")
    case (Inr f)
    then show ?thesis using scan_received_found [OF Inr, of "concat cs"] by simp
  next
    case (Inl k)
    from scan_received_idem [OF Inl] show ?thesis
      using Inl Cons.IH [of k] scan_received_kept [OF Inl, of "concat cs"] by simp
  qed
qed

subsection \<open>CRC\<close>

lemma crc_bit_even: "c AND 1 = 0 \<Longrightarrow> crc_bit c = drop_bit 1 c"
  by (simp add: crc_bit_def)

lemma crc_bits_shift:
  "(\<forall>i<n. \<not> bit c i) \<Longrightarrow> (crc_bit ^^ n) c = drop_bit n c"
proof (induction n)
  case (Suc n)
  then have "(crc_bit ^^ n) c = drop_bit n c" by simp
  moreover have "\<not> bit (drop_bit n c) 0" using Suc.prems by (simp add: bit_drop_bit_eq)
  then have "drop_bit n c AND 1 = 0" by (simp add: and_one_eq bit_0 even_iff_mod_2_eq_zero)
  ultimately show ?case by (simp add: crc_bit_even)
qed simp

lemma crc_bytes_append: "crc_bytes c (a @ b) = crc_bytes (crc_bytes c a) b"
  by (induction a arbitrary: c) simp_all

lemma bit_255 [simp]: "bit (255 :: int) i \<longleftrightarrow> i < 8"
proof -
  have "(255 :: int) = mask 8" by (simp add: mask_eq_exp_minus_1)
  then show ?thesis by (simp only: bit_mask_iff) auto
qed

lemma crc_low_step: "crc_byte c (crc_low c) = drop_bit 8 c"
proof -
  let ?x = "c XOR ucast (crc_low c)"
  have z: "\<not> bit ?x i" if "i < 8" for i
    using that by (simp add: crc_low_def bit_simps)
  have "drop_bit 8 ?x = drop_bit 8 c"
    by (rule bit_eqI) (auto simp: crc_low_def bit_simps)
  then show ?thesis
    using crc_bits_shift [of 8 ?x] z by (simp add: crc_byte_def)
qed

lemma crc_high_step: "crc_byte (drop_bit 8 c) (crc_high c) = 0"
proof -
  have "drop_bit 8 c XOR ucast (crc_high c) = 0"
    by (rule bit_eqI) (auto simp: crc_high_def bit_simps dest: bit_imp_le_length)
  then show ?thesis
    using crc_bits_shift [of 8 0] by (simp add: crc_byte_def)
qed

lemma crc_joined: "(ucast (crc_low c) :: 16 word) OR push_bit 8 (ucast (crc_high c)) = c"
  by (rule bit_eqI) (auto simp: crc_low_def crc_high_def bit_simps)

lemma crc_split:
  "crc_low ((ucast a :: 16 word) OR push_bit 8 (ucast b)) = a"
  "crc_high ((ucast a :: 16 word) OR push_bit 8 (ucast b)) = b"
  by (rule bit_eqI; auto simp: crc_low_def crc_high_def bit_simps dest: bit_imp_le_length)+

lemma frame_parts:
  assumes "length f = 16"
  shows "f = [f ! 0, f ! 1, f ! 2, f ! 3] @ take 10 (drop 4 f) @ [f ! 14, f ! 15]"
proof -
  obtain a b c d r where f: "f = a # b # c # d # r"
    using assms by (cases f; cases "tl f"; cases "tl (tl f)"; cases "tl (tl (tl f))") auto
  then have r: "length r = 12" using assms by simp
  have "drop 10 r = [r ! 10, r ! 11]"
    using r Cons_nth_drop_Suc [of 10 r] Cons_nth_drop_Suc [of 11 r] by simp
  then have "r = take 10 r @ [r ! 10, r ! 11]" by (metis append_take_drop_id)
  then show ?thesis using f by simp
qed

lemma crc_bit_bits:
  "bit (crc_bit c) n \<longleftrightarrow> (n < 15 \<and> bit c (Suc n)) \<noteq> (bit c 0 \<and> n < 16 \<and> bit (0xA001 :: int) n)"
  by (auto simp: crc_bit_def bit_simps and_one_eq bit_0 even_iff_mod_2_eq_zero dest: bit_imp_le_length)

lemma crc_bit_inj: "crc_bit c = crc_bit d \<longleftrightarrow> c = d"
proof
  assume e: "crc_bit c = crc_bit d"
  have "bit (0xA001 :: int) 15" by (simp add: bit_simps)
  then have z: "bit c 0 = bit d 0"
    using crc_bit_bits [of c 15] crc_bit_bits [of d 15] e by simp
  show "c = d"
  proof (rule bit_word_eqI)
    fix n
    assume "n < LENGTH(16)"
    then show "bit c n = bit d n"
      using z crc_bit_bits [of c "n - 1"] crc_bit_bits [of d "n - 1"] e by (cases n) auto
  qed
qed simp

lemma crc_bits_inj: "(crc_bit ^^ k) c = (crc_bit ^^ k) d \<longleftrightarrow> c = d"
  by (induction k) (simp_all add: crc_bit_inj)

lemma ucast_byte_inj: "(ucast a :: 16 word) = ucast b \<longleftrightarrow> (a :: byte) = b"
proof
  assume e: "(ucast a :: 16 word) = ucast b"
  have "bit (ucast a :: 16 word) n = bit a n" "bit (ucast b :: 16 word) n = bit b n" if "n < 8" for n
    using that by (simp_all add: bit_simps)
  with e show "a = b" by (intro bit_word_eqI) simp
qed simp

lemma xor_cancel:
  "c XOR x = d XOR x \<longleftrightarrow> (c :: 16 word) = d" "x XOR c = x XOR d \<longleftrightarrow> c = d"
proof -
  have e: "(a XOR b) XOR b = a" "b XOR (b XOR a) = a" for a b :: "16 word"
    by (simp add: xor.assoc, simp add: xor.assoc [symmetric])
  show "c XOR x = d XOR x \<longleftrightarrow> c = d" by (metis e(1))
  show "x XOR c = x XOR d \<longleftrightarrow> c = d" by (metis e(2))
qed

lemma crc_byte_inj: "crc_byte c b = crc_byte d b \<longleftrightarrow> c = d" "crc_byte c a = crc_byte c b \<longleftrightarrow> a = b"
  by (simp_all add: crc_byte_def crc_bits_inj xor_cancel ucast_byte_inj)

lemma crc_bytes_inj: "crc_bytes c bs = crc_bytes d bs \<longleftrightarrow> c = d"
  by (induction bs arbitrary: c d) (simp_all add: crc_byte_inj)

subsection \<open>Properties\<close>

text \<open>C24: however the stream arrives in pieces, the receive loop returns the first 16 bytes from
  the first header of the whole stream, as soon as they are there: bytes before the header
  are skipped and a header split between two reads is not lost.\<close>
theorem frames_reassembled: "receive [] cs = first_frame (concat cs)"
  by (rule receive_first_frame [of "[]", simplified]) (simp add: scan_received_def)

text \<open>A message followed by its CRC, low byte first, has the CRC zero.\<close>

lemma crc_residue:
  "crc_bytes 0xFFFF (data @ [crc_low (crc16_modbus data), crc_high (crc16_modbus data)]) = 0"
  by (simp add: crc_bytes_append crc16_modbus_def [symmetric] crc_low_step crc_high_step)

lemma valid_frame_iff:
  assumes "length frame = 16" "length payload = 10"
  shows "validate_uart_frame frame type len payload = None \<longleftrightarrow> frame = make_uart_frame type payload len"
proof
  assume v: "validate_uart_frame frame type len payload = None"
  let ?h = "[frame ! 0, frame ! 1, frame ! 2, frame ! 3]"
  have p: "frame = ?h @ take 10 (drop 4 frame) @ [frame ! 14, frame ! 15]"
    by (rule frame_parts [OF assms(1)])
  have f: "frame ! 0 = 0xA5" "frame ! 1 = 0x5A" "frame ! 2 = type" "frame ! 3 = len" "take 10 (drop 4 frame) = payload"
    "(ucast (frame ! 14) :: 16 word) OR push_bit 8 (ucast (frame ! 15)) = crc16_modbus (take 14 frame)"
    using v by (auto simp: validate_uart_frame_def Let_def split: if_splits)
  have t: "take 14 frame = [0xA5, 0x5A, type, len] @ payload"
    using assms(2) f(1-5) by (subst p) simp
  have "crc_low (crc16_modbus ([0xA5, 0x5A, type, len] @ payload)) = frame ! 14"
    "crc_high (crc16_modbus ([0xA5, 0x5A, type, len] @ payload)) = frame ! 15"
    using f(6) crc_split [of "frame ! 14" "frame ! 15"] by (simp_all add: t)
  then show "frame = make_uart_frame type payload len"
    using p f(1-5) by (simp add: make_uart_frame_def Let_def)
next
  assume "frame = make_uart_frame type payload len"
  then show "validate_uart_frame frame type len payload = None"
    using assms(2) by (simp add: make_uart_frame_def validate_uart_frame_def Let_def nth_append crc_joined)
qed

lemma made_frame_scanned:
  "length payload = 10 \<Longrightarrow>
     scan_received (make_uart_frame type payload len) = Inr (make_uart_frame type payload len)"
  by (simp add: scan_received_def make_uart_frame_def Let_def frame_size_def)

lemma made_frame_valid:
  "length payload = 10 \<Longrightarrow> validate_uart_frame (make_uart_frame type payload len) type len payload = None"
  by (simp add: valid_frame_iff make_uart_frame_def Let_def)

text \<open>The check accepts exactly the frame that the fixture should have sent, all 16 bytes.\<close>
theorem valid_frame_unique:
  assumes "length frame = 16" "length payload = 10"
  shows "validate_uart_frame frame type len payload = None \<longleftrightarrow> frame = make_uart_frame type payload len"
  using assms by (rule valid_frame_iff)

theorem valid_frame_unique_witness:
  "validate_uart_frame (make_uart_frame 0x31 (replicate 10 0) 0) 0x31 0 (replicate 10 0) = None"
  using valid_frame_unique [where frame = "make_uart_frame 0x31 (replicate 10 0) 0"
      and payload = "replicate 10 0" and type = "0x31" and len = 0]
  by (simp add: make_uart_frame_def Let_def)

text \<open>The CRC detects every error within one byte: messages that differ in exactly one
  byte, wherever it is, have different CRCs.\<close>

theorem crc_detects_byte_errors:
  "crc16_modbus (a @ x # b) = crc16_modbus (a @ y # b) \<longleftrightarrow> x = y"
  by (simp add: crc16_modbus_def crc_bytes_append crc_bytes_inj crc_byte_inj)

end
