(* ===== verification/Actions.thy ===== *)
theory Actions
  imports Main "HOL-Library.State_Monad"
begin

section \<open>Actions: stateful code as a state monad, and its triples\<close>

text \<open>
  The worker threads of the components are written as actions of the state monad over a
  record of their members. This theory has the actions every component uses and the triples
  \<open>triple P m Q\<close> with their rules: started where \<open>P\<close> holds, \<open>m\<close> ends with a result and a
  state related by \<open>Q\<close>. Actions are total, so a triple also says that the action returns.
\<close>

definition upd :: "('s \<Rightarrow> 's) \<Rightarrow> ('s, unit) state" where
  "upd f = State (\<lambda>w. ((), f w))"

definition ask :: "('s \<Rightarrow> 'a) \<Rightarrow> ('s, 'a) state" where
  "ask f = State (\<lambda>w. (f w, w))"

definition ret :: "'a \<Rightarrow> ('s, 'a) state" where
  "ret x = State (\<lambda>w. (x, w))"

text \<open>The short-circuit conjunction of actions, the \<open>&&\<close> chains and early returns of the code.\<close>

fun all_of :: "('s, bool) state list \<Rightarrow> ('s, bool) state" where
  "all_of [] = ret True"
| "all_of (a # as) = do { ok \<leftarrow> a; if ok then all_of as else ret False }"

subsection \<open>Triples\<close>

definition triple :: "('s \<Rightarrow> bool) \<Rightarrow> ('s, 'a) state \<Rightarrow> ('a \<Rightarrow> 's \<Rightarrow> bool) \<Rightarrow> bool" where
  "triple P m Q \<longleftrightarrow> (\<forall>w. P w \<longrightarrow> Q (fst (run_state m w)) (snd (run_state m w)))"

lemma tripleD: "triple P m Q \<Longrightarrow> P w \<Longrightarrow> Q (fst (run_state m w)) (snd (run_state m w))"
  by (simp add: triple_def)

lemma triple_bind: "triple P m R \<Longrightarrow> (\<And>x. triple (R x) (f x) Q) \<Longrightarrow> triple P (m \<bind> f) Q"
  by (simp add: triple_def case_prod_unfold)

lemma triple_ret: "(\<And>w. P w \<Longrightarrow> Q x w) \<Longrightarrow> triple P (ret x) Q"
  by (simp add: triple_def ret_def)

lemma triple_upd: "(\<And>w. P w \<Longrightarrow> Q () (f w)) \<Longrightarrow> triple P (upd f) Q"
  by (simp add: triple_def upd_def)

lemma triple_ask: "(\<And>w. P w \<Longrightarrow> Q (f w) w) \<Longrightarrow> triple P (ask f) Q"
  by (simp add: triple_def ask_def)

text \<open>Where the state determines what is asked of it.\<close>

lemma triple_ask_known: "(\<And>w. P w \<Longrightarrow> f w = v) \<Longrightarrow> triple P (g v) Q \<Longrightarrow> triple P (ask f \<bind> g) Q"
  by (simp add: triple_def ask_def)

lemma triple_ask_any: "(\<And>v. triple P (g v) Q) \<Longrightarrow> triple P (ask f \<bind> g) Q"
  by (simp add: triple_def ask_def)

lemma triple_ex: "(\<And>x. triple (P x) m Q) \<Longrightarrow> triple (\<lambda>w. \<exists>x. P x w) m Q"
  by (auto simp: triple_def)

lemma triple_post: "triple P m Q' \<Longrightarrow> (\<And>r w. Q' r w \<Longrightarrow> Q r w) \<Longrightarrow> triple P m Q"
  by (simp add: triple_def)

lemma triple_conseq:
  "triple P' m Q' \<Longrightarrow> (\<And>w. P w \<Longrightarrow> P' w) \<Longrightarrow> (\<And>r w. Q' r w \<Longrightarrow> Q r w) \<Longrightarrow> triple P m Q"
  by (simp add: triple_def)

lemma triple_if: "(b \<Longrightarrow> triple P m Q) \<Longrightarrow> (\<not> b \<Longrightarrow> triple P n Q) \<Longrightarrow> triple P (if b then m else n) Q"
  by simp

lemma triple_pair: "(\<And>a b. triple P (f a b) Q) \<Longrightarrow> triple P (case x of (a, b) \<Rightarrow> f a b) Q"
  by (cases x) simp

lemma triple_sum:
  "(\<And>y. triple P (f y) Q) \<Longrightarrow> (\<And>y. triple P (g y) Q) \<Longrightarrow>
     triple P (case x of Inl y \<Rightarrow> f y | Inr y \<Rightarrow> g y) Q"
  by (cases x) simp_all

lemma triple_option:
  "(x = None \<Longrightarrow> triple P m Q) \<Longrightarrow> (\<And>y. x = Some y \<Longrightarrow> triple P (f y) Q) \<Longrightarrow>
     triple P (case x of None \<Rightarrow> m | Some y \<Rightarrow> f y) Q"
  by (cases x) simp_all

lemma triple_pre: "triple P' m Q \<Longrightarrow> (\<And>w. P w \<Longrightarrow> P' w) \<Longrightarrow> triple P m Q"
  by (simp add: triple_def)

lemma triple_vacuous: "(\<And>w. \<not> P w) \<Longrightarrow> triple P m Q"
  by (simp add: triple_def)

lemma triple_assume: "(b \<Longrightarrow> triple P m Q) \<Longrightarrow> triple (\<lambda>w. P w \<and> b) m Q"
  by (auto simp: triple_def)

lemma triple_State: "(\<And>w. P w \<Longrightarrow> Q (fst (f w)) (snd (f w))) \<Longrightarrow> triple P (State f) Q"
  by (simp add: triple_def)

text \<open>The rule for conjunctions: what each part establishes the next one starts from.\<close>

lemma triple_all_of_Cons:
  assumes "triple P a (\<lambda>r w. if r then R w else Q w)" "triple R (all_of as) (\<lambda>r w. if r then S w else Q w)"
  shows "triple P (all_of (a # as)) (\<lambda>r w. if r then S w else Q w)"
proof -
  have "triple (\<lambda>w. if x then R w else Q w) (if x then all_of as else ret False)
      (\<lambda>r w. if r then S w else Q w)" for x
    using assms(2) by (cases x) (auto intro: triple_ret)
  then show ?thesis unfolding all_of.simps by (rule triple_bind [OF assms(1)])
qed

lemma triple_all_of_single:
  "triple P a (\<lambda>r w. if r then S w else Q w) \<Longrightarrow> triple P (all_of [a]) (\<lambda>r w. if r then S w else Q w)"
  by (rule triple_all_of_Cons, assumption) (auto intro: triple_ret)

subsection \<open>Actions that keep an invariant\<close>

definition keeps :: "('s \<Rightarrow> bool) \<Rightarrow> ('s, 'a) state \<Rightarrow> bool" where
  "keeps I m \<longleftrightarrow> triple I m (\<lambda>_. I)"

named_theorems keeps_intros \<open>actions that keep an invariant\<close>

lemma keepsD: "keeps I m \<Longrightarrow> I w \<Longrightarrow> I (snd (run_state m w))"
  by (simp add: keeps_def triple_def)

lemma keeps_ret [keeps_intros]: "keeps I (ret x)"
  unfolding keeps_def by (rule triple_ret)

lemma keeps_bind [keeps_intros]: "keeps I m \<Longrightarrow> (\<And>x. keeps I (f x)) \<Longrightarrow> keeps I (m \<bind> f)"
  unfolding keeps_def by (rule triple_bind)

lemma keeps_ask [keeps_intros]: "keeps I (ask f)"
  unfolding keeps_def by (rule triple_ask)

text \<open>What is asked of a state with the invariant may be used in the rest of the action.\<close>

lemma keeps_ask_bind: "(\<And>w. I w \<Longrightarrow> keeps I (g (f w))) \<Longrightarrow> keeps I (ask f \<bind> g)"
  by (simp add: keeps_def triple_def ask_def)

lemma keeps_upd: "(\<And>w. I w \<Longrightarrow> I (f w)) \<Longrightarrow> keeps I (upd f)"
  unfolding keeps_def by (rule triple_upd)

lemma keeps_if [keeps_intros]: "(b \<Longrightarrow> keeps I m) \<Longrightarrow> (\<not> b \<Longrightarrow> keeps I n) \<Longrightarrow> keeps I (if b then m else n)"
  by simp

lemma keeps_pair [keeps_intros]:
  "(\<And>a b. x = (a, b) \<Longrightarrow> keeps I (f a b)) \<Longrightarrow> keeps I (case x of (a, b) \<Rightarrow> f a b)"
  by (cases x) simp

lemma keeps_option [keeps_intros]:
  "(x = None \<Longrightarrow> keeps I m) \<Longrightarrow> (\<And>y. x = Some y \<Longrightarrow> keeps I (f y)) \<Longrightarrow>
     keeps I (case x of None \<Rightarrow> m | Some y \<Rightarrow> f y)"
  by (cases x) simp_all

lemma keeps_sum [keeps_intros]:
  "(\<And>y. keeps I (f y)) \<Longrightarrow> (\<And>y. keeps I (g y)) \<Longrightarrow> keeps I (case x of Inl y \<Rightarrow> f y | Inr y \<Rightarrow> g y)"
  by (cases x) simp_all

lemma keeps_ex: "(\<And>x. keeps (P x) m) \<Longrightarrow> keeps (\<lambda>w. \<exists>x. P x w) m"
  unfolding keeps_def triple_def by blast

lemma keeps_disj: "keeps P m \<Longrightarrow> keeps Q m \<Longrightarrow> keeps (\<lambda>w. P w \<or> Q w) m"
  unfolding keeps_def triple_def by blast

lemma keeps_triple: "keeps P m \<Longrightarrow> triple P m (\<lambda>_. P)"
  by (simp add: keeps_def)

lemma triple_keeps_bind: "keeps P m \<Longrightarrow> (\<And>x. triple P (f x) Q) \<Longrightarrow> triple P (m \<bind> f) Q"
  unfolding keeps_def by (rule triple_bind)

end
