(* ===== verification/CapFixture.thy ===== *)
theory CapFixture
  imports CapFrame Actions
begin

section \<open>CapFixture: the CAP fixture test sequence\<close>

text \<open>
  The class \<open>CapFixtureTestModel\<close> of src/src/model/cap_fixture_test_model.cpp, whose worker
  thread \<open>run_\<close> takes the fixture through eight tests and restores the hardware afterwards.
  The members and the monotone clock are one record threaded by the state monad. Every call
  into the platform services, every look at the clock and at the cancel flag is one numbered
  interaction; what it answers, how long it takes and whether the operator has asked for
  cancellation before it are functions of its number in \<open>fixture_env\<close>, so a theorem for all
  environments covers every interleaving of cancellation and failure with the sequence. The
  calls that reach hardware are recorded, with their success, in the trace. Log output and
  the destructor are not modelled.
\<close>

subsection \<open>Data (cap_fixture_test_model.h)\<close>

datatype run_state = CX_IDLE | CX_RUNNING | CX_PASSED | CX_FAILED | CX_CANCELED
datatype item_state = CI_PENDING | CI_RUNNING | CI_PASSED | CI_FAILED

record item_snapshot =
  it_name :: string
  it_state :: item_state
  it_detail :: string

record fixture_snapshot =
  fs_state :: run_state
  fs_items :: "item_snapshot list"
  fs_active_index :: nat
  fs_headline :: string
  fs_error_message :: string
  fs_revision :: nat

text \<open>What reaches the hardware; the boolean is the success of the call.\<close>

datatype fixture_event =
    EvWrite byte "byte list" bool
  | EvRead byte bool
  | EvExt5v bool bool
  | EvGrove5v bool bool
  | EvHostI2cMode bool
  | EvHostUartMode bool
  | EvSelectUsb bool
  | EvSelectGpio bool
  | EvChargeReport bool
  | EvSpi "byte list" bool
  | EvUartOpen bool
  | EvUartClose
  | EvUartWrite "byte list" bool
  | EvUartRead "byte list" bool
  | EvUsbWait bool
  | EvUsbHubReset bool
  | EvUsbHid bool
  | EvUsbDisconnect bool
  | EvGpioOutputs bool
  | EvGpioLevels bool
  | EvGpioInputs bool

record fixture_env =
  fe_cancel :: "nat \<Rightarrow> bool"
  fe_error :: "nat \<Rightarrow> string option"
  fe_data :: "nat \<Rightarrow> byte list"
  fe_lapse :: "nat \<Rightarrow> nat" \<comment> \<open>nanoseconds\<close>

record fixture =
  cx_snapshot :: fixture_snapshot
  cx_cancel_requested :: bool
  cx_worker :: bool
  cx_active_item :: nat
  cx_host_pin_function_known :: bool
  cx_host_usb_function_selected :: bool
  cx_gpio_test_lines_released :: bool
  cx_grove_i2c_active :: bool
  cx_grove_uart_active :: bool
  cx_host_external_uart_selected :: bool
  cx_uart_session :: bool
  cx_now :: nat
  cx_steps :: nat
  cx_trace :: "fixture_event list"

type_synonym 'a act = "(fixture, 'a) state"

definition item_names :: "string list" where
  "item_names = [''Power'', ''I2C'', ''Grove I2C'', ''UART'', ''Grove UART'', ''SPI'', ''USB'', ''GPIO'']"

definition power_item :: nat where "power_item = 0"
definition i2c_item :: nat where "i2c_item = 1"
definition grove_i2c_item :: nat where "grove_i2c_item = 2"
definition uart_item :: nat where "uart_item = 3"
definition grove_uart_item :: nat where "grove_uart_item = 4"
definition spi_item :: nat where "spi_item = 5"
definition usb_item :: nat where "usb_item = 6"
definition gpio_item :: nat where "gpio_item = 7"

definition initial_fixture :: fixture where
  "initial_fixture =
     \<lparr>cx_snapshot = \<lparr>fs_state = CX_IDLE,
        fs_items = map (\<lambda>n. \<lparr>it_name = n, it_state = CI_PENDING, it_detail = ''Waiting''\<rparr>) item_names,
        fs_active_index = 0, fs_headline = ''Install CAP fixture, then press Enter'',
        fs_error_message = [], fs_revision = 0\<rparr>,
      cx_cancel_requested = False, cx_worker = False, cx_active_item = 6,
      cx_host_pin_function_known = False, cx_host_usb_function_selected = False,
      cx_gpio_test_lines_released = False, cx_grove_i2c_active = False,
      cx_grove_uart_active = False, cx_host_external_uart_selected = False,
      cx_uart_session = False, cx_now = 0, cx_steps = 0, cx_trace = []\<rparr>"

subsection \<open>The state monad and the interactions\<close>

text \<open>
  One interaction: it has a number, takes some time, and a request for cancellation may
  precede it. \<open>cancel ()\<close> only sets the flag while the run state is RUNNING.
\<close>

definition interact :: "fixture_env \<Rightarrow> nat act" where
  "interact e = State (\<lambda>w.
     (cx_steps w,
      w\<lparr>cx_steps := Suc (cx_steps w), cx_now := cx_now w + fe_lapse e (cx_steps w),
        cx_cancel_requested := cx_cancel_requested w \<or>
          (fe_cancel e (cx_steps w) \<and> fs_state (cx_snapshot w) = CX_RUNNING)\<rparr>))"

definition cancel_fixture :: "fixture \<Rightarrow> fixture" where
  "cancel_fixture w =
     (if fs_state (cx_snapshot w) \<noteq> CX_RUNNING then w else w\<lparr>cx_cancel_requested := True\<rparr>)"

lemma interact_cancel:
  "snd (run_state (interact e) w) =
     (if fe_cancel e (cx_steps w) then cancel_fixture w else w)
       \<lparr>cx_steps := Suc (cx_steps w), cx_now := cx_now w + fe_lapse e (cx_steps w)\<rparr>"
  by (cases w) (auto simp: interact_def cancel_fixture_def)

definition cancel_requested :: "fixture_env \<Rightarrow> bool act" where
  "cancel_requested e = do { interact e; ask cx_cancel_requested }"

definition steady_now :: "fixture_env \<Rightarrow> nat act" where
  "steady_now e = do { interact e; ask cx_now }"

definition sleep_for :: "nat \<Rightarrow> unit act" where
  "sleep_for milliseconds = upd (\<lambda>w. w\<lparr>cx_now := cx_now w + milliseconds * 1000000\<rparr>)"

definition record_event :: "fixture_event \<Rightarrow> unit act" where
  "record_event ev = upd (\<lambda>w. w\<lparr>cx_trace := cx_trace w @ [ev]\<rparr>)"

text \<open>A service call: its error message, \<open>None\<close> for success.\<close>

definition service :: "fixture_env \<Rightarrow> (bool \<Rightarrow> fixture_event) \<Rightarrow> string option act" where
  "service e ev = do {
     k \<leftarrow> interact e;
     record_event (ev (fe_error e k = None));
     ret (fe_error e k) }"

text \<open>A service call that fills a buffer of \<open>n\<close> bytes.\<close>

definition fill :: "nat \<Rightarrow> byte list \<Rightarrow> byte list" where
  "fill n bs = take n (bs @ replicate n 0)"

definition fetch :: "fixture_env \<Rightarrow> (bool \<Rightarrow> fixture_event) \<Rightarrow> nat \<Rightarrow> (string + byte list) act" where
  "fetch e ev n = do {
     k \<leftarrow> interact e;
     record_event (ev (fe_error e k = None));
     ret (case fe_error e k of Some m \<Rightarrow> Inl m | None \<Rightarrow> Inr (fill n (fe_data e k))) }"

text \<open>The reader of the UART reports a failure by a message that is not empty.\<close>

definition read_available :: "fixture_env \<Rightarrow> (string + byte list) act" where
  "read_available e = do {
     k \<leftarrow> interact e;
     record_event (EvUartRead (fe_data e k) (fe_error e k = None));
     ret (case fe_error e k of Some (c # cs) \<Rightarrow> Inl (c # cs) | _ \<Rightarrow> Inr (fe_data e k)) }"

subsection \<open>The snapshot\<close>

definition on_snapshot :: "(fixture_snapshot \<Rightarrow> fixture_snapshot) \<Rightarrow> unit act" where
  "on_snapshot f = upd (\<lambda>w. w\<lparr>cx_snapshot := f (cx_snapshot w)\<rparr>)"

definition next_revision :: "nat \<Rightarrow> nat" where
  "next_revision r = (r + 1) mod 2 ^ 32"

definition publish :: "run_state \<Rightarrow> string \<Rightarrow> unit act" where
  "publish st headline = on_snapshot (\<lambda>s.
     s\<lparr>fs_state := st, fs_headline := headline, fs_revision := next_revision (fs_revision s)\<rparr>)"

definition fail :: "string \<Rightarrow> string \<Rightarrow> bool act" where
  "fail stage message = do {
     i \<leftarrow> ask cx_active_item;
     on_snapshot (\<lambda>s.
       s\<lparr>fs_state := CX_FAILED, fs_headline := stage @ '' failed'', fs_error_message := message,
         fs_items := (if i < length (fs_items s)
                      then (fs_items s)[i := (fs_items s ! i)\<lparr>it_state := CI_FAILED, it_detail := message\<rparr>]
                      else fs_items s),
         fs_revision := next_revision (fs_revision s)\<rparr>);
     ret False }"

definition begin_item :: "nat \<Rightarrow> string \<Rightarrow> unit act" where
  "begin_item i detail = do {
     upd (\<lambda>w. w\<lparr>cx_active_item := i\<rparr>);
     on_snapshot (\<lambda>s.
       s\<lparr>fs_active_index := i,
         fs_items := (fs_items s)[i := (fs_items s ! i)\<lparr>it_state := CI_RUNNING, it_detail := detail\<rparr>],
         fs_headline := ''Running '' @ it_name (fs_items s ! i),
         fs_revision := next_revision (fs_revision s)\<rparr>) }"

definition pass_item :: "nat \<Rightarrow> string \<Rightarrow> unit act" where
  "pass_item i detail = on_snapshot (\<lambda>s.
     s\<lparr>fs_items := (fs_items s)[i := (fs_items s ! i)\<lparr>it_state := CI_PASSED, it_detail := detail\<rparr>],
       fs_revision := next_revision (fs_revision s)\<rparr>)"

subsection \<open>Waiting\<close>

text \<open>
  \<open>delay_\<close>: ten milliseconds at a time up to the deadline, with the cancel flag read each
  time. The loop ends because every pass moves the clock.
\<close>

definition ms :: "nat \<Rightarrow> nat" where "ms n = n * 1000000"

function delay_loop :: "fixture_env \<Rightarrow> nat \<Rightarrow> fixture \<Rightarrow> bool \<times> fixture" where
  "delay_loop e deadline w =
     (let (now, w1) = run_state (steady_now e) w in
      if now < deadline then
        (let (canceled, w2) = run_state (cancel_requested e) w1 in
         if canceled then (False, w2)
         else delay_loop e deadline (snd (run_state (sleep_for 10) w2)))
      else (True, w1))"
  by auto
termination
  by (relation "measure (\<lambda>(e, deadline, w). deadline - cx_now w)")
    (auto simp: steady_now_def cancel_requested_def interact_def sleep_for_def ask_def upd_def)

declare delay_loop.simps [simp del]

definition delay :: "fixture_env \<Rightarrow> nat \<Rightarrow> bool act" where
  "delay e milliseconds = do {
     t \<leftarrow> steady_now e;
     State (delay_loop e (t + ms milliseconds)) }"

subsection \<open>Registers, pins and the UART\<close>

definition write_register :: "fixture_env \<Rightarrow> byte \<Rightarrow> byte list \<Rightarrow> string option act" where
  "write_register e reg data = service e (EvWrite reg data)"

definition write_reg :: "fixture_env \<Rightarrow> string \<Rightarrow> byte \<Rightarrow> byte list \<Rightarrow> bool act" where
  "write_reg e stage reg data = do {
     canceled \<leftarrow> cancel_requested e;
     if canceled then ret False
     else do {
       r \<leftarrow> write_register e reg data;
       (case r of
          None \<Rightarrow> ret True
        | Some m \<Rightarrow> fail stage (''I2C register write failed: '' @ m)) } }"

definition read_reg :: "fixture_env \<Rightarrow> string \<Rightarrow> byte \<Rightarrow> nat \<Rightarrow> byte list option act" where
  "read_reg e stage reg n = do {
     canceled \<leftarrow> cancel_requested e;
     if canceled then ret None
     else do {
       r \<leftarrow> fetch e (EvRead reg) n;
       (case r of
          Inr data \<Rightarrow> ret (Some data)
        | Inl m \<Rightarrow> do { fail stage (''I2C register read failed: '' @ m); ret None }) } }"

definition select_host_pin_function :: "fixture_env \<Rightarrow> bool \<Rightarrow> string option act" where
  "select_host_pin_function e usb_enabled = do {
     known \<leftarrow> ask cx_host_pin_function_known;
     usb \<leftarrow> ask cx_host_usb_function_selected;
     if known \<and> usb = usb_enabled then ret None
     else do {
       r \<leftarrow> service e (if usb_enabled then EvSelectUsb else EvSelectGpio);
       (case r of
          None \<Rightarrow> do {
            upd (\<lambda>w. w\<lparr>cx_host_pin_function_known := True, cx_host_usb_function_selected := usb_enabled\<rparr>);
            ret None }
        | Some m \<Rightarrow> ret (Some m)) } }"

definition set_gpio_test_outputs :: "fixture_env \<Rightarrow> string option act" where
  "set_gpio_test_outputs e = service e EvGpioOutputs"

text \<open>\<open>hold_gpio_outputs_high_\<close>: the outputs are driven again every ten milliseconds.\<close>

function hold_loop :: "fixture_env \<Rightarrow> string \<Rightarrow> nat \<Rightarrow> fixture \<Rightarrow> bool \<times> fixture" where
  "hold_loop e stage deadline w =
     (let (now, w1) = run_state (steady_now e) w in
      if now < deadline then
        (let (canceled, w2) = run_state (cancel_requested e) w1 in
         if canceled then (False, w2)
         else (let (r, w3) = run_state (set_gpio_test_outputs e) w2 in
               case r of
                 Some m \<Rightarrow> run_state (fail stage (''GPIO HIGH hold failed: '' @ m)) w3
               | None \<Rightarrow> hold_loop e stage deadline (snd (run_state (sleep_for 10) w3))))
      else run_state (do {
             r \<leftarrow> set_gpio_test_outputs e;
             (case r of
                Some m \<Rightarrow> fail stage (''final GPIO HIGH hold write failed: '' @ m)
              | None \<Rightarrow> ret True) }) w1)"
  by auto
termination
  by (relation "measure (\<lambda>(e, stage, deadline, w). deadline - cx_now w)")
    (auto simp: steady_now_def cancel_requested_def interact_def sleep_for_def ask_def upd_def
      set_gpio_test_outputs_def service_def record_event_def ret_def)

declare hold_loop.simps [simp del]

definition hold_gpio_outputs_high :: "fixture_env \<Rightarrow> string \<Rightarrow> nat \<Rightarrow> bool act" where
  "hold_gpio_outputs_high e stage milliseconds = do {
     t \<leftarrow> steady_now e;
     State (hold_loop e stage (t + ms milliseconds)) }"

text \<open>\<open>read_uart_frame\<close>: pieces are collected until \<open>scan_received\<close> finds a frame.\<close>

function read_frame_loop ::
  "fixture_env \<Rightarrow> nat \<Rightarrow> byte list \<Rightarrow> fixture \<Rightarrow> (string + byte list) \<times> fixture" where
  "read_frame_loop e deadline received w =
     (let (now, w1) = run_state (steady_now e) w in
      if now < deadline then
        (let (canceled, w2) = run_state (cancel_requested e) w1 in
         if canceled then (Inl ''UART receive canceled'', w2)
         else (let (r, w3) = run_state (read_available e) w2 in
               case r of
                 Inl m \<Rightarrow> (Inl m, w3)
               | Inr chunk \<Rightarrow>
                   (case scan_received (received @ chunk) of
                      Inr frame \<Rightarrow> (Inr frame, w3)
                    | Inl kept \<Rightarrow>
                        read_frame_loop e deadline kept (snd (run_state (sleep_for 10) w3)))))
      else (Inl (''UART receive timed out waiting for 16-byte frame (buffered '' @
                 nat_text (length received) @ '' byte(s))''), w1))"
  by auto
termination
  by (relation "measure (\<lambda>(e, deadline, received, w). deadline - cx_now w)")
    (auto simp: steady_now_def cancel_requested_def interact_def sleep_for_def ask_def upd_def
      read_available_def record_event_def ret_def)

declare read_frame_loop.simps [simp del]

definition read_uart_frame :: "fixture_env \<Rightarrow> nat \<Rightarrow> (string + byte list) act" where
  "read_uart_frame e milliseconds = do {
     t \<leftarrow> steady_now e;
     State (read_frame_loop e (t + ms milliseconds) []) }"

definition write_text :: "fixture_env \<Rightarrow> byte list \<Rightarrow> string option act" where
  "write_text e bytes = service e (EvUartWrite bytes)"

text \<open>
  One pass of the readiness poll of \<open>prepare_uart_test_\<close>: the result of the function, or the
  command and status bytes it has read.
\<close>

definition uart_ready_poll :: "fixture_env \<Rightarrow> string \<Rightarrow> (bool + byte \<times> byte) act" where
  "uart_ready_poll e stage = do {
     c \<leftarrow> read_reg e stage 0x01 1;
     (case c of
        None \<Rightarrow> ret (Inl False)
      | Some cs \<Rightarrow> do {
          st \<leftarrow> read_reg e stage 0x03 1;
          (case st of
             None \<Rightarrow> ret (Inl False)
           | Some ss \<Rightarrow>
               if hd cs = 0x03 \<and> hd ss = 0x01 then do {
                 r \<leftarrow> read_available e;
                 (case r of
                    Inl m \<Rightarrow> do { fail stage (''failed to clear UART RX before HELLO: '' @ m); ret (Inl False) }
                  | Inr _ \<Rightarrow> ret (Inl True)) }
               else ret (Inr (hd cs, hd ss))) }) }"

lemma delay_loop_now:
  "cx_now w \<le> cx_now (snd (delay_loop e d w)) \<and>
   (fst (delay_loop e d w) \<longrightarrow> d \<le> cx_now (snd (delay_loop e d w)))"
proof (induction e d w rule: delay_loop.induct)
  case (1 e d w)
  let ?w1 = "snd (run_state (steady_now e) w)"
  let ?w2 = "snd (run_state (cancel_requested e) ?w1)"
  have now: "fst (run_state (steady_now e) w) = cx_now ?w1" "cx_now w \<le> cx_now ?w1" "cx_now ?w1 \<le> cx_now ?w2"
    by (simp_all add: steady_now_def cancel_requested_def interact_def ask_def)
  have s: "cx_now (snd (run_state (sleep_for 10) v)) = cx_now v + 10000000" for v
    by (simp add: sleep_for_def upd_def)
  show ?case
  proof (cases "fst (run_state (steady_now e) w) < d \<and> \<not> fst (run_state (cancel_requested e) ?w1)")
    case True
    then have l: "delay_loop e d w = delay_loop e d (snd (run_state (sleep_for 10) ?w2))"
      by (subst delay_loop.simps) (simp add: Let_def case_prod_unfold)
    have "cx_now (snd (run_state (sleep_for 10) ?w2)) \<le> cx_now (snd (delay_loop e d w)) \<and>
        (fst (delay_loop e d w) \<longrightarrow> d \<le> cx_now (snd (delay_loop e d w)))"
      unfolding l
      by (rule 1 [OF refl prod.collapse _ refl prod.collapse]) (use True in simp_all)
    then show ?thesis using now s [of ?w2] by simp
  next
    case False
    then show ?thesis
      using now by (subst (1 2 3) delay_loop.simps) (auto simp: Let_def case_prod_unfold)
  qed
qed

lemma read_reg_now: "cx_now w \<le> cx_now (snd (run_state (read_reg e stage reg n) w))"
  by (simp add: read_reg_def cancel_requested_def interact_def ask_def fetch_def ret_def record_event_def
      upd_def fail_def on_snapshot_def split: option.split)

lemma delay_now:
  "fst (run_state (delay e n) w) \<Longrightarrow> cx_now w + ms n \<le> cx_now (snd (run_state (delay e n) w))"
proof -
  let ?t = "fst (run_state (steady_now e) w)" and ?w = "snd (run_state (steady_now e) w)"
  have t: "cx_now w \<le> ?t" by (simp add: steady_now_def interact_def ask_def)
  have d: "run_state (delay e n) w = delay_loop e (?t + ms n) ?w"
    by (simp add: delay_def case_prod_unfold)
  show "fst (run_state (delay e n) w) \<Longrightarrow> ?thesis"
    using delay_loop_now [of ?w e "?t + ms n"] t unfolding d by simp
qed

lemma uart_ready_poll_now: "cx_now w \<le> cx_now (snd (run_state (uart_ready_poll e stage) w))"
proof -
  have av: "cx_now v \<le> cx_now (snd (run_state (read_available e) v))" for v
    by (simp add: read_available_def interact_def record_event_def upd_def ret_def)
  have fl: "cx_now (snd (run_state (fail st m) v)) = cx_now v" for st m v
    by (simp add: fail_def ask_def on_snapshot_def upd_def ret_def)
  obtain c w1 where c: "run_state (read_reg e stage 0x01 1) w = (c, w1)" by fastforce
  obtain t w2 where t: "run_state (read_reg e stage 0x03 1) w1 = (t, w2)" by fastforce
  have "cx_now w \<le> cx_now w1" "cx_now w1 \<le> cx_now w2"
    using read_reg_now [of w e stage "0x01" 1] read_reg_now [of w1 e stage "0x03" 1] c t by simp_all
  then show ?thesis
    using av [of w2] c t
    by (cases c; cases t)
      (auto simp: uart_ready_poll_def ret_def case_prod_unfold fl split: sum.split intro: order_trans)
qed

function uart_ready_loop ::
  "fixture_env \<Rightarrow> string \<Rightarrow> nat \<Rightarrow> byte \<Rightarrow> byte \<Rightarrow> fixture \<Rightarrow> bool \<times> fixture" where
  "uart_ready_loop e stage deadline command status w =
     (let (now, w1) = run_state (steady_now e) w in
      if now < deadline then
        (let (r, w2) = run_state (uart_ready_poll e stage) w1 in
         case r of
           Inl result \<Rightarrow> (result, w2)
         | Inr (c, st) \<Rightarrow>
             (let (ok, w3) = run_state (delay e 100) w2 in
              if ok then uart_ready_loop e stage deadline c st w3 else (False, w3)))
      else run_state (fail stage (''CAP UART test command did not become ready: reg01=0x'' @
             hex_bytes [command] @ '' reg03=0x'' @ hex_bytes [status])) w1)"
  by auto
termination
proof (relation "measure (\<lambda>(e, stage, deadline, command, status, w). deadline - cx_now w)", goal_cases)
  case (2 e stage deadline command status w x now w1 y r w2 b c st z ok w3)
  have "cx_now w1 = now" "cx_now w \<le> now"
    using 2(1,2) by (auto simp: steady_now_def interact_def ask_def)
  moreover have "cx_now w1 \<le> cx_now w2" using uart_ready_poll_now [of w1 e stage] 2 by (metis snd_conv)
  moreover have "cx_now w2 + ms 100 \<le> cx_now w3" using delay_now [of e 100 w2] 2 by (metis fst_conv snd_conv)
  ultimately show ?case using 2(3) by (simp add: ms_def)
qed simp

declare uart_ready_loop.simps [simp del]

text \<open>
  The polls for the CAP status IDLE: register 0x03 every 50 ms. \<open>None\<close> where the code returns
  at once, otherwise the last status read.
\<close>

function idle_loop :: "fixture_env \<Rightarrow> string \<Rightarrow> nat \<Rightarrow> byte \<Rightarrow> fixture \<Rightarrow> byte option \<times> fixture" where
  "idle_loop e stage deadline status w =
     (let (now, w1) = run_state (steady_now e) w in
      if now < deadline then
        (let (r, w2) = run_state (read_reg e stage 0x03 1) w1 in
         case r of
           None \<Rightarrow> (None, w2)
         | Some bs \<Rightarrow>
             if hd bs = 0x00 then (Some (hd bs), w2)
             else (let (ok, w3) = run_state (delay e 50) w2 in
                   if ok then idle_loop e stage deadline (hd bs) w3 else (None, w3)))
      else (Some status, w1))"
  by auto
termination
proof (relation "measure (\<lambda>(e, stage, deadline, status, w). deadline - cx_now w)", goal_cases)
  case (2 e stage deadline status w x now w1 y r w2 b z ok w3)
  have "cx_now w1 = now" "cx_now w \<le> now"
    using 2(1,2) by (auto simp: steady_now_def interact_def ask_def)
  moreover have "cx_now w1 \<le> cx_now w2" using read_reg_now [of w1 e stage "0x03" 1] 2 by (metis snd_conv)
  moreover have "cx_now w2 + ms 50 \<le> cx_now w3" using delay_now [of e 50 w2] 2 by (metis fst_conv snd_conv)
  ultimately show ?case using 2(3) by (simp add: ms_def)
qed simp

declare idle_loop.simps [simp del]

definition wait_idle :: "fixture_env \<Rightarrow> string \<Rightarrow> nat \<Rightarrow> byte option act" where
  "wait_idle e stage milliseconds = do {
     t \<leftarrow> steady_now e;
     State (idle_loop e stage (t + ms milliseconds) 0xFF) }"

definition prepare_uart_test :: "fixture_env \<Rightarrow> string \<Rightarrow> bool act" where
  "prepare_uart_test e stage = do {
     previous \<leftarrow> ask cx_uart_session;
     (if previous then do {
        record_event EvUartClose;
        upd (\<lambda>w. w\<lparr>cx_uart_session := False\<rparr>) } else ret ());
     opened \<leftarrow> service e EvUartOpen;
     (case opened of
        Some m \<Rightarrow> fail stage (''open UART failed: '' @ m)
      | None \<Rightarrow> do {
          upd (\<lambda>w. w\<lparr>cx_uart_session := True\<rparr>);
          discarded \<leftarrow> read_available e;
          (case discarded of
             Inl m \<Rightarrow> fail stage (''failed to clear UART RX before test command: '' @ m)
           | Inr _ \<Rightarrow> do {
               ok \<leftarrow> write_reg e stage 0x01 [0x03];
               if \<not> ok then ret False
               else do {
                 t \<leftarrow> steady_now e;
                 State (uart_ready_loop e stage (t + ms 1000) 0xFF 0xFF) } }) }) }"

subsection \<open>Shapes the tests share\<close>

text \<open>\<open>if (!call (error)) return fail_ (stage, prefix + error)\<close>.\<close>

definition or_fail :: "string \<Rightarrow> string \<Rightarrow> string option act \<Rightarrow> bool act" where
  "or_fail stage prefix call = do {
     r \<leftarrow> call;
     (case r of Some m \<Rightarrow> fail stage (prefix @ m) | None \<Rightarrow> ret True) }"

text \<open>\<open>!call (error) || !delay_ (...)\<close>: a canceled delay leaves the error text empty.\<close>

definition and_delay :: "string option act \<Rightarrow> bool act \<Rightarrow> string option act" where
  "and_delay call d = do {
     r \<leftarrow> call;
     (case r of
        Some m \<Rightarrow> ret (Some m)
      | None \<Rightarrow> do { ok \<leftarrow> d; ret (if ok then None else Some []) }) }"

definition mark :: "(fixture \<Rightarrow> fixture) \<Rightarrow> bool act" where
  "mark f = do { upd f; ret True }"

definition pass :: "nat \<Rightarrow> string \<Rightarrow> bool act" where
  "pass i detail = do { pass_item i detail; ret True }"

definition with_reg :: "fixture_env \<Rightarrow> string \<Rightarrow> byte \<Rightarrow> nat \<Rightarrow> (byte list \<Rightarrow> bool act) \<Rightarrow> bool act" where
  "with_reg e stage reg n k = do {
     r \<leftarrow> read_reg e stage reg n;
     (case r of None \<Rightarrow> ret False | Some data \<Rightarrow> k data) }"

text \<open>\<open>if (!read_reg_ (...) || status != expected) return fail_ (...)\<close>.\<close>

definition expect_status :: "fixture_env \<Rightarrow> string \<Rightarrow> byte \<Rightarrow> string \<Rightarrow> bool act" where
  "expect_status e stage expected message = do {
     r \<leftarrow> read_reg e stage 0x03 1;
     if r = Some [expected] then ret True else fail stage message }"

definition set_grove_i2c :: "bool \<Rightarrow> bool act" where
  "set_grove_i2c b = mark (\<lambda>w. w\<lparr>cx_grove_i2c_active := b\<rparr>)"

definition set_grove_uart :: "bool \<Rightarrow> bool act" where
  "set_grove_uart b = mark (\<lambda>w. w\<lparr>cx_grove_uart_active := b\<rparr>)"

definition set_external_uart :: "bool \<Rightarrow> bool act" where
  "set_external_uart b = mark (\<lambda>w. w\<lparr>cx_host_external_uart_selected := b\<rparr>)"

subsection \<open>The tests\<close>

definition run_i2c :: "fixture_env \<Rightarrow> bool act" where
  "run_i2c e = do {
     begin_item i2c_item ''Register read/write'';
     with_reg e ''I2C'' 0x02 2 (\<lambda>original.
       all_of [
         write_reg e ''I2C'' 0x02 [0xA5, 0x5A],
         delay e 20,
         with_reg e ''I2C'' 0x02 2 (\<lambda>readback.
           if readback \<noteq> [0xA5, 0x5A]
           then fail ''I2C'' (''register 0x02 mismatch: '' @ hex_bytes readback)
           else ret True),
         write_reg e ''I2C'' 0x02 [0x0F, 0xF0],
         write_reg e ''I2C'' 0x01 [0x02],
         delay e 100,
         expect_status e ''I2C'' 0x02 ''CAP I2C command did not report PASS'',
         pass i2c_item ''0xA55A verified'']) }"

definition run_grove_i2c :: "fixture_env \<Rightarrow> bool act" where
  "run_grove_i2c e = do {
     begin_item grove_i2c_item ''Switch and verify Grove I2C'';
     all_of [
       or_fail ''GROVE-I2C'' ''Grove 5V enable failed: ''
         (and_delay (service e (EvGrove5v True)) (delay e 300)),
       write_reg e ''GROVE-I2C'' 0x01 [0x08],
       set_grove_i2c True,
       delay e 200,
       or_fail ''GROVE-I2C'' ''Grove I2C host mux switch failed: '' (service e EvHostI2cMode),
       set_external_uart False,
       delay e 3000,
       write_reg e ''GROVE-I2C'' 0x01 [0x02],
       delay e 100,
       expect_status e ''GROVE-I2C'' 0x02 ''CAP Grove I2C command did not report PASS'',
       write_reg e ''GROVE-I2C'' 0x01 [0x08],
       delay e 200,
       delay e 200,
       set_grove_i2c False,
       or_fail ''GROVE-I2C'' ''failed to restore grove_fun=0 after Grove I2C: ''
         (and_delay (service e EvHostUartMode) (delay e 150)),
       do {
         st \<leftarrow> wait_idle e ''GROVE-I2C'' 2000;
         (case st of
            None \<Rightarrow> ret False
          | Some b \<Rightarrow>
              if b \<noteq> 0x00 then fail ''GROVE-I2C'' ''CAP HAT I2C channel switch did not return IDLE''
              else ret True) },
       set_external_uart True,
       pass grove_i2c_item ''Channel switch + command OK''] }"

definition millivolts :: "byte \<Rightarrow> byte \<Rightarrow> nat" where
  "millivolts low high = unat ((ucast high :: 32 word) OR push_bit 8 (ucast low))"

definition run_power :: "fixture_env \<Rightarrow> bool act" where
  "run_power e = do {
     begin_item power_item ''5VIN / 5VOUT'';
     all_of [
       or_fail ''POWER'' ''EXT 5V enable failed: '' (service e (EvExt5v True)),
       delay e 150,
       write_reg e ''POWER'' 0x01 [0x01],
       delay e 200,
       do {
         r \<leftarrow> fetch e EvChargeReport 1;
         (case r of
            Inl m \<Rightarrow> fail ''POWER'' (''power_supply read failed: '' @ m)
          | Inr report \<Rightarrow>
              all_of [
                write_reg e ''POWER'' 0x0F report,
                delay e 100,
                with_reg e ''POWER'' 0x08 1 (\<lambda>low.
                  with_reg e ''POWER'' 0x09 1 (\<lambda>high.
                    let mv = millivolts (hd low) (hd high) in
                    if mv \<le> 4500
                    then fail ''POWER'' (''5VOUT is below threshold: '' @ nat_text mv @ '' mV'')
                    else pass power_item (nat_text mv @ '' mV'')))]) }] }"

definition zeros10 :: "byte list" where "zeros10 = replicate 10 0"
definition uart_hello :: "byte list" where "uart_hello = make_uart_frame 0x30 zeros10 0"
definition uart_start :: "byte list" where "uart_start = make_uart_frame 0x32 zeros10 0"
definition tx_payload :: "byte list" where "tx_payload = [0, 1, 2, 3, 4, 5, 6, 7, 8, 9]"
definition rx_payload :: "byte list" where "rx_payload = [9, 8, 7, 6, 5, 4, 3, 2, 1, 0]"
definition uart_data :: "byte list" where "uart_data = make_uart_frame 0x03 tx_payload 10"

text \<open>
  The HELLO attempts of \<open>run_uart_\<close>: \<open>None\<close> where the test fails at once, otherwise whether a
  READY frame arrived. A failed receive is retried, an invalid frame is not.
\<close>

fun hello_loop :: "fixture_env \<Rightarrow> nat \<Rightarrow> bool option act" where
  "hello_loop e 0 = ret (Some False)"
| "hello_loop e (Suc n) = do {
     canceled \<leftarrow> cancel_requested e;
     if canceled then ret (Some False)
     else do {
       w \<leftarrow> write_text e uart_hello;
       (case w of
          Some m \<Rightarrow> do { fail ''UART'' (''HELLO write failed: '' @ m); ret None }
        | None \<Rightarrow> do {
            f \<leftarrow> read_uart_frame e 700;
            (case f of
               Inl m \<Rightarrow> hello_loop e n
             | Inr ready \<Rightarrow>
                 (case validate_uart_frame ready 0x31 0 zeros10 of
                    Some m \<Rightarrow> do { fail ''UART'' (''invalid READY frame: '' @ m); ret None }
                  | None \<Rightarrow> ret (Some True))) }) } }"

definition expect_reply :: "fixture_env \<Rightarrow> string \<Rightarrow> bool act" where
  "expect_reply e stage = do {
     f \<leftarrow> read_uart_frame e 3500;
     (case f of
        Inl m \<Rightarrow> fail stage (if m = [] then ''Grove UART data exchange failed'' else m)
      | Inr reply \<Rightarrow>
          (case validate_uart_frame reply 0x03 10 rx_payload of
             Some m \<Rightarrow> fail stage m
           | None \<Rightarrow> ret True)) }"

definition run_uart :: "fixture_env \<Rightarrow> bool act" where
  "run_uart e = do {
     begin_item uart_item ''115200 8N1 handshake'';
     all_of [
       prepare_uart_test e ''UART'',
       do {
         r \<leftarrow> hello_loop e 3;
         (case r of
            None \<Rightarrow> ret False
          | Some ready \<Rightarrow>
              if \<not> ready then fail ''UART'' ''READY not received after three HELLO attempts''
              else ret True) },
       or_fail ''UART'' ''START write failed: '' (write_text e uart_start),
       or_fail ''UART'' ''DATA write failed: '' (write_text e uart_data),
       do {
         f \<leftarrow> read_uart_frame e 3500;
         (case f of
            Inl m \<Rightarrow> fail ''UART'' m
          | Inr reply \<Rightarrow>
              (case validate_uart_frame reply 0x03 10 rx_payload of
                 Some m \<Rightarrow> fail ''UART'' m
               | None \<Rightarrow> ret True)) },
       delay e 100,
       with_reg e ''UART'' 0x11 10 (\<lambda>cap_received.
         with_reg e ''UART'' 0x1B 10 (\<lambda>cap_replied. ret True)),
       pass uart_item ''Handshake + payload OK''] }"

text \<open>In \<open>run_grove_uart_\<close> a failed write is retried as well.\<close>

fun grove_hello_loop :: "fixture_env \<Rightarrow> nat \<Rightarrow> bool option act" where
  "grove_hello_loop e 0 = ret (Some False)"
| "grove_hello_loop e (Suc n) = do {
     canceled \<leftarrow> cancel_requested e;
     if canceled then ret (Some False)
     else do {
       w \<leftarrow> write_text e uart_hello;
       (case w of
          Some m \<Rightarrow> grove_hello_loop e n
        | None \<Rightarrow> do {
            f \<leftarrow> read_uart_frame e 700;
            (case f of
               Inl m \<Rightarrow> grove_hello_loop e n
             | Inr frame \<Rightarrow>
                 (case validate_uart_frame frame 0x31 0 zeros10 of
                    Some m \<Rightarrow> do { fail ''GROVE-UART'' m; ret None }
                  | None \<Rightarrow> ret (Some True))) }) } }"

definition run_grove_uart :: "fixture_env \<Rightarrow> bool act" where
  "run_grove_uart e = do {
     begin_item grove_uart_item ''Switch and verify Grove UART'';
     all_of [
       or_fail ''GROVE-UART'' ''Grove UART host mux pre-switch failed: '' (service e EvHostUartMode),
       set_external_uart True,
       delay e 150,
       write_reg e ''GROVE-UART'' 0x01 [0x09],
       set_grove_uart True,
       delay e 200,
       do {
         st \<leftarrow> wait_idle e ''GROVE-UART'' 200;
         (case st of
            None \<Rightarrow> ret False
          | Some b \<Rightarrow>
              if b \<noteq> 0x00 then fail ''GROVE-UART'' ''CAP UART channel switch did not return IDLE''
              else ret True) },
       delay e 200,
       prepare_uart_test e ''GROVE-UART'',
       do {
         r \<leftarrow> grove_hello_loop e 3;
         (case r of
            None \<Rightarrow> ret False
          | Some ready \<Rightarrow>
              if \<not> ready then fail ''GROVE-UART'' ''Grove UART READY not received''
              else or_fail ''GROVE-UART'' ''Grove UART START write failed: '' (write_text e uart_start)) },
       do {
         w \<leftarrow> write_text e uart_data;
         (case w of
            Some m \<Rightarrow> fail ''GROVE-UART'' (if m = [] then ''Grove UART data exchange failed'' else m)
          | None \<Rightarrow> expect_reply e ''GROVE-UART'') },
       write_reg e ''GROVE-UART'' 0x01 [0x09],
       delay e 200,
       delay e 200,
       set_grove_uart False,
       pass grove_uart_item ''Handshake + payload OK''] }"

definition spi_tx :: "byte list" where
  "spi_tx = [0x00, 0x11, 0x22, 0x33, 0x44, 0x55, 0x66, 0x77, 0x88, 0x99]"
definition spi_expected :: "byte list" where
  "spi_expected = [0xFF, 0xEE, 0xDD, 0xCC, 0xBB, 0xAA, 0x99, 0x88, 0x77, 0x66]"

definition run_spi :: "fixture_env \<Rightarrow> bool act" where
  "run_spi e = do {
     begin_item spi_item ''/dev/spidev0.1 @ 1 MHz'';
     all_of [
       write_reg e ''SPI'' 0x01 [0x05],
       delay e 100,
       do {
         r \<leftarrow> fetch e (EvSpi spi_tx) (length spi_tx);
         (case r of
            Inl m \<Rightarrow> fail ''SPI'' m
          | Inr rx \<Rightarrow>
              if rx \<noteq> spi_expected then fail ''SPI'' (''MISO payload mismatch: '' @ hex_bytes rx)
              else ret True) },
       delay e 50,
       with_reg e ''SPI'' 0x25 10 (\<lambda>cap_received.
         with_reg e ''SPI'' 0x2F 10 (\<lambda>cap_replied. ret True)),
       pass spi_item ''10-byte transfer OK''] }"

text \<open>
  \<open>receive_usb_hid_text\<close> with the ready action of the test: when the listener comes up (a
  non-empty answer) register 0x10 is written first; without it the receive times out.
\<close>

definition receive_usb_hid_text :: "fixture_env \<Rightarrow> string option act" where
  "receive_usb_hid_text e = do {
     k \<leftarrow> interact e;
     if fe_data e k = [] then do {
       record_event (EvUsbHid False);
       ret (Some (''timed out waiting for USB HID payload; received='' @ [CHR 0x27, CHR 0x27])) }
     else do {
       r \<leftarrow> write_register e 0x10 [0x03];
       (case r of
          Some m \<Rightarrow> ret (Some (if m = [] then ''USB HID ready action failed'' else m))
        | None \<Rightarrow> service e EvUsbHid) } }"

text \<open>The enumeration with its one retry after a reset of the hub.\<close>

definition usb_enumerate :: "fixture_env \<Rightarrow> bool act" where
  "usb_enumerate e = do {
     r \<leftarrow> service e EvUsbWait;
     (case r of
        None \<Rightarrow> ret True
      | Some m \<Rightarrow> do {
          canceled \<leftarrow> cancel_requested e;
          if canceled then fail ''USB'' m
          else all_of [
            or_fail ''USB'' ''USB hub reset failed: '' (service e EvUsbHubReset),
            delay e 500,
            or_fail ''USB'' [] (service e EvUsbWait)] }) }"

definition run_usb :: "fixture_env \<Rightarrow> bool act" where
  "run_usb e = do {
     begin_item usb_item ''Waiting for fixture USB'';
     all_of [
       or_fail ''USB'' ''USB function switch failed: '' (select_host_pin_function e True),
       delay e 500,
       write_reg e ''USB'' 0x10 [0x01],
       write_reg e ''USB'' 0x01 [0x04],
       delay e 500,
       usb_enumerate e,
       or_fail ''USB'' [] (receive_usb_hid_text e),
       write_reg e ''USB'' 0x10 [0x07],
       delay e 200,
       or_fail ''USB'' [] (service e EvUsbDisconnect),
       write_reg e ''USB'' 0x10 [0x0F],
       delay e 300,
       pass usb_item ''HID HDR-14P received''] }"

text \<open>
  The sampling loop of \<open>run_gpio_\<close> with \<open>n\<close> samples to go: whether all reads went well, the
  samples completed and the last one.
\<close>

fun gpio_samples :: "fixture_env \<Rightarrow> nat \<Rightarrow> nat \<Rightarrow> byte \<Rightarrow> (bool \<times> nat \<times> byte) act" where
  "gpio_samples e 0 completed levels = ret (True, completed, levels)"
| "gpio_samples e (Suc n) completed levels = do {
     ok \<leftarrow> or_fail ''GPIO'' ''GPIO HIGH reassert before sample failed: '' (set_gpio_test_outputs e);
     if \<not> ok then ret (False, completed, levels)
     else do {
       r \<leftarrow> read_reg e ''GPIO'' 0x07 1;
       (case r of
          None \<Rightarrow> ret (False, completed, levels)
        | Some sample \<Rightarrow>
            if n = 0 then gpio_samples e n (completed + 1) (hd sample)
            else do {
              held \<leftarrow> hold_gpio_outputs_high e ''GPIO'' 100;
              if held then gpio_samples e n (completed + 1) (hd sample)
              else ret (False, completed + 1, hd sample) }) } }"

definition gpio_sample_count :: nat where "gpio_sample_count = 5"

text \<open>After the sampling, whatever came of it, STOP is sent and the lines are released.\<close>

definition gpio_sample_and_stop :: "fixture_env \<Rightarrow> bool act" where
  "gpio_sample_and_stop e = do {
     s \<leftarrow> gpio_samples e gpio_sample_count 0 0;
     stop \<leftarrow> write_register e 0x01 [0x00];
     inputs \<leftarrow> service e EvGpioInputs;
     upd (\<lambda>w. w\<lparr>cx_gpio_test_lines_released := (inputs = None)\<rparr>);
     (case s of (read_ok, completed, levels) \<Rightarrow>
        if \<not> read_ok \<or> completed \<noteq> gpio_sample_count then ret False
        else if levels AND 0x07 \<noteq> 0x07 \<or> levels AND 0xF8 \<noteq> 0
        then fail ''GPIO'' (''GPIO bitmap mismatch: 0x'' @ hex_bytes [levels])
        else case stop of
          Some m \<Rightarrow> fail ''GPIO'' (''GPIO STOP command failed: '' @ m)
        | None \<Rightarrow>
            (case inputs of
               Some m \<Rightarrow> fail ''GPIO'' (''GPIO final input/high-Z setup failed: '' @ m)
             | None \<Rightarrow> pass gpio_item ''Bitmap 0x07'')) }"

definition run_gpio :: "fixture_env \<Rightarrow> bool act" where
  "run_gpio e = do {
     begin_item gpio_item ''GPIO26/23/22 high'';
     all_of [
       or_fail ''GPIO'' ''GPIO function switch failed: '' (select_host_pin_function e False),
       delay e 1000,
       or_fail ''GPIO'' ''GPIO output setup failed: '' (set_gpio_test_outputs e),
       hold_gpio_outputs_high e ''GPIO'' 500,
       write_reg e ''GPIO'' 0x01 [0x06],
       hold_gpio_outputs_high e ''GPIO'' 250,
       do {
         r \<leftarrow> fetch e EvGpioLevels 1;
         (case r of
            Inl m \<Rightarrow> fail ''GPIO'' (''host GPIO output readback failed: '' @ m)
          | Inr host \<Rightarrow>
              if hd host AND 0x07 \<noteq> 0x07
              then fail ''GPIO'' (''host GPIO output bitmap mismatch: 0x'' @ hex_bytes host)
              else ret True) },
       gpio_sample_and_stop e] }"

subsection \<open>Cleaning up\<close>

text \<open>Failures are only logged: every step is tried. \<open>attempt\<close> tells whether it worked.\<close>

definition attempt :: "fixture_env \<Rightarrow> (bool \<Rightarrow> fixture_event) \<Rightarrow> bool act" where
  "attempt e ev = do { r \<leftarrow> service e ev; ret (r = None) }"

definition cleanup_grove_i2c :: "fixture_env \<Rightarrow> unit act" where
  "cleanup_grove_i2c e = do {
     is_active \<leftarrow> ask cx_grove_i2c_active;
     if \<not> is_active then ret ()
     else do {
       selected \<leftarrow> attempt e EvHostI2cMode;
       (if selected then do { delay e 3000; ret () } else ret ());
       toggled \<leftarrow> attempt e (EvWrite 0x01 [0x08]);
       (if toggled then do { delay e 200; delay e 200; ret () } else ret ());
       upd (\<lambda>w. w\<lparr>cx_grove_i2c_active := False\<rparr>) } }"

definition cleanup_grove_uart :: "fixture_env \<Rightarrow> unit act" where
  "cleanup_grove_uart e = do {
     is_active \<leftarrow> ask cx_grove_uart_active;
     if \<not> is_active then ret ()
     else do {
       toggled \<leftarrow> attempt e (EvWrite 0x01 [0x09]);
       (if toggled then do { delay e 200; delay e 200; ret () } else ret ());
       upd (\<lambda>w. w\<lparr>cx_grove_uart_active := False\<rparr>) } }"

definition cleanup :: "fixture_env \<Rightarrow> unit act" where
  "cleanup e = do {
     cleanup_grove_i2c e;
     uart_mode \<leftarrow> attempt e EvHostUartMode;
     (if uart_mode then upd (\<lambda>w. w\<lparr>cx_host_external_uart_selected := True\<rparr>) else ret ());
     cleanup_grove_uart e;
     attempt e (EvWrite 0x01 [0x00]);
     pin \<leftarrow> select_host_pin_function e False;
     (if pin = None then sleep_for 150 else ret ());
     released \<leftarrow> ask cx_gpio_test_lines_released;
     (if released then ret ()
      else do {
        r \<leftarrow> attempt e EvGpioInputs;
        if r then upd (\<lambda>w. w\<lparr>cx_gpio_test_lines_released := True\<rparr>) else ret () });
     attempt e (EvExt5v False);
     attempt e (EvGrove5v False);
     session \<leftarrow> ask cx_uart_session;
     (if session then do {
        record_event EvUartClose;
        upd (\<lambda>w. w\<lparr>cx_uart_session := False\<rparr>) } else ret ()) }"

subsection \<open>The sequence\<close>

text \<open>The software reset, up to \<open>n\<close> attempts to go: whether it was sent, and the last error.\<close>

fun reset_attempts :: "fixture_env \<Rightarrow> nat \<Rightarrow> string \<Rightarrow> (bool \<times> string) act" where
  "reset_attempts e 0 err = ret (False, err)"
| "reset_attempts e (Suc n) err = do {
     canceled \<leftarrow> cancel_requested e;
     if canceled then ret (False, err)
     else do {
       r \<leftarrow> write_register e 0x01 [0x07];
       (case r of
          None \<Rightarrow> ret (True, err)
        | Some m \<Rightarrow>
            if n = 0 then ret (False, m)
            else do {
              ok \<leftarrow> delay e 200;
              if ok then reset_attempts e n m else ret (False, m) }) } }"

definition software_reset_attempts :: nat where "software_reset_attempts = 5"

text \<open>The steps before the first test; after a failure the code cleans up and returns.\<close>

definition prepare_fixture :: "fixture_env \<Rightarrow> bool act" where
  "prepare_fixture e = all_of [
     or_fail ''PREPARE'' ''failed to keep I2C on HAT: '' (service e EvHostUartMode),
     set_external_uart True,
     or_fail ''PREPARE'' ''failed to enable EXT 5V before reset: '' (service e (EvExt5v True)),
     delay e 300,
     do {
       r \<leftarrow> reset_attempts e software_reset_attempts [];
       (case r of (sent, err) \<Rightarrow>
          if sent then ret True
          else do {
            canceled \<leftarrow> cancel_requested e;
            if canceled then ret False
            else fail ''RESET'' (''I2C software reset failed after '' @ nat_text software_reset_attempts @
                   '' attempts: '' @ err) }) },
     delay e 2000]"

definition run_tests :: "fixture_env \<Rightarrow> bool act" where
  "run_tests e = all_of [
     run_power e, delay e 1000, run_i2c e, delay e 1000, run_grove_i2c e, delay e 1500,
     run_uart e, delay e 1000, run_grove_uart e, delay e 1000, run_spi e, delay e 1000,
     run_usb e, delay e 1000, run_gpio e]"

definition run_fixture :: "fixture_env \<Rightarrow> unit act" where
  "run_fixture e = do {
     prepared \<leftarrow> prepare_fixture e;
     if \<not> prepared then cleanup e
     else do {
       passed \<leftarrow> run_tests e;
       cleanup e;
       canceled \<leftarrow> cancel_requested e;
       if canceled then publish CX_CANCELED ''Fixture test canceled''
       else if passed then publish CX_PASSED ''All fixture tests passed''
       else ret () } }"

text \<open>\<open>start\<close> does nothing while a worker exists; otherwise it publishes and starts it.\<close>

definition start_fixture :: "fixture_env \<Rightarrow> unit act" where
  "start_fixture e = do {
     running \<leftarrow> ask cx_worker;
     if running then ret ()
     else do {
       upd (\<lambda>w. w\<lparr>cx_cancel_requested := False\<rparr>);
       publish CX_RUNNING ''Resetting CAP fixture'';
       upd (\<lambda>w. w\<lparr>cx_worker := True\<rparr>);
       run_fixture e } }"

fun item_state_text :: "item_state \<Rightarrow> string" where
  "item_state_text CI_RUNNING = ''RUN''"
| "item_state_text CI_PASSED = ''PASS''"
| "item_state_text CI_FAILED = ''FAIL''"
| "item_state_text CI_PENDING = ''WAIT''"

text \<open>The whole life of a model: started once in the initial state.\<close>

definition fixture_run :: "fixture_env \<Rightarrow> fixture" where
  "fixture_run e = snd (run_state (start_fixture e) initial_fixture)"

end
