(* ===== verification/CapLogic.thy ===== *)
theory CapLogic
  imports CapFixture
begin

section \<open>CapLogic: reasoning about the fixture's actions\<close>

text \<open>
  Triples over the state monad, their rules, and the interface \<open>fixture_logic\<close>: an invariant
  that every interaction keeps and a condition that holds wherever an action reports
  failure. In it every building block and every test of the sequence is proved once; its
  interpretations give the facts the properties rest on.
\<close>

text \<open>The two register writes that move a CAP channel.\<close>

definition is_toggle :: "fixture_event \<Rightarrow> bool" where
  "is_toggle ev \<longleftrightarrow> (\<exists>b. ev = EvWrite 0x01 [0x08] b \<or> ev = EvWrite 0x01 [0x09] b)"

lemma is_toggle_simps [simp]:
  "is_toggle (EvWrite r d b) \<longleftrightarrow> r = 0x01 \<and> (d = [0x08] \<or> d = [0x09])"
  "\<not> is_toggle (EvRead r b)" "\<not> is_toggle (EvExt5v c b)" "\<not> is_toggle (EvGrove5v c b)"
  "\<not> is_toggle (EvHostI2cMode b)" "\<not> is_toggle (EvHostUartMode b)" "\<not> is_toggle (EvSelectUsb b)"
  "\<not> is_toggle (EvSelectGpio b)" "\<not> is_toggle (EvChargeReport b)" "\<not> is_toggle (EvSpi d b)"
  "\<not> is_toggle (EvUartOpen b)" "\<not> is_toggle EvUartClose" "\<not> is_toggle (EvUartWrite d b)"
  "\<not> is_toggle (EvUartRead d b)" "\<not> is_toggle (EvUsbWait b)" "\<not> is_toggle (EvUsbHubReset b)"
  "\<not> is_toggle (EvUsbHid b)" "\<not> is_toggle (EvUsbDisconnect b)" "\<not> is_toggle (EvGpioOutputs b)"
  "\<not> is_toggle (EvGpioLevels b)" "\<not> is_toggle (EvGpioInputs b)"
  by (auto simp: is_toggle_def)

subsection \<open>The interface\<close>

locale fixture_wait =
  fixes I F :: "fixture \<Rightarrow> bool"
  assumes I_step: "I w \<Longrightarrow> (cx_cancel_requested w \<longrightarrow> c) \<Longrightarrow>
      I (w\<lparr>cx_steps := k, cx_now := t, cx_cancel_requested := c\<rparr>)"
    and F_cancel: "I w \<Longrightarrow> cx_cancel_requested w \<Longrightarrow> F w"
begin

definition sound :: "('a \<Rightarrow> bool) \<Rightarrow> 'a act \<Rightarrow> bool" where
  "sound good m \<longleftrightarrow> triple I m (\<lambda>r w. if good r then I w else F w)"

definition calm :: "'a act \<Rightarrow> bool" where
  "calm m \<longleftrightarrow> triple I m (\<lambda>r w. I w)"

lemma calmD: "calm m \<Longrightarrow> I w \<Longrightarrow> run_state m w = (r, w') \<Longrightarrow> I w'"
  by (auto simp: calm_def triple_def)

lemma soundD: "sound good m \<Longrightarrow> I w \<Longrightarrow> run_state m w = (r, w') \<Longrightarrow> (if good r then I w' else F w')"
  by (auto simp: sound_def triple_def split: if_splits)

lemma calm_bind: "calm m \<Longrightarrow> (\<And>x. calm (f x)) \<Longrightarrow> calm (m \<bind> f)"
  unfolding calm_def by (rule triple_bind)

lemma sound_bind: "calm m \<Longrightarrow> (\<And>x. sound g (f x)) \<Longrightarrow> sound g (m \<bind> f)"
  unfolding calm_def sound_def by (rule triple_bind)

text \<open>Where the first action reports failure the rest gives up at once.\<close>

lemma sound_bind_good:
  assumes "sound g m" "\<And>x. g x \<Longrightarrow> sound h (f x)" "\<And>x. \<not> g x \<Longrightarrow> f x = ret y" "\<not> h y"
  shows "sound h (m \<bind> f)"
  unfolding sound_def
proof (rule triple_bind)
  show "triple I m (\<lambda>r w. if g r then I w else F w)" using assms(1) by (simp add: sound_def)
  show "triple (\<lambda>w. if g x then I w else F w) (f x) (\<lambda>r w. if h r then I w else F w)" for x
    using assms(2-4) by (cases "g x") (auto simp: sound_def intro: triple_ret)
qed

lemma calm_ret: "calm (ret x)"
  unfolding calm_def by (rule triple_ret)

lemma sound_ret: "good x \<Longrightarrow> sound good (ret x)"
  unfolding sound_def by (rule triple_ret) simp

lemma calm_ask: "calm (ask f)"
  unfolding calm_def by (rule triple_ask)

lemma calm_upd: "(\<And>w. I w \<Longrightarrow> I (f w)) \<Longrightarrow> calm (upd f)"
  unfolding calm_def by (rule triple_upd)

lemma calm_interact: "calm (interact e)"
  unfolding calm_def interact_def by (rule triple_State) (auto intro: I_step)

lemma calm_steady_now: "calm (steady_now e)"
  unfolding steady_now_def by (intro calm_bind calm_interact calm_ask)

lemma sound_cancel: "sound Not (cancel_requested e)"
  unfolding sound_def cancel_requested_def
proof (rule triple_bind)
  show "triple I (interact e) (\<lambda>r w. I w)" using calm_interact by (simp add: calm_def)
  show "triple I (ask cx_cancel_requested) (\<lambda>r w. if \<not> r then I w else F w)"
    by (rule triple_ask) (auto intro: F_cancel)
qed

lemma calm_cancel: "calm (cancel_requested e)"
  unfolding cancel_requested_def by (intro calm_bind calm_interact calm_ask)

lemma cancelD: "I w \<Longrightarrow> run_state (cancel_requested e) w = (c, w') \<Longrightarrow> I w' \<and> (\<not> c \<or> F w')"
  using soundD [OF sound_cancel, of w e c w'] calmD [OF calm_cancel, of w e c w'] by auto

lemma calm_sleep: "calm (sleep_for n)"
  unfolding sleep_for_def
proof (rule calm_upd)
  fix w
  assume "I w"
  then have "I (w\<lparr>cx_steps := cx_steps w, cx_now := cx_now w + n * 1000000,
      cx_cancel_requested := cx_cancel_requested w\<rparr>)" by (intro I_step) simp_all
  then show "I (w\<lparr>cx_now := cx_now w + n * 1000000\<rparr>)" by simp
qed

text \<open>Conjunctions: every part is sound, and what the last one establishes holds at the end.\<close>

lemma sound_all_of: "(\<And>a. a \<in> set as \<Longrightarrow> sound (\<lambda>r. r) a) \<Longrightarrow> sound (\<lambda>r. r) (all_of as)"
proof (induction as)
  case (Cons a as)
  have "sound (\<lambda>r. r) (a \<bind> (\<lambda>ok. if ok then all_of as else ret False))"
    using Cons by (intro sound_bind_good [of "\<lambda>r. r" a "\<lambda>r. r" _ False]) auto
  then show ?case by simp
qed (simp add: sound_ret)

subsection \<open>Waiting\<close>

lemma sound_delay_loop: "I w \<Longrightarrow> I (snd (delay_loop e d w)) \<and> (fst (delay_loop e d w) \<or> F (snd (delay_loop e d w)))"
proof (induction e d w rule: delay_loop.induct)
  case (1 e d w)
  obtain now w1 where n: "run_state (steady_now e) w = (now, w1)" by fastforce
  obtain c w2 where c: "run_state (cancel_requested e) w1 = (c, w2)" by fastforce
  obtain u w3 where s: "run_state (sleep_for 10) w2 = (u, w3)" by (cases "run_state (sleep_for 10) w2")
  have i1: "I w1" by (rule calmD [OF calm_steady_now 1(2) n])
  have i2: "I w2 \<and> (\<not> c \<or> F w2)" by (rule cancelD [OF i1 c])
  then have i3: "I w3" using calmD [OF calm_sleep _ s] by simp
  show ?case
    using 1(1) [OF refl n [symmetric] _ refl c [symmetric]] i1 i2 i3
    by (subst (1 2 3) delay_loop.simps) (auto simp: n c s)
qed

lemma sound_delay: "sound (\<lambda>r. r) (delay e n)"
  unfolding delay_def
  by (rule sound_bind [OF calm_steady_now]) (auto simp: sound_def intro!: triple_State dest: sound_delay_loop)

lemma calm_delay: "calm (delay e n)"
  unfolding delay_def
  by (rule calm_bind [OF calm_steady_now]) (auto simp: calm_def intro!: triple_State dest: sound_delay_loop)

end

text \<open>What the actions that do not report failure record and set keeps the invariant.\<close>

locale fixture_quiet = fixture_wait +
  fixes ok :: "fixture_event \<Rightarrow> bool"
  assumes ok_plain: "\<not> is_toggle ev \<Longrightarrow> ok ev"
    and I_event: "I w \<Longrightarrow> ok ev \<Longrightarrow> I (w\<lparr>cx_trace := cx_trace w @ [ev]\<rparr>)"
    and I_session: "I w \<Longrightarrow> I (w\<lparr>cx_uart_session := b\<rparr>)"
    and I_pins: "I w \<Longrightarrow> I (w\<lparr>cx_host_pin_function_known := b, cx_host_usb_function_selected := b'\<rparr>)"
    and I_lines: "I w \<Longrightarrow> I (w\<lparr>cx_gpio_test_lines_released := b\<rparr>)"
    and I_external: "I w \<Longrightarrow> I (w\<lparr>cx_host_external_uart_selected := b\<rparr>)"
begin

lemma calm_event: "ok ev \<Longrightarrow> calm (record_event ev)"
  unfolding record_event_def by (rule calm_upd) (rule I_event)

lemma calm_event_of: "ok (ev True) \<Longrightarrow> ok (ev False) \<Longrightarrow> calm (record_event (ev b))"
  by (cases b) (simp_all add: calm_event)

lemma calm_service: "ok (ev True) \<Longrightarrow> ok (ev False) \<Longrightarrow> calm (service e ev)"
  unfolding service_def by (intro calm_bind calm_interact calm_event_of [of ev] calm_ret)

lemma calm_fetch: "ok (ev True) \<Longrightarrow> ok (ev False) \<Longrightarrow> calm (fetch e ev n)"
  unfolding fetch_def by (intro calm_bind calm_interact calm_event_of [of ev] calm_ret)

lemma calm_read_available:
  "(\<And>bs b. ok (EvUartRead bs b)) \<Longrightarrow> calm (read_available e)"
  unfolding read_available_def by (intro calm_bind calm_interact calm_event calm_ret)

lemma sound_mark: "(\<And>w. I w \<Longrightarrow> I (f w)) \<Longrightarrow> sound (\<lambda>r. r) (mark f)"
  unfolding mark_def by (intro sound_bind calm_upd sound_ret) simp_all

text \<open>The events a block may record: allowed with either outcome.\<close>

definition allowed :: "(bool \<Rightarrow> fixture_event) \<Rightarrow> bool" where
  "allowed ev \<longleftrightarrow> ok (ev True) \<and> ok (ev False)"

lemma calm_service_allowed: "allowed ev \<Longrightarrow> calm (service e ev)"
  by (simp add: allowed_def calm_service)

lemma calm_fetch_allowed: "allowed ev \<Longrightarrow> calm (fetch e ev n)"
  by (simp add: allowed_def calm_fetch)

lemma allowed_plain [intro]: "\<not> is_toggle (ev True) \<Longrightarrow> \<not> is_toggle (ev False) \<Longrightarrow> allowed ev"
  by (simp add: allowed_def ok_plain)

lemma ok_uart_read: "ok (EvUartRead bs b)"
  by (rule ok_plain) simp

lemma calm_plain: "\<not> is_toggle (ev True) \<Longrightarrow> \<not> is_toggle (ev False) \<Longrightarrow> calm (service e ev)"
  by (rule calm_service_allowed) (rule allowed_plain)

lemma calm_fetch_plain: "\<not> is_toggle (ev True) \<Longrightarrow> \<not> is_toggle (ev False) \<Longrightarrow> calm (fetch e ev n)"
  by (rule calm_fetch_allowed) (rule allowed_plain)

lemma calm_select_pins:
  "allowed EvSelectUsb \<Longrightarrow> allowed EvSelectGpio \<Longrightarrow> calm (select_host_pin_function e b)"
  unfolding select_host_pin_function_def
  by (intro calm_bind calm_ask) (auto intro!: calm_bind calm_ret calm_upd I_pins calm_service_allowed split: option.split)

lemma calm_attempt: "\<not> is_toggle (ev True) \<Longrightarrow> \<not> is_toggle (ev False) \<Longrightarrow> calm (attempt e ev)"
  unfolding attempt_def by (intro calm_bind calm_ret calm_plain)

lemma calm_if: "(b \<Longrightarrow> calm m) \<Longrightarrow> (\<not> b \<Longrightarrow> calm n) \<Longrightarrow> calm (if b then m else n)"
  by simp

lemma set_external_sound: "sound (\<lambda>r. r) (set_external_uart b)"
  unfolding set_external_uart_def by (rule sound_mark) (rule I_external)

end

text \<open>The members the Grove tests set, where the invariant does not speak of them.\<close>

locale fixture_flags = fixture_quiet +
  assumes I_i2c: "I w \<Longrightarrow> I (w\<lparr>cx_grove_i2c_active := b\<rparr>)"
    and I_uart: "I w \<Longrightarrow> I (w\<lparr>cx_grove_uart_active := b\<rparr>)"
    and ok_any: "ok ev"
begin

lemma calm_any: "calm (service e ev)"
  by (rule calm_service) (rule ok_any)+

lemma calm_attempt_any: "calm (attempt e ev)"
  unfolding attempt_def by (intro calm_bind calm_ret calm_any)

lemma calm_select_any: "calm (select_host_pin_function e b)"
  by (rule calm_select_pins) (simp_all add: allowed_plain)

lemma calm_cleanup: "calm (cleanup e)"
  unfolding cleanup_def cleanup_grove_i2c_def cleanup_grove_uart_def
  by (intro calm_bind calm_ask calm_attempt_any calm_select_any calm_if calm_upd calm_ret calm_delay
      calm_sleep calm_event ok_any I_i2c I_uart I_external I_lines I_session)

end

text \<open>
  Failing leads from \<open>I\<close>, and from \<open>F\<close>, to \<open>F\<close>; what the code still does after a failure
  keeps \<open>F\<close>.
\<close>

locale fixture_logic = fixture_quiet I F ok + stopped: fixture_quiet F F ok
  for I F :: "fixture \<Rightarrow> bool" and ok :: "fixture_event \<Rightarrow> bool" +
  assumes I_fail: "I w \<Longrightarrow> F (snd (run_state (fail stage m) w))"
    and F_fail: "F w \<Longrightarrow> F (snd (run_state (fail stage m) w))"
begin

lemma fail_returns [simp]: "\<not> fst (run_state (fail stage m) w)"
  by (simp add: fail_def ask_def on_snapshot_def upd_def ret_def)

lemma sound_fail: "sound (\<lambda>r. False) (fail stage m)"
  unfolding sound_def triple_def using I_fail by simp

lemma sound_failed: "sound (\<lambda>r. r) (fail stage m)"
  unfolding sound_def triple_def using I_fail by simp

lemma sound_or_fail: "calm m \<Longrightarrow> sound (\<lambda>r. r) (or_fail stage prefix m)"
  unfolding or_fail_def
  by (rule sound_bind, assumption) (auto intro: sound_ret sound_failed split: option.split)

lemma sound_hold_loop:
  "allowed EvGpioOutputs \<Longrightarrow> I w \<Longrightarrow>
     (if fst (hold_loop e stage d w) then I (snd (hold_loop e stage d w)) else F (snd (hold_loop e stage d w)))"
proof (induction e stage d w rule: hold_loop.induct)
  case (1 e stage d w)
  obtain now w1 where n: "run_state (steady_now e) w = (now, w1)" by fastforce
  obtain c w2 where c: "run_state (cancel_requested e) w1 = (c, w2)" by fastforce
  obtain r w3 where o: "run_state (set_gpio_test_outputs e) w2 = (r, w3)" by fastforce
  obtain u w4 where s: "run_state (sleep_for 10) w3 = (u, w4)" by (cases "run_state (sleep_for 10) w3")
  have g: "calm (set_gpio_test_outputs e)"
    unfolding set_gpio_test_outputs_def by (rule calm_service_allowed) (rule 1(2))
  have i1: "I w1" by (rule calmD [OF calm_steady_now 1(3) n])
  have i2: "I w2 \<and> (\<not> c \<or> F w2)" by (rule cancelD [OF i1 c])
  then have i3: "I w3" using calmD [OF g _ o] by simp
  then have i4: "I w4" using calmD [OF calm_sleep _ s] by simp
  have last: "sound (\<lambda>r. r) (set_gpio_test_outputs e \<bind> (\<lambda>r. case r of
      Some m \<Rightarrow> fail stage (''final GPIO HIGH hold write failed: '' @ m) | None \<Rightarrow> ret True))"
    by (rule sound_bind [OF g]) (auto intro: sound_ret sound_failed split: option.split)
  have failed: "F (snd (run_state (fail stage m) w3))" for m
    using I_fail [OF i3] .
  show ?case
  proof (cases "now < d")
    case False
    then have h: "hold_loop e stage d w = run_state (set_gpio_test_outputs e \<bind> (\<lambda>r. case r of
        Some m \<Rightarrow> fail stage (''final GPIO HIGH hold write failed: '' @ m) | None \<Rightarrow> ret True)) w1"
      by (subst hold_loop.simps) (simp add: n)
    show ?thesis unfolding h by (rule soundD [OF last i1 prod.collapse [symmetric]])
  next
    case True
    show ?thesis
    proof (cases r)
      case None
      then show ?thesis
        using 1(1) [OF refl n [symmetric] True refl c [symmetric] _ refl o [symmetric] None 1(2)] True i2 i4
        by (subst (1 2 3) hold_loop.simps) (auto simp: n c o s)
    next
      case (Some m)
      then show ?thesis
        using True i2 failed by (subst (1 2 3) hold_loop.simps) (auto simp: n c o)
    qed
  qed
qed

lemma sound_hold: "allowed EvGpioOutputs \<Longrightarrow> sound (\<lambda>r. r) (hold_gpio_outputs_high e stage n)"
  unfolding hold_gpio_outputs_high_def
  by (rule sound_bind [OF calm_steady_now]) (auto simp: sound_def intro!: triple_State dest: sound_hold_loop split: if_splits)

lemma sound_write_reg: "allowed (EvWrite reg data) \<Longrightarrow> sound (\<lambda>r. r) (write_reg e stage reg data)"
  unfolding write_reg_def write_register_def
  by (rule sound_bind_good [OF sound_cancel, where y = False])
    (auto intro!: sound_bind [OF calm_service_allowed] sound_ret sound_failed split: option.split)

lemma sound_read_reg: "allowed (EvRead reg) \<Longrightarrow> sound (\<lambda>r. r \<noteq> None) (read_reg e stage reg n)"
  unfolding read_reg_def
  by (rule sound_bind_good [OF sound_cancel, where y = None])
    (auto intro!: sound_bind [OF calm_fetch_allowed] sound_ret
      sound_bind_good [OF sound_fail, where y = None] split: sum.split)

lemma sound_with_reg:
  "allowed (EvRead reg) \<Longrightarrow> (\<And>bs. sound (\<lambda>r. r) (k bs)) \<Longrightarrow> sound (\<lambda>r. r) (with_reg e stage reg n k)"
  unfolding with_reg_def
  by (rule sound_bind_good [OF sound_read_reg, where y = False]) (auto split: option.split)

lemma sound_expect_status:
  assumes "allowed (EvRead 0x03)"
  shows "sound (\<lambda>r. r) (expect_status e stage b m)"
  unfolding expect_status_def sound_def
proof (rule triple_bind)
  show "triple I (read_reg e stage 0x03 1) (\<lambda>r w. if r \<noteq> None then I w else F w)"
    using sound_read_reg [OF assms] by (simp add: sound_def)
  show "triple (\<lambda>w. if r \<noteq> None then I w else F w) (if r = Some [b] then ret True else fail stage m)
      (\<lambda>r w. if r then I w else F w)" for r
    using I_fail F_fail by (auto simp: triple_def ret_def)
qed

lemma calm_and_delay: "calm m \<Longrightarrow> calm (and_delay m (delay e n))"
  unfolding and_delay_def
  by (intro calm_bind, assumption) (auto intro!: calm_bind calm_ret calm_delay split: option.split)

lemma calm_read_frame_loop:
  "(\<And>bs b. ok (EvUartRead bs b)) \<Longrightarrow> I w \<Longrightarrow> I (snd (read_frame_loop e d received w))"
proof (induction e d received w rule: read_frame_loop.induct)
  case (1 e d received w)
  obtain now w1 where n: "run_state (steady_now e) w = (now, w1)" by fastforce
  obtain c w2 where c: "run_state (cancel_requested e) w1 = (c, w2)" by fastforce
  obtain r w3 where r: "run_state (read_available e) w2 = (r, w3)" by fastforce
  obtain u w4 where s: "run_state (sleep_for 10) w3 = (u, w4)" by (cases "run_state (sleep_for 10) w3")
  have i1: "I w1" by (rule calmD [OF calm_steady_now 1(3) n])
  then have i2: "I w2" using cancelD [OF i1 c] by simp
  then have i3: "I w3" using calmD [OF calm_read_available _ r] 1(2) by simp
  then have i4: "I w4" using calmD [OF calm_sleep _ s] by simp
  show ?case
  proof (cases r)
    case (Inr chunk)
    show ?thesis
    proof (cases "scan_received (received @ chunk)")
      case (Inl kept)
      then show ?thesis
        using 1(1) [OF refl n [symmetric] _ refl c [symmetric] _ refl r [symmetric] Inr Inl 1(2)] i1 i2 i4 Inr
        by (subst read_frame_loop.simps) (auto simp: n c r s)
    next
      case (Inr frame)
      then show ?thesis
        using \<open>r = Inr chunk\<close> i1 i2 i3 by (subst read_frame_loop.simps) (auto simp: n c r)
    qed
  next
    case (Inl m)
    then show ?thesis using i1 i2 i3 by (subst read_frame_loop.simps) (auto simp: n c r)
  qed
qed

lemma calm_read_uart_frame: "(\<And>bs b. ok (EvUartRead bs b)) \<Longrightarrow> calm (read_uart_frame e n)"
  unfolding read_uart_frame_def
  by (rule calm_bind [OF calm_steady_now]) (auto simp: calm_def intro!: triple_State calm_read_frame_loop)

subsection \<open>Polls and the UART\<close>

lemma sound_read_plain: "sound (\<lambda>r. r \<noteq> None) (read_reg e stage reg n)"
  by (rule sound_read_reg) (simp add: allowed_plain)

lemma sound_read:
  assumes "\<And>bs. sound h (k bs)" "\<not> h y"
  shows "sound h (read_reg e stage reg n \<bind> (\<lambda>r. case r of None \<Rightarrow> ret y | Some bs \<Rightarrow> k bs))"
  by (rule sound_bind_good [OF sound_read_plain, where y = y]) (use assms in auto)

lemma sound_fail_ret: "\<not> h y \<Longrightarrow> sound h (fail stage m \<bind> (\<lambda>r. ret y))"
  by (rule sound_bind_good [OF sound_fail, where y = y]) auto

lemma sound_uart_ready_poll:
  "sound (\<lambda>r. r \<noteq> Inl False) (uart_ready_poll e stage)"
  unfolding uart_ready_poll_def
  by (rule sound_read, rule sound_read)
    (auto intro!: sound_bind [OF calm_read_available [OF ok_uart_read]] sound_ret
        sound_fail_ret split: option.split sum.split)

lemma sound_uart_ready_loop:
  "I w \<Longrightarrow> (if fst (uart_ready_loop e stage d c st w) then I (snd (uart_ready_loop e stage d c st w))
     else F (snd (uart_ready_loop e stage d c st w)))"
proof (induction e stage d c st w rule: uart_ready_loop.induct)
  case (1 e stage d c st w)
  obtain now w1 where n: "run_state (steady_now e) w = (now, w1)" by fastforce
  obtain r w2 where r: "run_state (uart_ready_poll e stage) w1 = (r, w2)" by fastforce
  obtain k w3 where k: "run_state (delay e 100) w2 = (k, w3)" by fastforce
  have i1: "I w1" by (rule calmD [OF calm_steady_now 1(2) n])
  have i2: "if r \<noteq> Inl False then I w2 else F w2" by (rule soundD [OF sound_uart_ready_poll i1 r])
  show ?case
  proof (cases "now < d")
    case False
    then show ?thesis using I_fail [OF i1] by (subst (1 2 3) uart_ready_loop.simps) (simp add: n)
  next
    case True
    show ?thesis
    proof (cases r)
      case (Inl b)
      then show ?thesis using True i2 by (subst (1 2 3) uart_ready_loop.simps) (auto simp: n r)
    next
      case (Inr x)
      obtain c' st' where x: "x = (c', st')" by (cases x)
      have i3: "if k then I w3 else F w3" by (rule soundD [OF sound_delay _ k]) (use i2 Inr in simp)
      show ?thesis
        using 1(1) [OF refl n [symmetric] True refl r [symmetric] Inr x [symmetric] refl k [symmetric]] True i3 Inr x
        by (subst (1 2 3) uart_ready_loop.simps) (auto simp: n r k)
    qed
  qed
qed

lemma sound_idle_loop:
  "I w \<Longrightarrow> (if fst (idle_loop e stage d st w) \<noteq> None then I (snd (idle_loop e stage d st w))
     else F (snd (idle_loop e stage d st w)))"
proof (induction e stage d st w rule: idle_loop.induct)
  case (1 e stage d st w)
  obtain now w1 where n: "run_state (steady_now e) w = (now, w1)" by fastforce
  obtain r w2 where r: "run_state (read_reg e stage 0x03 1) w1 = (r, w2)" by fastforce
  obtain k w3 where k: "run_state (delay e 50) w2 = (k, w3)" by fastforce
  have i1: "I w1" by (rule calmD [OF calm_steady_now 1(2) n])
  have i2: "if r \<noteq> None then I w2 else F w2" by (rule soundD [OF sound_read_plain i1 r])
  show ?case
  proof (cases "now < d")
    case False
    then show ?thesis using i1 by (subst (1 2 3) idle_loop.simps) (simp add: n)
  next
    case True
    show ?thesis
    proof (cases r)
      case None
      then show ?thesis using True i2 r by (subst (1 2 3) idle_loop.simps) (auto simp: n)
    next
      case (Some bs)
      have i3: "if k then I w3 else F w3" by (rule soundD [OF sound_delay _ k]) (use i2 Some in simp)
      with Some show ?thesis
        using 1(1) [OF refl n [symmetric] True refl r [symmetric] Some _ refl k [symmetric]] True i2 r
        by (subst (1 2 3) idle_loop.simps) (auto simp: n k)
    qed
  qed
qed

lemma sound_wait_idle: "sound (\<lambda>r. r \<noteq> None) (wait_idle e stage n)"
  unfolding wait_idle_def
  by (rule sound_bind [OF calm_steady_now]) (unfold sound_def, rule triple_State, rule sound_idle_loop)

lemma sound_prepare_uart: "sound (\<lambda>r. r) (prepare_uart_test e stage)"
proof -
  have loop: "sound (\<lambda>r. r) (State (uart_ready_loop e stage d 0xFF 0xFF))" for d
    by (auto simp: sound_def intro!: triple_State dest: sound_uart_ready_loop split: if_splits)
  have close: "calm (if p then record_event EvUartClose \<bind> (\<lambda>_. upd (\<lambda>w. w\<lparr>cx_uart_session := False\<rparr>)) else ret ())" for p
    by (auto intro!: calm_bind calm_event ok_plain calm_upd I_session calm_ret)
  have test: "sound (\<lambda>r. r) (write_reg e stage 0x01 [0x03] \<bind> (\<lambda>k. if \<not> k then ret False
      else steady_now e \<bind> (\<lambda>t. State (uart_ready_loop e stage (t + ms 1000) 0xFF 0xFF))))"
    by (rule sound_bind_good [OF sound_write_reg, where y = False])
      (auto intro!: allowed_plain sound_bind [OF calm_steady_now] loop)
  show ?thesis
    unfolding prepare_uart_test_def
    by (intro sound_bind calm_ask close calm_plain)
      (auto intro!: sound_failed sound_bind [OF calm_upd] sound_bind [OF calm_read_available [OF ok_uart_read]]
        I_session test split: option.split sum.split)
qed

lemma sound_case_option:
  "(v = None \<Longrightarrow> sound g a) \<Longrightarrow> (\<And>m. v = Some m \<Longrightarrow> sound g (b m)) \<Longrightarrow>
     sound g (case v of None \<Rightarrow> a | Some m \<Rightarrow> b m)"
  by (cases v) simp_all

lemma sound_case_sum:
  "(\<And>m. v = Inl m \<Longrightarrow> sound g (a m)) \<Longrightarrow> (\<And>m. v = Inr m \<Longrightarrow> sound g (b m)) \<Longrightarrow>
     sound g (case v of Inl m \<Rightarrow> a m | Inr m \<Rightarrow> b m)"
  by (cases v) simp_all

lemma sound_if: "(b \<Longrightarrow> sound g m) \<Longrightarrow> (\<not> b \<Longrightarrow> sound g n) \<Longrightarrow> sound g (if b then m else n)"
  by simp

lemma sound_some: "sound (\<lambda>r. r \<noteq> None) (ret (Some x))"
  by (rule sound_ret) simp

lemma sound_fail_none: "sound (\<lambda>r. r \<noteq> None) (fail stage m \<bind> (\<lambda>_. ret None))"
  by (rule sound_bind_good [OF sound_fail, where y = None]) auto

lemma sound_hello_loop: "sound (\<lambda>r. r \<noteq> None) (hello_loop e n)"
proof (induction n)
  case (Suc n)
  show ?case
    unfolding hello_loop.simps write_text_def
    by (rule sound_bind [OF calm_cancel])
      (intro sound_if sound_case_option sound_case_sum sound_some sound_fail_none Suc.IH
        sound_bind [OF calm_plain] sound_bind [OF calm_read_uart_frame [OF ok_uart_read]]; simp)
qed (simp add: sound_some del: not_None_eq)

lemma sound_grove_hello_loop: "sound (\<lambda>r. r \<noteq> None) (grove_hello_loop e n)"
proof (induction n)
  case (Suc n)
  show ?case
    unfolding grove_hello_loop.simps write_text_def
    by (rule sound_bind [OF calm_cancel])
      (intro sound_if sound_case_option sound_case_sum sound_some sound_fail_none Suc.IH
        sound_bind [OF calm_plain] sound_bind [OF calm_read_uart_frame [OF ok_uart_read]]; simp)
qed (simp add: sound_some del: not_None_eq)

subsection \<open>The tests\<close>

text \<open>An action of the last part of a test: success establishes \<open>J\<close>, failure keeps \<open>I\<close> and \<open>F\<close>.\<close>

definition passes :: "(fixture \<Rightarrow> bool) \<Rightarrow> bool act \<Rightarrow> bool" where
  "passes J m \<longleftrightarrow> triple I m (\<lambda>r w. if r then J w else F w)"

lemma passes_bind: "calm m \<Longrightarrow> (\<And>x. passes J (f x)) \<Longrightarrow> passes J (m \<bind> f)"
  unfolding calm_def passes_def by (rule triple_bind)

lemma passes_I: "passes I m \<longleftrightarrow> sound (\<lambda>r. r) m"
  by (simp add: passes_def sound_def)

lemma passes_Cons: "sound (\<lambda>r. r) a \<Longrightarrow> passes J (all_of as) \<Longrightarrow> passes J (all_of (a # as))"
  unfolding passes_def sound_def by (rule triple_all_of_Cons)

lemma passes_single: "passes J a \<Longrightarrow> passes J (all_of [a])"
  unfolding passes_def by (rule triple_all_of_single)

lemma passes_failed: "passes J (fail stage m)"
  using I_fail by (simp add: passes_def triple_def)

lemma passes_if: "(b \<Longrightarrow> passes J m) \<Longrightarrow> (\<not> b \<Longrightarrow> passes J n) \<Longrightarrow> passes J (if b then m else n)"
  by simp

lemma passes_case_sum:
  "(\<And>m. v = Inl m \<Longrightarrow> passes J (a m)) \<Longrightarrow> (\<And>m. v = Inr m \<Longrightarrow> passes J (b m)) \<Longrightarrow>
     passes J (case v of Inl m \<Rightarrow> a m | Inr m \<Rightarrow> b m)"
  by (cases v) simp_all

lemma passes_with_reg:
  assumes "\<And>bs. passes J (k bs)"
  shows "passes J (with_reg e stage reg n k)"
  unfolding with_reg_def passes_def
proof (rule triple_bind)
  show "triple I (read_reg e stage reg n) (\<lambda>r w. if r \<noteq> None then I w else F w)"
    using sound_read_plain by (simp add: sound_def)
  show "triple (\<lambda>w. if x \<noteq> None then I w else F w) (case x of None \<Rightarrow> ret False | Some d \<Rightarrow> k d)
      (\<lambda>r w. if r then J w else F w)" for x
    using assms by (cases x) (auto simp: passes_def intro: triple_ret)
qed

lemma starts: "triple P (begin_item i d) (\<lambda>r. I) \<Longrightarrow> passes J m \<Longrightarrow>
    triple P (begin_item i d \<bind> (\<lambda>_. m)) (\<lambda>r w. if r then J w else F w)"
  unfolding passes_def by (rule triple_bind)

lemma sound_or_fail_plain:
  "\<not> is_toggle (ev True) \<Longrightarrow> \<not> is_toggle (ev False) \<Longrightarrow>
     sound (\<lambda>r. r) (or_fail stage prefix (service e ev))"
  by (rule sound_or_fail) (rule calm_plain)

lemma sound_write_plain:
  "reg \<noteq> 0x01 \<or> data \<noteq> [0x08] \<and> data \<noteq> [0x09] \<Longrightarrow> sound (\<lambda>r. r) (write_reg e stage reg data)"
  by (rule sound_write_reg) (auto intro!: allowed_plain)

lemma sound_hold_plain: "sound (\<lambda>r. r) (hold_gpio_outputs_high e stage n)"
  by (rule sound_hold) (simp add: allowed_plain)

lemma sound_expect_plain: "sound (\<lambda>r. r) (expect_status e stage b m)"
  by (rule sound_expect_status) (simp add: allowed_plain)

lemma sound_with_reg_plain:
  "(\<And>bs. sound (\<lambda>r. r) (k bs)) \<Longrightarrow> sound (\<lambda>r. r) (with_reg e stage reg n k)"
  by (rule sound_with_reg) (simp_all add: allowed_plain)

lemma sound_true: "sound (\<lambda>r. r) (ret True)"
  by (rule sound_ret) simp

lemma sound_select_pins: "sound (\<lambda>r. r) (or_fail stage prefix (select_host_pin_function e b))"
  by (rule sound_or_fail, rule calm_select_pins) (simp_all add: allowed_plain)

lemmas block_rules = sound_delay sound_write_plain sound_or_fail_plain sound_hold_plain
  sound_expect_plain sound_with_reg_plain sound_select_pins sound_true sound_failed
  sound_prepare_uart

lemma run_i2c_passes:
  assumes "\<And>d. triple P (begin_item i2c_item d) (\<lambda>r. I)" "\<And>d. passes J (pass i2c_item d)"
  shows "triple P (run_i2c e) (\<lambda>r w. if r then J w else F w)"
  unfolding run_i2c_def
  by (rule starts [OF assms(1)], intro passes_with_reg passes_Cons passes_single assms(2))
    (auto intro!: block_rules)

lemma run_power_passes:
  assumes "\<And>d. triple P (begin_item power_item d) (\<lambda>r. I)" "\<And>d. passes J (pass power_item d)"
  shows "triple P (run_power e) (\<lambda>r w. if r then J w else F w)"
  unfolding run_power_def Let_def
  by (rule starts [OF assms(1)],
      intro passes_Cons passes_single passes_bind passes_case_sum passes_failed passes_with_reg
        passes_if assms(2) calm_fetch_plain)
    (auto intro!: block_rules)

lemma sound_uart_exchange:
  "sound (\<lambda>r. r) (hello_loop e n \<bind> (\<lambda>r. case r of None \<Rightarrow> ret False
     | Some ready \<Rightarrow> if \<not> ready then fail stage m else ret True))"
  by (rule sound_bind_good [OF sound_hello_loop, where y = False])
    (auto intro!: block_rules)

lemma sound_uart_reply:
  "sound (\<lambda>r. r) (read_uart_frame e n \<bind> (\<lambda>f. case f of Inl m \<Rightarrow> fail stage (g m)
     | Inr reply \<Rightarrow> (case validate_uart_frame reply t l p of Some m \<Rightarrow> fail stage m | None \<Rightarrow> ret True)))"
  by (intro sound_bind [OF calm_read_uart_frame [OF ok_uart_read]] sound_case_sum sound_case_option
      sound_failed sound_true)

lemma run_uart_passes:
  assumes "\<And>d. triple P (begin_item uart_item d) (\<lambda>r. I)" "\<And>d. passes J (pass uart_item d)"
  shows "triple P (run_uart e) (\<lambda>r w. if r then J w else F w)"
  unfolding run_uart_def write_text_def
  by (rule starts [OF assms(1)], intro passes_Cons passes_single assms(2) sound_uart_exchange
      sound_uart_reply block_rules) simp_all

lemma run_spi_passes:
  assumes "\<And>d. triple P (begin_item spi_item d) (\<lambda>r. I)" "\<And>d. passes J (pass spi_item d)"
  shows "triple P (run_spi e) (\<lambda>r w. if r then J w else F w)"
  unfolding run_spi_def
  by (rule starts [OF assms(1)], intro passes_Cons passes_single assms(2) block_rules
      sound_bind [OF calm_fetch_plain] sound_case_sum sound_if) simp_all

lemma calm_receive_hid: "calm (receive_usb_hid_text e)"
  unfolding receive_usb_hid_text_def write_register_def
  by (intro calm_bind calm_interact)
    (auto intro!: calm_bind calm_event ok_plain calm_ret calm_plain split: option.split)

lemma sound_usb_enumerate: "sound (\<lambda>r. r) (usb_enumerate e)"
  unfolding usb_enumerate_def
  by (intro sound_bind [OF calm_plain] sound_case_option sound_bind [OF calm_cancel]
      sound_if sound_all_of sound_true sound_failed) (auto intro!: block_rules)

lemma run_usb_passes:
  assumes "\<And>d. triple P (begin_item usb_item d) (\<lambda>r. I)" "\<And>d. passes J (pass usb_item d)"
  shows "triple P (run_usb e) (\<lambda>r w. if r then J w else F w)"
  unfolding run_usb_def
  by (rule starts [OF assms(1)], intro passes_Cons passes_single assms(2) sound_usb_enumerate
      sound_or_fail [OF calm_receive_hid] block_rules) simp_all

text \<open>The samples: complete only where every read and every hold went well.\<close>

lemma sound_gpio_samples:
  "sound (\<lambda>s. fst s \<and> fst (snd s) = completed + n) (gpio_samples e n completed levels)"
proof (induction n arbitrary: completed levels)
  case (Suc n)
  let ?good = "\<lambda>s :: bool \<times> nat \<times> byte. fst s \<and> fst (snd s) = completed + Suc n"
  let ?held = "\<lambda>sample held. if held then gpio_samples e n (completed + 1) (hd sample)
      else ret (False, completed + 1, hd sample)"
  let ?read = "\<lambda>r. case r of None \<Rightarrow> ret (False, completed, levels)
      | Some sample \<Rightarrow> if n = 0 then gpio_samples e n (completed + 1) (hd sample)
          else hold_gpio_outputs_high e ''GPIO'' 100 \<bind> ?held sample"
  have more: "sound ?good (gpio_samples e n (completed + 1) l)" for l
    using Suc.IH [of "completed + 1" l] by simp
  have held: "sound ?good (hold_gpio_outputs_high e ''GPIO'' 100 \<bind> ?held sample)" for sample
    by (rule sound_bind_good [OF sound_hold_plain, where y = "(False, completed + 1, hd sample)"])
      (simp_all add: more [simplified])
  have some: "sound ?good (?read (Some sample))" for sample
    using more held by (cases "n = 0") simp_all
  have read: "sound ?good (read_reg e ''GPIO'' 0x07 1 \<bind> ?read)"
    by (rule sound_read) (use some in simp_all)
  show ?case
    unfolding gpio_samples.simps set_gpio_test_outputs_def
  proof (rule sound_bind_good [OF sound_or_fail_plain, where y = "(False, completed, levels)"])
    show "sound ?good (if \<not> x then ret (False, completed, levels) else read_reg e ''GPIO'' 0x07 1 \<bind> ?read)"
      if x for x :: bool
      using that by (subst if_not_P) (simp_all only: read not_not)
  qed simp_all
qed (simp add: sound_ret)

text \<open>What follows the sampling keeps what the sampling has established.\<close>

lemma keeps_both:
  "calm m \<Longrightarrow> stopped.calm m \<Longrightarrow>
     triple (\<lambda>w. if g then I w else F w) m (\<lambda>r w. if g then I w else F w)"
  by (cases g) (simp_all add: calm_def stopped.calm_def)

lemma keeps_both_service:
  "\<not> is_toggle (ev True) \<Longrightarrow> \<not> is_toggle (ev False) \<Longrightarrow>
     triple (\<lambda>w. if g then I w else F w) (service e ev) (\<lambda>r w. if g then I w else F w)"
  by (intro keeps_both calm_plain stopped.calm_plain)

lemma gpio_sample_and_stop_passes:
  assumes "\<And>d. passes J (pass gpio_item d)"
  shows "passes J (gpio_sample_and_stop e)"
  unfolding gpio_sample_and_stop_def passes_def write_register_def
proof (rule triple_bind)
  let ?good = "\<lambda>s :: bool \<times> nat \<times> byte. fst s \<and> fst (snd s) = gpio_sample_count"
  show "triple I (gpio_samples e gpio_sample_count 0 0) (\<lambda>s w. if ?good s then I w else F w)"
    using sound_gpio_samples [of 0 gpio_sample_count e 0] by (simp add: sound_def)
  fix s :: "bool \<times> nat \<times> byte"
  let ?Q = "\<lambda>r w. if r then J w else F w"
  obtain read_ok completed levels where s: "s = (read_ok, completed, levels)" by (cases s)
  have verdict: "triple (\<lambda>w. if ?good s then I w else F w) (case s of (read_ok, completed, levels) \<Rightarrow>
      if \<not> read_ok \<or> completed \<noteq> gpio_sample_count then ret False
      else if levels AND 0x07 \<noteq> 0x07 \<or> levels AND 0xF8 \<noteq> 0
      then fail ''GPIO'' (''GPIO bitmap mismatch: 0x'' @ hex_bytes [levels])
      else case stop of Some m \<Rightarrow> fail ''GPIO'' (''GPIO STOP command failed: '' @ m)
      | None \<Rightarrow> (case inputs of
          Some m \<Rightarrow> fail ''GPIO'' (''GPIO final input/high-Z setup failed: '' @ m)
        | None \<Rightarrow> pass gpio_item ''Bitmap 0x07'')) ?Q" for stop inputs
  proof (cases "?good s")
    case False
    then show ?thesis by (auto simp: s intro: triple_ret)
  next
    case True
    have "passes J (fail st m)" for st m by (rule passes_failed)
    then show ?thesis
      using assms True by (auto simp: s passes_def triple_def split: option.split)
  qed
  show "triple (\<lambda>w. if ?good s then I w else F w) (service e (EvWrite 0x01 [0x00]) \<bind> (\<lambda>stop.
      service e EvGpioInputs \<bind> (\<lambda>inputs.
      upd (\<lambda>w. w\<lparr>cx_gpio_test_lines_released := (inputs = None)\<rparr>) \<bind> (\<lambda>_.
      case s of (read_ok, completed, levels) \<Rightarrow>
      if \<not> read_ok \<or> completed \<noteq> gpio_sample_count then ret False
      else if levels AND 0x07 \<noteq> 0x07 \<or> levels AND 0xF8 \<noteq> 0
      then fail ''GPIO'' (''GPIO bitmap mismatch: 0x'' @ hex_bytes [levels])
      else case stop of Some m \<Rightarrow> fail ''GPIO'' (''GPIO STOP command failed: '' @ m)
      | None \<Rightarrow> (case inputs of
          Some m \<Rightarrow> fail ''GPIO'' (''GPIO final input/high-Z setup failed: '' @ m)
        | None \<Rightarrow> pass gpio_item ''Bitmap 0x07''))))) ?Q"
    by (intro triple_bind [OF keeps_both_service] triple_bind [OF keeps_both [OF calm_upd stopped.calm_upd]]
        verdict)
      (auto simp: I_lines stopped.I_lines)
qed

lemma run_gpio_passes:
  assumes "\<And>d. triple P (begin_item gpio_item d) (\<lambda>r. I)" "\<And>d. passes J (pass gpio_item d)"
  shows "triple P (run_gpio e) (\<lambda>r w. if r then J w else F w)"
  unfolding run_gpio_def set_gpio_test_outputs_def
  by (rule starts [OF assms(1)], intro passes_Cons passes_single gpio_sample_and_stop_passes assms(2)
      sound_bind [OF calm_fetch_plain] sound_case_sum sound_if block_rules) simp_all

subsection \<open>Cleaning up and preparing\<close>

lemma calm_reset_attempts: "calm (reset_attempts e n err)"
proof (induction n arbitrary: err)
  case (Suc n)
  then show ?case
    unfolding reset_attempts.simps write_register_def
    by (intro calm_bind calm_cancel calm_plain calm_delay calm_if)
      (auto intro!: calm_bind calm_ret calm_delay split: option.split)
qed (simp add: calm_ret)

lemma sound_prepare_fixture: "sound (\<lambda>r. r) (prepare_fixture e)"
proof -
  have reset: "sound (\<lambda>r. r) (if sent then ret True else cancel_requested e \<bind>
      (\<lambda>canceled. if canceled then ret False else fail ''RESET'' m))" for sent m
  proof (cases sent)
    case False
    have "sound (\<lambda>r. r) (cancel_requested e \<bind> (\<lambda>canceled. if canceled then ret False else fail ''RESET'' m))"
      by (rule sound_bind_good [OF sound_cancel, where y = False]) (auto intro: sound_failed)
    then show ?thesis using False by simp
  qed (simp add: sound_true)
  show ?thesis
    unfolding prepare_fixture_def
    by (rule sound_all_of)
      (auto intro!: block_rules set_external_sound sound_bind [OF calm_reset_attempts] reset
        simp del: reset_attempts.simps simp: case_prod_unfold)
qed

subsection \<open>Parts of the Grove tests\<close>

lemma sound_idle_check:
  "sound (\<lambda>r. r) (wait_idle e stage n \<bind> (\<lambda>st. case st of None \<Rightarrow> ret False
     | Some b \<Rightarrow> if b \<noteq> 0x00 then fail stage m else ret True))"
  by (rule sound_bind_good [OF sound_wait_idle, where y = False]) (auto intro!: block_rules)

lemma sound_grove_hello:
  "sound (\<lambda>r. r) (grove_hello_loop e n \<bind> (\<lambda>r. case r of None \<Rightarrow> ret False
     | Some ready \<Rightarrow> if \<not> ready then fail stage m
         else or_fail stage prefix (write_text e uart_start)))"
  unfolding write_text_def
  by (rule sound_bind_good [OF sound_grove_hello_loop, where y = False]) (auto intro!: block_rules)

lemma sound_expect_reply: "sound (\<lambda>r. r) (expect_reply e stage)"
  unfolding expect_reply_def by (rule sound_uart_reply)

lemma sound_grove_data:
  "sound (\<lambda>r. r) (write_text e uart_data \<bind> (\<lambda>w. case w of Some m \<Rightarrow> fail stage (g m)
     | None \<Rightarrow> expect_reply e stage))"
  unfolding write_text_def
  by (intro sound_bind [OF calm_plain] sound_case_option sound_failed sound_expect_reply) simp_all

lemma sound_switch_delay:
  "\<not> is_toggle (ev True) \<Longrightarrow> \<not> is_toggle (ev False) \<Longrightarrow>
     sound (\<lambda>r. r) (or_fail stage prefix (and_delay (service e ev) (delay e n)))"
  by (intro sound_or_fail calm_and_delay calm_plain)

lemmas grove_rules = block_rules set_external_sound sound_idle_check sound_grove_hello
  sound_grove_data sound_switch_delay

end

text \<open>The whole interface, in which every test of the sequence has its rule.\<close>

locale fixture_tests = fixture_logic I F ok + fixture_flags I F ok
  for I F :: "fixture \<Rightarrow> bool" and ok :: "fixture_event \<Rightarrow> bool"
begin

lemma sound_write_any: "sound (\<lambda>r. r) (write_reg e stage reg data)"
  by (rule sound_write_reg) (simp add: allowed_def ok_any)

lemma sound_set_i2c: "sound (\<lambda>r. r) (set_grove_i2c b)"
  unfolding set_grove_i2c_def by (rule sound_mark) (rule I_i2c)

lemma sound_set_uart: "sound (\<lambda>r. r) (set_grove_uart b)"
  unfolding set_grove_uart_def by (rule sound_mark) (rule I_uart)

lemma run_grove_i2c_passes:
  assumes "\<And>d. triple P (begin_item grove_i2c_item d) (\<lambda>r. I)" "\<And>d. passes J (pass grove_i2c_item d)"
  shows "triple P (run_grove_i2c e) (\<lambda>r w. if r then J w else F w)"
  unfolding run_grove_i2c_def
  by (rule starts [OF assms(1)], intro passes_Cons passes_single assms(2) sound_write_any
      sound_set_i2c grove_rules) simp_all

lemma run_grove_uart_passes:
  assumes "\<And>d. triple P (begin_item grove_uart_item d) (\<lambda>r. I)" "\<And>d. passes J (pass grove_uart_item d)"
  shows "triple P (run_grove_uart e) (\<lambda>r w. if r then J w else F w)"
  unfolding run_grove_uart_def
  by (rule starts [OF assms(1)], intro passes_Cons passes_single assms(2) sound_write_any
      sound_set_uart grove_rules) simp_all

end

end
