(* ===== verification/CapTheorems.thy ===== *)
theory CapTheorems
  imports CapLogic
begin

section \<open>CapTheorems: what a run of the fixture guarantees\<close>

text \<open>
  The interface of CapLogic, interpreted on the states of the test sequence: within a test
  and stopped in it, between two tests, while cleaning up, and for the CAP channels that the
  Grove tests move. The properties follow from the rules of the single tests.
\<close>

definition item_states :: "fixture \<Rightarrow> item_state list" where
  "item_states w = map it_state (fs_items (cx_snapshot w))"

definition run_state_of :: "fixture \<Rightarrow> run_state" where
  "run_state_of w = fs_state (cx_snapshot w)"

text \<open>Item \<open>n\<close> in state \<open>x\<close>, those before it passed and those after it not begun.\<close>

definition shape :: "nat \<Rightarrow> item_state \<Rightarrow> item_state list" where
  "shape n x = replicate n CI_PASSED @ x # replicate (7 - n) CI_PENDING"

definition failed_detail :: "nat \<Rightarrow> fixture \<Rightarrow> bool" where
  "failed_detail n w \<longleftrightarrow> it_detail (fs_items (cx_snapshot w) ! n) = fs_error_message (cx_snapshot w)"

definition in_test :: "nat \<Rightarrow> fixture \<Rightarrow> bool" where
  "in_test n w \<longleftrightarrow> n < 8 \<and> cx_active_item w = n \<and> run_state_of w = CX_RUNNING \<and>
     item_states w = shape n CI_RUNNING"

definition stopped_in :: "nat \<Rightarrow> fixture \<Rightarrow> bool" where
  "stopped_in n w \<longleftrightarrow> n < 8 \<and> cx_active_item w = n \<and>
     (run_state_of w = CX_RUNNING \<and> cx_cancel_requested w \<and> item_states w = shape n CI_RUNNING \<or>
      run_state_of w = CX_FAILED \<and> item_states w = shape n CI_FAILED \<and> failed_detail n w)"

definition between :: "nat \<Rightarrow> fixture \<Rightarrow> bool" where
  "between n w \<longleftrightarrow> n \<le> 8 \<and> run_state_of w = CX_RUNNING \<and>
     item_states w = replicate n CI_PASSED @ replicate (8 - n) CI_PENDING"

definition canceled_between :: "fixture \<Rightarrow> bool" where
  "canceled_between w \<longleftrightarrow> run_state_of w = CX_RUNNING \<and> cx_cancel_requested w"

text \<open>Before the first test the active item is still the initial one, the USB item.\<close>

definition preparing :: "fixture \<Rightarrow> bool" where
  "preparing w \<longleftrightarrow> between 0 w \<and> cx_active_item w = usb_item"

definition failed_preparing :: "fixture \<Rightarrow> bool" where
  "failed_preparing w \<longleftrightarrow> run_state_of w = CX_FAILED \<and>
     item_states w = replicate 6 CI_PENDING @ [CI_FAILED, CI_PENDING] \<and> failed_detail usb_item w"

definition stopped_preparing :: "fixture \<Rightarrow> bool" where
  "stopped_preparing w \<longleftrightarrow> cx_active_item w = usb_item \<and>
     (between 0 w \<and> cx_cancel_requested w \<or> failed_preparing w)"

definition halted :: "fixture \<Rightarrow> bool" where
  "halted w \<longleftrightarrow> canceled_between w \<or> failed_preparing w \<or>
     (\<exists>n<8. run_state_of w = CX_FAILED \<and> item_states w = shape n CI_FAILED \<and> failed_detail n w)"

lemmas snapshot_defs = item_states_def run_state_of_def failed_detail_def

lemma fail_effect:
  "snd (run_state (fail stage m) w) = (let s = cx_snapshot w; i = cx_active_item w in
     w\<lparr>cx_snapshot := s\<lparr>fs_state := CX_FAILED, fs_headline := stage @ '' failed'', fs_error_message := m,
        fs_items := (if i < length (fs_items s)
                     then (fs_items s)[i := (fs_items s ! i)\<lparr>it_state := CI_FAILED, it_detail := m\<rparr>]
                     else fs_items s),
        fs_revision := next_revision (fs_revision s)\<rparr>\<rparr>)"
  by (simp add: fail_def ask_def on_snapshot_def upd_def ret_def Let_def)

lemma shape_length [simp]: "n < 8 \<Longrightarrow> length (shape n x) = 8"
  by (simp add: shape_def)

lemma shape_update [simp]: "(shape n x)[n := y] = shape n y"
  by (simp add: shape_def list_update_append)

lemma fail_run_state [simp]: "run_state_of (snd (run_state (fail stage m) w)) = CX_FAILED"
  by (simp add: fail_effect Let_def run_state_of_def)

lemma fail_active [simp]: "cx_active_item (snd (run_state (fail stage m) w)) = cx_active_item w"
  by (simp add: fail_effect Let_def)

lemma fail_items:
  "cx_active_item w < length (item_states w) \<Longrightarrow>
     item_states (snd (run_state (fail stage m) w)) = (item_states w)[cx_active_item w := CI_FAILED] \<and>
     failed_detail (cx_active_item w) (snd (run_state (fail stage m) w))"
  by (simp add: fail_effect Let_def snapshot_defs map_update)

text \<open>The members beside the snapshot do not matter to the states of the sequence.\<close>

lemma states_cong:
  assumes "cx_snapshot w' = cx_snapshot w"
  shows "item_states w' = item_states w" "run_state_of w' = run_state_of w"
    "failed_detail n w' = failed_detail n w"
  using assms by (simp_all add: snapshot_defs)

lemma states_update [simp]:
  "item_states (w\<lparr>cx_steps := k, cx_now := t, cx_cancel_requested := c\<rparr>) = item_states w"
  "run_state_of (w\<lparr>cx_steps := k, cx_now := t, cx_cancel_requested := c\<rparr>) = run_state_of w"
  "failed_detail n (w\<lparr>cx_steps := k, cx_now := t, cx_cancel_requested := c\<rparr>) = failed_detail n w"
  "item_states (w\<lparr>cx_trace := tr\<rparr>) = item_states w"
  "run_state_of (w\<lparr>cx_trace := tr\<rparr>) = run_state_of w"
  "failed_detail n (w\<lparr>cx_trace := tr\<rparr>) = failed_detail n w"
  "item_states (w\<lparr>cx_uart_session := b\<rparr>) = item_states w"
  "run_state_of (w\<lparr>cx_uart_session := b\<rparr>) = run_state_of w"
  "failed_detail n (w\<lparr>cx_uart_session := b\<rparr>) = failed_detail n w"
  "item_states (w\<lparr>cx_host_pin_function_known := b, cx_host_usb_function_selected := b'\<rparr>) = item_states w"
  "run_state_of (w\<lparr>cx_host_pin_function_known := b, cx_host_usb_function_selected := b'\<rparr>) = run_state_of w"
  "failed_detail n (w\<lparr>cx_host_pin_function_known := b, cx_host_usb_function_selected := b'\<rparr>) = failed_detail n w"
  "item_states (w\<lparr>cx_gpio_test_lines_released := b\<rparr>) = item_states w"
  "run_state_of (w\<lparr>cx_gpio_test_lines_released := b\<rparr>) = run_state_of w"
  "failed_detail n (w\<lparr>cx_gpio_test_lines_released := b\<rparr>) = failed_detail n w"
  "item_states (w\<lparr>cx_host_external_uart_selected := b\<rparr>) = item_states w"
  "run_state_of (w\<lparr>cx_host_external_uart_selected := b\<rparr>) = run_state_of w"
  "failed_detail n (w\<lparr>cx_host_external_uart_selected := b\<rparr>) = failed_detail n w"
  "item_states (w\<lparr>cx_grove_i2c_active := b\<rparr>) = item_states w"
  "run_state_of (w\<lparr>cx_grove_i2c_active := b\<rparr>) = run_state_of w"
  "failed_detail n (w\<lparr>cx_grove_i2c_active := b\<rparr>) = failed_detail n w"
  "item_states (w\<lparr>cx_grove_uart_active := b\<rparr>) = item_states w"
  "run_state_of (w\<lparr>cx_grove_uart_active := b\<rparr>) = run_state_of w"
  "failed_detail n (w\<lparr>cx_grove_uart_active := b\<rparr>) = failed_detail n w"
  by (simp_all add: snapshot_defs)

subsection \<open>Interpretations\<close>

text \<open>Within test \<open>n\<close>: every law is the model's own behaviour.\<close>

interpretation test: fixture_tests "in_test n" "stopped_in n" "\<lambda>ev. True" for n
proof unfold_locales
  show "in_test n w \<Longrightarrow> stopped_in n (snd (run_state (fail stage m) w))" for w stage m
    using fail_items [of w stage m] by (simp add: in_test_def stopped_in_def)
  show "stopped_in n w \<Longrightarrow> stopped_in n (snd (run_state (fail stage m) w))" for w stage m
    using fail_items [of w stage m] by (auto simp: stopped_in_def)
qed (auto simp: in_test_def stopped_in_def)

interpretation pause: fixture_wait "between n" canceled_between for n
  by unfold_locales (auto simp: between_def canceled_between_def)

interpretation preparation: fixture_tests preparing stopped_preparing "\<lambda>ev. True"
proof unfold_locales
  have six: "(replicate 8 CI_PENDING)[6 := CI_FAILED] = replicate 6 CI_PENDING @ [CI_FAILED, CI_PENDING]"
    by (simp add: eval_nat_numeral)
  show "preparing w \<Longrightarrow> stopped_preparing (snd (run_state (fail stage m) w))" for w stage m
    using fail_items [of w stage m] six
    by (simp add: preparing_def between_def stopped_preparing_def failed_preparing_def usb_item_def)
  show "stopped_preparing w \<Longrightarrow> stopped_preparing (snd (run_state (fail stage m) w))" for w stage m
    using fail_items [of w stage m] six
    by (auto simp: between_def stopped_preparing_def failed_preparing_def usb_item_def
        list_update_append eval_nat_numeral)
qed (auto simp: preparing_def between_def stopped_preparing_def failed_preparing_def)

text \<open>While cleaning up the snapshot stands still and a request to cancel stays.\<close>

definition reported :: "fixture_snapshot \<Rightarrow> bool \<Rightarrow> fixture \<Rightarrow> bool" where
  "reported s c w \<longleftrightarrow> cx_snapshot w = s \<and> (c \<longrightarrow> cx_cancel_requested w)"

interpretation closing: fixture_flags "reported s c" "\<lambda>w. True" "\<lambda>ev. True" for s c
  by unfold_locales (auto simp: reported_def)

text \<open>A plain wait: only a request to cancel cuts it short.\<close>

interpretation pausing: fixture_wait "\<lambda>w. True" cx_cancel_requested
  by unfold_locales simp_all

subsection \<open>The sequence as a whole\<close>

lemma replicate_next: "n < 8 \<Longrightarrow> replicate (8 - n) p = p # replicate (7 - n) p"
  by (simp add: replicate_Suc [symmetric] Suc_diff_Suc del: replicate_Suc)

lemma begin_item_starts:
  assumes "n < 8"
  shows "triple (between n) (begin_item n d) (\<lambda>r. in_test n)"
  using assms
  by (auto simp: triple_def begin_item_def upd_def on_snapshot_def between_def in_test_def snapshot_defs
      map_update shape_def list_update_append replicate_next)

lemma pass_ends:
  assumes "n < 8"
  shows "test.passes n (between (Suc n)) (pass n d)"
  using assms
  by (auto simp: test.passes_def triple_def pass_def pass_item_def upd_def on_snapshot_def ret_def
      between_def in_test_def snapshot_defs map_update shape_def list_update_append replicate_append_same)

text \<open>A step of the sequence: from before test \<open>n\<close> to after it.\<close>

definition advances :: "nat \<Rightarrow> nat \<Rightarrow> bool act \<Rightarrow> bool" where
  "advances n m a \<longleftrightarrow> triple (between n) a (\<lambda>r w. if r then between m w else halted w)"

lemma advances_test:
  "triple (between n) a (\<lambda>r w. if r then between m w else stopped_in k w) \<Longrightarrow> advances n m a"
  unfolding advances_def
  by (erule triple_conseq) (auto simp: stopped_in_def halted_def canceled_between_def split: if_splits)

lemma advances_delay: "advances n n (delay e t)"
  using pause.sound_delay [of n e t] unfolding advances_def pause.sound_def
  by (rule triple_conseq) (auto simp: halted_def split: if_splits)

lemma advances_Cons: "advances n m a \<Longrightarrow> advances m k (all_of as) \<Longrightarrow> advances n k (all_of (a # as))"
  unfolding advances_def by (rule triple_all_of_Cons)

lemma advances_single: "advances n m a \<Longrightarrow> advances n m (all_of [a])"
  unfolding advances_def by (rule triple_all_of_single)

lemmas item_defs = power_item_def i2c_item_def grove_i2c_item_def uart_item_def grove_uart_item_def
  spi_item_def usb_item_def gpio_item_def

lemma tests_advance:
  "advances 0 1 (run_power e)" "advances 1 2 (run_i2c e)" "advances 2 3 (run_grove_i2c e)"
  "advances 3 4 (run_uart e)" "advances 4 5 (run_grove_uart e)" "advances 5 6 (run_spi e)"
  "advances 6 7 (run_usb e)" "advances 7 8 (run_gpio e)"
proof -
  show "advances 0 1 (run_power e)"
    by (rule advances_test [OF test.run_power_passes [where n = 0]])
      (simp_all add: item_defs begin_item_starts [of 0, simplified] pass_ends [of 0, simplified])
  show "advances 1 2 (run_i2c e)"
    by (rule advances_test [OF test.run_i2c_passes [where n = 1]])
      (simp_all add: item_defs begin_item_starts [of 1, simplified] pass_ends [of 1, simplified] numeral_2_eq_2)
  show "advances 2 3 (run_grove_i2c e)"
    by (rule advances_test [OF test.run_grove_i2c_passes [where n = 2]])
      (simp_all add: item_defs begin_item_starts [of 2, simplified] pass_ends [of 2, simplified])
  show "advances 3 4 (run_uart e)"
    by (rule advances_test [OF test.run_uart_passes [where n = 3]])
      (simp_all add: item_defs begin_item_starts [of 3, simplified] pass_ends [of 3, simplified])
  show "advances 4 5 (run_grove_uart e)"
    by (rule advances_test [OF test.run_grove_uart_passes [where n = 4]])
      (simp_all add: item_defs begin_item_starts [of 4, simplified] pass_ends [of 4, simplified])
  show "advances 5 6 (run_spi e)"
    by (rule advances_test [OF test.run_spi_passes [where n = 5]])
      (simp_all add: item_defs begin_item_starts [of 5, simplified] pass_ends [of 5, simplified])
  show "advances 6 7 (run_usb e)"
    by (rule advances_test [OF test.run_usb_passes [where n = 6]])
      (simp_all add: item_defs begin_item_starts [of 6, simplified] pass_ends [of 6, simplified])
  show "advances 7 8 (run_gpio e)"
    by (rule advances_test [OF test.run_gpio_passes [where n = 7]])
      (simp_all add: item_defs begin_item_starts [of 7, simplified] pass_ends [of 7, simplified])
qed

lemma run_tests_advances: "advances 0 8 (run_tests e)"
  unfolding run_tests_def
  by (rule advances_single advances_Cons, rule tests_advance advances_delay)+

lemma prepare_advances:
  "triple preparing (prepare_fixture e) (\<lambda>r w. if r then between 0 w else halted w)"
  using preparation.sound_prepare_fixture [of e] unfolding preparation.sound_def
  by (rule triple_conseq)
    (auto simp: preparing_def stopped_preparing_def halted_def canceled_between_def between_def split: if_splits)

subsection \<open>How a run ends\<close>

definition failed_somewhere :: "fixture \<Rightarrow> bool" where
  "failed_somewhere w \<longleftrightarrow> failed_preparing w \<or>
     (\<exists>n<8. run_state_of w = CX_FAILED \<and> item_states w = shape n CI_FAILED \<and> failed_detail n w)"

definition ended :: "fixture \<Rightarrow> bool" where
  "ended w \<longleftrightarrow>
     run_state_of w = CX_PASSED \<and> item_states w = replicate 8 CI_PASSED \<and> \<not> cx_cancel_requested w \<or>
     run_state_of w \<in> {CX_CANCELED, CX_RUNNING} \<and> cx_cancel_requested w \<or>
     failed_somewhere w"

lemma halted_cong:
  "halted w \<Longrightarrow> reported (cx_snapshot w) (cx_cancel_requested w) w' \<Longrightarrow> halted w'"
  using states_cong [of w' w] by (auto simp: halted_def canceled_between_def failed_preparing_def reported_def)

lemma between_cong: "between n w \<Longrightarrow> reported (cx_snapshot w) c w' \<Longrightarrow> between n w'"
  using states_cong [of w' w] by (auto simp: between_def reported_def)

lemma closing_keeps:
  assumes "\<And>s c. fixture_wait.calm (reported s c) m"
  shows "triple halted m (\<lambda>r. halted)" "triple (between n) m (\<lambda>r. between n)"
proof -
  have r: "reported (cx_snapshot w) (cx_cancel_requested w) (snd (run_state m w))" for w
    using assms [of "cx_snapshot w" "cx_cancel_requested w"]
    by (simp add: closing.calm_def triple_def reported_def)
  show "triple halted m (\<lambda>r. halted)" "triple (between n) m (\<lambda>r. between n)"
    using halted_cong [OF _ r] between_cong [OF _ r] by (simp_all add: triple_def)
qed

lemma halted_ended: "halted w \<Longrightarrow> ended w"
  by (auto simp: halted_def ended_def failed_somewhere_def canceled_between_def)

lemma publish_canceled: "triple cx_cancel_requested (publish CX_CANCELED h) (\<lambda>r. ended)"
  by (simp add: triple_def publish_def on_snapshot_def upd_def ended_def run_state_of_def)

lemma publish_passed:
  "triple (\<lambda>w. between 8 w \<and> \<not> cx_cancel_requested w) (publish CX_PASSED h) (\<lambda>r. ended)"
  by (simp add: triple_def publish_def on_snapshot_def upd_def ended_def between_def snapshot_defs)

lemma asks_cancel:
  assumes "triple P (cancel_requested e) (\<lambda>r. P)"
  shows "triple P (cancel_requested e) (\<lambda>r w. P w \<and> cx_cancel_requested w = r)"
  using assms by (simp add: triple_def cancel_requested_def interact_def ask_def)

lemma finish_ended:
  "triple (if passed then between 8 else halted)
     (cancel_requested e \<bind> (\<lambda>canceled.
        if canceled then publish CX_CANCELED ''Fixture test canceled''
        else if passed then publish CX_PASSED ''All fixture tests passed'' else ret ()))
     (\<lambda>r. ended)"
proof (rule triple_bind [OF asks_cancel])
  show "triple (if passed then between 8 else halted) (cancel_requested e)
      (\<lambda>r. if passed then between 8 else halted)"
    using closing_keeps [OF closing.calm_cancel] by simp
  fix canceled
  show "triple (\<lambda>w. (if passed then between 8 else halted) w \<and> cx_cancel_requested w = canceled)
      (if canceled then publish CX_CANCELED ''Fixture test canceled''
       else if passed then publish CX_PASSED ''All fixture tests passed'' else ret ()) (\<lambda>r. ended)"
  proof (cases canceled)
    case True
    show ?thesis unfolding if_P [OF True] by (rule triple_conseq [OF publish_canceled]) (use True in simp_all)
  next
    case False
    then show ?thesis
      using publish_passed by (cases passed) (auto intro: triple_ret halted_ended)
  qed
qed

lemma run_fixture_ended: "triple preparing (run_fixture e) (\<lambda>r. ended)"
  unfolding run_fixture_def
proof (rule triple_bind [OF prepare_advances])
  fix prepared
  have clean: "triple halted (cleanup e) (\<lambda>r. halted)" "triple (between 8) (cleanup e) (\<lambda>r. between 8)"
    using closing_keeps [OF closing.calm_cleanup] by auto
  have cleanP: "triple (if p then between 8 else halted) (cleanup e) (\<lambda>r. if p then between 8 else halted)" for p
    using clean by simp
  have tests: "triple (between 0) (run_tests e) (\<lambda>r w. if r then between 8 w else halted w)"
    using run_tests_advances unfolding advances_def .
  show "triple (\<lambda>w. if prepared then between 0 w else halted w)
      (if \<not> prepared then cleanup e else run_tests e \<bind> (\<lambda>passed. cleanup e \<bind> (\<lambda>_. cancel_requested e \<bind>
        (\<lambda>canceled. if canceled then publish CX_CANCELED ''Fixture test canceled''
          else if passed then publish CX_PASSED ''All fixture tests passed'' else ret ())))) (\<lambda>r. ended)"
  proof (cases prepared)
    case False
    then show ?thesis using triple_conseq [OF clean(1)] halted_ended by simp
  next
    case True
    have "triple (between 0) (run_tests e \<bind> (\<lambda>passed. cleanup e \<bind> (\<lambda>_. cancel_requested e \<bind>
        (\<lambda>canceled. if canceled then publish CX_CANCELED ''Fixture test canceled''
          else if passed then publish CX_PASSED ''All fixture tests passed'' else ret ())))) (\<lambda>r. ended)"
    proof (rule triple_bind [OF tests])
      fix p
      show "triple (\<lambda>w. if p then between 8 w else halted w) (cleanup e \<bind> (\<lambda>_. cancel_requested e \<bind>
        (\<lambda>canceled. if canceled then publish CX_CANCELED ''Fixture test canceled''
          else if p then publish CX_PASSED ''All fixture tests passed'' else ret ()))) (\<lambda>r. ended)"
        by (rule triple_conseq [OF triple_bind [OF cleanP [of p] finish_ended]]) simp_all
    qed
    then show ?thesis using True by simp
  qed
qed

definition started_fixture :: fixture where
  "started_fixture = initial_fixture
     \<lparr>cx_snapshot := (cx_snapshot initial_fixture)\<lparr>fs_state := CX_RUNNING,
        fs_headline := ''Resetting CAP fixture'', fs_revision := 1\<rparr>, cx_worker := True\<rparr>"

lemma fixture_run_start: "fixture_run e = snd (run_state (run_fixture e) started_fixture)"
  by (simp add: fixture_run_def start_fixture_def ask_def upd_def publish_def on_snapshot_def
      initial_fixture_def started_fixture_def next_revision_def)

lemma fixture_run_ended: "ended (fixture_run e)"
  unfolding fixture_run_start
  by (rule tripleD [OF run_fixture_ended])
    (simp add: preparing_def between_def snapshot_defs started_fixture_def initial_fixture_def item_names_def usb_item_def
      eval_nat_numeral)

subsection \<open>The CAP channels\<close>

text \<open>
  Each write of 0x08 (0x09) to register 0x01 moves the I2C (UART) channel of the fixture to
  the other side; the flags say where the code believes it is.
\<close>

definition moves :: "byte \<Rightarrow> fixture \<Rightarrow> nat" where
  "moves d w = length (filter (\<lambda>ev. ev = EvWrite 0x01 [d] True) (cx_trace w))"

definition move_failed :: "fixture \<Rightarrow> bool" where
  "move_failed w \<longleftrightarrow> list_ex (\<lambda>ev. ev = EvWrite 0x01 [0x08] False \<or> ev = EvWrite 0x01 [0x09] False) (cx_trace w)"

definition disturbed :: "fixture \<Rightarrow> bool" where
  "disturbed w \<longleftrightarrow> cx_cancel_requested w \<or> move_failed w"

definition channels :: "bool \<Rightarrow> bool \<Rightarrow> bool \<Rightarrow> bool \<Rightarrow> fixture \<Rightarrow> bool" where
  "channels i u fi fu w \<longleftrightarrow> disturbed w \<or>
     (odd (moves 0x08 w) = i \<and> odd (moves 0x09 w) = u \<and> cx_grove_i2c_active w = fi \<and> cx_grove_uart_active w = fu)"

definition tracked :: "fixture \<Rightarrow> bool" where
  "tracked w \<longleftrightarrow> disturbed w \<or>
     (odd (moves 0x08 w) = cx_grove_i2c_active w \<and> odd (moves 0x09 w) = cx_grove_uart_active w)"

lemma plain_moves:
  "\<not> is_toggle ev \<Longrightarrow> d = 0x08 \<or> d = 0x09 \<Longrightarrow> moves d (w\<lparr>cx_trace := cx_trace w @ [ev]\<rparr>) = moves d w"
  "\<not> is_toggle ev \<Longrightarrow> move_failed (w\<lparr>cx_trace := cx_trace w @ [ev]\<rparr>) = move_failed w"
  by (auto simp: moves_def move_failed_def)

lemma moves_fail: "moves d (snd (run_state (fail stage m) w)) = moves d w"
  "move_failed (snd (run_state (fail stage m) w)) = move_failed w"
  "cx_cancel_requested (snd (run_state (fail stage m) w)) = cx_cancel_requested w"
  "cx_grove_i2c_active (snd (run_state (fail stage m) w)) = cx_grove_i2c_active w"
  "cx_grove_uart_active (snd (run_state (fail stage m) w)) = cx_grove_uart_active w"
  by (simp_all add: fail_effect Let_def moves_def move_failed_def)

lemma moves_update [simp]:
  "moves d (w\<lparr>cx_steps := k, cx_now := t, cx_cancel_requested := c\<rparr>) = moves d w"
  "move_failed (w\<lparr>cx_steps := k, cx_now := t, cx_cancel_requested := c\<rparr>) = move_failed w"
  "moves d (w\<lparr>cx_uart_session := b\<rparr>) = moves d w"
  "move_failed (w\<lparr>cx_uart_session := b\<rparr>) = move_failed w"
  "moves d (w\<lparr>cx_host_pin_function_known := b, cx_host_usb_function_selected := b'\<rparr>) = moves d w"
  "move_failed (w\<lparr>cx_host_pin_function_known := b, cx_host_usb_function_selected := b'\<rparr>) = move_failed w"
  "moves d (w\<lparr>cx_gpio_test_lines_released := b\<rparr>) = moves d w"
  "move_failed (w\<lparr>cx_gpio_test_lines_released := b\<rparr>) = move_failed w"
  "moves d (w\<lparr>cx_host_external_uart_selected := b\<rparr>) = moves d w"
  "move_failed (w\<lparr>cx_host_external_uart_selected := b\<rparr>) = move_failed w"
  "moves d (w\<lparr>cx_grove_i2c_active := b\<rparr>) = moves d w"
  "move_failed (w\<lparr>cx_grove_i2c_active := b\<rparr>) = move_failed w"
  "moves d (w\<lparr>cx_grove_uart_active := b\<rparr>) = moves d w"
  "move_failed (w\<lparr>cx_grove_uart_active := b\<rparr>) = move_failed w"
  "moves d (w\<lparr>cx_active_item := n\<rparr>) = moves d w"
  "move_failed (w\<lparr>cx_active_item := n\<rparr>) = move_failed w"
  "moves d (w\<lparr>cx_snapshot := s\<rparr>) = moves d w"
  "move_failed (w\<lparr>cx_snapshot := s\<rparr>) = move_failed w"
  by (simp_all add: moves_def move_failed_def)

text \<open>While the flags agree with the moves, anything but a move keeps them in agreement.\<close>

interpretation route: fixture_logic "channels i u i u" tracked "\<lambda>ev. \<not> is_toggle ev" for i u
  by unfold_locales
    (auto simp: channels_def tracked_def disturbed_def plain_moves moves_fail)

text \<open>Between a move and its flag the code only waits.\<close>

interpretation crossing: fixture_wait "channels i u fi fu" disturbed for i u fi fu
  by unfold_locales (auto simp: channels_def disturbed_def)

lemma crossing_delay:
  "triple (channels i u fi fu) (delay e n) (\<lambda>r w. if r then channels i u fi fu w else tracked w)"
  using crossing.sound_delay [of i u fi fu e n] unfolding crossing.sound_def
  by (rule triple_conseq) (auto simp: tracked_def split: if_splits)

lemma moves_event:
  "moves d (w\<lparr>cx_trace := cx_trace w @ [EvWrite 0x01 [d'] b]\<rparr>) = moves d w + (if d' = d \<and> b then 1 else 0)"
  "move_failed (w\<lparr>cx_trace := cx_trace w @ [EvWrite 0x01 [d'] b]\<rparr>) \<longleftrightarrow>
     move_failed w \<or> \<not> b \<and> (d' = 0x08 \<or> d' = 0x09)"
  by (auto simp: moves_def move_failed_def)

interpretation spoiled: fixture_flags disturbed "\<lambda>w. True" "\<lambda>ev. True"
  by unfold_locales (auto simp: disturbed_def moves_def move_failed_def)

text \<open>A step of the Grove tests: from one agreement of moves and flags to the next.\<close>

definition leads :: "(fixture \<Rightarrow> bool) \<Rightarrow> bool act \<Rightarrow> (fixture \<Rightarrow> bool) \<Rightarrow> bool" where
  "leads P a Q \<longleftrightarrow> triple P a (\<lambda>r w. if r then Q w else tracked w)"

lemma leads_Cons: "leads P a R \<Longrightarrow> leads R (all_of as) Q \<Longrightarrow> leads P (all_of (a # as)) Q"
  unfolding leads_def by (rule triple_all_of_Cons)

lemma leads_single: "leads P a Q \<Longrightarrow> leads P (all_of [a]) Q"
  unfolding leads_def by (rule triple_all_of_single)

lemma leads_plain: "fixture_wait.sound (channels i u i u) tracked (\<lambda>r. r) a \<Longrightarrow>
    leads (channels i u i u) a (channels i u i u)"
  by (simp add: leads_def route.sound_def)

lemma leads_delay: "leads (channels i u fi fu) (delay e n) (channels i u fi fu)"
  unfolding leads_def by (rule crossing_delay)

lemma move_recorded:
  "triple (channels i u fi fu) (record_event (EvWrite 0x01 [0x08] b))
     (\<lambda>r w. channels (\<not> i) u fi fu w \<and> (b \<or> disturbed w))"
  "triple (channels i u fi fu) (record_event (EvWrite 0x01 [0x09] b))
     (\<lambda>r w. channels i (\<not> u) fi fu w \<and> (b \<or> disturbed w))"
  unfolding record_event_def
  by (rule triple_upd; cases b; auto simp: channels_def disturbed_def moves_event)+

lemma move_service:
  "triple (channels i u fi fu) (service e (EvWrite 0x01 [0x08]))
     (\<lambda>r w. channels (\<not> i) u fi fu w \<and> (r \<noteq> None \<longrightarrow> disturbed w))"
  "triple (channels i u fi fu) (service e (EvWrite 0x01 [0x09]))
     (\<lambda>r w. channels i (\<not> u) fi fu w \<and> (r \<noteq> None \<longrightarrow> disturbed w))"
  unfolding service_def
  by (rule triple_bind [OF crossing.calm_interact [unfolded crossing.calm_def]],
      rule triple_bind [OF move_recorded(1)] triple_bind [OF move_recorded(2)], auto intro: triple_ret)+

lemma spoiled_tracked: "disturbed w \<Longrightarrow> tracked w" "disturbed w \<Longrightarrow> channels i u fi fu w"
  by (simp_all add: tracked_def channels_def)

lemma leads_move:
  assumes "triple (channels i u i u) (service e (EvWrite 0x01 [d])) (\<lambda>r w. Q w \<and> (r \<noteq> None \<longrightarrow> disturbed w))"
  shows "leads (channels i u i u) (write_reg e stage 0x01 [d]) Q"
  unfolding leads_def write_reg_def write_register_def
proof (rule triple_bind)
  show "triple (channels i u i u) (cancel_requested e) (\<lambda>r w. if \<not> r then channels i u i u w else tracked w)"
    using route.sound_cancel [of i u e] by (simp add: route.sound_def)
  fix canceled
  have refused: "triple (\<lambda>w. Q w \<and> (r \<noteq> None \<longrightarrow> disturbed w))
      (case r of None \<Rightarrow> ret True | Some m \<Rightarrow> fail stage (''I2C register write failed: '' @ m))
      (\<lambda>r w. if r then Q w else tracked w)" for r
    using moves_fail by (cases r) (auto simp: triple_def ret_def tracked_def disturbed_def)
  show "triple (\<lambda>w. if \<not> canceled then channels i u i u w else tracked w)
      (if canceled then ret False else service e (EvWrite 0x01 [d]) \<bind> (\<lambda>r. case r of
         None \<Rightarrow> ret True | Some m \<Rightarrow> fail stage (''I2C register write failed: '' @ m)))
      (\<lambda>r w. if r then Q w else tracked w)"
    by (intro triple_if, rule triple_ret) (simp_all add: triple_bind [OF assms refused])
qed

lemma leads_flags:
  "leads (channels i u fi fu) (set_grove_i2c b) (channels i u b fu)"
  "leads (channels i u fi fu) (set_grove_uart b) (channels i u fi b)"
  by (auto simp: leads_def triple_def set_grove_i2c_def set_grove_uart_def mark_def upd_def ret_def
      channels_def disturbed_def)

lemmas leads_moves = leads_move [OF move_service(1)] leads_move [OF move_service(2)]

abbreviation settled :: "fixture \<Rightarrow> bool" where
  "settled \<equiv> channels False False False False"

lemma settled_begin: "triple settled (begin_item i d) (\<lambda>r. settled)"
  by (auto simp: triple_def begin_item_def upd_def on_snapshot_def channels_def disturbed_def)

lemma settled_pass: "leads settled (pass i d) settled"
  by (auto simp: leads_def triple_def pass_def pass_item_def upd_def ret_def on_snapshot_def channels_def disturbed_def)

text \<open>The chain of a Grove test: moves, flags, waits and steps that keep the agreement.\<close>

lemma leads_begin: "leads settled m Q \<Longrightarrow> leads settled (begin_item i d \<bind> (\<lambda>_. m)) Q"
  unfolding leads_def by (rule triple_bind [OF settled_begin])

lemmas leads_rules = leads_Cons [OF leads_delay] leads_single [OF settled_pass]
  leads_Cons [OF leads_flags(1)] leads_Cons [OF leads_flags(2)]
  leads_Cons [OF leads_moves(1)] leads_Cons [OF leads_moves(2)]
  leads_Cons [OF leads_plain [OF route.sound_switch_delay]]
  leads_Cons [OF leads_plain [OF route.sound_or_fail_plain]]
  leads_Cons [OF leads_plain [OF route.set_external_sound]]
  leads_Cons [OF leads_plain [OF route.sound_expect_plain]]
  leads_Cons [OF leads_plain [OF route.sound_idle_check]]
  leads_Cons [OF leads_plain [OF route.sound_prepare_uart]]
  leads_Cons [OF leads_plain [OF route.sound_grove_hello]]
  leads_Cons [OF leads_plain [OF route.sound_grove_data]]
  leads_Cons [OF leads_plain [OF route.sound_write_plain]]

lemma run_grove_i2c_settled: "leads settled (run_grove_i2c e) settled"
  unfolding run_grove_i2c_def
  by (rule leads_begin, (rule leads_rules | simp only: not_False_eq_True not_True_eq_False | simp)+)

lemma run_grove_uart_settled: "leads settled (run_grove_uart e) settled"
  unfolding run_grove_uart_def
  by (rule leads_begin, (rule leads_rules | simp only: not_False_eq_True not_True_eq_False | simp)+)

lemma passes_settled: "route.passes False False settled (pass i d)"
  using settled_pass by (simp add: leads_def route.passes_def)

lemma run_tests_settled: "leads settled (run_tests e) settled"
proof -
  note rules = settled_begin passes_settled
  have "leads settled (run_power e) settled" "leads settled (run_i2c e) settled"
    "leads settled (run_uart e) settled" "leads settled (run_spi e) settled"
    "leads settled (run_usb e) settled" "leads settled (run_gpio e) settled"
    unfolding leads_def
    by (rule route.run_power_passes route.run_i2c_passes route.run_uart_passes route.run_spi_passes
        route.run_usb_passes route.run_gpio_passes; rule rules)+
  then show ?thesis
    unfolding run_tests_def
    by (intro leads_single leads_Cons [OF _ leads_Cons [OF leads_delay]])
      (insert run_grove_i2c_settled [of e] run_grove_uart_settled [of e], assumption+)
qed

lemma prepare_settled: "leads settled (prepare_fixture e) settled"
  unfolding leads_def using route.sound_prepare_fixture [of False False e] by (simp add: route.sound_def)

text \<open>Cleaning up moves back the channel a flag says is away.\<close>

lemma ask_flag:
  "triple (channels i u i u) (ask cx_grove_i2c_active) (\<lambda>r w. if r = i then channels i u i u w else disturbed w)"
  "triple (channels i u i u) (ask cx_grove_uart_active) (\<lambda>r w. if r = u then channels i u i u w else disturbed w)"
  by (rule triple_ask, auto simp: channels_def)+

lemma spoiled_keeps: "spoiled.calm m \<Longrightarrow> triple disturbed m (\<lambda>r. channels i u fi fu)"
  unfolding spoiled.calm_def by (erule triple_conseq) (simp_all add: spoiled_tracked)

lemma attempt_move:
  "triple (channels i u fi fu) (attempt e (EvWrite 0x01 [0x08])) (\<lambda>r. channels (\<not> i) u fi fu)"
  "triple (channels i u fi fu) (attempt e (EvWrite 0x01 [0x09])) (\<lambda>r. channels i (\<not> u) fi fu)"
  unfolding attempt_def
  by (rule triple_bind [OF move_service(1)] triple_bind [OF move_service(2)], auto intro: triple_ret)+

lemma crossing_pause:
  "triple (channels i u fi fu) (if b then do { delay e m; delay e n; ret () } else ret ()) (\<lambda>r. channels i u fi fu)"
  by (fold crossing.calm_def, cases b) (simp_all add: crossing.calm_bind crossing.calm_delay crossing.calm_ret)

lemma clear_flag:
  "triple (channels i u fi fu) (upd (\<lambda>w. w\<lparr>cx_grove_i2c_active := False\<rparr>)) (\<lambda>r. channels i u False fu)"
  "triple (channels i u fi fu) (upd (\<lambda>w. w\<lparr>cx_grove_uart_active := False\<rparr>)) (\<lambda>r. channels i u fi False)"
  by (rule triple_upd, auto simp: channels_def disturbed_def)+

lemma spoiled_rest: "spoiled.calm (if b then do { delay e m; delay e n; ret () } else ret ())"
  "spoiled.calm (if b then do { delay e m; ret () } else ret ())"
  by (simp_all add: spoiled.calm_bind spoiled.calm_delay spoiled.calm_ret)

lemma cleanup_grove_i2c_channels:
  "triple (channels i u i u) (cleanup_grove_i2c e) (\<lambda>r. channels False u False u)"
  unfolding cleanup_grove_i2c_def
proof (rule triple_bind [OF ask_flag(1)])
  fix r
  let ?rest = "do {
    selected \<leftarrow> attempt e EvHostI2cMode;
    (if selected then do { delay e 3000; ret () } else ret ());
    toggled \<leftarrow> attempt e (EvWrite 0x01 [0x08]);
    (if toggled then do { delay e 200; delay e 200; ret () } else ret ());
    upd (\<lambda>w. w\<lparr>cx_grove_i2c_active := False\<rparr>) }"
  have "spoiled.calm ?rest"
    by (intro spoiled.calm_bind spoiled.calm_attempt_any spoiled_rest spoiled.calm_upd) (simp add: spoiled.I_i2c)
  then have spoil: "triple disturbed (if \<not> r then ret () else ?rest) (\<lambda>r. channels False u False u)"
    by (auto intro: spoiled_keeps spoiled.calm_ret)
  have wait: "triple (channels i u i u) (if s then do { delay e 3000; ret () } else ret ()) (\<lambda>r. channels i u i u)" for s
    by (fold crossing.calm_def) (simp add: crossing.calm_bind crossing.calm_delay crossing.calm_ret)
  have select: "triple (channels i u i u) (attempt e EvHostI2cMode) (\<lambda>r. channels i u i u)"
    using route.calm_attempt [of EvHostI2cMode i u e] by (simp add: route.calm_def)
  have undo: "triple (channels i u i u) ?rest (\<lambda>r. channels (\<not> i) u False u)"
    by (rule triple_bind [OF select] triple_bind [OF wait] triple_bind [OF attempt_move(1)]
        triple_bind [OF crossing_pause] clear_flag)+
  show "triple (\<lambda>w. if r = i then channels i u i u w else disturbed w)
      (if \<not> r then ret () else ?rest) (\<lambda>r. channels False u False u)"
  proof (cases "r = i")
    case False
    then show ?thesis using spoil by simp
  next
    case True
    then show ?thesis using undo by (cases i) (auto intro: triple_ret)
  qed
qed

lemma cleanup_grove_uart_channels:
  "triple (channels False u False u) (cleanup_grove_uart e) (\<lambda>r. settled)"
  unfolding cleanup_grove_uart_def
proof (rule triple_bind [OF ask_flag(2)])
  fix r
  let ?rest = "do {
    toggled \<leftarrow> attempt e (EvWrite 0x01 [0x09]);
    (if toggled then do { delay e 200; delay e 200; ret () } else ret ());
    upd (\<lambda>w. w\<lparr>cx_grove_uart_active := False\<rparr>) }"
  have "spoiled.calm ?rest"
    by (intro spoiled.calm_bind spoiled.calm_attempt_any spoiled_rest spoiled.calm_upd) (simp add: spoiled.I_uart)
  then have spoil: "triple disturbed (if \<not> r then ret () else ?rest) (\<lambda>r. settled)"
    by (auto intro: spoiled_keeps spoiled.calm_ret)
  have undo: "triple (channels False u False u) ?rest (\<lambda>r. channels False (\<not> u) False False)"
    by (rule triple_bind [OF attempt_move(2)] triple_bind [OF crossing_pause] clear_flag)+
  show "triple (\<lambda>w. if r = u then channels False u False u w else disturbed w)
      (if \<not> r then ret () else ?rest) (\<lambda>r. settled)"
  proof (cases "r = u")
    case False
    then show ?thesis using spoil by simp
  next
    case True
    then show ?thesis using undo by (cases u) (auto intro: triple_ret)
  qed
qed

lemma settled_calm: "route.calm False False m \<Longrightarrow> triple settled m (\<lambda>r. settled)"
  by (simp add: route.calm_def)

lemma cleanup_channels: "triple tracked (cleanup e) (\<lambda>r. settled)"
proof -
  have "triple (channels i u i u) (cleanup e) (\<lambda>r. settled)" for i u
  proof -
    have mode: "triple (channels False u False u) (attempt e EvHostUartMode) (\<lambda>r. channels False u False u)"
      using route.calm_attempt [of EvHostUartMode False u e] by (simp add: route.calm_def)
    have external: "route.calm False u (if b then upd (\<lambda>w. w\<lparr>cx_host_external_uart_selected := True\<rparr>) else ret ())" for b
      by (cases b) (simp_all add: route.calm_ret route.calm_upd route.I_external)
    have pins: "route.calm False False (select_host_pin_function e False)"
      by (rule route.calm_select_pins) (simp_all add: route.allowed_plain)
    show ?thesis
      unfolding cleanup_def
      by (rule triple_bind [OF cleanup_grove_i2c_channels], rule triple_bind [OF mode],
          rule triple_bind [OF external [unfolded route.calm_def]],
          rule triple_bind [OF cleanup_grove_uart_channels], rule settled_calm,
          intro route.calm_bind route.calm_attempt pins route.calm_ask)
        (auto intro!: route.calm_ret route.calm_sleep route.calm_upd route.I_lines route.I_session
          route.calm_bind route.calm_attempt route.calm_event)
  qed
  note all = this
  show ?thesis
    unfolding triple_def
  proof (intro allI impI)
    fix w
    assume "tracked w"
    then have "channels (cx_grove_i2c_active w) (cx_grove_uart_active w) (cx_grove_i2c_active w) (cx_grove_uart_active w) w"
      by (simp add: tracked_def channels_def)
    then show "settled (snd (run_state (cleanup e) w))" by (rule tripleD [OF all])
  qed
qed

subsection \<open>How the hardware is left\<close>

definition last_of :: "(fixture_event \<Rightarrow> bool) \<Rightarrow> fixture_event list \<Rightarrow> fixture_event option" where
  "last_of P tr = (case rev (filter P tr) of [] \<Rightarrow> None | ev # _ \<Rightarrow> Some ev)"

fun is_write :: "fixture_event \<Rightarrow> bool" where
  "is_write (EvWrite r d b) = True"
| "is_write _ = False"

fun is_ext5v :: "fixture_event \<Rightarrow> bool" where
  "is_ext5v (EvExt5v on b) = True"
| "is_ext5v _ = False"

fun is_grove5v :: "fixture_event \<Rightarrow> bool" where
  "is_grove5v (EvGrove5v on b) = True"
| "is_grove5v _ = False"

text \<open>
  Released: the last command to the fixture is STOP, the last switching of each supply is off,
  the Grove channels count as returned and the UART is closed.
\<close>

definition released :: "fixture \<Rightarrow> bool" where
  "released w \<longleftrightarrow>
     last_of is_write (cx_trace w) \<in> {Some (EvWrite 0x01 [0x00] True), Some (EvWrite 0x01 [0x00] False)} \<and>
     last_of is_ext5v (cx_trace w) \<in> {Some (EvExt5v False True), Some (EvExt5v False False)} \<and>
     last_of is_grove5v (cx_trace w) \<in> {Some (EvGrove5v False True), Some (EvGrove5v False False)} \<and>
     \<not> cx_grove_i2c_active w \<and> \<not> cx_grove_uart_active w \<and> \<not> cx_uart_session w"

lemma last_of_record [simp]: "last_of P (tr @ [ev]) = (if P ev then Some ev else last_of P tr)"
  by (simp add: last_of_def)

text \<open>A condition on the trace, the flags and the session, and how the last steps change it.\<close>

definition on_hardware :: "(fixture_event list \<Rightarrow> bool \<Rightarrow> bool \<Rightarrow> bool \<Rightarrow> bool) \<Rightarrow> fixture \<Rightarrow> bool" where
  "on_hardware P w \<longleftrightarrow> P (cx_trace w) (cx_grove_i2c_active w) (cx_grove_uart_active w) (cx_uart_session w)"

interpretation hardware: fixture_wait "on_hardware P" "\<lambda>w. True" for P
  by unfold_locales (simp_all add: on_hardware_def)

lemma hardware_service:
  "triple (on_hardware (\<lambda>t i u s. \<forall>b. P (t @ [ev b]) i u s)) (service e ev) (\<lambda>r. on_hardware P)"
  unfolding service_def
  by (rule triple_bind [OF hardware.calm_interact [unfolded hardware.calm_def]],
      rule triple_bind [where R = "\<lambda>r. on_hardware P"])
    (auto simp: record_event_def on_hardware_def intro!: triple_upd triple_ret)

lemma hardware_attempt:
  "triple (on_hardware (\<lambda>t i u s. \<forall>b. P (t @ [ev b]) i u s)) (attempt e ev) (\<lambda>r. on_hardware P)"
  unfolding attempt_def by (rule triple_bind [OF hardware_service]) (auto intro: triple_ret)

lemma hardware_pins:
  "triple (on_hardware (\<lambda>t i u s. P t i u s \<and> (\<forall>b. P (t @ [EvSelectGpio b]) i u s)))
     (select_host_pin_function e False) (\<lambda>r. on_hardware P)"
  by (auto simp: triple_def select_host_pin_function_def service_def interact_def record_event_def upd_def ret_def
      ask_def on_hardware_def split: option.split)

lemma grove_i2c_landed:
  "triple (\<lambda>w. True) (cleanup_grove_i2c e) (\<lambda>r. on_hardware (\<lambda>t i u s. \<not> i))"
  unfolding cleanup_grove_i2c_def
  by (rule triple_bind [OF triple_ask [where Q = "\<lambda>r w. r = cx_grove_i2c_active w"]])
    (auto simp: triple_def ret_def upd_def case_prod_unfold on_hardware_def)

lemma grove_uart_landed:
  "triple (on_hardware (\<lambda>t i u s. \<not> i)) (cleanup_grove_uart e) (\<lambda>r. on_hardware (\<lambda>t i u s. \<not> i \<and> \<not> u))"
  unfolding cleanup_grove_uart_def
proof (rule triple_bind)
  show "triple (on_hardware (\<lambda>t i u s. \<not> i)) (ask cx_grove_uart_active)
      (\<lambda>r. on_hardware (\<lambda>t i u s. \<not> i \<and> r = u))"
    by (rule triple_ask) (simp add: on_hardware_def)
  fix r
  let ?P = "\<lambda>w. on_hardware (\<lambda>t i u s. \<not> i) w"
  have pause: "triple ?P (if b then do { delay e m; delay e n; ret () } else ret ()) (\<lambda>r. ?P)" for b m n
    by (fold hardware.calm_def) (simp add: hardware.calm_bind hardware.calm_delay hardware.calm_ret)
  have toggle: "triple ?P (attempt e (EvWrite 0x01 [0x09])) (\<lambda>r. ?P)"
    using hardware_attempt [of "\<lambda>t i u s. \<not> i"] by simp
  have "triple ?P (do { toggled \<leftarrow> attempt e (EvWrite 0x01 [0x09]);
      (if toggled then do { delay e 200; delay e 200; ret () } else ret ());
      upd (\<lambda>w. w\<lparr>cx_grove_uart_active := False\<rparr>) }) (\<lambda>r. on_hardware (\<lambda>t i u s. \<not> i \<and> \<not> u))"
    by (rule triple_bind [OF toggle], rule triple_bind [OF pause]) (auto simp: on_hardware_def intro!: triple_upd)
  then show "triple (on_hardware (\<lambda>t i u s. \<not> i \<and> r = u)) (if \<not> r then ret () else do {
      toggled \<leftarrow> attempt e (EvWrite 0x01 [0x09]);
      (if toggled then do { delay e 200; delay e 200; ret () } else ret ());
      upd (\<lambda>w. w\<lparr>cx_grove_uart_active := False\<rparr>) }) (\<lambda>r. on_hardware (\<lambda>t i u s. \<not> i \<and> \<not> u))"
    by (cases r) (auto simp: on_hardware_def triple_def ret_def)
qed

lemma cleanup_released: "triple (\<lambda>w. True) (cleanup e) (\<lambda>r. released)"
proof -
  let ?off = "\<lambda>t i u s. last_of is_write t \<in> {Some (EvWrite 0x01 [0x00] True), Some (EvWrite 0x01 [0x00] False)} \<and> \<not> i \<and> \<not> u"
  let ?ext = "\<lambda>t i u s. ?off t i u s \<and> last_of is_ext5v t \<in> {Some (EvExt5v False True), Some (EvExt5v False False)}"
  let ?gone = "\<lambda>t i u s. ?ext t i u s \<and> last_of is_grove5v t \<in> {Some (EvGrove5v False True), Some (EvGrove5v False False)}"
  let ?away = "\<lambda>t i u s. \<not> i"
  let ?both = "\<lambda>t i u s. \<not> i \<and> \<not> u"
  have same: "on_hardware P (w\<lparr>cx_gpio_test_lines_released := b\<rparr>) = on_hardware P w"
    "on_hardware P (w\<lparr>cx_host_external_uart_selected := b\<rparr>) = on_hardware P w" for P w b
    by (simp_all add: on_hardware_def)
  have mode: "triple (on_hardware ?away) (attempt e EvHostUartMode) (\<lambda>r. on_hardware ?away)"
    using hardware_attempt [of ?away] by simp
  have mark: "triple (on_hardware ?away)
      (if b then upd (\<lambda>w. w\<lparr>cx_host_external_uart_selected := True\<rparr>) else ret ()) (\<lambda>r. on_hardware ?away)" for b
    by (auto intro!: triple_upd triple_ret simp: same)
  have stop: "triple (on_hardware ?both) (attempt e (EvWrite 0x01 [0x00])) (\<lambda>r. on_hardware ?off)"
    by (rule triple_conseq [OF hardware_attempt]) (auto simp: on_hardware_def)
  have pins: "triple (on_hardware ?off) (select_host_pin_function e False) (\<lambda>r. on_hardware ?off)"
    by (rule triple_conseq [OF hardware_pins]) (auto simp: on_hardware_def)
  have settle: "triple (on_hardware ?off) (if c then sleep_for 150 else ret ()) (\<lambda>r. on_hardware ?off)" for c
    by (fold hardware.calm_def) (simp add: hardware.calm_sleep hardware.calm_ret)
  have inputs: "triple (on_hardware ?off) (attempt e EvGpioInputs) (\<lambda>r. on_hardware ?off)"
    by (rule triple_conseq [OF hardware_attempt]) (auto simp: on_hardware_def)
  have lines: "triple (on_hardware ?off) (if c then ret () else attempt e EvGpioInputs \<bind>
      (\<lambda>r. if r then upd (\<lambda>w. w\<lparr>cx_gpio_test_lines_released := True\<rparr>) else ret ())) (\<lambda>r. on_hardware ?off)" for c
    by (intro triple_if triple_bind [OF inputs]) (auto intro!: triple_ret triple_upd simp: same)
  have ext: "triple (on_hardware ?off) (attempt e (EvExt5v False)) (\<lambda>r. on_hardware ?ext)"
    by (rule triple_conseq [OF hardware_attempt]) (auto simp: on_hardware_def)
  have grove: "triple (on_hardware ?ext) (attempt e (EvGrove5v False)) (\<lambda>r. on_hardware ?gone)"
    by (rule triple_conseq [OF hardware_attempt]) (auto simp: on_hardware_def)
  have close: "triple (\<lambda>w. on_hardware ?gone w \<and> cx_uart_session w = c)
      (if c then record_event EvUartClose \<bind> (\<lambda>_. upd (\<lambda>w. w\<lparr>cx_uart_session := False\<rparr>)) else ret ())
      (\<lambda>r. released)" for c
    by (auto simp: triple_def record_event_def upd_def ret_def released_def on_hardware_def)
  have ask_any: "triple (on_hardware ?off) (ask f) (\<lambda>r. on_hardware ?off)" for f :: "fixture \<Rightarrow> bool"
    by (rule triple_ask)
  have session: "triple (on_hardware ?gone) (ask cx_uart_session) (\<lambda>r w. on_hardware ?gone w \<and> cx_uart_session w = r)"
    by (rule triple_ask) simp
  show ?thesis
    unfolding cleanup_def
    by (rule triple_bind [OF grove_i2c_landed] triple_bind [OF mode] triple_bind [OF mark]
        triple_bind [OF grove_uart_landed] triple_bind [OF stop] triple_bind [OF pins] triple_bind [OF settle]
        triple_bind [OF ask_any] triple_bind [OF lines] triple_bind [OF ext] triple_bind [OF grove]
        triple_bind [OF session] close)+
qed

subsection \<open>Properties of a run\<close>

lemma run_fixture_finish:
  assumes clean: "triple P (cleanup e) (\<lambda>r. Q)" and prep: "triple I (prepare_fixture e) (\<lambda>r. P)"
    and tests: "triple P (run_tests e) (\<lambda>r. P)"
    and last: "triple Q (cancel_requested e) (\<lambda>r. Q)" "\<And>st h. triple Q (publish st h) (\<lambda>r. Q)"
  shows "triple I (run_fixture e) (\<lambda>r. Q)"
proof -
  have done_: "triple Q (cancel_requested e \<bind> (\<lambda>canceled.
      if canceled then publish CX_CANCELED ''Fixture test canceled''
      else if p then publish CX_PASSED ''All fixture tests passed'' else ret ())) (\<lambda>r. Q)" for p
    by (rule triple_bind [OF last(1)]) (auto intro: last(2) triple_ret)
  show ?thesis
    unfolding run_fixture_def
    by (rule triple_bind [OF prep], intro triple_if clean triple_bind [OF tests] triple_bind [OF clean] done_)
qed

lemma fixture_run_released: "released (fixture_run e)"
proof -
  have "triple (\<lambda>w. True) (run_fixture e) (\<lambda>r. released)"
    by (rule run_fixture_finish [OF cleanup_released])
      (auto simp: triple_def cancel_requested_def interact_def ask_def publish_def on_snapshot_def upd_def released_def)
  then show ?thesis unfolding fixture_run_start by (rule tripleD) simp
qed

lemma leads_tracked: "leads settled m settled \<Longrightarrow> triple settled m (\<lambda>r. tracked)"
  unfolding leads_def by (erule triple_conseq) (auto simp: channels_def tracked_def split: if_splits)

lemma fixture_run_settled: "settled (fixture_run e)"
proof -
  have last: "triple settled (cancel_requested e) (\<lambda>r. settled)"
    using route.calm_cancel by (simp add: route.calm_def)
  have publish: "triple settled (publish st h) (\<lambda>r. settled)" for st h
    by (auto simp: triple_def publish_def on_snapshot_def upd_def channels_def disturbed_def)
  have spoil: "triple tracked (cleanup e) (\<lambda>r. settled)" by (rule cleanup_channels)
  have halfway: "triple settled (cleanup e) (\<lambda>r. settled)"
    by (rule triple_conseq [OF spoil]) (auto simp: channels_def tracked_def)
  have finish: "triple tracked (cleanup e \<bind> (\<lambda>_. cancel_requested e \<bind> (\<lambda>canceled.
      if canceled then publish CX_CANCELED ''Fixture test canceled''
      else if p then publish CX_PASSED ''All fixture tests passed'' else ret ()))) (\<lambda>r. settled)" for p
    by (rule triple_bind [OF spoil], rule triple_bind [OF last]) (auto intro: publish triple_ret)
  have "triple settled (run_fixture e) (\<lambda>r. settled)"
    unfolding run_fixture_def
  proof (rule triple_bind [OF prepare_settled [unfolded leads_def]])
    fix r
    let ?rest = "run_tests e \<bind> (\<lambda>passed. cleanup e \<bind> (\<lambda>_. cancel_requested e \<bind> (\<lambda>canceled.
      if canceled then publish CX_CANCELED ''Fixture test canceled''
      else if passed then publish CX_PASSED ''All fixture tests passed'' else ret ())))"
    have "triple settled ?rest (\<lambda>r. settled)"
      by (rule triple_bind [OF leads_tracked [OF run_tests_settled] finish])
    then show "triple (\<lambda>w. if r then settled w else tracked w) (if \<not> r then cleanup e else ?rest) (\<lambda>r. settled)"
      using spoil by (cases r) simp_all
  qed
  then show ?thesis
    unfolding fixture_run_start
    by (rule tripleD) (simp add: channels_def moves_def started_fixture_def initial_fixture_def)
qed

text \<open>C5: Whatever the fixture answers, however long it takes and whenever the operator cancels,
  a run never ends in IDLE; it ends PASSED only with all eight items passed and no request to
  cancel, CANCELED (or still RUNNING) only after such a request. It ends FAILED with the message
  shown at the failed item, in one of two ways: in a test, with the items before the failing
  one passed and those after it not begun; or in the preparation, before any test, and then
  the item shown as failed is the USB item (the one initially active), all others not begun.\<close>

theorem fixture_verdict:
  "case run_state_of (fixture_run e) of
     CX_PASSED \<Rightarrow> item_states (fixture_run e) = replicate 8 CI_PASSED \<and> \<not> cx_cancel_requested (fixture_run e)
   | CX_FAILED \<Rightarrow>
       (\<exists>n<8. item_states (fixture_run e) = replicate n CI_PASSED @ CI_FAILED # replicate (7 - n) CI_PENDING \<and>
          failed_detail n (fixture_run e)) \<or>
       item_states (fixture_run e) = (replicate 8 CI_PENDING)[usb_item := CI_FAILED] \<and>
          failed_detail usb_item (fixture_run e)
   | CX_CANCELED \<Rightarrow> cx_cancel_requested (fixture_run e)
   | CX_RUNNING \<Rightarrow> cx_cancel_requested (fixture_run e)
   | CX_IDLE \<Rightarrow> False"
proof -
  have "(replicate 8 CI_PENDING)[usb_item := CI_FAILED] = replicate 6 CI_PENDING @ [CI_FAILED, CI_PENDING]"
    by (simp add: eval_nat_numeral usb_item_def)
  then show ?thesis
    using fixture_run_ended [of e]
    by (cases "run_state_of (fixture_run e)")
      (auto simp: ended_def failed_somewhere_def failed_preparing_def shape_def)
qed

text \<open>C13: However a run ends, the hardware is released: the last command to the fixture is STOP,
  the last switching of EXT 5V and of Grove 5V is off, no Grove channel counts as switched and the
  UART session is closed.\<close>

theorem fixture_always_released: "released (fixture_run e)"
  by (rule fixture_run_released)

text \<open>C23: In a run that is not canceled and in which no channel switch fails, each CAP channel is
  moved an even number of times: it ends on the side where it started, whichever test failed.\<close>

theorem channels_returned:
  assumes "\<not> cx_cancel_requested (fixture_run e)" "\<not> move_failed (fixture_run e)"
  shows "even (moves 0x08 (fixture_run e)) \<and> even (moves 0x09 (fixture_run e))"
  using fixture_run_settled [of e] assms by (simp add: channels_def disturbed_def)

text \<open>A delay that reports success has lasted its full time; one that reports failure was cut
  short by a request to cancel.\<close>

lemma delay_full_or_canceled:
  "if fst (run_state (delay e n) w) then cx_now w + ms n \<le> cx_now (snd (run_state (delay e n) w))
   else cx_cancel_requested (snd (run_state (delay e n) w))"
proof -
  have "triple (\<lambda>w. True) (delay e n) (\<lambda>r w. if r then True else cx_cancel_requested w)"
    using pausing.sound_delay by (simp add: pausing.sound_def)
  then show ?thesis using delay_now [of e n w] by (simp add: triple_def)
qed

definition reset_writes :: "fixture \<Rightarrow> nat" where
  "reset_writes w = length (filter (\<lambda>ev. ev = EvWrite 0x01 [0x07] True \<or> ev = EvWrite 0x01 [0x07] False) (cx_trace w))"

lemma delay_trace: "cx_trace (snd (run_state (delay e n) w)) = cx_trace w"
proof -
  have "triple (on_hardware (\<lambda>t i u s. t = cx_trace w)) (delay e n) (\<lambda>r. on_hardware (\<lambda>t i u s. t = cx_trace w))"
    using hardware.calm_delay by (simp add: hardware.calm_def)
  then show ?thesis by (simp add: triple_def on_hardware_def)
qed

lemma reset_write_counts:
  "reset_writes (snd (run_state (write_register e 0x01 [0x07]) (snd (run_state (cancel_requested e) w)))) = Suc (reset_writes w)"
  by (cases "fe_error e (Suc (cx_steps w))")
    (simp_all add: write_register_def service_def interact_def record_event_def upd_def ret_def
      cancel_requested_def ask_def reset_writes_def)

lemma reset_attempts_count:
  "reset_writes (snd (run_state (reset_attempts e n err) w)) \<le> reset_writes w + n"
proof (induction n arbitrary: err w)
  case (Suc n)
  obtain c w1 where c: "run_state (cancel_requested e) w = (c, w1)" by fastforce
  obtain r w2 where r: "run_state (write_register e 0x01 [0x07]) w1 = (r, w2)" by fastforce
  obtain k w3 where k: "run_state (delay e 200) w2 = (k, w3)" by fastforce
  have n: "reset_writes w1 = reset_writes w" "reset_writes w2 = Suc (reset_writes w)" "reset_writes w3 = Suc (reset_writes w)"
    using reset_write_counts [of e w] delay_trace [of e 200 w2] c r k
    by (auto simp: reset_writes_def cancel_requested_def interact_def ask_def)
  show ?case
  proof (cases r)
    case None
    then show ?thesis using n by (simp add: c r ret_def)
  next
    case (Some m)
    then show ?thesis using n Suc.IH [of m w3] by (simp add: c r k ret_def)
  qed
qed (simp add: ret_def)

text \<open>Preparing the fixture writes the software reset at most five times, whatever the
  answers, and gives up after the fifth failure.\<close>

lemma reset_at_most_five:
  "reset_writes (snd (run_state (reset_attempts e software_reset_attempts err) w)) \<le> reset_writes w + 5"
  using reset_attempts_count [of e software_reset_attempts err w] by (simp add: software_reset_attempts_def)

text \<open>The output voltage is read as one 16-bit number whose high byte is register 0x08 and
  whose low byte is register 0x09, and is never more than 65535 mV.\<close>

lemma millivolts_registers: "millivolts r8 r9 = 256 * unat r8 + unat r9 \<and> millivolts r8 r9 \<le> 65535"
proof -
  have small: "unat r8 < 256" "unat r9 < 256"
    using unsigned_less [of r8, where 'a = nat] unsigned_less [of r9, where 'a = nat] by simp_all
  have "(ucast r9 :: 32 word) OR push_bit 8 (ucast r8) = ucast r9 + push_bit 8 (ucast r8)"
    by (rule disjunctive_add [symmetric]) (auto simp: bit_simps dest: bit_imp_le_length)
  moreover have "unat (ucast r9 :: 32 word) = unat r9"
    using small by (simp add: unsigned_ucast_eq take_bit_nat_eq_self)
  moreover have "unat (push_bit 8 (ucast r8 :: 32 word)) = 256 * unat r8"
    using small by (simp add: unsigned_push_bit_eq unsigned_ucast_eq take_bit_nat_eq_self push_bit_nat_def)
  ultimately show ?thesis using small by (simp add: millivolts_def unat_word_ariths(1))
qed

end
