(* ===== verification/CapEval.thy ===== *)
theory CapEval
  imports CapTheorems
begin

section \<open>CapEval: evaluating runs of the fixture\<close>

text \<open>
  Scripted environments: the answer, the time and the failure of every interaction by its
  number, and the rules that evaluate the actions in them one at a time.
\<close>

definition scripted :: "(nat \<times> byte list) list \<Rightarrow> nat list \<Rightarrow> nat list \<Rightarrow> (nat \<times> string) list \<Rightarrow> fixture_env" where
  "scripted answers waits cancels errors =
     \<lparr>fe_cancel = (\<lambda>k. k \<in> set cancels), fe_error = map_of errors,
      fe_data = (\<lambda>k. case map_of answers k of Some d \<Rightarrow> d | None \<Rightarrow> []),
      fe_lapse = (\<lambda>k. if k \<in> set waits then 5000000000 else 0)\<rparr>"

lemma scripted_simps [simp]:
  "fe_cancel (scripted a t c x) k \<longleftrightarrow> k \<in> set c" "fe_error (scripted a t c x) k = map_of x k"
  "fe_data (scripted a t c x) k = (case map_of a k of Some d \<Rightarrow> d | None \<Rightarrow> [])"
  "fe_lapse (scripted a t c x) k = (if k \<in> set t then 5000000000 else 0)"
  by (simp_all add: scripted_def)

subsection \<open>Evaluation\<close>

text \<open>One rule for each way of composing actions.\<close>

definition evals :: "'a act \<Rightarrow> fixture \<Rightarrow> 'a \<Rightarrow> fixture \<Rightarrow> bool" where
  "evals m w x w' \<longleftrightarrow> run_state m w = (x, w')"

definition yields :: "'a \<times> fixture \<Rightarrow> 'a \<Rightarrow> fixture \<Rightarrow> bool" where
  "yields r x w \<longleftrightarrow> r = (x, w)"

lemma yields_pair: "yields (x, w) x w"
  by (simp add: yields_def)

lemma evals_simp: "run_state m w = r \<Longrightarrow> yields r x w' \<Longrightarrow> evals m w x w'"
  by (simp add: evals_def yields_def)

lemma evals_Cons:
  "evals a w b w' \<Longrightarrow> evals (if b then all_of as else ret False) w' x w'' \<Longrightarrow> evals (all_of (a # as)) w x w''"
  by (simp add: evals_def)

lemma evals_then: "c \<Longrightarrow> evals m w x w' \<Longrightarrow> evals (if c then m else n) w x w'"
  by simp

lemma evals_else: "\<not> c \<Longrightarrow> evals n w x w' \<Longrightarrow> evals (if c then m else n) w x w'"
  by simp

lemma evals_Nil: "evals (all_of []) w True w"
  by (simp add: evals_def ret_def)

lemma evals_bind: "evals m w x w' \<Longrightarrow> evals (f x) w' y w'' \<Longrightarrow> evals (m \<bind> f) w y w''"
  by (simp add: evals_def)

lemma evals_with_reg:
  "evals (read_reg e st reg n) w (Some d) w' \<Longrightarrow> evals (k d) w' x w'' \<Longrightarrow> evals (with_reg e st reg n k) w x w''"
  by (simp add: evals_def with_reg_def)

lemmas evals_rules = evals_Cons evals_Nil evals_bind evals_with_reg

lemmas run_control = if_True if_False not_True_eq_False not_False_eq_True prod.case option.case sum.case
  pred_numeral_simps BitM.simps numeral_One zero_neq_numeral numeral_neq_zero zero_neq_one one_neq_zero

lemma after_evals: "evals m w x w' \<Longrightarrow> P w' \<Longrightarrow> P (snd (run_state m w))"
  by (simp add: evals_def)

lemma bind_first: "m = m' \<Longrightarrow> State_Monad.bind m f = State_Monad.bind m' f"
  by simp

text \<open>The loops: one pass at a time.\<close>

lemma evals_State: "f w = (x, w') \<Longrightarrow> evals (State f) w x w'"
  by (simp add: evals_def)

lemma evals_delay_loop:
  "evals (steady_now e) w now w1 \<Longrightarrow>
     evals (if now < d then do {
              canceled \<leftarrow> cancel_requested e;
              if canceled then ret False else do { sleep_for 10; State (delay_loop e d) } }
            else ret True) w1 x w' \<Longrightarrow>
     evals (State (delay_loop e d)) w x w'"
  by (simp add: evals_def delay_loop.simps [of e d w] ret_def case_prod_unfold split: if_splits)

lemma evals_hold_over:
  "evals (steady_now e) w now w1 \<Longrightarrow> d \<le> now \<Longrightarrow>
     evals (set_gpio_test_outputs e) w1 None w2 \<Longrightarrow> evals (State (hold_loop e stage d)) w True w2"
  by (rule evals_State) (simp add: hold_loop.simps evals_def ret_def)

lemma evals_idle:
  "evals (steady_now e) w now w1 \<Longrightarrow> now < d \<Longrightarrow> evals (read_reg e stage 0x03 1) w1 (Some bs) w2 \<Longrightarrow>
     hd bs = 0x00 \<Longrightarrow> evals (State (idle_loop e stage d st)) w (Some (hd bs)) w2"
  by (rule evals_State) (simp add: idle_loop.simps evals_def)

lemma evals_uart_ready:
  "evals (steady_now e) w now w1 \<Longrightarrow> now < d \<Longrightarrow> evals (uart_ready_poll e stage) w1 (Inl b) w2 \<Longrightarrow>
     evals (State (uart_ready_loop e stage d c st)) w b w2"
  by (rule evals_State) (simp add: uart_ready_loop.simps evals_def)

lemma evals_read_frame:
  "evals (steady_now e) w now w1 \<Longrightarrow> now < d \<Longrightarrow> evals (cancel_requested e) w1 False w2 \<Longrightarrow>
     evals (read_available e) w2 (Inr chunk) w3 \<Longrightarrow> scan_received (received @ chunk) = Inr frame \<Longrightarrow>
     evals (State (read_frame_loop e d received)) w (Inr frame) w3"
  by (rule evals_State) (simp add: read_frame_loop.simps evals_def)

lemmas unfold_reset = reset_attempts.simps(2) [of _ "pred_numeral k" for k, folded numeral_eq_Suc]
lemmas unfold_hello = hello_loop.simps(2) [of _ "pred_numeral k" for k, folded numeral_eq_Suc]
lemmas unfold_grove_hello = grove_hello_loop.simps(2) [of _ "pred_numeral k" for k, folded numeral_eq_Suc]
lemmas unfold_samples = gpio_samples.simps(2) [of _ "pred_numeral k" for k, folded numeral_eq_Suc]
  gpio_samples.simps(2) [of _ 0, folded One_nat_def]

lemma evals_unfold: "m = m' \<Longrightarrow> evals m' w x w' \<Longrightarrow> evals m w x w'"
  by simp

lemmas evals_loops = evals_delay_loop evals_hold_over evals_idle evals_uart_ready evals_read_frame
  evals_unfold [OF unfold_reset] evals_unfold [OF unfold_hello] evals_unfold [OF unfold_grove_hello]
  evals_unfold [OF unfold_samples(1)] evals_unfold [OF unfold_samples(2)] evals_unfold [OF gpio_samples.simps(1)]

lemmas primitive_defs = upd_def ask_def ret_def interact_def cancel_requested_def steady_now_def
  sleep_for_def record_event_def service_def fetch_def read_available_def on_snapshot_def publish_def
  fail_def begin_item_def pass_item_def delay_def write_register_def write_reg_def read_reg_def
  or_fail_def and_delay_def mark_def pass_def with_reg_def expect_status_def set_grove_i2c_def
  set_grove_uart_def set_external_uart_def attempt_def select_host_pin_function_def write_text_def
  Let_def ms_def fill_def pred_numeral_simps numeral_2_eq_2 [symmetric] item_defs next_revision_def

lemmas test_defs = run_fixture_def prepare_fixture_def run_tests_def run_power_def run_i2c_def run_grove_i2c_def run_uart_def
  run_grove_uart_def run_spi_def run_usb_def run_gpio_def cleanup_def software_reset_attempts_def prepare_uart_test_def expect_reply_def
  cleanup_grove_i2c_def cleanup_grove_uart_def gpio_sample_and_stop_def gpio_sample_count_def usb_enumerate_def uart_ready_poll_def
  or_fail_def and_delay_def expect_status_def write_reg_def read_reg_def with_reg_def delay_def wait_idle_def
  read_uart_frame_def hold_gpio_outputs_high_def receive_usb_hid_text_def mark_def pass_def attempt_def
  select_host_pin_function_def write_text_def set_gpio_test_outputs_def write_register_def set_grove_i2c_def
  set_grove_uart_def set_external_uart_def cancel_requested_def steady_now_def service_def fetch_def read_available_def

lemma frames_ok:
  "scan_received (make_uart_frame 0x31 zeros10 0) = Inr (make_uart_frame 0x31 zeros10 0)"
  "scan_received (make_uart_frame 0x03 rx_payload 10) = Inr (make_uart_frame 0x03 rx_payload 10)"
  "validate_uart_frame (make_uart_frame 0x31 zeros10 0) 0x31 0 zeros10 = None"
  "validate_uart_frame (make_uart_frame 0x03 rx_payload 10) 0x03 10 rx_payload = None"
  by (simp_all add: made_frame_scanned made_frame_valid zeros10_def rx_payload_def)

end
