(* ===== verification/CapRuns.thy ===== *)
theory CapRuns
  imports CapEval
begin

section \<open>CapRuns: whole runs of the fixture\<close>

text \<open>
  The run of a fixture that answers as the tests expect ends PASSED: the hypotheses of the
  properties of CapTheorems can hold, and success is reachable. The other runs show what the
  code does when it fails or is canceled at particular points.
\<close>

text \<open>What the fixture answers, and the looks at the clock after which a delay is over.\<close>

definition good_answers :: "(nat \<times> byte list) list" where
  "good_answers =
    [(21, [0x13]), (23, [0x88]), (33, [0xA5, 0x5A]), (41, [0x02]), (59, [0x02]), (82, [0x03]), (84,
     [0x01]), (91, make_uart_frame 0x31 zeros10 0), (97, make_uart_frame 0x03 rx_payload 10), (126,
     [0x03]), (128, [0x01]), (135, make_uart_frame 0x31 zeros10 0), (141, make_uart_frame 0x03 rx_payload
     10), (154, spi_expected), (173, [0x01]), (199, [0x07]), (202, [0x07]), (208, [0x07]), (214, [0x07]),
     (220, [0x07]), (226, [0x07])]"

definition good_waits :: "nat list" where
  "good_waits =
    [3, 7, 10, 14, 19, 25, 31, 39, 43, 46, 50, 53, 57, 63, 65, 68, 74, 99, 105, 108, 112, 118, 145, 147,
     149, 153, 156, 162, 165, 171, 179, 184, 186, 189, 192, 197, 204, 210, 216, 222]"

definition good_fixture :: fixture_env where
  "good_fixture = scripted good_answers good_waits [] []"

text \<open>
  A state within the good run: the flags are known, the snapshot, the clock and the trace are
  whatever came before. \<open>clean\<close>: no channel switch has failed.
\<close>

definition point :: "nat \<Rightarrow> bool \<Rightarrow> bool \<Rightarrow> bool \<Rightarrow> bool \<Rightarrow> bool \<Rightarrow> fixture_snapshot \<Rightarrow> nat \<Rightarrow> nat \<Rightarrow> fixture_event list \<Rightarrow> fixture" where
  "point k known usb lines external session s item t tr =
     \<lparr>cx_snapshot = s, cx_cancel_requested = False, cx_worker = True, cx_active_item = item,
      cx_host_pin_function_known = known, cx_host_usb_function_selected = usb,
      cx_gpio_test_lines_released = lines, cx_grove_i2c_active = False, cx_grove_uart_active = False,
      cx_host_external_uart_selected = external, cx_uart_session = session, cx_now = t, cx_steps = k,
      cx_trace = tr\<rparr>"

definition clean :: "fixture_event list \<Rightarrow> bool" where
  "clean tr \<longleftrightarrow> \<not> list_ex (\<lambda>ev. ev = EvWrite 0x01 [0x08] False \<or> ev = EvWrite 0x01 [0x09] False) tr"

lemma clean_append: "clean (a @ b) \<longleftrightarrow> clean a \<and> clean b"
  by (simp add: clean_def)

lemma good_tests:
  "\<exists>s' t' evs. evals (prepare_fixture good_fixture) (point 0 False False False False False s usb_item t tr) True
     (point 8 False False False True False s' usb_item t' (tr @ evs)) \<and> clean evs"
  "\<exists>s' t' evs. evals (run_power good_fixture) (point 8 False False False True False s usb_item t tr) True
     (point 24 False False False True False s' power_item t' (tr @ evs)) \<and> clean evs"
  "\<exists>s' t' evs. evals (run_i2c good_fixture) (point 26 False False False True False s power_item t tr) True
     (point 42 False False False True False s' i2c_item t' (tr @ evs)) \<and> clean evs"
  "\<exists>s' t' evs. evals (run_grove_i2c good_fixture) (point 44 False False False True False s i2c_item t tr) True
     (point 73 False False False True False s' grove_i2c_item t' (tr @ evs)) \<and> clean evs"
  "\<exists>s' t' evs. evals (run_uart good_fixture) (point 75 False False False True False s grove_i2c_item t tr) True
     (point 104 False False False True True s' uart_item t' (tr @ evs)) \<and> clean evs"
  "\<exists>s' t' evs. evals (run_grove_uart good_fixture) (point 106 False False False True True s uart_item t tr) True
     (point 148 False False False True True s' grove_uart_item t' (tr @ evs)) \<and> clean evs"
  "\<exists>s' t' evs. evals (run_spi good_fixture) (point 150 False False False True True s grove_uart_item t tr) True
     (point 161 False False False True True s' spi_item t' (tr @ evs)) \<and> clean evs"
  "\<exists>s' t' evs. evals (run_usb good_fixture) (point 163 False False False True True s spi_item t tr) True
     (point 185 True True False True True s' usb_item t' (tr @ evs)) \<and> clean evs"
  "\<exists>s' t' evs. evals (run_gpio good_fixture) (point 187 True True False True True s usb_item t tr) True
     (point 229 True False True True True s' gpio_item t' (tr @ evs)) \<and> clean evs"
  "\<exists>s' t' evs. evals (cleanup good_fixture) (point 229 True False True True True s gpio_item t tr) ()
     (point 233 True False True True False s' gpio_item t' (tr @ evs)) \<and> clean evs"
  unfolding good_fixture_def test_defs point_def item_defs One_nat_def
  by (intro exI conjI,
      (rule evals_rules | simp only: run_control | (rule evals_loops, unfold test_defs)
       | (rule evals_then, (simp add: ms_def; fail)) | (rule evals_else, (simp add: ms_def; fail))
       | (rule evals_simp, simp add: primitive_defs good_answers_def good_waits_def millivolts_def
           frames_ok spi_expected_def spi_tx_def cong: bind_first let_weak_cong, rule yields_pair)
       | (simp add: ms_def frames_ok; fail))+,
      simp add: clean_def)+

text \<open>The states the good run passes between its parts.\<close>

definition passing :: "nat \<Rightarrow> bool \<Rightarrow> bool \<Rightarrow> bool \<Rightarrow> bool \<Rightarrow> bool \<Rightarrow> nat \<Rightarrow> fixture \<Rightarrow> bool" where
  "passing k known usb lines external session item w \<longleftrightarrow>
     (\<exists>s t tr. w = point k known usb lines external session s item t tr \<and> clean tr)"

lemma passing_evals:
  assumes "\<And>s t tr. \<exists>s' t' evs. evals m (point k a b c d f s i t tr) x
     (point k' a' b' c' d' f' s' i' t' (tr @ evs)) \<and> clean evs"
  shows "triple (passing k a b c d f i) m (\<lambda>r w. r = x \<and> passing k' a' b' c' d' f' i' w)"
  using assms unfolding triple_def passing_def evals_def by (metis clean_append fst_conv snd_conv)

lemma passing_delay:
  assumes "Suc k \<in> set good_waits" "n \<le> 5000"
  shows "triple (passing k a b c d f i) (delay good_fixture n) (\<lambda>r w. r = True \<and> passing (Suc (Suc k)) a b c d f i w)"
proof (rule passing_evals)
  fix s t tr
  obtain l where l: "fe_lapse good_fixture k = l" by blast
  have "run_state (delay good_fixture n) (point k a b c d f s i t tr) =
      (True, point (Suc (Suc k)) a b c d f s i (t + l + 5000000000) (tr @ []))"
    using assms l
    by (simp add: delay_def steady_now_def interact_def ask_def point_def delay_loop.simps ms_def good_fixture_def)
  then show "\<exists>s' t' evs. evals (delay good_fixture n) (point k a b c d f s i t tr) True
      (point (Suc (Suc k)) a b c d f s' i t' (tr @ evs)) \<and> clean evs"
    unfolding evals_def clean_def by fastforce
qed

definition goes :: "(fixture \<Rightarrow> bool) \<Rightarrow> bool act \<Rightarrow> (fixture \<Rightarrow> bool) \<Rightarrow> bool" where
  "goes P a Q \<longleftrightarrow> triple P a (\<lambda>r w. r = True \<and> Q w)"

lemma goesD: "goes P m Q \<Longrightarrow> P w \<Longrightarrow> \<exists>w'. run_state m w = (True, w') \<and> Q w'"
  by (simp add: goes_def triple_def) (metis prod.collapse)

lemma goes_Cons: "goes P a R \<Longrightarrow> goes R (all_of as) Q \<Longrightarrow> goes P (all_of (a # as)) Q"
  unfolding goes_def by (simp add: triple_def case_prod_unfold)

lemma goes_single: "goes P a Q \<Longrightarrow> goes P (all_of [a]) Q"
  unfolding goes_def by (simp add: triple_def case_prod_unfold ret_def)

lemmas good_parts = good_tests [THEN passing_evals, folded goes_def]

lemma good_pause:
  "Suc k \<in> set good_waits \<Longrightarrow> n \<le> 5000 \<Longrightarrow> k' = Suc (Suc k) \<Longrightarrow>
     goes (passing k a b c d f i) (delay good_fixture n) (passing k' a b c d f i)"
  unfolding goes_def by (simp add: passing_delay [simplified])

lemma good_sequence:
  "goes (passing 8 False False False True False usb_item) (run_tests good_fixture)
     (passing 229 True False True True True gpio_item)"
  unfolding run_tests_def
  by (rule goes_single goes_Cons, (rule good_parts | (rule good_pause; simp add: good_waits_def)))+

lemma good_fixture_cancel: "fe_cancel good_fixture k = False"
  by (simp add: good_fixture_def)

lemma good_run:
  "\<exists>s t tr. fixture_run good_fixture = point 234 True False True True False
     (s\<lparr>fs_state := CX_PASSED, fs_headline := ''All fixture tests passed'',
        fs_revision := next_revision (fs_revision s)\<rparr>) gpio_item t tr \<and> clean tr"
proof -
  have "passing 0 False False False False False usb_item started_fixture"
    by (simp add: passing_def point_def started_fixture_def initial_fixture_def usb_item_def clean_def)
  then obtain w1 where p: "run_state (prepare_fixture good_fixture) started_fixture = (True, w1)"
      "passing 8 False False False True False usb_item w1"
    using goesD [OF good_parts(1)] by blast
  obtain w2 where t: "run_state (run_tests good_fixture) w1 = (True, w2)"
      "passing 229 True False True True True gpio_item w2"
    using goesD [OF good_sequence p(2)] by blast
  obtain w3 where c: "run_state (cleanup good_fixture) w2 = ((), w3)"
      "passing 233 True False True True False gpio_item w3"
    using tripleD [OF good_parts(10) t(2)] by (cases "run_state (cleanup good_fixture) w2") simp
  obtain s u tr where w3: "w3 = point 233 True False True True False s gpio_item u tr" "clean tr"
    using c(2) by (auto simp: passing_def)
  have "fixture_run good_fixture = point 234 True False True True False
     (s\<lparr>fs_state := CX_PASSED, fs_headline := ''All fixture tests passed'',
        fs_revision := next_revision (fs_revision s)\<rparr>) gpio_item (u + fe_lapse good_fixture 233) tr"
    unfolding fixture_run_start run_fixture_def
    by (simp add: p(1) t(1) c(1) w3(1) cancel_requested_def interact_def ask_def publish_def on_snapshot_def
        upd_def point_def good_fixture_cancel)
  then show ?thesis using w3(2) by blast
qed

lemma good_run_state:
  "run_state_of (fixture_run good_fixture) = CX_PASSED"
  "\<not> cx_cancel_requested (fixture_run good_fixture)" "\<not> move_failed (fixture_run good_fixture)"
  using good_run by (auto simp: run_state_of_def point_def move_failed_def clean_def)

text \<open>In this example all eight items end passed.\<close>

lemma good_fixture_items:
  "run_state_of (fixture_run good_fixture) = CX_PASSED \<and> item_states (fixture_run good_fixture) = replicate 8 CI_PASSED"
  using good_run_state fixture_run_ended [of good_fixture] by (auto simp: ended_def failed_somewhere_def failed_preparing_def)

theorem channels_returned_witness:
  "\<not> move_failed (fixture_run good_fixture) \<and> even (moves 0x08 (fixture_run good_fixture)) \<and>
     even (moves 0x09 (fixture_run good_fixture))"
  using channels_returned [of good_fixture] good_run_state by simp

subsection \<open>Runs that end early\<close>

text \<open>A failure before the first test is shown at the USB item: \<open>active_item_\<close> still has its
  initial value 6 when \<open>fail_\<close> is called from the preparation, so the run ends FAILED with the
  six items before it untouched and the USB item, which was never begun, marked FAILED.\<close>

theorem preparation_failure_blames_usb:
  assumes "fe_error e 0 = Some m"
  shows "run_state_of (fixture_run e) = CX_FAILED \<and>
     item_states (fixture_run e) = replicate 6 CI_PENDING @ [CI_FAILED, CI_PENDING] \<and>
     fs_error_message (cx_snapshot (fixture_run e)) = ''failed to keep I2C on HAT: '' @ m"
proof -
  obtain w1 where w1: "run_state (prepare_fixture e) started_fixture = (False, w1)"
    "run_state_of w1 = CX_FAILED \<and> item_states w1 = replicate 6 CI_PENDING @ [CI_FAILED, CI_PENDING] \<and>
     fs_error_message (cx_snapshot w1) = ''failed to keep I2C on HAT: '' @ m"
    using assms
    by (simp add: prepare_fixture_def or_fail_def service_def interact_def record_event_def upd_def ret_def
        fail_def ask_def on_snapshot_def started_fixture_def initial_fixture_def snapshot_defs item_names_def eval_nat_numeral)
  have "fixture_run e = snd (run_state (cleanup e) w1)"
    unfolding fixture_run_start run_fixture_def by (simp add: w1(1))
  moreover have "cx_snapshot (snd (run_state (cleanup e) w1)) = cx_snapshot w1"
    using tripleD [OF closing.calm_cleanup [unfolded closing.calm_def], of "cx_snapshot w1" False w1]
    by (simp add: reported_def)
  ultimately show ?thesis using w1(2) by (simp add: snapshot_defs)
qed

theorem preparation_failure_blames_usb_witness:
  "run_state_of (fixture_run (scripted [] [] [] [(0, ''no pinctrl'')])) = CX_FAILED"
  using preparation_failure_blames_usb [of "scripted [] [] [] [(0, ''no pinctrl'')]" "''no pinctrl''"] by simp

end
