(* ===== verification/CapCancel.thy ===== *)
theory CapCancel
  imports CapEval
begin

section \<open>CapCancel: runs that the operator cancels\<close>

text \<open>Two runs in which the code does something else after a request to cancel than it means to.\<close>

definition canceled_early :: fixture_env where
  "canceled_early = scripted [] [] [4] []"

text \<open>A run canceled while the fixture is prepared never leaves the state RUNNING: the code
  cleans up and returns without publishing CANCELED, with the worker's thread object still there.\<close>

theorem canceled_preparation_stays_running:
  "run_state_of (fixture_run canceled_early) = CX_RUNNING \<and> cx_cancel_requested (fixture_run canceled_early) \<and>
     cx_worker (fixture_run canceled_early) \<and> released (fixture_run canceled_early)"
proof -
  have "run_state_of (fixture_run canceled_early) = CX_RUNNING \<and> cx_cancel_requested (fixture_run canceled_early) \<and>
     cx_worker (fixture_run canceled_early)"
    unfolding fixture_run_start canceled_early_def test_defs started_fixture_def initial_fixture_def
    apply (rule after_evals [where P = "\<lambda>w. run_state_of w = CX_RUNNING \<and> cx_cancel_requested w \<and> cx_worker w"])
     apply (rule evals_rules | simp only: run_control | (rule evals_loops, unfold test_defs)
       | (rule evals_then, (simp add: ms_def; fail)) | (rule evals_else, (simp add: ms_def; fail))
       | (rule evals_simp, simp add: primitive_defs cong: bind_first let_weak_cong, rule yields_pair)
       | (simp add: ms_def; fail))+
    apply (simp add: run_state_of_def)
    done
  then show ?thesis using fixture_run_released by simp
qed

definition canceled_after_switch :: fixture_env where
  "canceled_after_switch = scripted [(15, [0x02])] [2, 6, 9, 13] [20] []"

text \<open>When the operator cancels in the delay after the Grove I2C channel has been switched
  back, the flag still says it is away, so the clean-up switches it once more: three successful
  switches, and the channel ends on the Grove side.\<close>

theorem canceled_switch_moves_thrice:
  "moves 0x08 (snd (run_state (do { run_grove_i2c canceled_after_switch; cleanup canceled_after_switch }) started_fixture)) = 3"
  unfolding canceled_after_switch_def test_defs started_fixture_def initial_fixture_def
  apply (rule after_evals [where P = "\<lambda>w. moves 0x08 w = 3"])
   apply (rule evals_rules | simp only: run_control | (rule evals_loops, unfold test_defs)
     | (rule evals_then, (simp add: ms_def; fail)) | (rule evals_else, (simp add: ms_def; fail))
     | (rule evals_simp, simp add: primitive_defs item_names_def cong: bind_first let_weak_cong, rule yields_pair)
     | (simp add: ms_def; fail))+
  apply (simp add: moves_def)
  done

end
