(* ===== verification/IrFixture.thy ===== *)
theory IrFixture
  imports Prelude Actions "HOL-Library.Word"
begin

section \<open>IrFixture: the IR fixture test\<close>

text \<open>
  The class \<open>IrFixtureTestModel\<close> of src/src/model/ir_fixture_test_model.cpp: its worker sends
  four NEC32 frames with a random address and random commands, then listens for the five
  replies F1..F5 of the fixture. The members and the steady clock are one record. Every call
  into the IR service, every look at the clock and at the cancel flag and every draw of the
  random generator is one numbered interaction answered by \<open>ir_env\<close>; a request to cancel may
  come before each. Log output and the destructor are not modelled.
\<close>

subsection \<open>Data (ir_fixture_test_model.h)\<close>

datatype ir_run_state = IR_WAITING | IR_RUNNING | IR_PASSED | IR_FAILED | IR_CANCELED
datatype ir_item_state = II_PENDING | II_RUNNING | II_PASSED | II_FAILED

record ir_item =
  ii_name :: string
  ii_state :: ir_item_state
  ii_detail :: string

record ir_snapshot =
  is_state :: ir_run_state
  is_items :: "ir_item list" \<comment> \<open>std::array of two\<close>
  is_headline :: string
  is_error_message :: string
  is_revision :: "32 word"

text \<open>What one poll of the receiver session reports (ir_service.h).\<close>

record ir_received =
  rx_data_changed :: bool
  rx_address_matched :: bool
  rx_protocol :: string
  rx_address :: "16 word"
  rx_command :: "16 word"

record ir_env =
  ie_cancel :: "nat \<Rightarrow> bool"
  ie_draw :: "nat \<Rightarrow> nat" \<comment> \<open>the distributions' values\<close>
  ie_answer :: "nat \<Rightarrow> bool \<times> string" \<comment> \<open>available or success, and the message\<close>
  ie_poll :: "nat \<Rightarrow> ir_received"
  ie_lapse :: "nat \<Rightarrow> nat" \<comment> \<open>nanoseconds\<close>

text \<open>The calls that reach the hardware.\<close>

datatype ir_event =
    IrSend "16 word" "16 word" bool
  | IrListen bool
  | IrPoll ir_received

record ir_fixture =
  ix_snapshot :: ir_snapshot
  ix_cancel_requested :: bool
  ix_now :: nat
  ix_steps :: nat
  ix_trace :: "ir_event list"

type_synonym 'a ir_act = "(ir_fixture, 'a) state"

definition ir_tx_item :: nat where "ir_tx_item = 0"
definition ir_rx_item :: nat where "ir_rx_item = 1"
definition tx_packet_count :: nat where "tx_packet_count = 4"
definition rx_packet_count :: nat where "rx_packet_count = 5"
definition fixture_address :: "16 word" where "fixture_address = 0xED2F"

definition initial_ir_fixture :: ir_fixture where
  "initial_ir_fixture =
     \<lparr>ix_snapshot = \<lparr>is_state = IR_WAITING,
        is_items = [\<lparr>ii_name = ''IR TX'', ii_state = II_PENDING, ii_detail = ''Waiting''\<rparr>,
                    \<lparr>ii_name = ''IR RX'', ii_state = II_PENDING, ii_detail = ''Waiting''\<rparr>],
        is_headline = ''Prepare IR fixture, then press Enter'', is_error_message = [],
        is_revision = 0\<rparr>,
      ix_cancel_requested = False, ix_now = 0, ix_steps = 0, ix_trace = []\<rparr>"

subsection \<open>Interactions\<close>

definition ir_interact :: "ir_env \<Rightarrow> nat ir_act" where
  "ir_interact e = State (\<lambda>w.
     (ix_steps w,
      w\<lparr>ix_steps := Suc (ix_steps w), ix_now := ix_now w + ie_lapse e (ix_steps w),
        ix_cancel_requested := ix_cancel_requested w \<or> ie_cancel e (ix_steps w)\<rparr>))"

definition ir_canceled :: "ir_env \<Rightarrow> bool ir_act" where
  "ir_canceled e = do { ir_interact e; ask ix_cancel_requested }"

definition ir_now :: "ir_env \<Rightarrow> nat ir_act" where
  "ir_now e = do { ir_interact e; ask ix_now }"

definition ir_sleep :: "nat \<Rightarrow> unit ir_act" where
  "ir_sleep milliseconds = upd (\<lambda>w. w\<lparr>ix_now := ix_now w + milliseconds * 1000000\<rparr>)"

definition ir_record :: "ir_event \<Rightarrow> unit ir_act" where
  "ir_record ev = upd (\<lambda>w. w\<lparr>ix_trace := ix_trace w @ [ev]\<rparr>)"

definition ir_ask_service :: "ir_env \<Rightarrow> (bool \<times> string) ir_act" where
  "ir_ask_service e = do { k \<leftarrow> ir_interact e; ret (ie_answer e k) }"

definition ir_on_snapshot :: "(ir_snapshot \<Rightarrow> ir_snapshot) \<Rightarrow> unit ir_act" where
  "ir_on_snapshot f = upd (\<lambda>w. w\<lparr>ix_snapshot :=
     (f (ix_snapshot w))\<lparr>is_revision := is_revision (ix_snapshot w) + 1\<rparr>\<rparr>)"

definition set_item :: "nat \<Rightarrow> (ir_item \<Rightarrow> ir_item) \<Rightarrow> ir_snapshot \<Rightarrow> ir_snapshot" where
  "set_item i f s = s\<lparr>is_items := (is_items s)[i := f (is_items s ! i)]\<rparr>"

subsection \<open>Texts and frames\<close>

definition hex_word :: "16 word \<Rightarrow> string" where
  "hex_word v = ''0x'' @ map (\<lambda>i. hex_char (unat (drop_bit (4 * i) v) mod 16)) [3, 2, 1, 0]"

definition good_address :: "16 word \<Rightarrow> bool" where
  "good_address address \<longleftrightarrow>
     (let low = ucast address :: 8 word; high = ucast (drop_bit 8 address) :: 8 word in
      address \<noteq> fixture_address \<and> xor low high \<noteq> 0xFF)"

text \<open>
  \<open>random_dut_address\<close> draws until an address is acceptable; nothing bounds the number of
  draws, so the result is \<open>None\<close> where the draws never end.
\<close>

partial_function (option) random_dut_address :: "(nat \<Rightarrow> nat) \<Rightarrow> nat \<Rightarrow> (16 word \<times> nat) option" where
  "random_dut_address draw k =
     (let address = word_of_nat (draw k) :: 16 word in
      if good_address address then Some (address, Suc k) else random_dut_address draw (Suc k))"

declare random_dut_address.simps [code]

definition random_commands :: "(nat \<Rightarrow> nat) \<Rightarrow> nat \<Rightarrow> 16 word list" where
  "random_commands draw k =
     map (\<lambda>i. push_bit 8 (word_of_nat (draw (k + i)))) [0..<tx_packet_count]"

definition expected_fixture_command :: "nat \<Rightarrow> 16 word" where
  "expected_fixture_command i = 0x00F1 + word_of_nat i"

definition tx_progress_text :: "nat \<Rightarrow> string" where
  "tx_progress_text i =
     (if i < tx_packet_count then ''Sending random frame '' @ nat_text (i + 1) @ ''/4''
      else ''Sending random NEC32 frames'')"

definition rx_progress_text :: "nat \<Rightarrow> string" where
  "rx_progress_text count =
     (if count = 0 then ''Waiting for fixture reply''
      else ''Verified fixture reply '' @ nat_text (min count rx_packet_count) @ ''/5'')"

definition ir_item_state_text :: "ir_item_state \<Rightarrow> string" where
  "ir_item_state_text s = (case s of
     II_RUNNING \<Rightarrow> ''RUN'' | II_PASSED \<Rightarrow> ''PASS'' | II_FAILED \<Rightarrow> ''FAIL'' | II_PENDING \<Rightarrow> ''WAIT'')"

subsection \<open>delay_ and fail_\<close>

function ir_delay_loop :: "ir_env \<Rightarrow> nat \<Rightarrow> nat \<Rightarrow> ir_fixture \<Rightarrow> ir_fixture" where
  "ir_delay_loop e milliseconds elapsed w =
     (if elapsed < milliseconds then
        (let (canceled, w1) = run_state (ir_canceled e) w in
         if canceled then w1
         else (let slice = min 10 (milliseconds - elapsed) in
               ir_delay_loop e milliseconds (elapsed + slice) (snd (run_state (ir_sleep slice) w1))))
      else w)"
  by auto
termination
  by (relation "measure (\<lambda>(e, milliseconds, elapsed, w). milliseconds - elapsed)") auto

declare ir_delay_loop.simps [simp del]

definition ir_delay :: "ir_env \<Rightarrow> nat \<Rightarrow> bool ir_act" where
  "ir_delay e milliseconds = do {
     State (\<lambda>w. ((), ir_delay_loop e milliseconds 0 w));
     canceled \<leftarrow> ir_canceled e;
     ret (\<not> canceled) }"

definition give_up_running :: "ir_item \<Rightarrow> ir_item" where
  "give_up_running it =
     (if ii_state it = II_RUNNING
      then it\<lparr>ii_state := II_FAILED, ii_detail := ''Fixture acknowledgement not verified''\<rparr> else it)"

definition ir_fail :: "nat \<Rightarrow> string \<Rightarrow> unit ir_act" where
  "ir_fail i message = ir_on_snapshot (\<lambda>s.
     (let items = map give_up_running (is_items s) in
      s\<lparr>is_items := (if i < length items
                     then items[i := (items ! i)\<lparr>ii_state := II_FAILED, ii_detail := message\<rparr>] else items),
        is_state := IR_FAILED, is_headline := ''IR fixture test failed'', is_error_message := message\<rparr>))"

definition or_else :: "string \<Rightarrow> string \<Rightarrow> string" where
  "or_else message fallback = (if message = [] then fallback else message)"

subsection \<open>Time\<close>

text \<open>The clock never goes back, and a delay that was not canceled lasts its full time.\<close>

lemma run_state_ir_canceled:
  "run_state (ir_canceled e) w =
     (let w1 = w\<lparr>ix_steps := Suc (ix_steps w), ix_now := ix_now w + ie_lapse e (ix_steps w),
        ix_cancel_requested := ix_cancel_requested w \<or> ie_cancel e (ix_steps w)\<rparr>
      in (ix_cancel_requested w1, w1))"
  by (simp add: ir_canceled_def ir_interact_def ask_def)

lemma ir_delay_loop_steady: "ix_now w \<le> ix_now (ir_delay_loop e n k w)"
proof (induction e n k w rule: ir_delay_loop.induct)
  case (1 e n k w)
  note IH = "1.IH" [OF _ refl]
  show ?case
    using IH [of "fst (run_state (ir_canceled e) w)" "snd (run_state (ir_canceled e) w)"]
    by (subst ir_delay_loop.simps)
      (auto simp: run_state_ir_canceled Let_def ir_sleep_def upd_def)
qed

lemma ir_delay_loop_full:
  "\<not> ix_cancel_requested (ir_delay_loop e n k w) \<Longrightarrow>
     ix_now w + (n - k) * 1000000 \<le> ix_now (ir_delay_loop e n k w)"
proof (induction e n k w rule: ir_delay_loop.induct)
  case (1 e n k w)
  note IH = "1.IH" [OF _ refl]
  show ?case
    using "1.prems" IH [of "fst (run_state (ir_canceled e) w)" "snd (run_state (ir_canceled e) w)"]
    by (subst ir_delay_loop.simps, subst (asm) ir_delay_loop.simps)
      (auto simp: run_state_ir_canceled Let_def ir_sleep_def upd_def min_def algebra_simps
        split: if_splits)
qed

lemma ir_delay_moves_clock:
  assumes "run_state (ir_delay e n) w = (True, w')"
  shows "ix_now w + n * 1000000 \<le> ix_now w'"
proof -
  let ?w = "ir_delay_loop e n 0 w"
  have "\<not> ix_cancel_requested ?w" "ix_now ?w \<le> ix_now w'"
    using assms by (auto simp: ir_delay_def run_state_ir_canceled Let_def ret_def)
  then show ?thesis using ir_delay_loop_full [of e n 0 w] by simp
qed

subsection \<open>run_: the transmitter\<close>

fun ir_send_all :: "ir_env \<Rightarrow> 16 word \<Rightarrow> nat \<Rightarrow> 16 word list \<Rightarrow> bool ir_act" where
  "ir_send_all e address i [] = ret True"
| "ir_send_all e address i (command # commands) = do {
     canceled \<leftarrow> ir_canceled e;
     if canceled then ret True
     else do {
       ir_on_snapshot (\<lambda>s.
         (set_item ir_tx_item (\<lambda>it. it\<lparr>ii_detail := tx_progress_text i\<rparr>) s)
           \<lparr>is_headline := ''Sending random NEC32 frames''\<rparr>);
       (success, message) \<leftarrow> ir_ask_service e;
       ir_record (IrSend address command success);
       if \<not> success then do {
         ir_fail ir_tx_item (or_else message ''IR frame send failed'');
         ret False }
       else do {
         ir_now e;
         if commands = [] then ir_send_all e address (i + 1) commands
         else do {
           full \<leftarrow> ir_delay e 250;
           if full then ir_send_all e address (i + 1) commands else ret True } } } }"

subsection \<open>run_: the receiver\<close>

text \<open>
  The loop that verifies the replies: \<open>None\<close> where it failed and returned, otherwise the
  number of replies verified when it ended. It ends because every pass verifies a reply or
  moves the clock.
\<close>

definition poll_receiver :: "ir_env \<Rightarrow> ir_received ir_act" where
  "poll_receiver e = do {
     k \<leftarrow> ir_interact e;
     ir_record (IrPoll (ie_poll e k));
     ret (ie_poll e k) }"

definition verify_reply :: "ir_received \<Rightarrow> nat \<Rightarrow> nat option ir_act" where
  "verify_reply received received_count =
     (if rx_data_changed received \<and> rx_address_matched received then
        (let expected = expected_fixture_command received_count in
         if rx_protocol received \<noteq> ''NEC32'' then do {
           ir_fail ir_rx_item (''Reply '' @ nat_text (received_count + 1) @ '' expected NEC32, got '' @
             or_else (rx_protocol received) ''unknown protocol'');
           ret None }
         else if rx_command received \<noteq> expected then do {
           ir_fail ir_rx_item (''Reply '' @ nat_text (received_count + 1) @ '' expected '' @
             hex_word expected @ '', got '' @ hex_word (rx_command received));
           ret None }
         else do {
           ir_on_snapshot (set_item ir_rx_item
             (\<lambda>it. it\<lparr>ii_detail := rx_progress_text (received_count + 1)\<rparr>));
           ret (Some (received_count + 1)) })
      else ret (Some received_count))"

lemma verify_reply_progress:
  "run_state (verify_reply received n) w = (Some m, w') \<Longrightarrow> m = Suc n \<or> (m = n \<and> w' = w)"
  by (auto simp: verify_reply_def Let_def ret_def case_prod_unfold split: if_splits)

lemma poll_receiver_steady: "run_state (poll_receiver e) w = (r, w') \<Longrightarrow> ix_now w \<le> ix_now w'"
  by (auto simp: poll_receiver_def ir_interact_def ir_record_def upd_def ret_def)

function receive_replies :: "ir_env \<Rightarrow> nat \<Rightarrow> nat \<Rightarrow> ir_fixture \<Rightarrow> nat option \<times> ir_fixture" where
  "receive_replies e deadline received_count w =
     (let (canceled, w1) = run_state (ir_canceled e) w in
      if canceled then (Some received_count, w1)
      else let (now, w2) = run_state (ir_now e) w1 in
      if deadline \<le> now then (Some received_count, w2)
      else if rx_packet_count \<le> received_count then (Some received_count, w2)
      else let (received, w3) = run_state (poll_receiver e) w2;
               (verified, w4) = run_state (verify_reply received received_count) w3 in
      case verified of
        None \<Rightarrow> (None, w4)
      | Some count \<Rightarrow>
          if count < rx_packet_count then
            (let (full, w5) = run_state (ir_delay e 20) w4 in
             if full then receive_replies e deadline count w5 else (Some count, w5))
          else receive_replies e deadline count w4)"
  by auto
termination
proof (relation "measures [\<lambda>(e, deadline, n, w). rx_packet_count - n, \<lambda>(e, deadline, n, w). deadline - ix_now w]",
    goal_cases)
  case (2 e deadline n w p c w1 q now w2 x3 received w3 x4 verified w4 count x5 full w5)
  have "ix_now w \<le> ix_now w1" using 2 by (auto simp: run_state_ir_canceled Let_def)
  moreover have "ix_now w1 \<le> ix_now w2" "now = ix_now w2"
    using 2 by (auto simp: ir_now_def ir_interact_def ask_def)
  moreover have "ix_now w2 \<le> ix_now w3" using 2 poll_receiver_steady by metis
  moreover have "ix_now w4 < ix_now w5" using 2 ir_delay_moves_clock [of e 20 w4 w5] by auto
  moreover have "count = Suc n \<or> (count = n \<and> w4 = w3)" using 2 verify_reply_progress by metis
  ultimately show ?case using 2 by auto
next
  case (3 e deadline n w p c w1 q now w2 x3 received w3 x4 verified w4 count)
  have "count = Suc n \<or> (count = n \<and> w4 = w3)" using 3 verify_reply_progress by metis
  then show ?case using 3 by auto
qed auto

declare receive_replies.simps [simp del]

subsection \<open>run_, start and cancel\<close>

definition ir_publish_canceled :: "unit ir_act" where
  "ir_publish_canceled = ir_on_snapshot (\<lambda>s.
     s\<lparr>is_state := IR_CANCELED, is_headline := ''IR fixture test canceled''\<rparr>)"

definition ir_publish_receiving :: "unit ir_act" where
  "ir_publish_receiving = ir_on_snapshot (\<lambda>s.
     (set_item ir_rx_item (\<lambda>it. it\<lparr>ii_state := II_RUNNING, ii_detail := rx_progress_text 0\<rparr>)
       (set_item ir_tx_item (\<lambda>it. it\<lparr>ii_detail := ''4 frames sent; waiting for verified reply''\<rparr>) s))
     \<lparr>is_headline := ''Validating fixture response''\<rparr>)"

definition ir_publish_passed :: "unit ir_act" where
  "ir_publish_passed = ir_on_snapshot (\<lambda>s.
     (set_item ir_rx_item
       (\<lambda>it. it\<lparr>ii_state := II_PASSED, ii_detail := ''0xED2F: F1 F2 F3 F4 F5 verified''\<rparr>)
       (set_item ir_tx_item
         (\<lambda>it. it\<lparr>ii_state := II_PASSED, ii_detail := ''Fixture acknowledged all 4 frames''\<rparr>) s))
     \<lparr>is_state := IR_PASSED, is_headline := ''IR fixture test passed''\<rparr>)"

definition ir_receive_phase :: "ir_env \<Rightarrow> unit ir_act" where
  "ir_receive_phase e = do {
     (listening, message) \<leftarrow> ir_ask_service e;
     ir_record (IrListen listening);
     if \<not> listening then ir_fail ir_rx_item (or_else message ''IR receiver unavailable'')
     else do {
       ir_now e;
       ir_publish_receiving;
       t \<leftarrow> ir_now e;
       verified \<leftarrow> State (receive_replies e (t + 3500 * 1000000) 0);
       (case verified of
          None \<Rightarrow> ret ()
        | Some received_count \<Rightarrow> do {
            canceled \<leftarrow> ir_canceled e;
            if canceled then ir_publish_canceled
            else if received_count \<noteq> rx_packet_count then
              ir_fail ir_rx_item (''Fixture reply timed out: '' @ nat_text received_count @ ''/5 received'')
            else ir_publish_passed }) } }"

definition ir_sequence :: "ir_env \<Rightarrow> 16 word \<Rightarrow> 16 word list \<Rightarrow> unit ir_act" where
  "ir_sequence e dut_address commands = do {
     (sender, message) \<leftarrow> ir_ask_service e;
     if \<not> sender then ir_fail ir_tx_item (or_else message ''IR transmitter unavailable'')
     else do {
       (receiver, message) \<leftarrow> ir_ask_service e;
       if \<not> receiver then ir_fail ir_rx_item (or_else message ''IR receiver unavailable'')
       else do {
         sent \<leftarrow> ir_send_all e dut_address 0 commands;
         if \<not> sent then ret ()
         else do {
           canceled \<leftarrow> ir_canceled e;
           if canceled then ir_publish_canceled else ir_receive_phase e } } } }"

text \<open>\<open>None\<close> where \<open>random_dut_address\<close> finds no address.\<close>

definition run_ir :: "ir_env \<Rightarrow> ir_fixture \<Rightarrow> ir_fixture option" where
  "run_ir e w = (case random_dut_address (ie_draw e) 0 of
     None \<Rightarrow> None
   | Some (dut_address, k) \<Rightarrow>
       Some (snd (run_state (ir_sequence e dut_address (random_commands (ie_draw e) k)) w)))"

text \<open>\<open>cancel ()\<close> sets the flag and waits for the worker, which \<open>start ()\<close> does first.\<close>

definition cancel_ir :: "ir_fixture \<Rightarrow> ir_fixture" where
  "cancel_ir w = w\<lparr>ix_cancel_requested := True\<rparr>"

definition reset_ir :: "ir_fixture \<Rightarrow> ir_fixture" where
  "reset_ir w = snd (run_state (ir_on_snapshot (\<lambda>s.
     s\<lparr>is_state := IR_RUNNING, is_headline := ''Checking IR transmitter and receiver'',
       is_error_message := [],
       is_items := [\<lparr>ii_name = ''IR TX'', ii_state = II_RUNNING, ii_detail = ''Preparing random frames''\<rparr>,
                    \<lparr>ii_name = ''IR RX'', ii_state = II_PENDING, ii_detail = ''Waiting for fixture''\<rparr>]\<rparr>))
     (w\<lparr>ix_cancel_requested := False\<rparr>))"

definition start_ir :: "ir_env \<Rightarrow> ir_fixture \<Rightarrow> ir_fixture option" where
  "start_ir e w = run_ir e (reset_ir (cancel_ir w))"

end
