(* ===== verification/Device.thy ===== *)
theory Device
  imports Main
begin

section \<open>Device: the product models\<close>

text \<open>
  The product model of src/src/platform/device_info_service.cpp, which the pre-inspection and the
  test sequence ask for. How the model is detected (the device tree) is not modelled; it is a
  component of the environments.
\<close>

datatype product_model = CARDPUTER_ZERO | CARDPUTER_ZERO_LITE

definition product_model_name :: "product_model \<Rightarrow> string" where
  "product_model_name m = (case m of
     CARDPUTER_ZERO \<Rightarrow> ''CardputerZero'' | CARDPUTER_ZERO_LITE \<Rightarrow> ''CardputerZero Lite'')"

definition product_model_sku :: "product_model \<Rightarrow> string" where
  "product_model_sku m = (case m of CARDPUTER_ZERO \<Rightarrow> ''C154'' | CARDPUTER_ZERO_LITE \<Rightarrow> ''C155'')"

end
