(* ===== verification/Precheck.thy ===== *)
theory Precheck
  imports CapFixture IrFixture Device Numbers
begin

section \<open>Precheck: the automatic pre-inspection\<close>

text \<open>
  The class \<open>PrecheckModel\<close> of src/src/factory_precheck/precheck_model.cpp: a worker that takes
  the device through fourteen checks and keeps the counts the view shows. The CAP and IR
  checks run the models of CapFixture and IrFixture and mirror their snapshots. The members and
  the steady clock are one record; every service call, look at the clock or at the cancel flag
  and every poll of a fixture model is a numbered interaction that \<open>precheck_env\<close> answers, and a
  request to cancel may come before each. The polling loops have no bound of their own, so a
  run has the result \<open>None\<close> where a fixture model never ends. Log output is not modelled.
\<close>

subsection \<open>Texts\<close>

text \<open>The texts shown are Chinese, kept as UTF-8; \<open>utf8\<close> encodes code points below 2 ^ 16.\<close>

definition utf8_char :: "nat \<Rightarrow> string" where
  "utf8_char c =
     (if c < 0x80 then [char_of c]
      else if c < 0x800 then [char_of (0xC0 + c div 64), char_of (0x80 + c mod 64)]
      else [char_of (0xE0 + c div 4096), char_of (0x80 + c div 64 mod 64), char_of (0x80 + c mod 64)])"

definition utf8 :: "nat list \<Rightarrow> string" where
  "utf8 cs = concat (map utf8_char cs)"

definition zh_waiting :: string where "zh_waiting = utf8 [0x7B49, 0x5F85]" \<comment> \<open>waiting\<close>
definition zh_checking :: string where "zh_checking = utf8 [0x68C0, 0x6D4B, 0x4E2D]" \<comment> \<open>checking\<close>
definition zh_passed :: string where "zh_passed = utf8 [0x901A, 0x8FC7]" \<comment> \<open>passed\<close>
definition zh_failed :: string where "zh_failed = utf8 [0x5931, 0x8D25]" \<comment> \<open>failed\<close>
definition zh_canceled :: string where "zh_canceled = utf8 [0x5DF2, 0x53D6, 0x6D88]" \<comment> \<open>canceled\<close>
definition zh_check_canceled :: string where "zh_check_canceled = utf8 [0x521D, 0x68C0, 0x5DF2, 0x53D6, 0x6D88]" \<comment> \<open>the pre-inspection was canceled\<close>
definition zh_unsupported :: string where "zh_unsupported = utf8 [0x673A, 0x578B, 0x4E0D, 0x652F, 0x6301]" \<comment> \<open>not supported by the model\<close>
definition zh_retry :: string where "zh_retry = utf8 [0x7B49, 0x5F85, 0x91CD, 0x8BD5]" \<comment> \<open>waiting for the retry\<close>
definition zh_all_passed :: string where "zh_all_passed = utf8 [0x81EA, 0x52A8, 0x521D, 0x68C0, 0x901A, 0x8FC7]" \<comment> \<open>passed\<close>
definition zh_some_failed :: string where "zh_some_failed = utf8 [0x81EA, 0x52A8, 0x521D, 0x68C0, 0x5931, 0x8D25]" \<comment> \<open>failed\<close>
definition zh_press_enter :: string where "zh_press_enter = utf8 [0x6309, 0x20, 0x45, 0x6E, 0x74, 0x65, 0x72, 0x20, 0x5F00, 0x59CB, 0x81EA, 0x52A8, 0x521D, 0x68C0]" \<comment> \<open>press Enter to start\<close>
definition zh_running :: string where "zh_running = utf8 [0x6B63, 0x5728, 0x6267, 0x884C, 0x81EA, 0x52A8, 0x521D, 0x68C0]" \<comment> \<open>running\<close>
definition zh_retrying :: string where "zh_retrying = utf8 [0x6B63, 0x5728, 0x91CD, 0x8BD5, 0x5931, 0x8D25, 0x9879, 0x76EE]" \<comment> \<open>retrying the failed items\<close>
definition zh_poweroff_failed :: string where "zh_poweroff_failed = utf8 [0x5173, 0x673A, 0x5931, 0x8D25, 0x3A, 0x20]" \<comment> \<open>power-off failed\<close>
definition zh_reboot_failed :: string where "zh_reboot_failed = utf8 [0x91CD, 0x542F, 0x5931, 0x8D25, 0x3A, 0x20]" \<comment> \<open>reboot failed\<close>
definition zh_no_frame_canceled :: string where "zh_no_frame_canceled = utf8 [0x76F8, 0x673A, 0x68C0, 0x6D4B, 0x5DF2, 0x53D6, 0x6D88]" \<comment> \<open>camera check canceled\<close>
definition zh_no_frame :: string where "zh_no_frame = utf8 [0x7B49, 0x5F85, 0x76F8, 0x673A, 0x9996, 0x5E27, 0x8D85, 0x65F6]" \<comment> \<open>no first frame in time\<close>

subsection \<open>Data (precheck_model.h)\<close>

datatype pc_run_state = PR_IDLE | PR_RUNNING | PR_PASSED | PR_FAILED | PR_CANCELED
datatype check_state = PC_PENDING | PC_RUNNING | PC_PASSED | PC_FAILED | PC_CANCELED | PC_SKIPPED

record cap_sub_item =
  su_name :: string
  su_state :: check_state
  su_detail :: string

type_synonym ir_sub_item = cap_sub_item

record check_item =
  ck_id :: string
  ck_name :: string
  ck_state :: check_state
  ck_detail :: string
  ck_cap_sub_items :: "cap_sub_item list"
  ck_ir_sub_items :: "ir_sub_item list"

record pc_snapshot =
  ps_state :: pc_run_state
  ps_current_index :: nat
  ps_completed :: "64 word"
  ps_passed :: "64 word"
  ps_failed :: "64 word"
  ps_device_name :: string
  ps_serial_number :: string
  ps_headline :: string
  ps_items :: "check_item list"

text \<open>The parts of the service answers (connectivity_types.h, power_service.h) the checks read.\<close>

record hdmi_info =
  hd_status :: string
  hd_connected :: bool

record ethernet_info =
  eth_interface_name :: string
  eth_state :: string
  eth_ip4_address :: string
  eth_connected :: bool

record usb_port_device =
  ud_bus :: nat
  ud_port_path :: string
  ud_vid :: string
  ud_pid :: string
  ud_name :: string

record power_supply_info =
  pw_status :: string
  pw_capacity_percent :: int
  pw_voltage_now_uv :: int
  pw_current_now_ua :: int

text \<open>An answer that comes with a text has the value of \<open>error\<close> after the call.\<close>

record precheck_env =
  pe_product :: product_model
  pe_serial :: string
  pe_cancel :: "nat \<Rightarrow> bool"
  pe_lapse :: "nat \<Rightarrow> nat" \<comment> \<open>nanoseconds\<close>
  pe_device_fields :: "nat \<Rightarrow> nat" \<comment> \<open>how many\<close>
  pe_hdmi :: "nat \<Rightarrow> hdmi_info \<times> string"
  pe_usb :: "nat \<Rightarrow> usb_port_device list \<times> string"
  pe_ethernet :: "nat \<Rightarrow> ethernet_info \<times> string"
  pe_battery :: "nat \<Rightarrow> (bool \<times> power_supply_info) \<times> string"
  pe_call :: "nat \<Rightarrow> bool \<times> string" \<comment> \<open>audio, camera, IMU and power calls\<close>
  pe_frame :: "nat \<Rightarrow> (int \<times> int) option"
  pe_motion :: "nat \<Rightarrow> (bool \<times> dbl \<times> dbl) \<times> string"
  pe_cap :: "nat \<Rightarrow> fixture_snapshot"
  pe_ir :: "nat \<Rightarrow> ir_snapshot"

record precheck =
  pc_snapshot :: pc_snapshot
  pc_cancel_requested :: bool
  pc_now :: nat
  pc_steps :: nat

type_synonym 'a pc_act = "(precheck, 'a) state"

definition device_info_item :: nat where "device_info_item = 0"
definition usb_a_item :: nat where "usb_a_item = 1"
definition usb_c_item :: nat where "usb_c_item = 2"
definition hdmi_item :: nat where "hdmi_item = 3"
definition cap_fixture_item :: nat where "cap_fixture_item = 4"
definition ir_fixture_item :: nat where "ir_fixture_item = 5"
definition ethernet_item :: nat where "ethernet_item = 6"
definition battery_status_item :: nat where "battery_status_item = 7"
definition battery_level_item :: nat where "battery_level_item = 8"
definition battery_voltage_item :: nat where "battery_voltage_item = 9"
definition battery_current_item :: nat where "battery_current_item = 10"
definition audio_item :: nat where "audio_item = 11"
definition camera_item :: nat where "camera_item = 12"
definition imu_item :: nat where "imu_item = 13"

lemmas item_index_defs = device_info_item_def usb_a_item_def usb_c_item_def hdmi_item_def
  cap_fixture_item_def ir_fixture_item_def ethernet_item_def battery_status_item_def
  battery_level_item_def battery_voltage_item_def battery_current_item_def audio_item_def
  camera_item_def imu_item_def

definition make_cap_fixture_sub_items :: "cap_sub_item list" where
  "make_cap_fixture_sub_items =
     map (\<lambda>n. \<lparr>su_name = n, su_state = PC_PENDING, su_detail = zh_waiting\<rparr>)
       [''Power'', ''I2C'', ''Grove I2C'', ''UART'', ''Grove UART'', ''SPI'', ''USB'', ''GPIO'']"

definition make_ir_fixture_sub_items :: "ir_sub_item list" where
  "make_ir_fixture_sub_items =
     map (\<lambda>n. \<lparr>su_name = n, su_state = PC_PENDING, su_detail = zh_waiting\<rparr>) [''IR TX'', ''IR RX'']"

definition make_item :: "string \<Rightarrow> string \<Rightarrow> check_item" where
  "make_item i n = \<lparr>ck_id = i, ck_name = n, ck_state = PC_PENDING, ck_detail = zh_waiting,
     ck_cap_sub_items = [], ck_ir_sub_items = []\<rparr>"

definition make_items :: "check_item list" where
  "make_items =
     [make_item ''device_info'' (utf8 [0x8BBE, 0x5907, 0x4FE1, 0x606F]),
      make_item ''usb_a'' (utf8 [0x5DE6, 0x4FA7, 0x20, 0x55, 0x53, 0x42, 0x2D, 0x41]),
      make_item ''usb_c'' (utf8 [0x5DE6, 0x4FA7, 0x20, 0x55, 0x53, 0x42, 0x2D, 0x43]),
      make_item ''hdmi'' (utf8 [0x48, 0x44, 0x4D, 0x49, 0x20, 0x72B6, 0x6001]),
      (make_item ''cap_fixture'' (utf8 [0x43, 0x41, 0x50, 0x20, 0x6CBB, 0x5177, 0x68C0, 0x6D4B]))\<lparr>ck_cap_sub_items := make_cap_fixture_sub_items\<rparr>,
      (make_item ''ir_fixture'' (utf8 [0x49, 0x52, 0x20, 0x6CBB, 0x5177, 0x68C0, 0x6D4B]))\<lparr>ck_ir_sub_items := make_ir_fixture_sub_items\<rparr>,
      make_item ''ethernet'' (utf8 [0x4EE5, 0x592A, 0x7F51]),
      make_item ''battery_status'' (utf8 [0x7535, 0x6C60, 0x5145, 0x7535, 0x72B6, 0x6001]),
      make_item ''battery_level'' (utf8 [0x7535, 0x6C60, 0x7535, 0x91CF]),
      make_item ''battery_voltage'' (utf8 [0x7535, 0x6C60, 0x7535, 0x538B]),
      make_item ''battery_current'' (utf8 [0x7535, 0x6C60, 0x7535, 0x6D41]),
      make_item ''audio'' (utf8 [0x97F3, 0x9891, 0x5F55, 0x653E]),
      make_item ''camera'' (utf8 [0x76F8, 0x673A]),
      make_item ''imu'' ''IMU'']"

definition initial_precheck :: "precheck_env \<Rightarrow> precheck" where
  "initial_precheck e =
     \<lparr>pc_snapshot = \<lparr>ps_state = PR_IDLE, ps_current_index = 0, ps_completed = 0, ps_passed = 0,
        ps_failed = 0, ps_device_name = product_model_name (pe_product e),
        ps_serial_number = pe_serial e, ps_headline = zh_press_enter, ps_items = make_items\<rparr>,
      pc_cancel_requested = False, pc_now = 0, pc_steps = 0\<rparr>"

definition skip_camera_and_imu :: "precheck_env \<Rightarrow> bool" where
  "skip_camera_and_imu e \<longleftrightarrow> pe_product e = CARDPUTER_ZERO_LITE"

definition battery_status_text :: "string \<Rightarrow> string" where
  "battery_status_text status =
     (if status = ''Charging'' then utf8 [0x5145, 0x7535, 0x4E2D]
      else if status = ''Discharging'' then utf8 [0x653E, 0x7535, 0x4E2D]
      else if status = ''Full'' then utf8 [0x5DF2, 0x5145, 0x6EE1]
      else if status = ''Not charging'' then utf8 [0x672A, 0x5145, 0x7535]
      else if status = ''Unknown'' then utf8 [0x672A, 0x77E5]
      else if status = [] then utf8 [0x672A, 0x8BFB, 0x53D6, 0x5230, 0x5145, 0x7535, 0x72B6, 0x6001]
      else c_str status)"

definition pc_run_state_text :: "pc_run_state \<Rightarrow> string" where
  "pc_run_state_text s = (case s of
     PR_RUNNING \<Rightarrow> utf8 [0x8FD0, 0x884C, 0x4E2D]
   | PR_PASSED \<Rightarrow> utf8 [0x901A, 0x8FC7]
   | PR_FAILED \<Rightarrow> utf8 [0x5931, 0x8D25]
   | PR_CANCELED \<Rightarrow> utf8 [0x5DF2, 0x53D6, 0x6D88]
   | PR_IDLE \<Rightarrow> utf8 [0x5F85, 0x673A])"

definition check_state_text :: "check_state \<Rightarrow> string" where
  "check_state_text s = (case s of
     PC_RUNNING \<Rightarrow> utf8 [0x8FD0, 0x884C]
   | PC_PASSED \<Rightarrow> utf8 [0x901A, 0x8FC7]
   | PC_FAILED \<Rightarrow> utf8 [0x5931, 0x8D25]
   | PC_CANCELED \<Rightarrow> utf8 [0x53D6, 0x6D88]
   | PC_SKIPPED \<Rightarrow> utf8 [0x8DF3, 0x8FC7]
   | PC_PENDING \<Rightarrow> utf8 [0x7B49, 0x5F85])"

subsection \<open>Interactions\<close>

definition pc_interact :: "precheck_env \<Rightarrow> nat pc_act" where
  "pc_interact e = State (\<lambda>w.
     (pc_steps w,
      w\<lparr>pc_steps := Suc (pc_steps w), pc_now := pc_now w + pe_lapse e (pc_steps w),
        pc_cancel_requested := pc_cancel_requested w \<or> pe_cancel e (pc_steps w)\<rparr>))"

definition pc_canceled :: "precheck_env \<Rightarrow> bool pc_act" where
  "pc_canceled e = do { pc_interact e; ask pc_cancel_requested }"

definition pc_clock :: "precheck_env \<Rightarrow> nat pc_act" where
  "pc_clock e = do { pc_interact e; ask pc_now }"

definition pc_sleep :: "nat \<Rightarrow> unit pc_act" where
  "pc_sleep milliseconds = upd (\<lambda>w. w\<lparr>pc_now := pc_now w + milliseconds * 1000000\<rparr>)"

definition pc_query :: "precheck_env \<Rightarrow> (nat \<Rightarrow> 'a) \<Rightarrow> 'a pc_act" where
  "pc_query e answer = do { k \<leftarrow> pc_interact e; ret (answer k) }"

definition pc_on_snapshot :: "(pc_snapshot \<Rightarrow> pc_snapshot) \<Rightarrow> unit pc_act" where
  "pc_on_snapshot f = upd (\<lambda>w. w\<lparr>pc_snapshot := f (pc_snapshot w)\<rparr>)"

definition on_item :: "nat \<Rightarrow> (check_item \<Rightarrow> check_item) \<Rightarrow> pc_snapshot \<Rightarrow> pc_snapshot" where
  "on_item i f s = s\<lparr>ps_items := (ps_items s)[i := f (ps_items s ! i)]\<rparr>"

definition pc_publish :: "pc_run_state \<Rightarrow> string \<Rightarrow> unit pc_act" where
  "pc_publish st headline = pc_on_snapshot (\<lambda>s. s\<lparr>ps_state := st, ps_headline := headline\<rparr>)"

definition report :: "nat \<Rightarrow> string \<Rightarrow> bool \<Rightarrow> bool pc_act" where
  "report i detail passed = do {
     pc_on_snapshot (on_item i (\<lambda>it. it\<lparr>ck_detail := detail\<rparr>));
     ret passed }"

subsection \<open>run_check_: the single checks\<close>

definition check_device_info :: "precheck_env \<Rightarrow> nat \<Rightarrow> bool pc_act" where
  "check_device_info e i = do {
     fields \<leftarrow> pc_query e (pe_device_fields e);
     report i (if fields = 0 then utf8 [0x672A, 0x8BFB, 0x53D6, 0x5230, 0x8BBE, 0x5907, 0x4FE1, 0x606F]
               else nat_text fields @ utf8 [0x20, 0x9879, 0x4FE1, 0x606F]) (fields \<noteq> 0) }"

definition check_hdmi :: "precheck_env \<Rightarrow> nat \<Rightarrow> bool pc_act" where
  "check_hdmi e i = do {
     (info, error) \<leftarrow> pc_query e (pe_hdmi e);
     report i (if error = [] then hd_status info else error) (error = [] \<and> hd_connected info) }"

definition is_usb_device_at_port :: "usb_port_device \<Rightarrow> nat \<Rightarrow> string \<Rightarrow> bool" where
  "is_usb_device_at_port d bus port_path \<longleftrightarrow> ud_bus d = bus \<and> ud_port_path d = port_path"

definition run_usb_port_check :: "precheck_env \<Rightarrow> nat \<Rightarrow> nat \<Rightarrow> string \<Rightarrow> bool pc_act" where
  "run_usb_port_check e i bus port_path = do {
     (devices, error) \<leftarrow> pc_query e (pe_usb e);
     if error \<noteq> [] then report i error False
     else case find (\<lambda>d. is_usb_device_at_port d bus port_path) devices of
       Some d \<Rightarrow> report i (or_else (ud_vid d) ''????'' @ '':'' @ or_else (ud_pid d) ''????'' @ '' '' @
           or_else (ud_name d) (utf8 [0x55, 0x53, 0x42, 0x20, 0x8BBE, 0x5907])) True
     | None \<Rightarrow> report i (utf8 [0x672A, 0x679A, 0x4E3E, 0x5230, 0x20, 0x42, 0x75, 0x73, 0x20] @
           nat_text bus @ '' Port '' @ port_path) False }"

definition ethernet_detail :: "ethernet_info \<Rightarrow> string \<Rightarrow> string \<times> bool" where
  "ethernet_detail info error =
     (if error \<noteq> [] then (error, False)
      else if eth_interface_name info = [] then
        (utf8 [0x672A, 0x627E, 0x5230, 0x4EE5, 0x592A, 0x7F51, 0x8BBE, 0x5907], False)
      else if \<not> eth_connected info then
        (if eth_state info = ''unavailable'' then utf8 [0x7F51, 0x7EBF, 0x672A, 0x63D2, 0x5165]
         else if eth_state info = ''disconnected'' then
           utf8 [0x7F51, 0x7EBF, 0x5DF2, 0x63D2, 0x5165, 0xFF0C, 0x672A, 0x83B7, 0x53D6, 0x5230, 0x20, 0x49, 0x50, 0x20, 0x5730, 0x5740]
         else utf8 [0x672A, 0x8FDE, 0x63A5, 0x3A, 0x20] @ eth_state info, False)
      else if eth_ip4_address info = [] then
        (utf8 [0x5DF2, 0x8FDE, 0x63A5, 0xFF0C, 0x672A, 0x83B7, 0x53D6, 0x5230, 0x20, 0x49, 0x50, 0x20, 0x5730, 0x5740], False)
      else (eth_interface_name info @ '' '' @ eth_ip4_address info, True))"

definition check_ethernet :: "precheck_env \<Rightarrow> nat \<Rightarrow> bool pc_act" where
  "check_ethernet e i = do {
     (info, error) \<leftarrow> pc_query e (pe_ethernet e);
     (case ethernet_detail info error of (detail, passed) \<Rightarrow> report i detail passed) }"

definition check_battery_status :: "precheck_env \<Rightarrow> nat \<Rightarrow> bool pc_act" where
  "check_battery_status e i = do {
     ((read_ok, info), error) \<leftarrow> pc_query e (pe_battery e);
     report i (if read_ok then battery_status_text (pw_status info)
               else or_else error (utf8 [0x672A, 0x8BFB, 0x53D6, 0x5230, 0x7535, 0x6C60, 0x4FE1, 0x606F]))
       (read_ok \<and> pw_status info \<noteq> []) }"

definition check_battery_level :: "precheck_env \<Rightarrow> nat \<Rightarrow> bool pc_act" where
  "check_battery_level e i = do {
     ((read_ok, info), error) \<leftarrow> pc_query e (pe_battery e);
     (let ok = read_ok \<and> 0 \<le> pw_capacity_percent info in
      report i (if ok then int_text (pw_capacity_percent info) @ ''%''
                else or_else error (utf8 [0x672A, 0x8BFB, 0x53D6, 0x5230, 0x7535, 0x91CF])) ok) }"

text \<open>C++ division rounds towards zero.\<close>

definition quot_1000 :: "int \<Rightarrow> int" where
  "quot_1000 v = (if v < 0 then - (- v div 1000) else v div 1000)"

definition check_battery_voltage :: "precheck_env \<Rightarrow> nat \<Rightarrow> bool pc_act" where
  "check_battery_voltage e i = do {
     ((read_ok, info), error) \<leftarrow> pc_query e (pe_battery e);
     (let ok = read_ok \<and> 0 < pw_voltage_now_uv info in
      report i (if ok then int_text (quot_1000 (pw_voltage_now_uv info)) @ '' mV''
                else or_else error (utf8 [0x672A, 0x8BFB, 0x53D6, 0x5230, 0x7535, 0x538B])) ok) }"

definition check_battery_current :: "precheck_env \<Rightarrow> nat \<Rightarrow> bool pc_act" where
  "check_battery_current e i = do {
     ((read_ok, info), error) \<leftarrow> pc_query e (pe_battery e);
     (let ok = read_ok \<and> pw_current_now_ua info \<noteq> -1 in
      report i (if ok then int_text (quot_1000 (pw_current_now_ua info)) @ '' mA''
                else or_else error (utf8 [0x672A, 0x8BFB, 0x53D6, 0x5230, 0x7535, 0x6D41])) ok) }"

definition check_audio :: "precheck_env \<Rightarrow> nat \<Rightarrow> bool pc_act" where
  "check_audio e i = do {
     (found, error) \<leftarrow> pc_query e (pe_call e);
     recorded \<leftarrow> (if found then do { (ok, _) \<leftarrow> pc_query e (pe_call e); ret ok } else ret False);
     passed \<leftarrow> (if recorded then do { (ok, _) \<leftarrow> pc_query e (pe_call e); ret ok } else ret False);
     report i (if passed then utf8 [0x5F55, 0x97F3, 0x2F, 0x64AD, 0x653E, 0x901A, 0x8FC7]
               else or_else error (utf8 [0x5F55, 0x97F3, 0x6216, 0x64AD, 0x653E, 0x5931, 0x8D25])) passed }"

text \<open>The wait for the first camera frame: every pass without one moves the clock.\<close>

function await_frame :: "precheck_env \<Rightarrow> nat \<Rightarrow> precheck \<Rightarrow> (int \<times> int) option \<times> precheck" where
  "await_frame e deadline w =
     (let (canceled, w1) = run_state (pc_canceled e) w in
      if canceled then (None, w1)
      else let (now, w2) = run_state (pc_clock e) w1 in
      if deadline \<le> now then (None, w2)
      else let (frame, w3) = run_state (pc_query e (pe_frame e)) w2 in
      case frame of
        Some wh \<Rightarrow> (Some wh, w3)
      | None \<Rightarrow> await_frame e deadline (snd (run_state (pc_sleep 20) w3)))"
  by auto
termination
  by (relation "measure (\<lambda>(e, deadline, w). deadline - pc_now w)")
    (auto simp: pc_canceled_def pc_clock_def pc_query_def pc_interact_def pc_sleep_def ask_def upd_def ret_def)

declare await_frame.simps [simp del]

definition check_camera :: "precheck_env \<Rightarrow> nat \<Rightarrow> bool pc_act" where
  "check_camera e i = do {
     (found, error) \<leftarrow> pc_query e (pe_call e);
     (started, error) \<leftarrow> (if found then pc_query e (pe_call e) else ret (False, error));
     (if started then do {
        t \<leftarrow> pc_clock e;
        frame \<leftarrow> State (await_frame e (t + 3000 * 1000000));
        (case frame of
           Some (width, height) \<Rightarrow> report i (int_text width @ ''x'' @ int_text height) True
         | None \<Rightarrow>
             if error \<noteq> [] then report i error False
             else do {
               canceled \<leftarrow> pc_canceled e;
               report i (if canceled then zh_no_frame_canceled else zh_no_frame) False }) }
      else report i (or_else error (utf8 [0x672A, 0x53D6, 0x5F97, 0x6709, 0x6548, 0x5E27])) False) }"

definition check_imu :: "precheck_env \<Rightarrow> nat \<Rightarrow> bool pc_act" where
  "check_imu e i = do {
     (found, error) \<leftarrow> pc_query e (pe_call e);
     (if found then do {
        ((read_ok, accel_x, gyro_x), error) \<leftarrow> pc_query e (pe_motion e);
        (let passed = read_ok \<and> dbl_finite accel_x \<and> dbl_finite gyro_x in
         report i (if passed then utf8 [0x8BFB, 0x53D6, 0x901A, 0x8FC7]
                   else or_else error (utf8 [0x8BFB, 0x53D6, 0x5931, 0x8D25])) passed) }
      else report i (or_else error (utf8 [0x8BFB, 0x53D6, 0x5931, 0x8D25])) False) }"

subsection \<open>The fixture checks\<close>

text \<open>
  Both fixture checks start a fresh model and poll its snapshot every 100 ms until it has
  ended or cancellation is requested; nothing else bounds the loop.
\<close>

definition cap_fixture_sub_state :: "item_state \<Rightarrow> check_state" where
  "cap_fixture_sub_state s = (case s of
     CI_RUNNING \<Rightarrow> PC_RUNNING | CI_PASSED \<Rightarrow> PC_PASSED | CI_FAILED \<Rightarrow> PC_FAILED | CI_PENDING \<Rightarrow> PC_PENDING)"

definition ir_fixture_sub_state :: "ir_item_state \<Rightarrow> check_state" where
  "ir_fixture_sub_state s = (case s of
     II_RUNNING \<Rightarrow> PC_RUNNING | II_PASSED \<Rightarrow> PC_PASSED | II_FAILED \<Rightarrow> PC_FAILED | II_PENDING \<Rightarrow> PC_PENDING)"

definition mirror_items :: "('a \<Rightarrow> cap_sub_item) \<Rightarrow> 'a list \<Rightarrow> cap_sub_item list \<Rightarrow> cap_sub_item list" where
  "mirror_items f items subs =
     (let count = min (length items) (length subs) in map f (take count items) @ drop count subs)"

definition cap_sub_of :: "item_snapshot \<Rightarrow> cap_sub_item" where
  "cap_sub_of it = \<lparr>su_name = it_name it, su_state = cap_fixture_sub_state (it_state it),
     su_detail = it_detail it\<rparr>"

definition ir_sub_of :: "ir_item \<Rightarrow> ir_sub_item" where
  "ir_sub_of it = \<lparr>su_name = ii_name it, su_state = ir_fixture_sub_state (ii_state it),
     su_detail = ii_detail it\<rparr>"

text \<open>One pass of each loop: the result where the check is over.\<close>

definition poll_cap_fixture :: "precheck_env \<Rightarrow> nat \<Rightarrow> bool option pc_act" where
  "poll_cap_fixture e i = do {
     canceled \<leftarrow> pc_canceled e;
     if canceled then ret (Some False)
     else do {
       fixture \<leftarrow> pc_query e (pe_cap e);
       pc_on_snapshot (on_item i (\<lambda>it.
         it\<lparr>ck_cap_sub_items := mirror_items cap_sub_of (fs_items fixture) (ck_cap_sub_items it)\<rparr>));
       (case fs_state fixture of
          CX_PASSED \<Rightarrow> do {
            passed \<leftarrow> report i (utf8 [0x38, 0x20, 0x9879, 0x5168, 0x90E8, 0x901A, 0x8FC7]) True;
            ret (Some passed) }
        | CX_FAILED \<Rightarrow> do {
            passed \<leftarrow> report i (or_else (fs_error_message fixture) (utf8 [0x68C0, 0x6D4B, 0x5931, 0x8D25])) False;
            ret (Some passed) }
        | CX_CANCELED \<Rightarrow> do {
            passed \<leftarrow> report i (or_else (fs_error_message fixture) (utf8 [0x68C0, 0x6D4B, 0x5931, 0x8D25])) False;
            ret (Some passed) }
        | _ \<Rightarrow> do { pc_sleep 100; ret None }) } }"

definition poll_ir_fixture :: "precheck_env \<Rightarrow> nat \<Rightarrow> bool option pc_act" where
  "poll_ir_fixture e i = do {
     canceled \<leftarrow> pc_canceled e;
     if canceled then ret (Some False)
     else do {
       fixture \<leftarrow> pc_query e (pe_ir e);
       pc_on_snapshot (on_item i (\<lambda>it.
         it\<lparr>ck_ir_sub_items := mirror_items ir_sub_of (is_items fixture) (ck_ir_sub_items it),
            ck_detail := is_headline fixture\<rparr>));
       (case is_state fixture of
          IR_PASSED \<Rightarrow> do {
            passed \<leftarrow> report i (utf8 [0x49, 0x52, 0x20, 0x6CBB, 0x5177, 0x8FD4, 0x56DE, 0x5E27, 0x5168, 0x90E8, 0x901A, 0x8FC7]) True;
            ret (Some passed) }
        | IR_FAILED \<Rightarrow> do {
            passed \<leftarrow> report i (or_else (is_error_message fixture) (utf8 [0x49, 0x52, 0x20, 0x6CBB, 0x5177, 0x68C0, 0x6D4B, 0x5931, 0x8D25])) False;
            ret (Some passed) }
        | IR_CANCELED \<Rightarrow> do {
            passed \<leftarrow> report i (or_else (is_error_message fixture) (utf8 [0x49, 0x52, 0x20, 0x6CBB, 0x5177, 0x68C0, 0x6D4B, 0x5931, 0x8D25])) False;
            ret (Some passed) }
        | _ \<Rightarrow> do { pc_sleep 100; ret None }) } }"

partial_function (option) run_cap_fixture_check :: "precheck_env \<Rightarrow> nat \<Rightarrow> precheck \<Rightarrow> (bool \<times> precheck) option" where
  "run_cap_fixture_check e i w =
     (case run_state (poll_cap_fixture e i) w of
        (Some passed, w') \<Rightarrow> Some (passed, w')
      | (None, w') \<Rightarrow> run_cap_fixture_check e i w')"

partial_function (option) run_ir_fixture_check :: "precheck_env \<Rightarrow> nat \<Rightarrow> precheck \<Rightarrow> (bool \<times> precheck) option" where
  "run_ir_fixture_check e i w =
     (case run_state (poll_ir_fixture e i) w of
        (Some passed, w') \<Rightarrow> Some (passed, w')
      | (None, w') \<Rightarrow> run_ir_fixture_check e i w')"

declare run_cap_fixture_check.simps [code] run_ir_fixture_check.simps [code]

subsection \<open>run_check_ and run_\<close>

definition run_check :: "precheck_env \<Rightarrow> nat \<Rightarrow> precheck \<Rightarrow> (bool \<times> precheck) option" where
  "run_check e i w =
     (if i = device_info_item then Some (run_state (check_device_info e i) w)
      else if i = hdmi_item then Some (run_state (check_hdmi e i) w)
      else if i = usb_c_item then Some (run_state (run_usb_port_check e i 1 ''1.3'') w)
      else if i = usb_a_item then Some (run_state (run_usb_port_check e i 1 ''1.2'') w)
      else if i = cap_fixture_item then run_cap_fixture_check e i w
      else if i = ir_fixture_item then run_ir_fixture_check e i w
      else if i = ethernet_item then Some (run_state (check_ethernet e i) w)
      else if i = battery_status_item then Some (run_state (check_battery_status e i) w)
      else if i = battery_level_item then Some (run_state (check_battery_level e i) w)
      else if i = battery_voltage_item then Some (run_state (check_battery_voltage e i) w)
      else if i = battery_current_item then Some (run_state (check_battery_current e i) w)
      else if i = audio_item then Some (run_state (check_audio e i) w)
      else if i = camera_item then Some (run_state (check_camera e i) w)
      else if i = imu_item then Some (run_state (check_imu e i) w)
      else Some (False, w))"

definition skip_item :: "nat \<Rightarrow> pc_snapshot \<Rightarrow> pc_snapshot" where
  "skip_item i s = (on_item i (\<lambda>it. it\<lparr>ck_state := PC_SKIPPED, ck_detail := zh_unsupported\<rparr>) s)
     \<lparr>ps_completed := ps_completed s + 1\<rparr>"

definition begin_check :: "nat \<Rightarrow> pc_snapshot \<Rightarrow> pc_snapshot" where
  "begin_check i s = (on_item i (\<lambda>it. it\<lparr>ck_state := PC_RUNNING, ck_detail := zh_checking\<rparr>) s)
     \<lparr>ps_current_index := i\<rparr>"

definition cancel_check :: "nat \<Rightarrow> pc_snapshot \<Rightarrow> pc_snapshot" where
  "cancel_check i s = (on_item i (\<lambda>it. it\<lparr>ck_state := PC_CANCELED, ck_detail := zh_canceled\<rparr>) s)
     \<lparr>ps_state := PR_CANCELED, ps_headline := zh_check_canceled\<rparr>"

definition finish_check :: "nat \<Rightarrow> bool \<Rightarrow> pc_snapshot \<Rightarrow> pc_snapshot" where
  "finish_check i passed s =
     (on_item i (\<lambda>it. it\<lparr>ck_state := (if passed then PC_PASSED else PC_FAILED),
        ck_detail := (if ck_detail it = zh_checking then (if passed then zh_passed else zh_failed)
                      else ck_detail it)\<rparr>) s)
     \<lparr>ps_completed := ps_completed s + 1,
      ps_passed := (if passed then ps_passed s + 1 else ps_passed s),
      ps_failed := (if passed then ps_failed s else ps_failed s + 1)\<rparr>"

text \<open>
  The loop over the items from index \<open>i\<close> on (the vector always has the fourteen items of
  \<open>make_items\<close>): \<open>True\<close> where it ends, \<open>False\<close> where \<open>run_\<close>
  returned from inside it.
\<close>

function check_items :: "precheck_env \<Rightarrow> nat \<Rightarrow> precheck \<Rightarrow> (bool \<times> precheck) option" where
  "check_items e i w =
     (if i < length make_items then
        (let (canceled, w1) = run_state (pc_canceled e) w in
         if canceled then Some (False, snd (run_state (pc_publish PR_CANCELED zh_check_canceled) w1))
         else if ck_state (ps_items (pc_snapshot w1) ! i) \<noteq> PC_PENDING then check_items e (i + 1) w1
         else
           (case run_check e i (snd (run_state (pc_on_snapshot (begin_check i)) w1)) of
              None \<Rightarrow> None
            | Some (passed, w2) \<Rightarrow>
                (let (canceled, w3) = run_state (pc_canceled e) w2 in
                 if canceled then Some (False, snd (run_state (pc_on_snapshot (cancel_check i)) w3))
                 else check_items e (i + 1) (snd (run_state (pc_on_snapshot (finish_check i passed)) w3)))))
      else Some (True, w))"
  by auto
termination
  by (relation "measure (\<lambda>(e, i, w). length make_items - i)") auto

declare check_items.simps [simp del]

definition publish_verdict :: "unit pc_act" where
  "publish_verdict = pc_on_snapshot (\<lambda>s.
     if ps_failed s = 0 then s\<lparr>ps_state := PR_PASSED, ps_headline := zh_all_passed\<rparr>
     else s\<lparr>ps_state := PR_FAILED, ps_headline := zh_some_failed\<rparr>)"

definition run_precheck :: "precheck_env \<Rightarrow> precheck \<Rightarrow> precheck option" where
  "run_precheck e w =
     (let w1 = (if skip_camera_and_imu e
                then snd (run_state (pc_on_snapshot (skip_item imu_item \<circ> skip_item camera_item)) w) else w) in
      case check_items e 0 w1 of
        None \<Rightarrow> None
      | Some (ended, w2) \<Rightarrow> Some (if ended then snd (run_state publish_verdict w2) else w2))"

subsection \<open>start, cancel, retry_failed and the power calls\<close>

text \<open>
  These run on the user interface's thread. \<open>start\<close> and \<open>retry_failed\<close> wait for the
  previous worker first, so its run and the next one follow each other; the state they find
  is that of an ended run. \<open>cancel\<close> waits for the worker as well: its request is one the
  environment makes during the run, and \<open>cancel_precheck\<close> is what it does afterwards.
\<close>

definition reset_snapshot :: "pc_snapshot \<Rightarrow> pc_snapshot" where
  "reset_snapshot s = s\<lparr>ps_items := make_items, ps_current_index := 0, ps_completed := 0,
     ps_passed := 0, ps_failed := 0, ps_state := PR_RUNNING, ps_headline := zh_running\<rparr>"

definition start_precheck :: "precheck_env \<Rightarrow> precheck \<Rightarrow> precheck option" where
  "start_precheck e w =
     (if ps_state (pc_snapshot w) = PR_RUNNING then Some w
      else run_precheck e (w\<lparr>pc_snapshot := reset_snapshot (pc_snapshot w), pc_cancel_requested := False\<rparr>))"

definition cancel_precheck :: "precheck \<Rightarrow> precheck" where
  "cancel_precheck w =
     (let w1 = w\<lparr>pc_cancel_requested := True\<rparr> in
      if ps_state (pc_snapshot w1) = PR_RUNNING
      then snd (run_state (pc_publish PR_CANCELED zh_check_canceled) w1) else w1)"

definition reset_sub_item :: "cap_sub_item \<Rightarrow> cap_sub_item" where
  "reset_sub_item sub = sub\<lparr>su_state := PC_PENDING, su_detail := zh_waiting\<rparr>"

definition retry_item :: "check_item \<Rightarrow> check_item" where
  "retry_item it =
     (if ck_state it = PC_FAILED then
        it\<lparr>ck_state := PC_PENDING, ck_detail := zh_retry,
           ck_cap_sub_items := (if ck_id it = ''cap_fixture'' then map reset_sub_item (ck_cap_sub_items it)
                                else ck_cap_sub_items it),
           ck_ir_sub_items := (if ck_id it = ''ir_fixture'' then map reset_sub_item (ck_ir_sub_items it)
                               else ck_ir_sub_items it)\<rparr>
      else it)"

definition reset_failed :: "pc_snapshot \<Rightarrow> pc_snapshot" where
  "reset_failed s =
     (let failed = word_of_nat (length (filter (\<lambda>it. ck_state it = PC_FAILED) (ps_items s))) in
      s\<lparr>ps_items := map retry_item (ps_items s), ps_completed := ps_completed s - failed,
        ps_failed := ps_failed s - failed, ps_state := PR_RUNNING, ps_headline := zh_retrying\<rparr>)"

definition retry_failed :: "precheck_env \<Rightarrow> precheck \<Rightarrow> precheck option" where
  "retry_failed e w =
     (if ps_state (pc_snapshot w) \<noteq> PR_FAILED \<and> ps_state (pc_snapshot w) \<noteq> PR_PASSED then Some w
      else run_precheck e (w\<lparr>pc_snapshot := reset_failed (pc_snapshot w), pc_cancel_requested := False\<rparr>))"

text \<open>\<open>safe_poweroff\<close> and \<open>safe_reboot\<close> show only a failure.\<close>

definition safe_poweroff :: "precheck_env \<Rightarrow> (bool \<times> string) pc_act" where
  "safe_poweroff e = do {
     (ok, error_message) \<leftarrow> pc_query e (pe_call e);
     (if ok then ret ()
      else pc_on_snapshot (\<lambda>s. s\<lparr>ps_headline := zh_poweroff_failed @ error_message\<rparr>));
     ret (ok, error_message) }"

definition safe_reboot :: "precheck_env \<Rightarrow> (bool \<times> string) pc_act" where
  "safe_reboot e = do {
     (ok, error_message) \<leftarrow> pc_query e (pe_call e);
     (if ok then ret ()
      else pc_on_snapshot (\<lambda>s. s\<lparr>ps_headline := zh_reboot_failed @ error_message\<rparr>));
     ret (ok, error_message) }"

end
