(* ===== verification/IrFixtureTheorems.thy ===== *)
theory IrFixtureTheorems
  imports IrFixture
begin

section \<open>IrFixtureTheorems: the verdict of the IR fixture test\<close>

text \<open>
  What an ended run of the IR fixture test says about what was sent and received, for every
  environment. \<open>ir_at s1 s2 tr\<close> describes a run under way with the two items in the states
  \<open>s1\<close> and \<open>s2\<close> and the events \<open>tr\<close>; each action gets a triple over it.
\<close>

subsection \<open>Runs under way and ended runs\<close>

definition ir_at :: "ir_item_state \<Rightarrow> ir_item_state \<Rightarrow> ir_event list \<Rightarrow> ir_fixture \<Rightarrow> bool" where
  "ir_at s1 s2 tr w \<longleftrightarrow> is_state (ix_snapshot w) = IR_RUNNING \<and>
     is_error_message (ix_snapshot w) = [] \<and>
     map ii_state (is_items (ix_snapshot w)) = [s1, s2] \<and> ix_trace w = tr"

definition ir_has_failed :: "ir_fixture \<Rightarrow> bool" where
  "ir_has_failed w \<longleftrightarrow> is_state (ix_snapshot w) = IR_FAILED \<and>
     is_error_message (ix_snapshot w) \<noteq> [] \<and>
     length (is_items (ix_snapshot w)) = 2 \<and>
     II_FAILED \<in> set (map ii_state (is_items (ix_snapshot w))) \<and>
     II_RUNNING \<notin> set (map ii_state (is_items (ix_snapshot w)))"

definition ir_has_been_canceled :: "ir_fixture \<Rightarrow> bool" where
  "ir_has_been_canceled w \<longleftrightarrow> is_state (ix_snapshot w) = IR_CANCELED \<and> ix_cancel_requested w"

text \<open>A reply counts when the receiver reports new data from the fixture's address.\<close>

definition replies :: "ir_received list \<Rightarrow> ir_received list" where
  "replies rs = filter (\<lambda>r. rx_data_changed r \<and> rx_address_matched r) rs"

definition verified_replies :: "nat \<Rightarrow> ir_received list \<Rightarrow> bool" where
  "verified_replies n rs \<longleftrightarrow>
     map (\<lambda>r. (rx_protocol r, rx_command r)) (replies rs) =
     map (\<lambda>i. (''NEC32'', expected_fixture_command i)) [0..<n]"

definition ir_has_passed :: "16 word \<Rightarrow> 16 word list \<Rightarrow> ir_event list \<Rightarrow> ir_fixture \<Rightarrow> bool" where
  "ir_has_passed address commands tr w \<longleftrightarrow> is_state (ix_snapshot w) = IR_PASSED \<and>
     is_error_message (ix_snapshot w) = [] \<and>
     map ii_state (is_items (ix_snapshot w)) = [II_PASSED, II_PASSED] \<and>
     (\<exists>rs. verified_replies rx_packet_count rs \<and>
        ix_trace w = tr @ map (\<lambda>c. IrSend address c True) commands @ [IrListen True] @ map IrPoll rs)"

definition ir_ended :: "16 word \<Rightarrow> 16 word list \<Rightarrow> ir_event list \<Rightarrow> ir_fixture \<Rightarrow> bool" where
  "ir_ended address commands tr w \<longleftrightarrow>
     ir_has_failed w \<or> ir_has_been_canceled w \<or> ir_has_passed address commands tr w"

lemma ir_items_two:
  "map ii_state (is_items s) = [s1, s2] \<Longrightarrow> \<exists>a b. is_items s = [a, b] \<and> ii_state a = s1 \<and> ii_state b = s2"
  by (auto simp: map_eq_Cons_conv)

lemma ir_at_steps [simp]:
  "ir_at s1 s2 tr (w\<lparr>ix_steps := k\<rparr>) \<longleftrightarrow> ir_at s1 s2 tr w"
  "ir_at s1 s2 tr (w\<lparr>ix_now := t\<rparr>) \<longleftrightarrow> ir_at s1 s2 tr w"
  "ir_at s1 s2 tr (w\<lparr>ix_cancel_requested := c\<rparr>) \<longleftrightarrow> ir_at s1 s2 tr w"
  by (auto simp: ir_at_def)

subsection \<open>Triples of the building blocks\<close>

lemma ir_interact_at: "triple (ir_at s1 s2 tr) (ir_interact e) (\<lambda>_. ir_at s1 s2 tr)"
  unfolding ir_interact_def by (rule triple_State) simp

lemma ir_now_at: "triple (ir_at s1 s2 tr) (ir_now e) (\<lambda>_. ir_at s1 s2 tr)"
  unfolding ir_now_def by (rule triple_bind [OF ir_interact_at], rule triple_ask)

lemma ir_canceled_at:
  "triple (ir_at s1 s2 tr) (ir_canceled e) (\<lambda>c w. ir_at s1 s2 tr w \<and> (c \<longleftrightarrow> ix_cancel_requested w))"
  unfolding ir_canceled_def by (rule triple_bind [OF ir_interact_at], rule triple_ask) simp

lemma ir_canceled_kept:
  "triple (\<lambda>w. P w \<and> ix_cancel_requested w) (ir_canceled e) (\<lambda>c w. c)"
  unfolding ir_canceled_def ir_interact_def
  by (rule triple_bind, rule triple_State [where Q = "\<lambda>_. ix_cancel_requested"])
    (simp, rule triple_ask)

lemma ir_ask_service_at: "triple (ir_at s1 s2 tr) (ir_ask_service e) (\<lambda>_. ir_at s1 s2 tr)"
  unfolding ir_ask_service_def by (rule triple_bind [OF ir_interact_at], rule triple_ret)

lemma ir_record_at: "triple (ir_at s1 s2 tr) (ir_record ev) (\<lambda>_. ir_at s1 s2 (tr @ [ev]))"
  unfolding ir_record_def by (rule triple_upd) (simp add: ir_at_def)

lemma ir_delay_loop_at:
  "ir_at s1 s2 tr w \<Longrightarrow> ir_at s1 s2 tr (ir_delay_loop e n k w)"
proof (induction e n k w rule: ir_delay_loop.induct)
  case (1 e n k w)
  note IH = "1.IH" [OF _ refl]
  show ?case
    using "1.prems" IH [of "fst (run_state (ir_canceled e) w)" "snd (run_state (ir_canceled e) w)"]
    by (subst ir_delay_loop.simps)
      (auto simp: run_state_ir_canceled Let_def ir_sleep_def upd_def)
qed

lemma ir_delay_at:
  "triple (ir_at s1 s2 tr) (ir_delay e n) (\<lambda>full w. ir_at s1 s2 tr w \<and> (full \<longleftrightarrow> \<not> ix_cancel_requested w))"
  unfolding ir_delay_def
  by (rule triple_bind, rule triple_State [where Q = "\<lambda>_. ir_at s1 s2 tr"], simp add: ir_delay_loop_at)
    (rule triple_bind [OF ir_canceled_at], rule triple_ret, simp)

lemma ir_fail_at:
  assumes "i < 2" "message \<noteq> []"
  shows "triple (ir_at s1 s2 tr) (ir_fail i message) (\<lambda>_. ir_has_failed)"
  unfolding ir_fail_def ir_on_snapshot_def
proof (rule triple_upd)
  fix w assume "ir_at s1 s2 tr w"
  then obtain a b where "is_items (ix_snapshot w) = [a, b]"
    using ir_items_two [of "ix_snapshot w" s1 s2] by (auto simp: ir_at_def)
  moreover have "i = 0 \<or> i = 1" using assms(1) by auto
  ultimately show "ir_has_failed (w\<lparr>ix_snapshot :=
      (let items = map give_up_running (is_items (ix_snapshot w))
       in (ix_snapshot w)\<lparr>is_items := if i < length items
             then items[i := (items ! i)\<lparr>ii_state := II_FAILED, ii_detail := message\<rparr>] else items,
          is_state := IR_FAILED, is_headline := ''IR fixture test failed'', is_error_message := message\<rparr>)
      \<lparr>is_revision := is_revision (ix_snapshot w) + 1\<rparr>\<rparr>)"
    using assms(2) by (auto simp: ir_has_failed_def give_up_running_def)
qed

lemma or_else_nonempty [simp]: "or_else m (c # cs) \<noteq> []"
  by (simp add: or_else_def)

lemma set_item_details:
  assumes "ir_at s1 s2 tr w" "\<And>it. ii_state (f it) = ii_state it"
  shows "map ii_state ((is_items (ix_snapshot w))[i := f (is_items (ix_snapshot w) ! i)]) = [s1, s2]"
proof -
  obtain a b where "is_items (ix_snapshot w) = [a, b]" "ii_state a = s1" "ii_state b = s2"
    using assms(1) ir_items_two [of "ix_snapshot w" s1 s2] by (auto simp: ir_at_def)
  then show ?thesis using assms(2) by (cases i) (auto split: nat.split)
qed

lemma ir_on_snapshot_at:
  assumes "\<And>w. ir_at s1 s2 tr w \<Longrightarrow> ir_at s1' s2' tr (w\<lparr>ix_snapshot := f (ix_snapshot w)\<rparr>)"
  shows "triple (ir_at s1 s2 tr) (ir_on_snapshot f) (\<lambda>_. ir_at s1' s2' tr)"
  unfolding ir_on_snapshot_def using assms by (intro triple_upd) (simp add: ir_at_def)

subsection \<open>The transmitter\<close>

definition sends :: "16 word \<Rightarrow> 16 word list \<Rightarrow> ir_event list" where
  "sends address commands = map (\<lambda>c. IrSend address c True) commands"

text \<open>Either the run is at \<open>tr\<close>, or it was canceled on the way there.\<close>

definition ir_reached :: "ir_item_state \<Rightarrow> ir_item_state \<Rightarrow> ir_event list \<Rightarrow> ir_fixture \<Rightarrow> bool" where
  "ir_reached s1 s2 tr w \<longleftrightarrow> ir_at s1 s2 tr w \<or> (ix_cancel_requested w \<and> ir_at s1 s2 (ix_trace w) w)"

lemma ir_at_reached: "ir_at s1 s2 tr w \<Longrightarrow> ir_reached s1 s2 tr w"
  by (simp add: ir_reached_def)

lemma ir_at_canceled: "ir_at s1 s2 tr w \<Longrightarrow> ix_cancel_requested w \<Longrightarrow> ir_reached s1 s2 tr' w"
  by (simp add: ir_reached_def ir_at_def)

lemma ir_canceled_reached:
  "triple (ir_reached s1 s2 tr) (ir_canceled e)
     (\<lambda>c w. if c then ix_cancel_requested w \<and> ir_at s1 s2 (ix_trace w) w else ir_at s1 s2 tr w)"
  by (auto simp: triple_def run_state_ir_canceled Let_def ir_reached_def) (auto simp: ir_at_def)

lemma ir_publish_canceled_at:
  "triple (\<lambda>w. ix_cancel_requested w \<and> ir_at s1 s2 (ix_trace w) w) ir_publish_canceled
     (\<lambda>_. ir_has_been_canceled)"
  unfolding ir_publish_canceled_def ir_on_snapshot_def
  by (rule triple_upd) (simp add: ir_has_been_canceled_def)

lemma ir_send_progress_at:
  "triple (ir_at s1 s2 tr) (ir_on_snapshot (\<lambda>s.
       (set_item ir_tx_item (\<lambda>it. it\<lparr>ii_detail := d\<rparr>) s)\<lparr>is_headline := h\<rparr>))
     (\<lambda>_. ir_at s1 s2 tr)"
proof (rule ir_on_snapshot_at)
  fix w assume "ir_at s1 s2 tr w"
  then show "ir_at s1 s2 tr (w\<lparr>ix_snapshot :=
      (set_item ir_tx_item (\<lambda>it. it\<lparr>ii_detail := d\<rparr>) (ix_snapshot w))\<lparr>is_headline := h\<rparr>\<rparr>)"
    using set_item_details [of s1 s2 tr w "\<lambda>it. it\<lparr>ii_detail := d\<rparr>" ir_tx_item]
    by (simp add: ir_at_def set_item_def)
qed

lemma ir_send_all_at:
  "triple (ir_at s1 s2 tr) (ir_send_all e a i commands)
     (\<lambda>ok w. if ok then ir_reached s1 s2 (tr @ sends a commands) w else ir_has_failed w)"
proof (induction commands arbitrary: i tr)
  case Nil
  then show ?case by (auto intro!: triple_ret simp: sends_def ir_at_reached)
next
  case (Cons c cs)
  let ?Q = "\<lambda>ok w. if ok then ir_reached s1 s2 (tr @ sends a (c # cs)) w else ir_has_failed w"
  let ?tr = "tr @ [IrSend a c True]"
  have rest: "triple (ir_at s1 s2 ?tr) (ir_send_all e a (i + 1) cs) ?Q"
    using Cons.IH [of ?tr "i + 1"] by (simp only: sends_def append_assoc list.map append.simps)
  have pause: "triple (ir_at s1 s2 ?tr) (do { full \<leftarrow> ir_delay e 250;
      if full then ir_send_all e a (i + 1) cs else ret True }) ?Q"
    by (rule triple_bind [OF ir_delay_at], rule triple_if)
      (rule triple_conseq [OF rest], auto intro!: triple_ret elim!: ir_at_canceled)
  have tail: "triple (ir_at s1 s2 ?tr) (do { ir_now e;
      if cs = [] then ir_send_all e a (i + 1) cs
      else do { full \<leftarrow> ir_delay e 250; if full then ir_send_all e a (i + 1) cs else ret True } }) ?Q"
    by (rule triple_bind [OF ir_now_at], rule triple_if, rule rest, rule pause)
  have failed: "triple (ir_at s1 s2 (tr @ [IrSend a c False])) (do {
      ir_fail ir_tx_item (or_else m ''IR frame send failed''); ret False }) ?Q" for m
    by (rule triple_bind [OF ir_fail_at]) (auto simp: ir_tx_item_def intro!: triple_ret)
  show ?case
    unfolding ir_send_all.simps
    apply (rule triple_bind [OF ir_canceled_at], rule triple_if)
     apply (auto intro!: triple_ret elim!: ir_at_canceled)[1]
    apply (rule triple_pre [where P' = "ir_at s1 s2 tr"])
     apply (rule triple_bind [OF ir_send_progress_at], rule triple_bind [OF ir_ask_service_at])
     apply (rule triple_pair, rule triple_bind [OF ir_record_at])
    subgoal for c u p ok m using tail failed [of m] by (cases ok) simp_all
    by simp
qed

subsection \<open>The receiver\<close>

lemma poll_receiver_at:
  "run_state (poll_receiver e) w = (r, w') \<Longrightarrow> ir_at s1 s2 tr w \<Longrightarrow> ir_at s1 s2 (tr @ [IrPoll r]) w'"
  by (auto simp: poll_receiver_def ir_interact_def ir_record_def upd_def ret_def ir_at_def)

lemma verified_replies_Nil: "verified_replies 0 []"
  by (simp add: verified_replies_def replies_def)

lemma verify_reply_at:
  assumes run: "run_state (verify_reply r n) w = (res, w')" and at: "ir_at s1 s2 tr w"
    and ok: "verified_replies n rs"
  shows "case res of None \<Rightarrow> ir_has_failed w' | Some m \<Rightarrow> ir_at s1 s2 tr w' \<and> verified_replies m (rs @ [r])"
proof -
  have progress: "ir_at s1 s2 tr (snd (run_state (ir_on_snapshot (set_item ir_rx_item
      (\<lambda>it. it\<lparr>ii_detail := d\<rparr>))) w))" for d
    using set_item_details [OF at, of "\<lambda>it. it\<lparr>ii_detail := d\<rparr>" ir_rx_item] at
    by (simp add: ir_on_snapshot_def upd_def set_item_def ir_at_def)
  have failed: "ir_has_failed (snd (run_state (ir_fail ir_rx_item (x # xs)) w))" for x xs
    using tripleD [OF ir_fail_at at, of ir_rx_item "x # xs"] by (simp add: ir_rx_item_def)
  consider "\<not> (rx_data_changed r \<and> rx_address_matched r)"
    | "rx_data_changed r" "rx_address_matched r" "rx_protocol r \<noteq> ''NEC32'' \<or> rx_command r \<noteq> expected_fixture_command n"
    | "rx_data_changed r" "rx_address_matched r" "rx_protocol r = ''NEC32''" "rx_command r = expected_fixture_command n"
    by blast
  then show ?thesis
  proof cases
    case 1
    then show ?thesis using run at ok
      by (auto simp: verify_reply_def ret_def verified_replies_def replies_def)
  next
    case 2
    then have "res = None \<and> ir_has_failed w'" using run failed
      by (auto simp: verify_reply_def Let_def ret_def case_prod_unfold split: if_splits)
    then show ?thesis by simp
  next
    case 3
    then have "res = Some (Suc n)" "ir_at s1 s2 tr w'" using run progress
      by (auto simp: verify_reply_def Let_def ret_def case_prod_unfold)
    then show ?thesis using ok 3 by (simp add: verified_replies_def replies_def)
  qed
qed

lemma receive_replies_at:
  assumes "run_state (State (receive_replies e deadline n)) w = (res, w')"
    and "ir_at s1 s2 (tr @ map IrPoll rs) w" "verified_replies n rs"
  shows "case res of None \<Rightarrow> ir_has_failed w'
    | Some m \<Rightarrow> \<exists>rs'. ir_at s1 s2 (tr @ map IrPoll rs') w' \<and> verified_replies m rs'"
  using assms
proof (induction e deadline n w arbitrary: rs rule: receive_replies.induct)
  case (1 e deadline n w)
  obtain c w1 where w1: "run_state (ir_canceled e) w = (c, w1)" by fastforce
  obtain now w2 where w2: "run_state (ir_now e) w1 = (now, w2)" by fastforce
  obtain r w3 where w3: "run_state (poll_receiver e) w2 = (r, w3)" by fastforce
  obtain v w4 where w4: "run_state (verify_reply r n) w3 = (v, w4)" by fastforce
  have at2: "ir_at s1 s2 (tr @ map IrPoll rs) w1" "ir_at s1 s2 (tr @ map IrPoll rs) w2"
    using 1(4) tripleD [OF ir_canceled_at 1(4), of e] tripleD [OF ir_now_at, of s1 s2 "tr @ map IrPoll rs" w1 e] w1 w2
    by auto
  have at3: "ir_at s1 s2 (tr @ map IrPoll (rs @ [r])) w3"
    using poll_receiver_at [OF w3 at2(2)] by simp
  note at4 = verify_reply_at [OF w4 at3 1(5)]
  show ?case
  proof (cases "c \<or> deadline \<le> now \<or> rx_packet_count \<le> n")
    case True
    then have "res = Some n \<and> (w' = w1 \<or> w' = w2)"
      using 1(3) w1 w2 by (subst (asm) receive_replies.simps) (auto simp: Let_def split: if_splits)
    then show ?thesis using at2 1(5) by auto
  next
    case go: False
    show ?thesis
    proof (cases v)
      case None
      then show ?thesis using 1(3) go w1 w2 w3 w4 at4
        by (subst (asm) receive_replies.simps) (auto simp: Let_def)
    next
      case (Some m)
      obtain full w5 where w5: "run_state (ir_delay e 20) w4 = (full, w5)" by fastforce
      have at5: "ir_at s1 s2 (tr @ map IrPoll (rs @ [r])) w4" "verified_replies m (rs @ [r])"
        using at4 Some by auto
      have at6: "ir_at s1 s2 (tr @ map IrPoll (rs @ [r])) w5"
        using tripleD [OF ir_delay_at at5(1), of e 20] w5 by simp
      consider (count) "\<not> m < rx_packet_count" "run_state (State (receive_replies e deadline m)) w4 = (res, w')"
        | (pause) "m < rx_packet_count" "full" "run_state (State (receive_replies e deadline m)) w5 = (res, w')"
        | (over) "res = Some m" "w' = w5"
        using 1(3) go w1 w2 w3 w4 w5 Some
        by (subst (asm) receive_replies.simps) (auto simp: Let_def split: if_splits)
      then show ?thesis
      proof cases
        case count
        show ?thesis
          by (rule 1(2) [OF w1 [symmetric] refl _ w2 [symmetric] refl _ _ w3 [symmetric] refl w4 [symmetric] refl Some _ count(2) at5])
            (use go count in auto)
      next
        case pause
        show ?thesis
          by (rule 1(1) [OF w1 [symmetric] refl _ w2 [symmetric] refl _ _ w3 [symmetric] refl w4 [symmetric] refl Some _ w5 [symmetric] refl _ pause(3) at6 at5(2)])
            (use go pause in auto)
      next
        case over
        then show ?thesis using at6 at5(2) by (auto simp del: map_append)
      qed
    qed
  qed
qed

subsection \<open>The sequence\<close>

definition ir_passed_trace :: "16 word \<Rightarrow> 16 word list \<Rightarrow> ir_event list \<Rightarrow> ir_event list" where
  "ir_passed_trace a commands tr = tr @ sends a commands @ [IrListen True]"

lemma ir_publish_receiving_at:
  "triple (ir_at s1 II_PENDING tr) ir_publish_receiving (\<lambda>_. ir_at s1 II_RUNNING tr)"
  unfolding ir_publish_receiving_def
proof (rule ir_on_snapshot_at)
  fix w assume at: "ir_at s1 II_PENDING tr w"
  then obtain a b where "is_items (ix_snapshot w) = [a, b]" "ii_state a = s1"
    using ir_items_two [of "ix_snapshot w"] by (auto simp: ir_at_def)
  then show "ir_at s1 II_RUNNING tr (w\<lparr>ix_snapshot :=
     (set_item ir_rx_item (\<lambda>it. it\<lparr>ii_state := II_RUNNING, ii_detail := rx_progress_text 0\<rparr>)
       (set_item ir_tx_item (\<lambda>it. it\<lparr>ii_detail := ''4 frames sent; waiting for verified reply''\<rparr>)
         (ix_snapshot w)))\<lparr>is_headline := ''Validating fixture response''\<rparr>\<rparr>)"
    using at by (simp add: ir_at_def set_item_def ir_tx_item_def ir_rx_item_def)
qed

lemma ir_publish_passed_at:
  assumes "verified_replies rx_packet_count rs"
  shows "triple (ir_at s1 s2 (ir_passed_trace a commands tr @ map IrPoll rs)) ir_publish_passed
    (\<lambda>_. ir_has_passed a commands tr)"
  unfolding ir_publish_passed_def ir_on_snapshot_def
proof (rule triple_upd, goal_cases)
  case (1 w)
  then obtain x y where "is_items (ix_snapshot w) = [x, y]"
    using ir_items_two [of "ix_snapshot w"] by (auto simp: ir_at_def)
  then show ?case using 1 assms
    by (auto simp: ir_has_passed_def ir_at_def set_item_def ir_tx_item_def ir_rx_item_def
        ir_passed_trace_def sends_def)
qed

text \<open>What the receiving loop leaves: failed, or some number of replies verified.\<close>

definition ir_received_some :: "ir_event list \<Rightarrow> nat option \<Rightarrow> ir_fixture \<Rightarrow> bool" where
  "ir_received_some tr res w \<longleftrightarrow> (case res of None \<Rightarrow> ir_has_failed w
     | Some m \<Rightarrow> \<exists>rs. ir_at II_RUNNING II_RUNNING (tr @ map IrPoll rs) w \<and> verified_replies m rs)"

lemma receive_replies_triple:
  "triple (ir_at II_RUNNING II_RUNNING tr) (State (receive_replies e deadline 0)) (ir_received_some tr)"
  unfolding triple_def ir_received_some_def
  by (intro allI impI receive_replies_at [where rs = "[]", OF prod.collapse [symmetric]])
    (auto simp: verified_replies_Nil)

lemma ir_fail_ends:
  assumes "i < 2"
  shows "triple (ir_at s1 s2 tr') (ir_fail i (or_else m (c # cs))) (\<lambda>_. ir_ended a commands tr)"
  by (rule triple_conseq [OF ir_fail_at [OF assms]]) (auto simp: ir_ended_def)

lemma ir_verdict_at:
  assumes "verified_replies m rs"
  shows "triple (ir_at II_RUNNING II_RUNNING (ir_passed_trace a commands tr @ map IrPoll rs))
    (do { canceled \<leftarrow> ir_canceled e;
      if canceled then ir_publish_canceled
      else if m \<noteq> rx_packet_count then
        ir_fail ir_rx_item (''Fixture reply timed out: '' @ nat_text m @ ''/5 received'')
      else ir_publish_passed }) (\<lambda>_. ir_ended a commands tr)"
proof (rule triple_bind [OF ir_canceled_at], rule triple_if, goal_cases)
  case (1 c)
  then show ?case
    by (intro triple_conseq [OF ir_publish_canceled_at [of II_RUNNING II_RUNNING]])
      (auto simp: ir_ended_def ir_at_def)
next
  case (2 c)
  let ?R = "ir_at II_RUNNING II_RUNNING (ir_passed_trace a commands tr @ map IrPoll rs)"
  have "triple ?R (ir_fail ir_rx_item (''Fixture reply timed out: '' @ nat_text m @ ''/5 received''))
      (\<lambda>_. ir_ended a commands tr)"
    by (rule triple_conseq [OF ir_fail_at]) (auto simp: ir_ended_def ir_rx_item_def)
  moreover have "m = rx_packet_count \<Longrightarrow> triple ?R ir_publish_passed (\<lambda>_. ir_ended a commands tr)"
    using assms by (intro triple_conseq [OF ir_publish_passed_at]) (auto simp: ir_ended_def)
  ultimately have "triple ?R (if m \<noteq> rx_packet_count
      then ir_fail ir_rx_item (''Fixture reply timed out: '' @ nat_text m @ ''/5 received'')
      else ir_publish_passed) (\<lambda>_. ir_ended a commands tr)"
    by (intro triple_if) simp_all
  then show ?case by (rule triple_pre) simp
qed

lemma ir_receive_phase_at:
  "triple (ir_at II_RUNNING II_PENDING (tr @ sends a commands)) (ir_receive_phase e)
     (\<lambda>_. ir_ended a commands tr)"
proof -
  let ?T = "ir_passed_trace a commands tr"
  have judge: "triple (ir_received_some ?T res) (case res of None \<Rightarrow> ret ()
        | Some m \<Rightarrow> do { canceled \<leftarrow> ir_canceled e;
            if canceled then ir_publish_canceled
            else if m \<noteq> rx_packet_count then
              ir_fail ir_rx_item (''Fixture reply timed out: '' @ nat_text m @ ''/5 received'')
            else ir_publish_passed }) (\<lambda>_. ir_ended a commands tr)" for res
  proof (cases res)
    case None
    then show ?thesis by (auto intro!: triple_ret simp: ir_received_some_def ir_ended_def)
  next
    case (Some m)
    then show ?thesis
      unfolding Some ir_received_some_def option.case
      by (intro triple_ex triple_assume ir_verdict_at)
  qed
  have listening: "triple (ir_at II_RUNNING II_PENDING ?T) (do {
       ir_now e;
       ir_publish_receiving;
       t \<leftarrow> ir_now e;
       verified \<leftarrow> State (receive_replies e (t + 3500 * 1000000) 0);
       (case verified of
          None \<Rightarrow> ret ()
        | Some received_count \<Rightarrow> do {
            canceled \<leftarrow> ir_canceled e;
            if canceled then ir_publish_canceled
            else if received_count \<noteq> rx_packet_count then
              ir_fail ir_rx_item (''Fixture reply timed out: '' @ nat_text received_count @ ''/5 received'')
            else ir_publish_passed }) }) (\<lambda>_. ir_ended a commands tr)"
    by (rule triple_bind [OF ir_now_at], rule triple_bind [OF ir_publish_receiving_at],
        rule triple_bind [OF ir_now_at], rule triple_bind [OF receive_replies_triple], rule judge)
  show ?thesis
    unfolding ir_receive_phase_def
  proof (rule triple_bind [OF ir_ask_service_at], rule triple_pair, rule triple_bind [OF ir_record_at],
      rule triple_if, goal_cases)
    case 1
    show ?case by (rule ir_fail_ends) (simp add: ir_rx_item_def)
  next
    case 2
    then show ?case using listening by (simp add: ir_passed_trace_def)
  qed
qed

lemma ir_sequence_ends:
  "triple (ir_at II_RUNNING II_PENDING tr) (ir_sequence e a commands) (\<lambda>_. ir_ended a commands tr)"
  unfolding ir_sequence_def
proof (rule triple_bind [OF ir_ask_service_at], rule triple_pair, rule triple_if, goal_cases)
  case 1
  show ?case by (rule ir_fail_ends) (simp add: ir_tx_item_def)
next
  case 2
  show ?case
  proof (rule triple_bind [OF ir_ask_service_at], rule triple_pair, rule triple_if, goal_cases)
    case 1
    show ?case by (rule ir_fail_ends) (simp add: ir_rx_item_def)
  next
    case 2
    show ?case
    proof (rule triple_bind [OF ir_send_all_at], rule triple_if, goal_cases)
      case 1
      then show ?case by (auto intro!: triple_ret simp: ir_ended_def)
    next
      case (2 sent)
      show ?case
      proof (rule triple_pre [where P' = "ir_reached II_RUNNING II_PENDING (tr @ sends a commands)"],
          rule triple_bind [OF ir_canceled_reached], rule triple_if, goal_cases)
        case (1 c)
        then show ?case
          by (intro triple_conseq [OF ir_publish_canceled_at [of II_RUNNING II_PENDING]])
            (auto simp: ir_ended_def)
      next
        case (2 c)
        then show ?case using ir_receive_phase_at by simp
      next
        case (3 w)
        then show ?case using 2 by simp
      qed
    qed
  qed
qed

lemma reset_cancel_ir [simp]: "reset_ir (cancel_ir w) = reset_ir w"
  by (simp add: reset_ir_def cancel_ir_def)

lemma reset_ir_at: "ir_at II_RUNNING II_PENDING (ix_trace w) (reset_ir w)"
  by (simp add: reset_ir_def ir_on_snapshot_def upd_def ir_at_def)

subsection \<open>The drawn address and commands\<close>

lemma random_dut_address_good:
  "random_dut_address draw k = Some (a, j) \<Longrightarrow> good_address a"
  by (rule random_dut_address.raw_induct [where P = "\<lambda>draw k r. good_address (fst r)", of draw k "(a, j)", simplified])
    (auto simp: Let_def split: if_splits)

lemma random_dut_address_drawn:
  "random_dut_address draw k = Some r \<Longrightarrow> \<exists>n. good_address (word_of_nat (draw n))"
  by (rule random_dut_address.raw_induct [where P = "\<lambda>draw k r. \<exists>n. good_address (word_of_nat (draw n))"])
    (auto simp: Let_def split: if_splits)

lemma random_dut_address_ends:
  "good_address (word_of_nat (draw (k + n))) \<Longrightarrow> random_dut_address draw k \<noteq> None"
proof (induction n arbitrary: k)
  case (Suc n)
  then show ?case
    using Suc.IH [of "Suc k"] by (subst random_dut_address.simps) (simp add: Let_def)
qed (subst random_dut_address.simps, simp add: Let_def)

lemma random_dut_address_None:
  "random_dut_address draw 0 = None \<longleftrightarrow> (\<forall>n. \<not> good_address (word_of_nat (draw n)))"
  using random_dut_address_drawn [of draw 0] random_dut_address_ends [of draw 0]
  by (metis add_0 not_Some_eq)

lemma and_low_byte_shifted: "and (push_bit 8 x) 0xFF = (0 :: 16 word)"
proof -
  have "(0xFF :: 16 word) = mask 8" by (simp add: mask_eq_exp_minus_1)
  then show ?thesis by (simp add: bit_eq_iff bit_simps)
qed

lemma random_commands_low_byte: "list_all (\<lambda>c. and c 0xFF = 0) (random_commands draw k)"
  unfolding random_commands_def by (simp add: list_all_iff and_low_byte_shifted)

lemma length_random_commands: "length (random_commands draw k) = 4"
  by (simp add: random_commands_def tx_packet_count_def)

text \<open>C15: The verdict of the IR fixture test. A run returns unless no draw of the generator gives an
  acceptable address. A returned run has passed, failed or been canceled. It has passed only if
  exactly four frames, whose commands have a zero low byte, were sent to an acceptable address
  and the replies that came from the fixture's address were F1..F5 as NEC32, in this order and
  no others; it has failed with an error message and no item left running; it is canceled only
  if cancellation was requested.\<close>

theorem ir_fixture_verdict:
  "case start_ir e w of
     None \<Rightarrow> (\<forall>n. \<not> good_address (word_of_nat (ie_draw e n)))
   | Some w' \<Rightarrow> \<exists>address commands. good_address address \<and> length commands = 4 \<and>
       list_all (\<lambda>c. and c 0xFF = 0) commands \<and> ir_ended address commands (ix_trace w) w'"
proof (cases "start_ir e w")
  case None
  then show ?thesis by (auto simp: start_ir_def run_ir_def random_dut_address_None split: option.splits)
next
  case (Some w')
  then obtain a k where a: "random_dut_address (ie_draw e) 0 = Some (a, k)"
    and w': "w' = snd (run_state (ir_sequence e a (random_commands (ie_draw e) k)) (reset_ir w))"
    by (auto simp: start_ir_def run_ir_def split: option.splits)
  have "ir_ended a (random_commands (ie_draw e) k) (ix_trace w) w'"
    unfolding w' using tripleD [OF ir_sequence_ends reset_ir_at] by blast
  then show ?thesis
    using Some a random_dut_address_good random_commands_low_byte
    by (auto simp: length_random_commands intro!: exI [of _ a] exI [of _ "random_commands (ie_draw e) k"])
qed

subsection \<open>A fixture that answers\<close>

text \<open>
  Nothing fails, nothing is canceled and the clock moves only by the sleeps; the five polls of
  the receiver, which are interactions 98, 104, ..., 122 of the run, give F1..F5.
\<close>

definition good_replies :: "nat \<Rightarrow> ir_received" where
  "good_replies k = \<lparr>rx_data_changed = True, rx_address_matched = True, rx_protocol = ''NEC32'',
     rx_address = fixture_address, rx_command = expected_fixture_command ((k - 98) div 6)\<rparr>"

definition good_ir_env :: "(nat \<Rightarrow> nat) \<Rightarrow> ir_env" where
  "good_ir_env draw = \<lparr>ie_cancel = (\<lambda>_. False), ie_draw = draw, ie_answer = (\<lambda>_. (True, [])),
     ie_poll = good_replies, ie_lapse = (\<lambda>_. 0)\<rparr>"

lemma good_ir_delay_loop:
  "\<not> ix_cancel_requested w \<Longrightarrow> ir_delay_loop (good_ir_env draw) (k + 10 * n) k w =
     w\<lparr>ix_steps := ix_steps w + n, ix_now := ix_now w + n * 10000000\<rparr>"
proof (induction n arbitrary: k w)
  case 0
  then show ?case by (subst ir_delay_loop.simps) simp
next
  case (Suc n)
  let ?w = "w\<lparr>ix_steps := Suc (ix_steps w), ix_now := ix_now w + 10000000\<rparr>"
  have same: "w\<lparr>ix_steps := s, ix_cancel_requested := False, ix_now := u\<rparr> = w\<lparr>ix_steps := s, ix_now := u\<rparr>" for s u
    using Suc.prems by (cases w) simp
  have "ir_delay_loop (good_ir_env draw) (k + 10 * Suc n) k w = ir_delay_loop (good_ir_env draw) ((k + 10) + 10 * n) (k + 10) ?w"
    using Suc.prems
    by (subst ir_delay_loop.simps) (simp add: run_state_ir_canceled good_ir_env_def ir_sleep_def upd_def same algebra_simps)
  then show ?case using Suc.IH [of ?w "k + 10"] Suc.prems by simp
qed

lemma good_ir_delay:
  assumes "\<not> ix_cancel_requested w"
  shows "run_state (ir_delay (good_ir_env draw) (10 * n)) w =
     (True, w\<lparr>ix_steps := ix_steps w + n + 1, ix_now := ix_now w + n * 10000000\<rparr>)"
  using good_ir_delay_loop [OF assms, of draw 0 n] assms
  by (simp add: ir_delay_def run_state_ir_canceled good_ir_env_def ret_def)


lemma good_ir_long: "\<not> ix_cancel_requested w \<Longrightarrow> run_state (ir_delay (good_ir_env draw) 250) w =
     (True, w\<lparr>ix_steps := ix_steps w + 26, ix_now := ix_now w + 250000000\<rparr>)"
  using good_ir_delay [of w draw 25] by simp

lemma good_ir_short: "\<not> ix_cancel_requested w \<Longrightarrow> run_state (ir_delay (good_ir_env draw) 20) w =
     (True, w\<lparr>ix_steps := ix_steps w + 3, ix_now := ix_now w + 20000000\<rparr>)"
  using good_ir_delay [of w draw 2] by simp

lemma good_ir_simps:
  "ie_cancel (good_ir_env draw) k = False" "ie_answer (good_ir_env draw) k = (True, [])"
  "ie_poll (good_ir_env draw) k = good_replies k" "ie_lapse (good_ir_env draw) k = 0"
  by (simp_all add: good_ir_env_def)

lemma ie_draw_good: "ie_draw (good_ir_env draw) = draw"
  by (simp add: good_ir_env_def)

lemmas ir_act_defs = ir_ask_service_def ir_interact_def ret_def ir_canceled_def ask_def
  ir_on_snapshot_def upd_def ir_record_def ir_now_def

lemma good_ir_sends:
  assumes "\<not> ix_cancel_requested w" "ix_steps w = 2"
  shows "\<exists>w'. run_state (ir_send_all (good_ir_env draw) a 0 [c1, c2, c3, c4]) w = (True, w') \<and>
    \<not> ix_cancel_requested w' \<and> ix_steps w' = 92"
  using assms by (simp add: ir_act_defs good_ir_simps good_ir_long)

lemma good_ir_verify:
  assumes "rx_packet_count > n"
  shows "run_state (verify_reply (good_replies (98 + 6 * n)) n) w =
    (Some (Suc n), snd (run_state (ir_on_snapshot (set_item ir_rx_item
       (\<lambda>it. it\<lparr>ii_detail := rx_progress_text (n + 1)\<rparr>))) w))"
  by (simp add: verify_reply_def good_replies_def Let_def ret_def case_prod_unfold)

lemma good_ir_receives:
  assumes "\<not> ix_cancel_requested w" "ix_steps w = 96 + 6 * n" "ix_now w + (5 - n) * 20000000 < deadline" "n \<le> 5"
  shows "\<exists>w'. receive_replies (good_ir_env draw) deadline n w = (Some 5, w') \<and> \<not> ix_cancel_requested w'"
  using assms
proof (induction "5 - n" arbitrary: n w)
  case 0
  then show ?case
    by (subst receive_replies.simps)
      (simp add: ir_act_defs good_ir_simps Let_def rx_packet_count_def)
next
  case (Suc m)
  let ?w = "snd (run_state (ir_on_snapshot (set_item ir_rx_item
       (\<lambda>it. it\<lparr>ii_detail := rx_progress_text (n + 1)\<rparr>))) (w\<lparr>ix_steps := 99 + 6 * n, ix_trace := ix_trace w @ [IrPoll (good_replies (98 + 6 * n))]\<rparr>))"
  have n: "n < 5" using Suc by simp
  have flag: "w\<lparr>ix_steps := s, ix_cancel_requested := False, ix_trace := tr\<rparr> = w\<lparr>ix_steps := s, ix_trace := tr\<rparr>"
     "w\<lparr>ix_steps := s, ix_cancel_requested := False\<rparr> = w\<lparr>ix_steps := s\<rparr>" for s tr
    using Suc.prems by (cases w; simp)+
  have pass: "receive_replies (good_ir_env draw) deadline n w =
    (if Suc n < 5 then receive_replies (good_ir_env draw) deadline (Suc n)
       (?w\<lparr>ix_steps := 102 + 6 * n, ix_now := ix_now w + 20000000\<rparr>)
     else receive_replies (good_ir_env draw) deadline (Suc n) ?w)" (is "_ = ?rhs")
    using Suc.prems n good_ir_verify [of n]
    by (subst receive_replies.simps)
      (simp add: poll_receiver_def ir_act_defs good_ir_simps Let_def rx_packet_count_def flag good_ir_short)
  have "\<exists>w'. ?rhs = (Some 5, w') \<and> \<not> ix_cancel_requested w'"
  proof (cases "Suc n < 5")
    case True
    then show ?thesis
      using Suc.hyps(1) [of "Suc n" "?w\<lparr>ix_steps := 102 + 6 * n, ix_now := ix_now w + 20000000\<rparr>"] Suc.hyps(2) Suc.prems
      by (simp add: ir_on_snapshot_def upd_def)
  next
    case False
    then have "n = 4" using n by simp
    then show ?thesis using Suc.prems
      by simp (subst receive_replies.simps, simp add: ir_act_defs good_ir_simps Let_def rx_packet_count_def)
  qed
  then show ?case unfolding pass .
qed

lemma good_ir_phase:
  assumes "\<not> ix_cancel_requested w" "ix_steps w = 93"
  shows "is_state (ix_snapshot (snd (run_state (ir_receive_phase (good_ir_env draw)) w))) = IR_PASSED"
proof -
  let ?e = "good_ir_env draw"
  let ?prelude = "do { ir_ask_service ?e; ir_record (IrListen True); ir_now ?e;
       ir_publish_receiving; ir_now ?e }"
  let ?w = "snd (run_state ?prelude w)"
  have w: "\<not> ix_cancel_requested ?w" "ix_steps ?w = 96"
    using assms by (simp_all add: ir_act_defs good_ir_simps ir_publish_receiving_def)
  obtain w' where w': "receive_replies ?e (ix_now ?w + 3500000000) 0 ?w = (Some 5, w')" "\<not> ix_cancel_requested w'"
    using good_ir_receives [of ?w 0 "ix_now ?w + 3500000000"] w by auto
  have "run_state (ir_receive_phase ?e) w = run_state (do { canceled \<leftarrow> ir_canceled ?e;
      if canceled then ir_publish_canceled else ir_publish_passed }) w'"
    using w'(1) by (simp add: ir_receive_phase_def ir_act_defs good_ir_simps rx_packet_count_def
       ir_publish_receiving_def)
  then show ?thesis
    using w'(2) by (simp add: ir_act_defs good_ir_simps ir_publish_passed_def)
qed

lemma good_ir_sequence:
  assumes "\<not> ix_cancel_requested w" "ix_steps w = 0"
  shows "is_state (ix_snapshot (snd (run_state (ir_sequence (good_ir_env draw) a [c1, c2, c3, c4]) w))) = IR_PASSED"
proof -
  let ?e = "good_ir_env draw"
  let ?w = "snd (run_state (do { ir_ask_service ?e; ir_ask_service ?e }) w)"
  have w: "\<not> ix_cancel_requested ?w" "ix_steps ?w = 2"
    using assms by (simp_all add: ir_act_defs good_ir_simps)
  obtain w1 where w1: "run_state (ir_send_all ?e a 0 [c1, c2, c3, c4]) ?w = (True, w1)"
      "\<not> ix_cancel_requested w1" "ix_steps w1 = 92"
    using good_ir_sends [OF w] by blast
  let ?w2 = "snd (run_state (ir_canceled ?e) w1)"
  have w2: "\<not> ix_cancel_requested ?w2" "ix_steps ?w2 = 93" "fst (run_state (ir_canceled ?e) w1) = False"
    using w1 by (simp_all add: ir_act_defs good_ir_simps)
  have "run_state (ir_sequence ?e a [c1, c2, c3, c4]) w = run_state (ir_receive_phase ?e) ?w2"
    unfolding ir_sequence_def using w1(1) w2(3)
    by (simp add: ir_ask_service_def ir_interact_def ret_def good_ir_simps case_prod_unfold del: ir_send_all.simps)
  then show ?thesis using good_ir_phase [OF w2(1,2)] by simp
qed

text \<open>A fixture that is present and answers F1..F5 takes the IR test to PASSED with both items
  passed, whatever address and commands are drawn; only if no draw is acceptable is there no
  result.\<close>

theorem good_ir_fixture_passes:
  "case start_ir (good_ir_env draw) initial_ir_fixture of
     None \<Rightarrow> (\<forall>n. \<not> good_address (word_of_nat (draw n)))
   | Some w' \<Rightarrow> is_state (ix_snapshot w') = IR_PASSED \<and>
       map ii_state (is_items (ix_snapshot w')) = [II_PASSED, II_PASSED]"
proof (cases "random_dut_address draw 0")
  case None
  then show ?thesis
    by (simp add: start_ir_def run_ir_def ie_draw_good random_dut_address_None [symmetric])
next
  case (Some r)
  obtain a k where r: "r = (a, k)" by fastforce
  obtain c1 c2 c3 c4 where c: "random_commands draw k = [c1, c2, c3, c4]"
    using length_random_commands [of draw k] by (auto simp: numeral_eq_Suc length_Suc_conv)
  let ?w = "snd (run_state (ir_sequence (good_ir_env draw) a [c1, c2, c3, c4]) (reset_ir initial_ir_fixture))"
  have start: "start_ir (good_ir_env draw) initial_ir_fixture = Some ?w"
    using Some r c by (simp add: start_ir_def run_ir_def ie_draw_good)
  have "is_state (ix_snapshot ?w) = IR_PASSED"
    by (rule good_ir_sequence) (simp_all add: reset_ir_def ir_act_defs initial_ir_fixture_def)
  moreover have "ir_ended a [c1, c2, c3, c4] (ix_trace initial_ir_fixture) ?w"
    using tripleD [OF ir_sequence_ends reset_ir_at] by blast
  ultimately show ?thesis
    by (auto simp: start ir_ended_def ir_has_failed_def ir_has_been_canceled_def ir_has_passed_def)
qed

end
