(* ===== verification/PrecheckTheorems.thy ===== *)
theory PrecheckTheorems
  imports Precheck IrFixtureTheorems CapRuns
begin

section \<open>PrecheckTheorems: the counts and the verdict of the pre-inspection\<close>

text \<open>
  A single check changes only what is shown of its item; the loop keeps the counts in step
  with the item states. From this follow the invariant of all reachable states, the return
  of every run whose fixture models end, and what a retry does to the progress count.
\<close>

subsection \<open>Checks leave states and counts alone\<close>

definition same_counts :: "pc_snapshot \<Rightarrow> pc_snapshot \<Rightarrow> bool" where
  "same_counts s t \<longleftrightarrow> map ck_state (ps_items t) = map ck_state (ps_items s) \<and>
     ps_state t = ps_state s \<and> ps_completed t = ps_completed s \<and> ps_passed t = ps_passed s \<and>
     ps_failed t = ps_failed s"

definition calm_check :: "'a pc_act \<Rightarrow> bool" where
  "calm_check m \<longleftrightarrow> (\<forall>w. same_counts (pc_snapshot w) (pc_snapshot (snd (run_state m w))) \<and>
     pc_steps w \<le> pc_steps (snd (run_state m w)))"

named_theorems calm_intros \<open>actions that leave the item states and the counts alone\<close>

lemma same_counts_refl [simp]: "same_counts s s"
  by (simp add: same_counts_def)

lemma same_counts_trans: "same_counts s t \<Longrightarrow> same_counts t u \<Longrightarrow> same_counts s u"
  by (simp add: same_counts_def)

lemma calm_checkD:
  "calm_check m \<Longrightarrow> run_state m w = (r, w') \<Longrightarrow>
     same_counts (pc_snapshot w) (pc_snapshot w') \<and> pc_steps w \<le> pc_steps w'"
  unfolding calm_check_def by (metis snd_conv)

lemma calm_bind_check [calm_intros]:
  assumes "calm_check m" "\<And>x. calm_check (f x)"
  shows "calm_check (m \<bind> f)"
  unfolding calm_check_def
proof (intro allI)
  fix w
  obtain x w1 where m: "run_state m w = (x, w1)" by fastforce
  obtain y w2 where f: "run_state (f x) w1 = (y, w2)" by fastforce
  show "same_counts (pc_snapshot w) (pc_snapshot (snd (run_state (m \<bind> f) w))) \<and>
     pc_steps w \<le> pc_steps (snd (run_state (m \<bind> f) w))"
    using calm_checkD [OF assms(1) m] calm_checkD [OF assms(2) f] m f
    by (auto intro: same_counts_trans)
qed

lemma calm_ret_check [calm_intros]: "calm_check (ret x)"
  by (simp add: calm_check_def ret_def)

lemma calm_ask_check [calm_intros]: "calm_check (ask f)"
  by (simp add: calm_check_def ask_def)

lemma calm_interact_check [calm_intros]: "calm_check (pc_interact e)"
  by (simp add: calm_check_def pc_interact_def)

lemma calm_sleep_check [calm_intros]: "calm_check (pc_sleep n)"
  by (simp add: calm_check_def pc_sleep_def upd_def)

lemma calm_if_check [calm_intros]:
  "calm_check m \<Longrightarrow> calm_check n \<Longrightarrow> calm_check (if b then m else n)"
  by simp

lemma calm_pair_check [calm_intros]:
  "(\<And>a b. calm_check (f a b)) \<Longrightarrow> calm_check (case p of (a, b) \<Rightarrow> f a b)"
  by (cases p) simp

lemma calm_pair_fun_check [calm_intros]:
  "(\<And>a b. calm_check (f a b c)) \<Longrightarrow> calm_check ((case p of (a, b) \<Rightarrow> f a b) c)"
  by (cases p) simp

lemma calm_option_check [calm_intros]:
  "calm_check m \<Longrightarrow> (\<And>x. calm_check (f x)) \<Longrightarrow> calm_check (case v of None \<Rightarrow> m | Some x \<Rightarrow> f x)"
  by (cases v) simp_all

lemma calm_let_check [calm_intros]: "calm_check (f v) \<Longrightarrow> calm_check (let x = v in f x)"
  by simp

lemma calm_run_state_check [calm_intros]:
  "calm_check a \<Longrightarrow> calm_check b \<Longrightarrow> calm_check c \<Longrightarrow> calm_check d \<Longrightarrow> calm_check f \<Longrightarrow>
     calm_check (case st of CX_IDLE \<Rightarrow> a | CX_RUNNING \<Rightarrow> b | CX_PASSED \<Rightarrow> c | CX_FAILED \<Rightarrow> d | CX_CANCELED \<Rightarrow> f)"
  by (cases st) simp_all

lemma calm_ir_state_check [calm_intros]:
  "calm_check a \<Longrightarrow> calm_check b \<Longrightarrow> calm_check c \<Longrightarrow> calm_check d \<Longrightarrow> calm_check f \<Longrightarrow>
     calm_check (case st of IR_WAITING \<Rightarrow> a | IR_RUNNING \<Rightarrow> b | IR_PASSED \<Rightarrow> c | IR_FAILED \<Rightarrow> d | IR_CANCELED \<Rightarrow> f)"
  by (cases st) simp_all

lemma map_state_update:
  "(\<And>it. ck_state (f it) = ck_state it) \<Longrightarrow> map ck_state (xs[i := f (xs ! i)]) = map ck_state xs"
  by (cases "i < length xs") (simp_all add: map_update list_update_same_conv list_update_beyond)

lemma calm_on_item_check [calm_intros]:
  "(\<And>it. ck_state (f it) = ck_state it) \<Longrightarrow> calm_check (pc_on_snapshot (on_item i f))"
  by (simp add: calm_check_def pc_on_snapshot_def upd_def on_item_def same_counts_def map_state_update)

lemma calm_report [calm_intros]: "calm_check (report i d p)"
  unfolding report_def by (intro calm_intros) simp

lemma calm_query [calm_intros]: "calm_check (pc_query e f)"
  unfolding pc_query_def by (intro calm_intros)

lemma calm_pc_canceled [calm_intros]: "calm_check (pc_canceled e)"
  unfolding pc_canceled_def by (intro calm_intros)

lemma calm_pc_clock [calm_intros]: "calm_check (pc_clock e)"
  unfolding pc_clock_def by (intro calm_intros)

lemma calm_await_frame [calm_intros]: "calm_check (State (await_frame e deadline))"
proof -
  have "same_counts (pc_snapshot w) (pc_snapshot (snd (await_frame e deadline w))) \<and>
      pc_steps w \<le> pc_steps (snd (await_frame e deadline w))" for w
  proof (induction e deadline w rule: await_frame.induct)
    case (1 e deadline w)
    obtain c w1 where w1: "run_state (pc_canceled e) w = (c, w1)" by fastforce
    obtain now w2 where w2: "run_state (pc_clock e) w1 = (now, w2)" by fastforce
    obtain fr w3 where w3: "run_state (pc_query e (pe_frame e)) w2 = (fr, w3)" by fastforce
    obtain u w4 where w4: "run_state (pc_sleep 20) w3 = (u, w4)" by (cases "run_state (pc_sleep 20) w3")
    note calm = calm_checkD [OF calm_pc_canceled w1] calm_checkD [OF calm_pc_clock w2]
      calm_checkD [OF calm_query w3] calm_checkD [OF calm_sleep_check w4]
    note IH = "1.IH" [OF refl w1 [symmetric] _ refl w2 [symmetric] _ refl w3 [symmetric]]
    show ?case
    proof (cases "c \<or> deadline \<le> now \<or> fr \<noteq> None")
      case True
      then show ?thesis using w1 w2 w3 calm
        by (subst await_frame.simps, subst (2) await_frame.simps)
          (auto simp: Let_def intro: same_counts_trans)
    next
      case False
      then have none: "fr = None" by (cases fr) auto
      have "await_frame e deadline w = await_frame e deadline w4"
        using w1 w2 w3 w4 False none by (subst await_frame.simps) simp
      moreover have "same_counts (pc_snapshot w) (pc_snapshot w4)" using calm by (meson same_counts_trans)
      ultimately show ?thesis using IH False none w4 calm by (auto intro: same_counts_trans)
    qed
  qed
  then show ?thesis by (simp add: calm_check_def)
qed

lemma calm_checks [calm_intros]:
  "calm_check (check_device_info e i)" "calm_check (check_hdmi e i)"
  "calm_check (run_usb_port_check e i bus p)" "calm_check (check_ethernet e i)"
  "calm_check (check_battery_status e i)" "calm_check (check_battery_level e i)"
  "calm_check (check_battery_voltage e i)" "calm_check (check_battery_current e i)"
  "calm_check (check_audio e i)" "calm_check (check_camera e i)" "calm_check (check_imu e i)"
  "calm_check (poll_cap_fixture e i)" "calm_check (poll_ir_fixture e i)"
  unfolding check_device_info_def check_hdmi_def run_usb_port_check_def check_ethernet_def
    check_battery_status_def check_battery_level_def check_battery_voltage_def
    check_battery_current_def check_audio_def check_camera_def check_imu_def poll_cap_fixture_def
    poll_ir_fixture_def
  by (intro calm_intros; simp)+

lemma calm_cap_fixture_check:
  "run_cap_fixture_check e i w = Some r \<Longrightarrow>
     same_counts (pc_snapshot w) (pc_snapshot (snd r)) \<and> pc_steps w \<le> pc_steps (snd r)"
proof (erule run_cap_fixture_check.raw_induct
    [where P = "\<lambda>e i w r. same_counts (pc_snapshot w) (pc_snapshot (snd r)) \<and> pc_steps w \<le> pc_steps (snd r)", rotated], goal_cases)
  case (1 run e i w r)
  obtain v w1 where w1: "run_state (poll_cap_fixture e i) w = (v, w1)" by fastforce
  show ?case
    using 1(2) 1(1) [of e i w1] w1 calm_checkD [OF calm_checks(12) w1]
    by (auto split: option.splits intro: same_counts_trans)
qed

lemma calm_ir_fixture_check:
  "run_ir_fixture_check e i w = Some r \<Longrightarrow>
     same_counts (pc_snapshot w) (pc_snapshot (snd r)) \<and> pc_steps w \<le> pc_steps (snd r)"
proof (erule run_ir_fixture_check.raw_induct
    [where P = "\<lambda>e i w r. same_counts (pc_snapshot w) (pc_snapshot (snd r)) \<and> pc_steps w \<le> pc_steps (snd r)", rotated], goal_cases)
  case (1 run e i w r)
  obtain v w1 where w1: "run_state (poll_ir_fixture e i) w = (v, w1)" by fastforce
  show ?case
    using 1(2) 1(1) [of e i w1] w1 calm_checkD [OF calm_checks(13) w1]
    by (auto split: option.splits intro: same_counts_trans)
qed

lemma run_check_calm:
  assumes "run_check e i w = Some (passed, w')"
  shows "same_counts (pc_snapshot w) (pc_snapshot w')"
  using assms calm_checks calm_cap_fixture_check calm_ir_fixture_check
  unfolding run_check_def calm_check_def
  by (auto split: if_splits) (metis snd_conv)+

subsection \<open>The loop over the items\<close>

definition states_of :: "pc_snapshot \<Rightarrow> check_state list" where
  "states_of s = map ck_state (ps_items s)"

definition skipped_index :: "precheck_env \<Rightarrow> nat \<Rightarrow> bool" where
  "skipped_index e j \<longleftrightarrow> skip_camera_and_imu e \<and> (j = camera_item \<or> j = imu_item)"

text \<open>The counts against the item states; \<open>k\<close> is what the skipped items have added.\<close>

definition counted :: "nat \<Rightarrow> pc_snapshot \<Rightarrow> bool" where
  "counted k s \<longleftrightarrow>
     ps_passed s = word_of_nat (count_list (states_of s) PC_PASSED) \<and>
     ps_failed s = word_of_nat (count_list (states_of s) PC_FAILED) \<and>
     ps_completed s = word_of_nat (count_list (states_of s) PC_PASSED + count_list (states_of s) PC_FAILED + k)"

definition loop_inv :: "precheck_env \<Rightarrow> nat \<Rightarrow> nat \<Rightarrow> pc_snapshot \<Rightarrow> bool" where
  "loop_inv e k i s \<longleftrightarrow> length (states_of s) = 14 \<and> counted k s \<and> ps_state s = PR_RUNNING \<and>
     (\<forall>j<14. states_of s ! j = PC_SKIPPED \<longleftrightarrow> skipped_index e j) \<and>
     set (states_of s) \<subseteq> {PC_PENDING, PC_PASSED, PC_FAILED, PC_SKIPPED} \<and>
     (\<forall>j<i. states_of s ! j \<noteq> PC_PENDING)"

definition canceled_inv :: "precheck_env \<Rightarrow> nat \<Rightarrow> pc_snapshot \<Rightarrow> bool" where
  "canceled_inv e k s \<longleftrightarrow> length (states_of s) = 14 \<and> counted k s \<and> ps_state s = PR_CANCELED \<and>
     (\<forall>j<14. states_of s ! j = PC_SKIPPED \<longleftrightarrow> skipped_index e j) \<and>
     set (states_of s) \<subseteq> {PC_PENDING, PC_PASSED, PC_FAILED, PC_SKIPPED, PC_CANCELED} \<and>
     count_list (states_of s) PC_CANCELED \<le> 1"

lemma count_list_update:
  "i < length xs \<Longrightarrow> count_list (xs[i := x]) y + (if xs ! i = y then 1 else 0) =
     count_list xs y + (if x = y then 1 else 0)"
proof (induction xs arbitrary: i)
  case (Cons a xs)
  show ?case using Cons.IH [of "i - 1"] Cons.prems by (cases i) (auto split: if_splits)
qed simp

lemma count_list_absent: "x \<notin> set xs \<Longrightarrow> count_list xs x = 0"
  by (induction xs) auto

lemma length_make_items: "length make_items = 14"
  by (simp add: make_items_def)

lemma same_counts_states: "same_counts s t \<Longrightarrow> states_of t = states_of s"
  by (simp add: same_counts_def states_of_def)

lemma loop_inv_calm: "same_counts s t \<Longrightarrow> loop_inv e k i s \<Longrightarrow> loop_inv e k i t"
  by (auto simp: loop_inv_def counted_def same_counts_def states_of_def)

text \<open>The item under way is the pending one; what the check leaves is judged or canceled.\<close>

lemma begun_states:
  assumes "loop_inv e k i s" "i < 14" "same_counts (begin_check i s) t"
  shows "states_of t = (states_of s)[i := PC_RUNNING] \<and> length (ps_items t) = 14 \<and>
     ps_state t = PR_RUNNING \<and> ps_completed t = ps_completed s \<and> ps_passed t = ps_passed s \<and>
     ps_failed t = ps_failed s"
proof -
  have "length (ps_items s) = 14" using assms(1) by (simp add: loop_inv_def states_of_def)
  then have "states_of (begin_check i s) = (states_of s)[i := PC_RUNNING]"
    using assms(2) by (simp add: begin_check_def states_of_def on_item_def map_update)
  then show ?thesis
    using assms(1) same_counts_states [OF assms(3)] assms(3)
    by (auto simp: same_counts_def begin_check_def on_item_def loop_inv_def states_of_def dest: arg_cong [where f = length])
qed

lemma not_skipped_pending:
  assumes "loop_inv e k i s" "i < 14" "states_of s ! i = PC_PENDING"
  shows "\<not> skipped_index e i"
  using assms unfolding loop_inv_def by (metis check_state.distinct(9))

lemma finish_check_inv:
  assumes inv: "loop_inv e k i s" and i: "i < 14" and pending: "states_of s ! i = PC_PENDING"
    and same: "same_counts (begin_check i s) t"
  shows "loop_inv e k (i + 1) (finish_check i passed t)"
proof -
  note t = begun_states [OF inv i same]
  let ?r = "if passed then PC_PASSED else PC_FAILED"
  have len: "length (states_of s) = 14" using inv by (simp add: loop_inv_def)
  have states: "states_of (finish_check i passed t) = (states_of s)[i := ?r]"
    using t i by (simp add: finish_check_def states_of_def on_item_def map_update)
  have "counted k (finish_check i passed t)"
    using t inv count_list_update [of i "states_of s" ?r PC_PASSED]
      count_list_update [of i "states_of s" ?r PC_FAILED] i pending len
    unfolding counted_def states
    by (auto simp: finish_check_def on_item_def loop_inv_def counted_def)
  moreover have "(states_of s)[i := ?r] ! j = PC_SKIPPED \<longleftrightarrow> skipped_index e j" if "j < 14" for j
    using that inv len not_skipped_pending [OF inv i pending] by (cases "j = i") (auto simp: loop_inv_def)
  moreover have "(states_of s)[i := ?r] ! j \<noteq> PC_PENDING" if "j < i + 1" for j
    using that inv len i by (cases "j = i") (auto simp: loop_inv_def)
  moreover have "set ((states_of s)[i := ?r]) \<subseteq> {PC_PENDING, PC_PASSED, PC_FAILED, PC_SKIPPED}"
    using inv set_update_subset_insert [of "states_of s" i ?r] by (auto simp: loop_inv_def)
  ultimately show ?thesis
    unfolding loop_inv_def states using len t by (auto simp: finish_check_def on_item_def)
qed

lemma cancel_check_inv:
  assumes inv: "loop_inv e k i s" and i: "i < 14" and pending: "states_of s ! i = PC_PENDING"
    and same: "same_counts (begin_check i s) t"
  shows "canceled_inv e k (cancel_check i t)"
proof -
  note t = begun_states [OF inv i same]
  have len: "length (states_of s) = 14" using inv by (simp add: loop_inv_def)
  have states: "states_of (cancel_check i t) = (states_of s)[i := PC_CANCELED]"
    using t i by (simp add: cancel_check_def states_of_def on_item_def map_update)
  have "count_list (states_of s) PC_CANCELED = 0"
    using inv by (intro count_list_absent) (auto simp: loop_inv_def)
  then have "count_list ((states_of s)[i := PC_CANCELED]) PC_CANCELED \<le> 1"
    using count_list_update [of i "states_of s" PC_CANCELED PC_CANCELED] i len pending by simp
  moreover have "counted k (cancel_check i t)"
    using t inv count_list_update [of i "states_of s" PC_CANCELED PC_PASSED]
      count_list_update [of i "states_of s" PC_CANCELED PC_FAILED] i pending len
    unfolding counted_def states
    by (auto simp: cancel_check_def on_item_def loop_inv_def counted_def)
  moreover have "(states_of s)[i := PC_CANCELED] ! j = PC_SKIPPED \<longleftrightarrow> skipped_index e j" if "j < 14" for j
    using that inv len not_skipped_pending [OF inv i pending] by (cases "j = i") (auto simp: loop_inv_def)
  moreover have "set ((states_of s)[i := PC_CANCELED]) \<subseteq> {PC_PENDING, PC_PASSED, PC_FAILED, PC_SKIPPED, PC_CANCELED}"
    using inv set_update_subset_insert [of "states_of s" i PC_CANCELED] by (auto simp: loop_inv_def)
  ultimately show ?thesis
    unfolding canceled_inv_def states using len t by (auto simp: cancel_check_def on_item_def)
qed

lemma canceled_between_inv:
  "loop_inv e k i s \<Longrightarrow> canceled_inv e k (s\<lparr>ps_state := PR_CANCELED, ps_headline := h\<rparr>)"
  by (auto simp: loop_inv_def canceled_inv_def counted_def states_of_def)
    (subst count_list_absent; auto)

lemma run_state_pc_canceled: "run_state (pc_canceled e) w = (c, w') \<Longrightarrow>
    c = pc_cancel_requested w' \<and> pc_snapshot w' = pc_snapshot w \<and> pc_steps w' = Suc (pc_steps w)"
  by (auto simp: pc_canceled_def pc_interact_def ask_def)

lemma check_items_ends:
  assumes "check_items e i w = Some (over, w')" "loop_inv e k i (pc_snapshot w)" "i \<le> 14"
  shows "if over then loop_inv e k 14 (pc_snapshot w')
    else canceled_inv e k (pc_snapshot w') \<and> pc_cancel_requested w'"
  using assms
proof (induction e i w rule: check_items.induct)
  case (1 e i w)
  show ?case
  proof (cases "i < length make_items")
    case False
    then have "check_items e i w = Some (True, w)" by (simp add: check_items.simps [of e i w])
    then show ?thesis using 1 False by (auto simp: length_make_items)
  next
    case i: True
    then have i14: "i < 14" by (simp add: length_make_items)
    obtain c w1 where w1: "run_state (pc_canceled e) w = (c, w1)" by fastforce
    note w1' = run_state_pc_canceled [OF w1]
    have inv1: "loop_inv e k i (pc_snapshot w1)" using 1 w1' by simp
    have st: "states_of (pc_snapshot w1) ! i = ck_state (ps_items (pc_snapshot w1) ! i)"
      using inv1 i14 by (simp add: states_of_def loop_inv_def)
    consider (c) c | (other) "\<not> c" "states_of (pc_snapshot w1) ! i \<noteq> PC_PENDING"
      | (pending) "\<not> c" "states_of (pc_snapshot w1) ! i = PC_PENDING" by blast
    then show ?thesis
    proof cases
      case c
      then have "\<not> over" "w' = snd (run_state (pc_publish PR_CANCELED zh_check_canceled) w1)"
        using 1(3) i w1 by (simp_all add: check_items.simps [of e i w])
      then show ?thesis using c w1' canceled_between_inv [OF inv1]
        by (simp add: pc_publish_def pc_on_snapshot_def upd_def)
    next
      case other
      then have "loop_inv e k (i + 1) (pc_snapshot w1)"
        using inv1 by (auto simp: loop_inv_def less_Suc_eq)
      moreover have "check_items e (i + 1) w1 = Some (over, w')"
        using 1(3) i w1 other st by (simp add: check_items.simps [of e i w])
      ultimately show ?thesis using 1(1) [OF i refl w1 [symmetric]] other st i14 by simp
    next
      case pending
      let ?b = "snd (run_state (pc_on_snapshot (begin_check i)) w1)"
      obtain passed w2 where w2: "run_check e i ?b = Some (passed, w2)"
        using 1(3) i w1 pending st by (auto simp: check_items.simps [of e i w] split: option.splits)
      obtain d w3 where w3: "run_state (pc_canceled e) w2 = (d, w3)" by fastforce
      note w3' = run_state_pc_canceled [OF w3]
      have same: "same_counts (begin_check i (pc_snapshot w1)) (pc_snapshot w3)"
        using run_check_calm [OF w2] w3' by (simp add: pc_on_snapshot_def upd_def)
      show ?thesis
      proof (cases d)
        case True
        then have "\<not> over" "w' = snd (run_state (pc_on_snapshot (cancel_check i)) w3)"
          using 1(3) i w1 pending st w2 w3 by (simp_all add: check_items.simps [of e i w])
        then show ?thesis using True w3' cancel_check_inv [OF inv1 i14 pending(2) same]
          by (simp add: pc_on_snapshot_def upd_def)
      next
        case False
        let ?f = "snd (run_state (pc_on_snapshot (finish_check i passed)) w3)"
        have "check_items e (i + 1) ?f = Some (over, w')"
          using 1(3) i w1 pending st w2 w3 False by (simp add: check_items.simps [of e i w])
        moreover have "loop_inv e k (i + 1) (pc_snapshot ?f)"
          using finish_check_inv [OF inv1 i14 pending(2) same] by (simp add: pc_on_snapshot_def upd_def)
        ultimately show ?thesis
          using 1(2) [OF i refl w1 [symmetric] _ _ w2 refl refl w3 [symmetric]] pending st False i14 by simp
      qed
    qed
  qed
qed

subsection \<open>Runs, retries and reachable states\<close>

definition skips :: "precheck_env \<Rightarrow> nat" where
  "skips e = (if skip_camera_and_imu e then 2 else 0)"

definition ready_inv :: "precheck_env \<Rightarrow> nat \<Rightarrow> pc_snapshot \<Rightarrow> bool" where
  "ready_inv e k s \<longleftrightarrow> length (states_of s) = 14 \<and> counted k s \<and> ps_state s = PR_RUNNING \<and>
     set (states_of s) \<subseteq> {PC_PENDING, PC_PASSED, PC_SKIPPED} \<and>
     (\<forall>j<14. if skipped_index e j then states_of s ! j \<in> {PC_PENDING, PC_SKIPPED}
            else states_of s ! j \<noteq> PC_SKIPPED)"

definition done_inv :: "precheck_env \<Rightarrow> nat \<Rightarrow> pc_snapshot \<Rightarrow> bool" where
  "done_inv e k s \<longleftrightarrow> length (states_of s) = 14 \<and> counted k s \<and>
     (\<forall>j<14. states_of s ! j = PC_SKIPPED \<longleftrightarrow> skipped_index e j) \<and>
     set (states_of s) \<subseteq> {PC_PASSED, PC_FAILED, PC_SKIPPED} \<and>
     ps_state s = (if PC_FAILED \<in> set (states_of s) then PR_FAILED else PR_PASSED)"

definition idle_inv :: "pc_snapshot \<Rightarrow> bool" where
  "idle_inv s \<longleftrightarrow> states_of s = replicate 14 PC_PENDING \<and> counted 0 s \<and> ps_state s = PR_IDLE"

lemma states_of_skip:
  "i < length (states_of s) \<Longrightarrow> states_of (skip_item i s) = (states_of s)[i := PC_SKIPPED]"
  by (simp add: skip_item_def on_item_def states_of_def map_update)

lemma skip_item_counted:
  assumes "counted k s" "i < length (states_of s)" "states_of s ! i \<in> {PC_PENDING, PC_SKIPPED}"
  shows "counted (k + 1) (skip_item i s)"
  using assms count_list_update [of i "states_of s" PC_SKIPPED PC_PASSED]
    count_list_update [of i "states_of s" PC_SKIPPED PC_FAILED]
  unfolding counted_def states_of_skip [OF assms(2)]
  by (auto simp: skip_item_def on_item_def split: if_splits)

lemma ready_skipped:
  assumes "ready_inv e k s"
  shows "loop_inv e (k + skips e) 0 (if skip_camera_and_imu e
     then (skip_item imu_item \<circ> skip_item camera_item) s else s)"
proof (cases "skip_camera_and_imu e")
  case False
  then show ?thesis using assms by (auto simp: ready_inv_def loop_inv_def skips_def skipped_index_def)
next
  case lite: True
  let ?s = "skip_item camera_item s"
  have pending: "j < 14 \<Longrightarrow> skipped_index e j \<Longrightarrow> states_of s ! j \<in> {PC_PENDING, PC_SKIPPED}" for j
    using assms by (auto simp: ready_inv_def)
  have s: "length (states_of s) = 14" "counted k s" "states_of s ! 12 \<in> {PC_PENDING, PC_SKIPPED}"
      "states_of s ! 13 \<in> {PC_PENDING, PC_SKIPPED}"
    using assms lite pending [of 12] pending [of 13]
    by (simp_all add: ready_inv_def skipped_index_def item_index_defs)
  have st1: "states_of ?s = (states_of s)[12 := PC_SKIPPED]"
    using s by (simp add: states_of_skip item_index_defs)
  have st2: "states_of (skip_item imu_item ?s) = (states_of s)[12 := PC_SKIPPED, 13 := PC_SKIPPED]"
    using s st1 by (simp add: states_of_skip item_index_defs)
  have "counted (k + 1 + 1) (skip_item imu_item ?s)"
    by (intro skip_item_counted) (use s st1 in \<open>auto simp: item_index_defs\<close>)
  moreover have "(states_of s)[12 := PC_SKIPPED, 13 := PC_SKIPPED] ! j = PC_SKIPPED \<longleftrightarrow> skipped_index e j"
    if "j < 14" for j
    using that assms lite s(1)
    by (auto simp: ready_inv_def skipped_index_def item_index_defs nth_list_update)
  moreover have "set ((states_of s)[12 := PC_SKIPPED, 13 := PC_SKIPPED]) \<subseteq>
      {PC_PENDING, PC_PASSED, PC_FAILED, PC_SKIPPED}"
    using assms unfolding ready_inv_def by (intro subset_trans [OF set_update_subset_insert] insert_subsetI)
      (auto dest!: subsetD [OF set_update_subset_insert])
  ultimately show ?thesis
    unfolding loop_inv_def using lite s st2 assms
    by (simp add: skips_def ready_inv_def) (simp add: skip_item_def on_item_def)
qed

lemma failed_zero:
  assumes "counted k s" "length (states_of s) = 14"
  shows "ps_failed s = 0 \<longleftrightarrow> PC_FAILED \<notin> set (states_of s)"
proof -
  have "count_list (states_of s) PC_FAILED < 2 ^ 64"
    using count_le_length [of "states_of s" PC_FAILED] assms(2) by simp
  then have "ps_failed s = 0 \<longleftrightarrow> count_list (states_of s) PC_FAILED = 0"
    using assms(1) by (simp add: counted_def word_of_nat_eq_0_iff) (auto dest: dvd_imp_le)
  then show ?thesis by (simp add: count_list_0_iff)
qed

lemma run_precheck_ends:
  assumes ready: "ready_inv e k (pc_snapshot w)" and run: "run_precheck e w = Some w'"
  shows "done_inv e (k + skips e) (pc_snapshot w') \<or>
    (canceled_inv e (k + skips e) (pc_snapshot w') \<and> pc_cancel_requested w')"
proof -
  let ?w1 = "if skip_camera_and_imu e
    then snd (run_state (pc_on_snapshot (skip_item imu_item \<circ> skip_item camera_item)) w) else w"
  obtain over w2 where w2: "check_items e 0 ?w1 = Some (over, w2)"
    and w': "w' = (if over then snd (run_state publish_verdict w2) else w2)"
    using run by (auto simp: run_precheck_def Let_def split: option.splits)
  have "loop_inv e (k + skips e) 0 (pc_snapshot ?w1)"
    using ready_skipped [OF ready] by (simp add: pc_on_snapshot_def upd_def split: if_splits)
  note end2 = check_items_ends [OF w2 this]
  show ?thesis
  proof (cases over)
    case False
    then show ?thesis using end2 w' by simp
  next
    case True
    then have inv: "loop_inv e (k + skips e) 14 (pc_snapshot w2)" using end2 by simp
    then have "PC_PENDING \<notin> set (states_of (pc_snapshot w2))"
      unfolding loop_inv_def by (metis in_set_conv_nth)
    then have sub: "set (states_of (pc_snapshot w2)) \<subseteq> {PC_PASSED, PC_FAILED, PC_SKIPPED}"
      using inv by (auto simp: loop_inv_def)
    have "states_of (pc_snapshot w') = states_of (pc_snapshot w2)"
      using w' True by (simp add: publish_verdict_def pc_on_snapshot_def upd_def states_of_def)
    moreover have "ps_state (pc_snapshot w') = (if ps_failed (pc_snapshot w2) = 0 then PR_PASSED else PR_FAILED)"
        "counted (k + skips e) (pc_snapshot w')"
      using w' True inv
      by (simp_all add: publish_verdict_def pc_on_snapshot_def upd_def loop_inv_def counted_def states_of_def)
    ultimately have "done_inv e (k + skips e) (pc_snapshot w')"
      using inv sub failed_zero [of "k + skips e" "pc_snapshot w2"] by (simp add: done_inv_def loop_inv_def)
    then show ?thesis ..
  qed
qed

lemma make_items_states: "map ck_state make_items = replicate 14 PC_PENDING"
proof -
  have "replicate 14 PC_PENDING = [PC_PENDING, PC_PENDING, PC_PENDING, PC_PENDING, PC_PENDING,
      PC_PENDING, PC_PENDING, PC_PENDING, PC_PENDING, PC_PENDING, PC_PENDING, PC_PENDING, PC_PENDING, PC_PENDING]"
    by (simp add: numeral_eq_Suc)
  then show ?thesis by (simp add: make_items_def make_item_def)
qed

lemma count_list_replicate: "count_list (replicate n x) y = (if x = y then n else 0)"
  by (induction n) auto

lemma reset_ready: "ready_inv e 0 (reset_snapshot s)"
  by (auto simp: ready_inv_def reset_snapshot_def states_of_def make_items_states counted_def
      count_list_replicate)

lemma retry_states:
  "map ck_state (map retry_item its) = map (\<lambda>st. if st = PC_FAILED then PC_PENDING else st) (map ck_state its)"
  by (simp add: retry_item_def)

lemma count_retry:
  "count_list (map (\<lambda>st. if st = PC_FAILED then PC_PENDING else st) sts) PC_PASSED = count_list sts PC_PASSED"
  "count_list (map (\<lambda>st. if st = PC_FAILED then PC_PENDING else st) sts) PC_FAILED = 0"
  by (induction sts) auto

lemma length_filter_failed:
  "length (filter (\<lambda>it. ck_state it = PC_FAILED) its) = count_list (map ck_state its) PC_FAILED"
  by (induction its) auto

lemma states_of_reset_failed:
  "states_of (reset_failed s) = map (\<lambda>st. if st = PC_FAILED then PC_PENDING else st) (states_of s)"
  unfolding states_of_def retry_states [symmetric] by (simp add: reset_failed_def Let_def del: map_map)

lemma retry_ready:
  assumes "done_inv e k s"
  shows "ready_inv e k (reset_failed s)"
proof -
  note states = states_of_reset_failed [of s]
  have "counted k (reset_failed s)"
    using assms unfolding counted_def states count_retry
    by (simp add: done_inv_def counted_def reset_failed_def Let_def length_filter_failed states_of_def)
  then show ?thesis
    using assms unfolding ready_inv_def states
    by (auto simp: done_inv_def reset_failed_def Let_def)
qed

text \<open>
  What the user interface can make of the pre-inspection, one operation at a time; \<open>r\<close> counts
  the runs since the last start, the retries included.
\<close>

inductive pc_runs :: "precheck_env \<Rightarrow> nat \<Rightarrow> precheck \<Rightarrow> bool" for e where
  runs_initial: "pc_runs e 0 (initial_precheck e)"
| runs_start: "pc_runs e r w \<Longrightarrow> start_precheck e w = Some w' \<Longrightarrow>
    pc_runs e (if ps_state (pc_snapshot w) = PR_RUNNING then r else 1) w'"
| runs_retry: "pc_runs e r w \<Longrightarrow> retry_failed e w = Some w' \<Longrightarrow>
    pc_runs e (if ps_state (pc_snapshot w) \<in> {PR_FAILED, PR_PASSED} then r + 1 else r) w'"
| runs_cancel: "pc_runs e r w \<Longrightarrow> pc_runs e r (cancel_precheck w)"
| runs_poweroff: "pc_runs e r w \<Longrightarrow> run_state (safe_poweroff e) w = (x, w') \<Longrightarrow> pc_runs e r w'"
| runs_reboot: "pc_runs e r w \<Longrightarrow> run_state (safe_reboot e) w = (x, w') \<Longrightarrow> pc_runs e r w'"

definition at_rest :: "precheck_env \<Rightarrow> nat \<Rightarrow> pc_snapshot \<Rightarrow> bool" where
  "at_rest e r s \<longleftrightarrow> (r = 0 \<and> idle_inv s) \<or> done_inv e (r * skips e) s \<or> canceled_inv e (r * skips e) s"

lemma at_rest_not_running: "at_rest e r s \<Longrightarrow> ps_state s \<noteq> PR_RUNNING"
  by (auto simp: at_rest_def idle_inv_def done_inv_def canceled_inv_def split: if_splits)

lemma at_rest_headline: "at_rest e r (s\<lparr>ps_headline := h\<rparr>) \<longleftrightarrow> at_rest e r s"
  by (simp add: at_rest_def idle_inv_def done_inv_def canceled_inv_def counted_def states_of_def)

lemma start_at_rest:
  assumes "at_rest e r (pc_snapshot w)" "start_precheck e w = Some w'"
  shows "at_rest e 1 (pc_snapshot w')"
proof -
  have "run_precheck e (w\<lparr>pc_snapshot := reset_snapshot (pc_snapshot w), pc_cancel_requested := False\<rparr>) = Some w'"
    using assms at_rest_not_running [OF assms(1)] by (simp add: start_precheck_def)
  then show ?thesis
    using run_precheck_ends [of e 0 "w\<lparr>pc_snapshot := reset_snapshot (pc_snapshot w), pc_cancel_requested := False\<rparr>" w']
      reset_ready [of e "pc_snapshot w"] by (auto simp: at_rest_def)
qed

lemma retry_at_rest:
  assumes "at_rest e r (pc_snapshot w)" "retry_failed e w = Some w'"
    "ps_state (pc_snapshot w) = PR_FAILED \<or> ps_state (pc_snapshot w) = PR_PASSED"
  shows "at_rest e (r + 1) (pc_snapshot w')"
proof -
  have "done_inv e (r * skips e) (pc_snapshot w)"
    using assms(1,3) by (auto simp: at_rest_def idle_inv_def canceled_inv_def)
  then have "ready_inv e (r * skips e) (reset_failed (pc_snapshot w))" by (rule retry_ready)
  moreover have "run_precheck e (w\<lparr>pc_snapshot := reset_failed (pc_snapshot w), pc_cancel_requested := False\<rparr>) = Some w'"
    using assms(2,3) by (auto simp: retry_failed_def)
  ultimately have "done_inv e ((r + 1) * skips e) (pc_snapshot w') \<or> canceled_inv e ((r + 1) * skips e) (pc_snapshot w')"
    using run_precheck_ends [of e "r * skips e" "w\<lparr>pc_snapshot := reset_failed (pc_snapshot w), pc_cancel_requested := False\<rparr>" w']
    by (auto simp: algebra_simps)
  then show ?thesis unfolding at_rest_def by blast
qed

lemma power_snapshot:
  assumes "run_state (safe_poweroff e) w = (x, w') \<or> run_state (safe_reboot e) w = (x, w')"
  shows "\<exists>h. pc_snapshot w' = (pc_snapshot w)\<lparr>ps_headline := h\<rparr>"
proof -
  have same: "\<exists>h. s = s\<lparr>ps_headline := h\<rparr>" for s :: pc_snapshot
    by (rule exI [of _ "ps_headline s"]) simp
  have shown: "\<exists>h. s\<lparr>ps_headline := t\<rparr> = s\<lparr>ps_headline := h\<rparr>" for s :: pc_snapshot and t
    by (rule exI) (rule refl)
  show ?thesis using assms
    by (elim disjE; cases "fst (pe_call e (pc_steps w))")
      (simp_all add: safe_poweroff_def safe_reboot_def pc_query_def pc_interact_def ret_def pc_on_snapshot_def
        upd_def case_prod_unfold, (clarsimp simp: same shown)+)
qed

lemma reachable_at_rest: "pc_runs e r w \<Longrightarrow> at_rest e r (pc_snapshot w)"
proof (induction rule: pc_runs.induct)
  case runs_initial
  then show ?case
    by (auto simp: at_rest_def idle_inv_def initial_precheck_def states_of_def make_items_states counted_def
        count_list_replicate)
next
  case (runs_start r w w')
  then show ?case using at_rest_not_running [OF runs_start(3)] start_at_rest by simp
next
  case (runs_retry r w w')
  then show ?case using retry_at_rest [OF runs_retry(3,2)] by (auto simp: retry_failed_def)
next
  case (runs_cancel r w)
  then show ?case using at_rest_not_running [OF runs_cancel(2)] by (simp add: cancel_precheck_def Let_def)
next
  case (runs_poweroff r w x w')
  then obtain h where "pc_snapshot w' = (pc_snapshot w)\<lparr>ps_headline := h\<rparr>" using power_snapshot by blast
  then show ?case using runs_poweroff(3) by (simp add: at_rest_headline)
next
  case (runs_reboot r w x w')
  then obtain h where "pc_snapshot w' = (pc_snapshot w)\<lparr>ps_headline := h\<rparr>" using power_snapshot by blast
  then show ?case using runs_reboot(3) by (simp add: at_rest_headline)
qed

subsection \<open>Properties\<close>

definition passed_states :: "precheck_env \<Rightarrow> check_state list" where
  "passed_states e = map (\<lambda>j. if skipped_index e j then PC_SKIPPED else PC_PASSED) [0..<14]"

lemma done_passed_states:
  assumes "done_inv e k s" "PC_FAILED \<notin> set (states_of s)"
  shows "states_of s = passed_states e"
proof (rule nth_equalityI)
  show "length (states_of s) = length (passed_states e)"
    using assms(1) by (simp add: done_inv_def passed_states_def)
  fix j assume "j < length (states_of s)"
  then have j: "j < 14" "states_of s ! j \<in> set (states_of s)" using assms(1) by (auto simp: done_inv_def)
  have "set (states_of s) \<subseteq> {PC_PASSED, PC_FAILED, PC_SKIPPED}" using assms(1) by (simp add: done_inv_def)
  then have "states_of s ! j = PC_PASSED \<or> states_of s ! j = PC_SKIPPED"
    using subsetD [OF _ j(2)] j(2) assms(2) by (metis insertE singletonD)
  moreover have "states_of s ! j = PC_SKIPPED \<longleftrightarrow> skipped_index e j"
    using j(1) assms(1) by (simp add: done_inv_def)
  ultimately show "states_of s ! j = passed_states e ! j"
    using j(1) by (auto simp: passed_states_def)
qed

lemma count_list_card: "count_list xs x = card {j. j < length xs \<and> xs ! j = x}"
  by (simp add: count_list_eq_length_filter length_filter_conv_card) metis

text \<open>The skipped items are those the model of the device does not have.\<close>

lemma skipped_count:
  assumes "length (states_of s) = 14" "\<forall>j<14. states_of s ! j = PC_SKIPPED \<longleftrightarrow> skipped_index e j"
  shows "count_list (states_of s) PC_SKIPPED = skips e"
proof -
  have "{j. j < length (states_of s) \<and> states_of s ! j = PC_SKIPPED} = (if skip_camera_and_imu e then {12, 13} else {})"
    using assms by (auto simp: skipped_index_def item_index_defs split: if_splits)
  then show ?thesis by (simp add: count_list_card skips_def)
qed

text \<open>C4: Whatever the operator does - starts, cancels, retries, tries to power off - and however
  the services answer: between operations no pre-inspection is left running, the counts of passed
  and failed items are those of the item states, and the progress count is the number of passed
  and failed items and, once for each of the \<open>r\<close> runs since the last start, the skipped ones. So
  after a start it is the number of items decided, and it is too high by the skipped items for
  every retry after that. The verdict is right: PASSED exactly with every item passed that the
  model of the device has, FAILED only with all items decided and one failed, CANCELED with at
  most one item canceled and none left running.\<close>

theorem precheck_consistent:
  assumes "pc_runs e r w"
  shows "let s = pc_snapshot w; states = states_of s; n = count_list states in
    ps_passed s = word_of_nat (n PC_PASSED) \<and> ps_failed s = word_of_nat (n PC_FAILED) \<and>
    ps_completed s = word_of_nat (n PC_PASSED + n PC_FAILED + r * n PC_SKIPPED) \<and>
    (case ps_state s of
       PR_IDLE \<Rightarrow> r = 0 \<and> states = replicate 14 PC_PENDING
     | PR_RUNNING \<Rightarrow> False
     | PR_PASSED \<Rightarrow> states = passed_states e
     | PR_FAILED \<Rightarrow> PC_FAILED \<in> set states \<and> set states \<subseteq> {PC_PASSED, PC_FAILED, PC_SKIPPED}
     | PR_CANCELED \<Rightarrow> n PC_CANCELED \<le> 1 \<and> PC_RUNNING \<notin> set states)"
proof -
  let ?s = "pc_snapshot w"
  from reachable_at_rest [OF assms]
  consider "r = 0" "idle_inv ?s" | "done_inv e (r * skips e) ?s" | "canceled_inv e (r * skips e) ?s"
    by (auto simp: at_rest_def)
  then show ?thesis
  proof cases
    case 1
    then show ?thesis by (auto simp: idle_inv_def counted_def Let_def)
  next
    case 2
    then have "ps_state ?s = (if PC_FAILED \<in> set (states_of ?s) then PR_FAILED else PR_PASSED)"
      "counted (r * skips e) ?s" "set (states_of ?s) \<subseteq> {PC_PASSED, PC_FAILED, PC_SKIPPED}"
      "count_list (states_of ?s) PC_SKIPPED = skips e"
      by (simp_all add: done_inv_def skipped_count)
    then show ?thesis using done_passed_states [OF 2]
      by (cases "PC_FAILED \<in> set (states_of ?s)") (auto simp: Let_def counted_def)
  next
    case 3
    then have "count_list (states_of ?s) PC_SKIPPED = skips e" by (simp add: canceled_inv_def skipped_count)
    then show ?thesis using 3 by (auto simp: canceled_inv_def counted_def Let_def)
  qed
qed

subsection \<open>The progress count and retries\<close>

lemma three_counts:
  "set xs \<subseteq> {PC_PASSED, PC_FAILED, PC_SKIPPED} \<Longrightarrow>
     count_list xs PC_PASSED + count_list xs PC_FAILED + count_list xs PC_SKIPPED = length xs"
  by (induction xs) auto

lemma done_decided:
  assumes "done_inv e k s" "done_inv e k' s'"
  shows "count_list (states_of s) PC_PASSED + count_list (states_of s) PC_FAILED =
    count_list (states_of s') PC_PASSED + count_list (states_of s') PC_FAILED"
proof -
  have "{j. j < 14 \<and> states_of s ! j = PC_SKIPPED} = {j. j < 14 \<and> states_of s' ! j = PC_SKIPPED}"
    using assms by (auto simp: done_inv_def)
  then have "count_list (states_of s) PC_SKIPPED = count_list (states_of s') PC_SKIPPED"
    using assms by (simp add: count_list_card done_inv_def)
  then show ?thesis
    using three_counts [of "states_of s"] three_counts [of "states_of s'"] assms by (simp add: done_inv_def)
qed

text \<open>Retrying a finished pre-inspection, when it is not canceled, raises the progress count by
  the number of skipped items: by none on a full device, by two on a Lite, although the number of
  items that are done is the same as before.\<close>

theorem retry_overcounts:
  assumes "done_inv e k (pc_snapshot w)" "retry_failed e w = Some w'" "\<not> pc_cancel_requested w'"
  shows "ps_completed (pc_snapshot w') = ps_completed (pc_snapshot w) + word_of_nat (skips e) \<and>
    length (ps_items (pc_snapshot w')) = 14"
proof -
  have "ps_state (pc_snapshot w) = PR_FAILED \<or> ps_state (pc_snapshot w) = PR_PASSED"
    using assms(1) by (auto simp: done_inv_def)
  then have "run_precheck e (w\<lparr>pc_snapshot := reset_failed (pc_snapshot w), pc_cancel_requested := False\<rparr>) = Some w'"
    using assms(2) by (auto simp: retry_failed_def)
  moreover have "ready_inv e k (reset_failed (pc_snapshot w))" by (rule retry_ready [OF assms(1)])
  ultimately have fin: "done_inv e (k + skips e) (pc_snapshot w')"
    using run_precheck_ends [of e k "w\<lparr>pc_snapshot := reset_failed (pc_snapshot w), pc_cancel_requested := False\<rparr>" w']
      assms(3) by auto
  let ?s = "states_of (pc_snapshot w)" and ?s' = "states_of (pc_snapshot w')"
  have "ps_completed (pc_snapshot w') =
      word_of_nat (count_list ?s' PC_PASSED + count_list ?s' PC_FAILED + (k + skips e))"
    "length (ps_items (pc_snapshot w')) = 14"
    using fin by (simp_all add: done_inv_def counted_def states_of_def)
  moreover have "ps_completed (pc_snapshot w) =
      word_of_nat (count_list ?s PC_PASSED + count_list ?s PC_FAILED + k)"
    using assms(1) by (simp add: done_inv_def counted_def)
  ultimately show ?thesis unfolding done_decided [OF assms(1) fin] by simp
qed

subsection \<open>Every run returns\<close>

lemma poll_cap_progress:
  assumes "run_state (poll_cap_fixture e i) w = (None, w')"
  shows "pc_steps w < pc_steps w' \<and> (\<exists>k\<ge>pc_steps w. fs_state (pe_cap e k) \<notin> {CX_PASSED, CX_FAILED, CX_CANCELED})"
  using assms
  by (auto simp: poll_cap_fixture_def pc_canceled_def pc_query_def pc_interact_def ask_def ret_def
      pc_on_snapshot_def upd_def report_def pc_sleep_def case_prod_unfold
      intro!: exI [of _ "Suc (pc_steps w)"] split: if_splits run_state.splits)

lemma poll_ir_progress:
  assumes "run_state (poll_ir_fixture e i) w = (None, w')"
  shows "pc_steps w < pc_steps w' \<and> (\<exists>k\<ge>pc_steps w. is_state (pe_ir e k) \<notin> {IR_PASSED, IR_FAILED, IR_CANCELED})"
  using assms
  by (auto simp: poll_ir_fixture_def pc_canceled_def pc_query_def pc_interact_def ask_def ret_def
      pc_on_snapshot_def upd_def report_def pc_sleep_def case_prod_unfold
      intro!: exI [of _ "Suc (pc_steps w)"] split: if_splits ir_run_state.splits)

lemma cap_fixture_check_returns:
  assumes "\<And>k. N \<le> k \<Longrightarrow> fs_state (pe_cap e k) \<in> {CX_PASSED, CX_FAILED, CX_CANCELED}"
  shows "run_cap_fixture_check e i w \<noteq> None"
proof (induction "N - pc_steps w" arbitrary: w rule: less_induct)
  case less
  obtain v w' where poll: "run_state (poll_cap_fixture e i) w = (v, w')" by fastforce
  show ?case
  proof (cases v)
    case None
    then obtain k where "pc_steps w < pc_steps w'" "pc_steps w \<le> k" "\<not> N \<le> k"
      using poll_cap_progress [of e i w w'] poll assms by blast
    then have "run_cap_fixture_check e i w' \<noteq> None" by (intro less) simp
    then show ?thesis using poll None by (subst run_cap_fixture_check.simps) simp
  qed (use poll in \<open>subst run_cap_fixture_check.simps; simp\<close>)
qed

lemma ir_fixture_check_returns:
  assumes "\<And>k. N \<le> k \<Longrightarrow> is_state (pe_ir e k) \<in> {IR_PASSED, IR_FAILED, IR_CANCELED}"
  shows "run_ir_fixture_check e i w \<noteq> None"
proof (induction "N - pc_steps w" arbitrary: w rule: less_induct)
  case less
  obtain v w' where poll: "run_state (poll_ir_fixture e i) w = (v, w')" by fastforce
  show ?case
  proof (cases v)
    case None
    then obtain k where "pc_steps w < pc_steps w'" "pc_steps w \<le> k" "\<not> N \<le> k"
      using poll_ir_progress [of e i w w'] poll assms by blast
    then have "run_ir_fixture_check e i w' \<noteq> None" by (intro less) simp
    then show ?thesis using poll None by (subst run_ir_fixture_check.simps) simp
  qed (use poll in \<open>subst run_ir_fixture_check.simps; simp\<close>)
qed

lemma check_items_returns:
  assumes "\<And>i w. run_check e i w \<noteq> None"
  shows "check_items e i w \<noteq> None"
  using assms
proof (induction e i w rule: check_items.induct)
  case (1 e i w)
  obtain c w1 where w1: "run_state (pc_canceled e) w = (c, w1)" by fastforce
  obtain passed w2 where w2: "run_check e i (snd (run_state (pc_on_snapshot (begin_check i)) w1)) = Some (passed, w2)"
    using 1(3) by fastforce
  obtain d w3 where w3: "run_state (pc_canceled e) w2 = (d, w3)" by fastforce
  show ?case
    using 1(1) [OF _ refl w1 [symmetric]] 1(2) [OF _ refl w1 [symmetric] _ _ w2 refl refl w3 [symmetric]] 1(3) w1 w2 w3
    by (subst check_items.simps) auto
qed

lemma run_check_returns:
  assumes "\<And>k. N \<le> k \<Longrightarrow> fs_state (pe_cap e k) \<in> {CX_PASSED, CX_FAILED, CX_CANCELED}"
    and "\<And>k. M \<le> k \<Longrightarrow> is_state (pe_ir e k) \<in> {IR_PASSED, IR_FAILED, IR_CANCELED}"
  shows "run_check e i w \<noteq> None"
  using cap_fixture_check_returns [where e = e and N = N, OF assms(1)]
    ir_fixture_check_returns [where e = e and N = M, OF assms(2)]
  by (auto simp: run_check_def)

lemma run_precheck_returns:
  assumes "\<And>k. N \<le> k \<Longrightarrow> fs_state (pe_cap e k) \<in> {CX_PASSED, CX_FAILED, CX_CANCELED}"
    and "\<And>k. M \<le> k \<Longrightarrow> is_state (pe_ir e k) \<in> {IR_PASSED, IR_FAILED, IR_CANCELED}"
  shows "run_precheck e w \<noteq> None"
proof -
  have returns: "check_items e 0 w \<noteq> None" for w
    by (rule check_items_returns, rule run_check_returns [OF assms])
  have result: "check_items e 0 v \<noteq> None \<Longrightarrow>
      (case check_items e 0 v of None \<Rightarrow> None | Some (over, w2) \<Rightarrow> Some (f over w2)) \<noteq> None"
    for v and f :: "bool \<Rightarrow> precheck \<Rightarrow> precheck"
    by (cases "check_items e 0 v") auto
  show ?thesis unfolding run_precheck_def Let_def by (rule result, rule returns)
qed

lemma fixture_run_terminal:
  "\<not> cx_cancel_requested (fixture_run fe) \<Longrightarrow>
     fs_state (cx_snapshot (fixture_run fe)) \<in> {CX_PASSED, CX_FAILED, CX_CANCELED}"
  using fixture_run_ended [of fe] by (auto simp: ended_def failed_somewhere_def failed_preparing_def run_state_of_def)

lemma start_ir_terminal:
  assumes "start_ir ie w = Some wi"
  shows "is_state (ix_snapshot wi) \<in> {IR_PASSED, IR_FAILED, IR_CANCELED}"
proof -
  obtain a commands where "wi = snd (run_state (ir_sequence ie a commands) (reset_ir w))"
    using assms by (auto simp: start_ir_def run_ir_def split: option.splits)
  then have "ir_ended a commands (ix_trace w) wi"
    using tripleD [OF ir_sequence_ends reset_ir_at] by blast
  then show ?thesis
    by (auto simp: ir_ended_def ir_has_failed_def ir_has_been_canceled_def ir_has_passed_def)
qed

text \<open>C16: Every pre-inspection and every retry returns, from any state, when the fixture models it
  polls come to show the end of a run: of any run of the CAP fixture test that nobody canceled
  and of any run of the IR fixture test.\<close>

theorem precheck_returns:
  assumes "\<not> cx_cancel_requested (fixture_run fe)" "\<And>k. N \<le> k \<Longrightarrow> pe_cap e k = cx_snapshot (fixture_run fe)"
    and "start_ir ie initial_ir_fixture = Some wi" "\<And>k. M \<le> k \<Longrightarrow> pe_ir e k = ix_snapshot wi"
  shows "start_precheck e w \<noteq> None \<and> retry_failed e w \<noteq> None"
proof -
  have "run_precheck e w \<noteq> None" for w
    using assms fixture_run_terminal start_ir_terminal
    by (intro run_precheck_returns [where N = N and M = M]) auto
  then show ?thesis by (simp add: start_precheck_def retry_failed_def)
qed

subsection \<open>Witnesses\<close>

definition lite_env :: "ir_fixture \<Rightarrow> precheck_env" where
  "lite_env wi = \<lparr>pe_product = CARDPUTER_ZERO_LITE, pe_serial = ''SN'', pe_cancel = (\<lambda>_. False),
     pe_lapse = (\<lambda>_. 0), pe_device_fields = (\<lambda>_. 11),
     pe_hdmi = (\<lambda>_. (\<lparr>hd_status = ''connected'', hd_connected = True\<rparr>, [])),
     pe_usb = (\<lambda>_. ([], [])),
     pe_ethernet = (\<lambda>_. (\<lparr>eth_interface_name = [], eth_state = [], eth_ip4_address = [],
       eth_connected = False\<rparr>, [])),
     pe_battery = (\<lambda>_. ((False, \<lparr>pw_status = [], pw_capacity_percent = 0, pw_voltage_now_uv = 0,
       pw_current_now_ua = 0\<rparr>), [])),
     pe_call = (\<lambda>_. (True, [])), pe_frame = (\<lambda>_. None), pe_motion = (\<lambda>_. ((True, Fin 0, Fin 0), [])),
     pe_cap = (\<lambda>_. cx_snapshot (fixture_run good_fixture)), pe_ir = (\<lambda>_. ix_snapshot wi)\<rparr>"

lemma good_ir_starts: "\<exists>wi. start_ir (good_ir_env (\<lambda>_. 1)) initial_ir_fixture = Some wi"
proof -
  have "good_address 1" by (simp add: good_address_def fixture_address_def Let_def)
  then show ?thesis
    using random_dut_address_None [of "\<lambda>_. 1"] by (auto simp: start_ir_def run_ir_def ie_draw_good)
qed

theorem precheck_returns_witness:
  "\<exists>wi. start_ir (good_ir_env (\<lambda>_. 1)) initial_ir_fixture = Some wi \<and>
     start_precheck (lite_env wi) (initial_precheck (lite_env wi)) \<noteq> None \<and>
     retry_failed (lite_env wi) (initial_precheck (lite_env wi)) \<noteq> None"
proof -
  obtain wi where wi: "start_ir (good_ir_env (\<lambda>_. 1)) initial_ir_fixture = Some wi"
    using good_ir_starts by blast
  show ?thesis
    using precheck_returns [where fe = good_fixture and N = 0 and M = 0 and e = "lite_env wi", OF good_run_state(2) _ wi]
      wi by (auto simp: lite_env_def)
qed

text \<open>A Lite whose operator cancels at once: the two items it does not have are skipped already.\<close>

definition hasty_env :: precheck_env where
  "hasty_env = (lite_env initial_ir_fixture)\<lparr>pe_cancel := \<lambda>_. True\<rparr>"

definition hasty_skipped :: pc_snapshot where
  "hasty_skipped = (skip_item imu_item \<circ> skip_item camera_item) (reset_snapshot (pc_snapshot (initial_precheck hasty_env)))"

lemma hasty_states: "states_of hasty_skipped = replicate 12 PC_PENDING @ [PC_SKIPPED, PC_SKIPPED]"
proof -
  have r: "states_of (reset_snapshot s) = replicate 14 PC_PENDING" for s
    by (simp add: states_of_def reset_snapshot_def make_items_states)
  have "states_of hasty_skipped = (replicate 14 PC_PENDING)[12 := PC_SKIPPED, 13 := PC_SKIPPED]"
    unfolding hasty_skipped_def by (simp add: states_of_skip item_index_defs r)
  also have "\<dots> = replicate 12 PC_PENDING @ [PC_SKIPPED, PC_SKIPPED]"
    by (simp add: numeral_eq_Suc)
  finally show ?thesis .
qed

lemma hasty_run:
  "\<exists>w'. start_precheck hasty_env (initial_precheck hasty_env) = Some w' \<and> ps_state (pc_snapshot w') = PR_CANCELED \<and>
     states_of (pc_snapshot w') = replicate 12 PC_PENDING @ [PC_SKIPPED, PC_SKIPPED]"
proof -
  have l: "skip_camera_and_imu hasty_env" "\<And>k. pe_cancel hasty_env k"
    by (simp_all add: skip_camera_and_imu_def hasty_env_def lite_env_def)
  have "ps_state (pc_snapshot (initial_precheck hasty_env)) = PR_IDLE" by (simp add: initial_precheck_def)
  moreover have "states_of (hasty_skipped\<lparr>ps_state := p, ps_headline := h\<rparr>) = states_of hasty_skipped" for p h
    by (simp add: states_of_def)
  ultimately show ?thesis using l hasty_states
    by (simp add: start_precheck_def run_precheck_def check_items.simps [of hasty_env 0] length_make_items
        pc_canceled_def pc_interact_def ask_def pc_publish_def pc_on_snapshot_def upd_def flip: hasty_skipped_def [unfolded comp_def])
qed

theorem precheck_consistent_witness:
  "\<exists>w. pc_runs hasty_env 1 w \<and> ps_state (pc_snapshot w) = PR_CANCELED \<and>
     states_of (pc_snapshot w) = replicate 12 PC_PENDING @ [PC_SKIPPED, PC_SKIPPED] \<and>
     ps_completed (pc_snapshot w) = 2 \<and> ps_passed (pc_snapshot w) = 0"
proof -
  obtain w where w: "start_precheck hasty_env (initial_precheck hasty_env) = Some w"
    "ps_state (pc_snapshot w) = PR_CANCELED"
    "states_of (pc_snapshot w) = replicate 12 PC_PENDING @ [PC_SKIPPED, PC_SKIPPED]"
    using hasty_run by blast
  have run: "pc_runs hasty_env 1 w"
    using runs_start [OF runs_initial w(1)] by (simp add: initial_precheck_def)
  show ?thesis
    using precheck_consistent [OF run] w run by (auto simp: Let_def count_list_replicate)
qed

text \<open>A Lite that has passed: twelve items passed, two skipped, fourteen completed.\<close>

definition lite_passed :: precheck where
  "lite_passed = \<lparr>pc_snapshot = \<lparr>ps_state = PR_PASSED, ps_current_index = 11, ps_completed = 14,
     ps_passed = 12, ps_failed = 0, ps_device_name = ''CardputerZero Lite'', ps_serial_number = ''SN'',
     ps_headline = zh_all_passed,
     ps_items = map (\<lambda>(st, it). it\<lparr>ck_state := st\<rparr>)
       (zip (replicate 12 PC_PASSED @ replicate 2 PC_SKIPPED) make_items)\<rparr>,
   pc_cancel_requested = False, pc_now = 0, pc_steps = 0\<rparr>"

lemma lite_passed_states: "states_of (pc_snapshot lite_passed) = replicate 12 PC_PASSED @ replicate 2 PC_SKIPPED"
proof -
  have "map ck_state (map (\<lambda>(st, it). it\<lparr>ck_state := st\<rparr>) (zip sts its)) = sts"
    if "length sts = length its" for sts and its :: "check_item list"
    using that by (induction sts its rule: list_induct2) auto
  then show ?thesis by (simp add: states_of_def lite_passed_def length_make_items)
qed

lemma lite_passed_done: "done_inv (lite_env wi) 2 (pc_snapshot lite_passed)"
proof -
  have "(replicate 12 PC_PASSED @ replicate 2 PC_SKIPPED) ! j = PC_SKIPPED \<longleftrightarrow> skipped_index (lite_env wi) j"
    if "j < 14" for j
    using that by (auto simp: nth_append skipped_index_def skip_camera_and_imu_def lite_env_def item_index_defs)
  then show ?thesis
    unfolding done_inv_def counted_def lite_passed_states
    by (simp add: count_list_replicate) (simp add: lite_passed_def)
qed

lemma check_items_nothing:
  assumes "\<And>k. \<not> pe_cancel e k" "\<not> pc_cancel_requested w" "PC_PENDING \<notin> set (states_of (pc_snapshot w))"
    "length (states_of (pc_snapshot w)) = 14"
  shows "\<exists>w'. check_items e i w = Some (True, w') \<and> \<not> pc_cancel_requested w'"
  using assms
proof (induction e i w rule: check_items.induct)
  case (1 e i w)
  obtain c w1 where w1: "run_state (pc_canceled e) w = (c, w1)" by fastforce
  then have w1': "\<not> c" "\<not> pc_cancel_requested w1" "pc_snapshot w1 = pc_snapshot w"
    using 1(3,4) by (auto simp: pc_canceled_def pc_interact_def ask_def)
  have "i < length make_items \<Longrightarrow> ck_state (ps_items (pc_snapshot w) ! i) \<in> set (states_of (pc_snapshot w))"
    using 1(6) by (auto simp: length_make_items states_of_def)
  then have "i < length make_items \<Longrightarrow> ck_state (ps_items (pc_snapshot w1) ! i) \<noteq> PC_PENDING"
    using 1(5) w1'(3) by metis
  then show ?case
    using 1(1) [OF _ refl w1 [symmetric] w1'(1)] 1(3-6) w1 w1'
    by (cases "i < length make_items") (simp_all add: check_items.simps [of e i w])
qed

theorem retry_overcounts_witness:
  "\<exists>w'. retry_failed (lite_env initial_ir_fixture) lite_passed = Some w' \<and>
     ps_completed (pc_snapshot w') = 16 \<and> length (ps_items (pc_snapshot w')) = 14"
proof -
  let ?e = "lite_env initial_ir_fixture"
  let ?s = "reset_failed (pc_snapshot lite_passed)"
  let ?w = "lite_passed\<lparr>pc_snapshot := (skip_item imu_item \<circ> skip_item camera_item) ?s, pc_cancel_requested := False\<rparr>"
  have loop: "loop_inv ?e (2 + skips ?e) 0 ((skip_item imu_item \<circ> skip_item camera_item) ?s)"
    using ready_skipped [OF retry_ready [OF lite_passed_done]]
    by (simp add: skip_camera_and_imu_def lite_env_def)
  have "states_of ?s = replicate 12 PC_PASSED @ replicate 2 PC_SKIPPED"
    by (simp add: states_of_reset_failed lite_passed_states)
  then have "PC_PENDING \<notin> set (states_of ((skip_item imu_item \<circ> skip_item camera_item) ?s))"
    by (auto simp: states_of_skip item_index_defs dest!: subsetD [OF set_update_subset_insert])
  then obtain w2 where w2: "check_items ?e 0 ?w = Some (True, w2)" "\<not> pc_cancel_requested w2"
    using check_items_nothing [of ?e ?w 0] loop by (auto simp: lite_env_def loop_inv_def)
  then obtain w' where w': "retry_failed ?e lite_passed = Some w'" "\<not> pc_cancel_requested w'"
    by (auto simp: retry_failed_def run_precheck_def Let_def skip_camera_and_imu_def lite_env_def
        pc_on_snapshot_def upd_def publish_verdict_def lite_passed_def)
  show ?thesis
    using retry_overcounts [OF lite_passed_done w'] w'(1)
    by (auto simp: lite_passed_def skips_def skip_camera_and_imu_def lite_env_def)
qed

end
