(* ===== verification/Upload.thy ===== *)
theory Upload
  imports Serialization Actions "HOL-Library.Word"
begin

section \<open>Upload: the upload of test results over USB serial\<close>

text \<open>
  The class \<open>FactoryUploadService\<close> of src/src/platform/factory_upload_service.cpp: a worker
  looks for the receiving device, opens its serial port, answers its handshakes, sends the
  queued result and waits for its acknowledgement. The members and the locals of \<open>run ()\<close> are
  one record. Every look at the clock, every call into the serial and USB services and every
  section under the mutex is a numbered interaction of the worker; before each the user
  interface may queue a payload or stop the service, so every interleaving of the two threads
  is some environment. Log output, and the two locals that only limit it, are not modelled; the
  build is the device's, not the desktop's. Times are nanoseconds.
\<close>

subsection \<open>Protocol lines\<close>

definition factory_prefix :: string where "factory_prefix = ''M5FACTORY:''"
definition handshake_command :: string where "handshake_command = ''M5FACTORY:HANDSHAKE''"
definition ack_command :: string where "ack_command = ''M5FACTORY:ACK''"
definition result_command :: string where "result_command = ''M5FACTORY:RESULT''"
definition result_ack_command :: string where "result_ack_command = ''M5FACTORY:ACK_RESULT''"
definition max_protocol_line :: nat where "max_protocol_line = 511"
definition max_rx_line :: nat where "max_rx_line = 1024"

lemmas command_defs = factory_prefix_def handshake_command_def ack_command_def
  result_command_def result_ack_command_def

definition command_matches :: "string \<Rightarrow> string \<Rightarrow> bool" where
  "command_matches line command \<longleftrightarrow>
     take (length command) line = command \<and>
     (length line = length command \<or> line ! length command = CHR '' '')"

definition payload_after_command :: "string \<Rightarrow> string \<Rightarrow> string" where
  "payload_after_command line command = dropWhile (\<lambda>c. c = CHR '' '') (drop (length command) line)"

definition object_field :: "output_value \<Rightarrow> string \<Rightarrow> output_value option" where
  "object_field v key = (case v of OVObject kvs \<Rightarrow> map_of kvs key | _ \<Rightarrow> None)"

text \<open>
  \<open>fabs (value - 1.0) > 0.0001\<close>: the difference is exact near 1 and far above the bound
  elsewhere; the bound is the double nearest to 0.0001. A comparison with NaN is false.
\<close>

definition proto_bound :: rat where
  "proto_bound = 7378697629483821 / 73786976294838206464"

definition not_proto_1 :: "dbl \<Rightarrow> bool" where
  "not_proto_1 d = (case d of Fin r \<Rightarrow> proto_bound < \<bar>r - 1\<bar> | NaN \<Rightarrow> False | _ \<Rightarrow> True)"

text \<open>\<open>static_cast<long long>\<close> of a finite double: truncation, saturating out of range.\<close>

definition dbl_to_i64 :: "dbl \<Rightarrow> int" where
  "dbl_to_i64 d = (case d of
     Fin r \<Rightarrow> max (- (2 ^ 63)) (min (2 ^ 63 - 1) (if r < 0 then - floor (- r) else floor r))
   | _ \<Rightarrow> 0)"

text \<open>The library that reads JSON: cJSON and the text it points at after a failure.\<close>

type_synonym json_lib = "cjson \<times> (string \<Rightarrow> string option)"

definition parse_object :: "json_lib \<Rightarrow> string \<Rightarrow> string \<Rightarrow> string + output_value" where
  "parse_object lib what payload =
     (case parse_json_output (fst lib) (snd lib) payload of
        Inl m \<Rightarrow> Inl (''invalid '' @ what @ '' JSON: '' @ m)
      | Inr (OVObject kvs) \<Rightarrow> Inr (OVObject kvs)
      | Inr _ \<Rightarrow> Inl (what @ '' payload is not a JSON object''))"

definition parse_handshake :: "json_lib \<Rightarrow> string \<Rightarrow> string + int option" where
  "parse_handshake lib payload =
     (case parse_object lib ''handshake'' payload of
        Inl m \<Rightarrow> Inl m
      | Inr v \<Rightarrow>
          (case object_field v ''proto'' of
             Some (OVNumber d) \<Rightarrow>
               if not_proto_1 d then Inl ''handshake proto must be 1''
               else if object_field v ''role'' \<noteq> Some (OVString ''tab5'') then Inl ''handshake role must be tab5''
               else (case object_field v ''seq'' of
                       None \<Rightarrow> Inr None
                     | Some (OVNumber s) \<Rightarrow>
                         if dbl_finite s then Inr (Some (dbl_to_i64 s))
                         else Inl ''handshake seq must be a number''
                     | Some _ \<Rightarrow> Inl ''handshake seq must be a number'')
           | _ \<Rightarrow> Inl ''handshake proto must be 1''))"

text \<open>The acknowledgement: \<open>saved\<close>, the status and the message.\<close>

definition string_field :: "output_value \<Rightarrow> string \<Rightarrow> string" where
  "string_field v key = (case object_field v key of Some (OVString s) \<Rightarrow> s | _ \<Rightarrow> [])"

definition parse_result_ack :: "json_lib \<Rightarrow> string \<Rightarrow> string + bool \<times> string \<times> string" where
  "parse_result_ack lib payload =
     (case parse_object lib ''ACK_RESULT'' payload of
        Inl m \<Rightarrow> Inl m
      | Inr v \<Rightarrow>
          (case object_field v ''saved'' of
             Some (OVBoolean saved) \<Rightarrow> Inr (saved, string_field v ''status'', string_field v ''message'')
           | _ \<Rightarrow> Inl ''ACK_RESULT saved must be a boolean''))"

text \<open>One received character: the buffer after it and the line it completes.\<close>

definition rx_push :: "string \<Rightarrow> char \<Rightarrow> string \<times> string option" where
  "rx_push buffer character =
     (if character = CHR 0x0D then (buffer, None)
      else if character \<noteq> CHR 0x0A then
        (let longer = buffer @ [character] in
         if max_rx_line < length longer then ([], None) else (longer, None))
      else if buffer = [] then ([], None)
      else ([], Some buffer))"

definition quote :: "string \<Rightarrow> string" where
  "quote s = CHR 0x22 # s @ [CHR 0x22]"

definition result_line :: "string \<Rightarrow> string" where
  "result_line payload = result_command @ '' '' @ payload @ [CHR 0x0A]"

subsection \<open>Data (factory_upload_service.h)\<close>

datatype upload_state =
  UP_UNAVAILABLE | UP_SEARCHING | UP_WAITING_HANDSHAKE | UP_READY | UP_QUEUED | UP_SENDING |
  UP_WAITING_RESULT_ACK | UP_SUCCEEDED | UP_FAILED

record upload_snapshot =
  us_state :: upload_state
  us_message :: string
  us_port :: string
  us_revision :: "64 word"
  us_listener_online :: bool
  us_heartbeat_age_ms :: nat

record usb_serial =
  sd_path :: string
  sd_bus :: int
  sd_address :: int

definition no_serial :: usb_serial where
  "no_serial = \<lparr>sd_path = [], sd_bus = -1, sd_address = -1\<rparr>"

definition same_usb_serial_instance :: "usb_serial \<Rightarrow> usb_serial \<Rightarrow> bool" where
  "same_usb_serial_instance l r =
     (if sd_path l = [] \<or> sd_path r = [] \<or> sd_path l \<noteq> sd_path r then False
      else if sd_bus l < 0 \<or> sd_address l < 0 \<or> sd_bus r < 0 \<or> sd_address r < 0 then True
      else sd_bus l = sd_bus r \<and> sd_address l = sd_address r)"

text \<open>What happens on the line and to the requests.\<close>

datatype upload_event =
    UpAccepted string
  | UpTaken string
  | UpDropped
  | UpOpened string
  | UpClosed
  | UpHandshake bool
  | UpWrote string bool
  | UpFinished upload_state

datatype upload_request = RqQueue string | RqStop

record upload_env =
  ue_json :: json_lib
  ue_request :: "nat \<Rightarrow> upload_request option"
  ue_lapse :: "nat \<Rightarrow> nat"
  ue_find :: "nat \<Rightarrow> usb_serial \<times> string"
  ue_open :: "nat \<Rightarrow> bool"
  ue_read :: "nat \<Rightarrow> string \<times> string"
  ue_write :: "nat \<Rightarrow> string option" \<comment> \<open>the error\<close>

record upload =
  up_tester_model :: string
  up_tester_firmware :: string
  up_worker :: bool
  up_listener_running :: bool
  up_heartbeat_ms :: nat
  up_stop_requested :: bool
  up_request_active :: bool
  up_pending :: "string option"
  up_pending_deadline :: nat
  up_snapshot :: upload_snapshot
  up_session :: bool
  up_device :: usb_serial
  up_port :: string
  up_rx :: string
  up_active :: "string option"
  up_handshaked :: bool
  up_waiting :: bool
  up_next_heartbeat :: nat
  up_request_deadline :: nat
  up_result_deadline :: nat
  up_now :: nat
  up_steps :: nat
  up_trace :: "upload_event list"

type_synonym 'a up_act = "(upload, 'a) state"

definition initial_upload :: "string \<Rightarrow> string \<Rightarrow> nat \<Rightarrow> upload" where
  "initial_upload model firmware now =
     \<lparr>up_tester_model = model, up_tester_firmware = firmware, up_worker = False,
      up_listener_running = False, up_heartbeat_ms = 0, up_stop_requested = False,
      up_request_active = False, up_pending = None, up_pending_deadline = 0,
      up_snapshot = \<lparr>us_state = UP_UNAVAILABLE, us_message = [], us_port = [], us_revision = 0,
        us_listener_online = False, us_heartbeat_age_ms = 0\<rparr>,
      up_session = False, up_device = no_serial, up_port = [], up_rx = [], up_active = None,
      up_handshaked = False, up_waiting = False, up_next_heartbeat = 0, up_request_deadline = 0,
      up_result_deadline = 0, up_now = now, up_steps = 0, up_trace = []\<rparr>"

definition seconds :: "nat \<Rightarrow> nat" where "seconds n = n * 1000000000"
definition heartbeat_milliseconds :: "upload \<Rightarrow> nat" where
  "heartbeat_milliseconds w = up_now w div 1000000"

definition log_event :: "upload_event \<Rightarrow> upload \<Rightarrow> upload" where
  "log_event ev w = w\<lparr>up_trace := up_trace w @ [ev]\<rparr>"

definition set_snapshot :: "upload_state \<Rightarrow> string \<Rightarrow> string \<Rightarrow> upload \<Rightarrow> upload" where
  "set_snapshot st message port w =
     (let s = up_snapshot w in
      if us_state s = st \<and> us_message s = message \<and> us_port s = port then w
      else w\<lparr>up_snapshot := s\<lparr>us_state := st, us_message := message, us_port := port,
             us_revision := us_revision s + 1\<rparr>\<rparr>)"

subsection \<open>The operations of the user interface\<close>

definition queue_result :: "string \<Rightarrow> upload \<Rightarrow> string option \<times> upload" where
  "queue_result raw w =
     (let payload = filter (\<lambda>c. c \<noteq> CHR 0x0D \<and> c \<noteq> CHR 0x0A) raw;
          line_size = length result_command + 1 + length payload;
          now = heartbeat_milliseconds w; last = up_heartbeat_ms w;
          fresh = (0 < last \<and> last \<le> now \<and> now - last \<le> 3000) in
      if payload = [] then (Some ''Test result payload is empty'', w)
      else if max_protocol_line < line_size then
        (Some ''Test result exceeds the 511-byte protocol line limit'', w)
      else if \<not> up_worker w then (Some ''Factory upload service is unavailable'', w)
      else if \<not> up_listener_running w \<or> \<not> fresh then (Some ''Factory upload listener is offline'', w)
      else if up_pending w \<noteq> None \<or> up_request_active w then
        (Some ''A test result upload is already in progress'', w)
      else
        (None, log_event (UpAccepted payload)
           (set_snapshot UP_QUEUED ''Test result queued for upload'' (us_port (up_snapshot w))
             (w\<lparr>up_pending := Some payload, up_pending_deadline := up_now w + seconds 10,
                up_request_active := True\<rparr>))))"

definition get_snapshot :: "upload \<Rightarrow> upload_snapshot" where
  "get_snapshot w =
     (let now = heartbeat_milliseconds w; last = up_heartbeat_ms w;
          age = (if last \<le> 0 \<or> now \<le> last then 0 else now - last) in
      (up_snapshot w)\<lparr>us_heartbeat_age_ms := age,
        us_listener_online := up_listener_running w \<and> age \<le> 3000\<rparr>)"

text \<open>\<open>stop ()\<close> asks the worker to end and waits for it; \<open>start ()\<close> begins a new one.\<close>

definition request_stop :: "upload \<Rightarrow> upload" where
  "request_stop w = w\<lparr>up_stop_requested := True\<rparr>"

definition serve_request :: "upload_request option \<Rightarrow> upload \<Rightarrow> upload" where
  "serve_request rq w = (case rq of
     None \<Rightarrow> w
   | Some (RqQueue payload) \<Rightarrow> snd (queue_result payload w)
   | Some RqStop \<Rightarrow> request_stop w)"

subsection \<open>Interactions of the worker\<close>

definition up_interact :: "upload_env \<Rightarrow> nat up_act" where
  "up_interact e = State (\<lambda>w.
     (up_steps w,
      serve_request (ue_request e (up_steps w))
        (w\<lparr>up_steps := Suc (up_steps w), up_now := up_now w + ue_lapse e (up_steps w)\<rparr>)))"

definition up_query :: "upload_env \<Rightarrow> (nat \<Rightarrow> 'a) \<Rightarrow> 'a up_act" where
  "up_query e answer = do { k \<leftarrow> up_interact e; ret (answer k) }"

definition up_clock :: "upload_env \<Rightarrow> nat up_act" where
  "up_clock e = do { up_interact e; ask up_now }"

definition should_stop :: "upload_env \<Rightarrow> bool up_act" where
  "should_stop e = do { up_interact e; ask up_stop_requested }"

definition wait_for :: "upload_env \<Rightarrow> unit up_act" where
  "wait_for e = do { up_interact e; ret () }"

definition up_publish :: "upload_env \<Rightarrow> upload_state \<Rightarrow> string \<Rightarrow> string \<Rightarrow> unit up_act" where
  "up_publish e st message port = do { up_interact e; upd (set_snapshot st message port) }"

definition terminal_state :: "upload_state \<Rightarrow> bool" where
  "terminal_state st \<longleftrightarrow> st = UP_SUCCEEDED \<or> st = UP_FAILED"

definition has_terminal_upload_snapshot :: "upload_env \<Rightarrow> bool up_act" where
  "has_terminal_upload_snapshot e = do {
     up_interact e;
     ask (\<lambda>w. terminal_state (us_state (up_snapshot w))) }"

definition publish_unless_terminal :: "upload_env \<Rightarrow> upload_state \<Rightarrow> string \<Rightarrow> string \<Rightarrow> unit up_act" where
  "publish_unless_terminal e st message port = do {
     terminal \<leftarrow> has_terminal_upload_snapshot e;
     if terminal then ret () else up_publish e st message port }"

definition drop_pending :: "string \<Rightarrow> string \<Rightarrow> upload \<Rightarrow> upload" where
  "drop_pending message port w =
     log_event UpDropped (set_snapshot UP_FAILED message port
       (w\<lparr>up_pending := None, up_request_active := False\<rparr>))"

definition expire_pending_request :: "upload_env \<Rightarrow> string \<Rightarrow> string \<Rightarrow> bool up_act" where
  "expire_pending_request e message port = do {
     up_interact e;
     expired \<leftarrow> ask (\<lambda>w. up_pending w \<noteq> None \<and> up_pending_deadline w < up_now w);
     if expired then do { upd (drop_pending message port); ret True } else ret False }"

definition fail_pending_request :: "upload_env \<Rightarrow> string \<Rightarrow> string \<Rightarrow> bool up_act" where
  "fail_pending_request e message port = do {
     up_interact e;
     pending \<leftarrow> ask (\<lambda>w. up_pending w \<noteq> None);
     if pending then do { upd (drop_pending message port); ret True } else ret False }"

definition finish_request :: "upload_env \<Rightarrow> upload_state \<Rightarrow> string \<Rightarrow> string \<Rightarrow> unit up_act" where
  "finish_request e st message port = do {
     up_interact e;
     upd (\<lambda>w. log_event (UpFinished st)
       (set_snapshot st message port (w\<lparr>up_request_active := False\<rparr>))) }"

definition take_pending_payload :: "upload_env \<Rightarrow> string option up_act" where
  "take_pending_payload e = do {
     up_interact e;
     p \<leftarrow> ask up_pending;
     (case p of
        None \<Rightarrow> ret None
      | Some payload \<Rightarrow> do {
          upd (\<lambda>w. log_event (UpTaken payload) (w\<lparr>up_pending := None, up_active := Some payload\<rparr>));
          ret (Some payload) }) }"

definition up_write :: "upload_env \<Rightarrow> string \<Rightarrow> string option up_act" where
  "up_write e t = do {
     r \<leftarrow> up_query e (ue_write e);
     upd (log_event (UpWrote t (r = None)));
     ret r }"

subsection \<open>The lines from the device\<close>

definition send_handshake_ack :: "upload_env \<Rightarrow> string \<Rightarrow> bool up_act" where
  "send_handshake_ack e line = do {
     model \<leftarrow> ask up_tester_model;
     firmware \<leftarrow> ask up_tester_firmware;
     (case parse_handshake (ue_json e) (payload_after_command line handshake_command) of
        Inl m \<Rightarrow> ret False
      | Inr sequence \<Rightarrow> do {
          error \<leftarrow> up_write e (ack_command @
            '' {'' @ quote ''proto'' @ '':1,'' @ quote ''role'' @ '':'' @ quote ''tester'' @ '','' @
            quote ''model'' @ '':'' @ quote model @ '','' @ quote ''fw'' @ '':'' @ quote firmware @
            (case sequence of None \<Rightarrow> [] | Some n \<Rightarrow> '','' @ quote ''seq'' @ '':'' @ int_text n) @
            ''}'' @ [CHR 0x0A]);
          ret (error = None) }) }"

definition handle_handshake :: "upload_env \<Rightarrow> string \<Rightarrow> unit up_act" where
  "handle_handshake e line = do {
     port \<leftarrow> ask up_port;
     sent \<leftarrow> send_handshake_ack e line;
     upd (log_event (UpHandshake sent));
     (if sent then do {
        upd (\<lambda>w. w\<lparr>up_handshaked := True\<rparr>);
        quiet \<leftarrow> ask (\<lambda>w. up_active w = None \<and> \<not> up_waiting w);
        if quiet then publish_unless_terminal e UP_READY ''Factory upload handshake ready'' port
        else ret () }
      else do {
        active \<leftarrow> ask (\<lambda>w. up_active w \<noteq> None);
        if active then do {
          finish_request e UP_FAILED ''Factory upload handshake failed'' port;
          upd (\<lambda>w. w\<lparr>up_active := None\<rparr>) }
        else ret () }) }"

definition handle_result_ack :: "upload_env \<Rightarrow> string \<Rightarrow> unit up_act" where
  "handle_result_ack e line = do {
     port \<leftarrow> ask up_port;
     waiting \<leftarrow> ask up_waiting;
     if \<not> waiting then ret ()
     else do {
       (case parse_result_ack (ue_json e) (payload_after_command line result_ack_command) of
          Inl m \<Rightarrow> finish_request e UP_FAILED m port
        | Inr (saved, status, message) \<Rightarrow>
            if saved then finish_request e UP_SUCCEEDED ''Test result uploaded'' port
            else finish_request e UP_FAILED (''Lower device rejected test result'' @
                   (if message = [] then [] else '': '' @ message)) port);
       upd (\<lambda>w. w\<lparr>up_waiting := False, up_active := None\<rparr>) } }"

definition handle_line :: "upload_env \<Rightarrow> string \<Rightarrow> unit up_act" where
  "handle_line e line =
     (if command_matches line handshake_command then handle_handshake e line
      else if command_matches line result_ack_command then handle_result_ack e line
      else ret ())"

fun receive_text :: "upload_env \<Rightarrow> string \<Rightarrow> unit up_act" where
  "receive_text e [] = ret ()"
| "receive_text e (character # rest) = do {
     buffer \<leftarrow> ask up_rx;
     (case rx_push buffer character of (buffer', line) \<Rightarrow> do {
        upd (\<lambda>w. w\<lparr>up_rx := buffer'\<rparr>);
        (case line of None \<Rightarrow> ret () | Some l \<Rightarrow> handle_line e l) });
     receive_text e rest }"

subsection \<open>One pass of run ()\<close>

text \<open>The parts of the loop's body return \<open>False\<close> where the code continues with the next pass.\<close>

definition connect_device :: "upload_env \<Rightarrow> bool up_act" where
  "connect_device e = do {
     (device, error) \<leftarrow> up_query e (ue_find e);
     upd (\<lambda>w. w\<lparr>up_device := device, up_port := sd_path device\<rparr>);
     if sd_path device = [] then do {
       expired \<leftarrow> expire_pending_request e ''USB serial device 303a:1001 was not found'' [];
       (if expired then ret ()
        else publish_unless_terminal e UP_SEARCHING ''Waiting for USB serial device 303a:1001'' []);
       wait_for e;
       ret False }
     else do {
       open_ok \<leftarrow> up_query e (ue_open e);
       if \<not> open_ok then do {
         failed \<leftarrow> fail_pending_request e ''Failed to open factory upload serial port'' (sd_path device);
         (if failed then ret ()
          else publish_unless_terminal e UP_SEARCHING ''Failed to open factory upload serial port''
                 (sd_path device));
         wait_for e;
         ret False }
       else do {
         upd (\<lambda>w. log_event (UpOpened (sd_path device))
           (w\<lparr>up_session := True, up_handshaked := False, up_waiting := False\<rparr>));
         connected_at \<leftarrow> up_clock e;
         upd (\<lambda>w. w\<lparr>up_next_heartbeat := connected_at + seconds 1, up_rx := []\<rparr>);
         publish_unless_terminal e UP_WAITING_HANDSHAKE ''Waiting for M5FACTORY handshake'' (sd_path device);
         ret True } } }"

definition close_session :: "upload_env \<Rightarrow> unit up_act" where
  "close_session e = do {
     up_interact e;
     upd (\<lambda>w. log_event UpClosed
       (w\<lparr>up_session := False, up_device := no_serial, up_active := None, up_waiting := False\<rparr>)) }"

definition link_heartbeat :: "upload_env \<Rightarrow> bool up_act" where
  "link_heartbeat e = do {
     before_io \<leftarrow> up_clock e;
     due \<leftarrow> ask (\<lambda>w. up_next_heartbeat w \<le> before_io);
     if \<not> due then ret True
     else do {
       (detected, error) \<leftarrow> up_query e (ue_find e);
       upd (\<lambda>w. w\<lparr>up_next_heartbeat := before_io + seconds 1\<rparr>);
       device \<leftarrow> ask up_device;
       if same_usb_serial_instance device detected then ret True
       else do {
         port \<leftarrow> ask up_port;
         upload_was_active \<leftarrow> ask (\<lambda>w. up_active w \<noteq> None \<or> up_waiting w);
         (if upload_was_active then finish_request e UP_FAILED ''USB serial device disconnected'' port
          else ret ());
         close_session e;
         upd (\<lambda>w. w\<lparr>up_handshaked := False, up_rx := []\<rparr>);
         (if upload_was_active then ret ()
          else publish_unless_terminal e UP_SEARCHING ''Factory upload device disconnected'' []);
         ret False } } }"

definition take_request :: "upload_env \<Rightarrow> unit up_act" where
  "take_request e = do {
     idle \<leftarrow> ask (\<lambda>w. up_active w = None);
     if \<not> idle then ret ()
     else do {
       payload \<leftarrow> take_pending_payload e;
       (case payload of
          None \<Rightarrow> ret ()
        | Some p \<Rightarrow> do {
            t \<leftarrow> up_clock e;
            upd (\<lambda>w. w\<lparr>up_request_deadline := t + seconds 10\<rparr>) }) } }"

definition read_failed :: "upload_env \<Rightarrow> unit up_act" where
  "read_failed e = do {
     port \<leftarrow> ask up_port;
     busy \<leftarrow> ask (\<lambda>w. up_active w \<noteq> None \<or> up_waiting w);
     (if busy then finish_request e UP_FAILED ''USB serial read failed'' port else ret ());
     close_session e }"

definition send_result :: "upload_env \<Rightarrow> string \<Rightarrow> string \<Rightarrow> unit up_act" where
  "send_result e payload port = do {
     up_publish e UP_SENDING ''Sending test result'' port;
     error \<leftarrow> up_write e (result_line payload);
     (case error of
        Some m \<Rightarrow> do {
          finish_request e UP_FAILED (''Failed to send test result: '' @ m) port;
          upd (\<lambda>w. w\<lparr>up_active := None\<rparr>) }
      | None \<Rightarrow> do {
          upd (\<lambda>w. w\<lparr>up_waiting := True\<rparr>);
          t \<leftarrow> up_clock e;
          upd (\<lambda>w. w\<lparr>up_result_deadline := t + seconds 60\<rparr>);
          up_publish e UP_WAITING_RESULT_ACK ''Waiting for upload acknowledgement'' port }) }"

definition drive_request :: "upload_env \<Rightarrow> nat \<Rightarrow> unit up_act" where
  "drive_request e now = do {
     port \<leftarrow> ask up_port;
     active \<leftarrow> ask up_active;
     waiting \<leftarrow> ask up_waiting;
     handshaked \<leftarrow> ask up_handshaked;
     request_deadline \<leftarrow> ask up_request_deadline;
     result_deadline \<leftarrow> ask up_result_deadline;
     (case active of
        Some payload \<Rightarrow>
          if \<not> waiting \<and> handshaked then send_result e payload port
          else if \<not> waiting \<and> request_deadline < now then do {
            finish_request e UP_FAILED ''Handshake timeout; retry handshake on the lower device'' port;
            upd (\<lambda>w. w\<lparr>up_active := None\<rparr>) }
          else if waiting \<and> result_deadline < now then do {
            finish_request e UP_FAILED ''Timed out waiting for ACK_RESULT'' port;
            upd (\<lambda>w. w\<lparr>up_waiting := False, up_active := None\<rparr>) }
          else ret ()
      | None \<Rightarrow>
          if waiting \<and> result_deadline < now then do {
            finish_request e UP_FAILED ''Timed out waiting for ACK_RESULT'' port;
            upd (\<lambda>w. w\<lparr>up_waiting := False, up_active := None\<rparr>) }
          else ret ()) }"

definition serve_device :: "upload_env \<Rightarrow> unit up_act" where
  "serve_device e = do {
     take_request e;
     (received, io_error) \<leftarrow> up_query e (ue_read e);
     if io_error \<noteq> [] then read_failed e
     else do {
       receive_text e received;
       now \<leftarrow> up_clock e;
       drive_request e now;
       wait_for e } }"

definition beat :: "upload_env \<Rightarrow> unit up_act" where
  "beat e = do {
     up_interact e;
     upd (\<lambda>w. w\<lparr>up_heartbeat_ms := heartbeat_milliseconds w\<rparr>) }"

definition upload_pass :: "upload_env \<Rightarrow> unit up_act" where
  "upload_pass e = do {
     beat e;
     session_open \<leftarrow> ask up_session;
     ready \<leftarrow> (if session_open then ret True else connect_device e);
     if \<not> ready then ret ()
     else do {
       alive \<leftarrow> link_heartbeat e;
       if alive then serve_device e else ret () } }"

text \<open>
  The worker runs until it is asked to stop; without such a request it never returns. The
  locals of \<open>run ()\<close> are fresh in each run.
\<close>

partial_function (option) listen :: "upload_env \<Rightarrow> upload \<Rightarrow> upload option" where
  "listen e w =
     (let (stop, w1) = run_state (should_stop e) w in
      if stop then Some w1 else listen e (snd (run_state (upload_pass e) w1)))"

declare listen.simps [code]

definition start_listener :: "upload \<Rightarrow> upload" where
  "start_listener w = w\<lparr>up_listener_running := True, up_session := False, up_device := no_serial,
     up_port := [], up_rx := [], up_active := None, up_handshaked := False, up_waiting := False,
     up_next_heartbeat := 0, up_request_deadline := 0, up_result_deadline := 0\<rparr>"

definition run_listener :: "upload_env \<Rightarrow> upload \<Rightarrow> upload option" where
  "run_listener e w =
     (let w1 = snd (run_state (beat e) (start_listener w)) in
      case listen e w1 of
        None \<Rightarrow> None
      | Some w2 \<Rightarrow> Some (snd (run_state (beat e) (w2\<lparr>up_listener_running := False\<rparr>))))"

text \<open>\<open>start ()\<close>: nothing where a worker is there, otherwise a run.\<close>

definition start_worker :: "upload_env \<Rightarrow> upload \<Rightarrow> upload option" where
  "start_worker e w =
     (if up_worker w then Some w
      else run_listener e (w\<lparr>up_worker := True, up_stop_requested := False\<rparr>))"

text \<open>\<open>stop ()\<close> waits for the run to end; afterwards there is no worker.\<close>

definition stop_worker :: "upload \<Rightarrow> upload" where
  "stop_worker w = (request_stop w)\<lparr>up_worker := False\<rparr>"

end
