(* ===== verification/UploadTheorems.thy ===== *)
theory UploadTheorems
  imports Upload
begin

section \<open>UploadTheorems: what the upload service sends and reports\<close>

text \<open>
  The line assembler against a reference that splits the whole stream; the bounds that hold
  for every environment; the request protocol, an automaton over the events, which the
  service refines until a handshake is rejected while a result waits for its
  acknowledgement; and the run that shows what happens then.
\<close>

subsection \<open>The line assembler\<close>

text \<open>The lines of a stream and what is left of it, character by character as the code does it.\<close>

fun rx_lines :: "string \<Rightarrow> string \<Rightarrow> string list \<times> string" where
  "rx_lines buffer [] = ([], buffer)"
| "rx_lines buffer (c # cs) =
     (case rx_push buffer c of
        (buffer', line) \<Rightarrow>
          (case rx_lines buffer' cs of
             (ls, rest) \<Rightarrow> (case line of None \<Rightarrow> ls | Some l \<Rightarrow> l # ls, rest)))"

text \<open>
  The reference: drop the carriage returns, split at the line feeds, skip the empty lines. Of a
  line longer than the buffer the first 1025 characters are thrown away, the next 1025 too if
  there are as many, and what remains counts as the line.
\<close>

fun split_lines :: "string \<Rightarrow> string \<Rightarrow> string list" where
  "split_lines piece [] = [piece]"
| "split_lines piece (c # cs) =
     (if c = CHR 0x0A then piece # split_lines [] cs else split_lines (piece @ [c]) cs)"

definition stream_pieces :: "string \<Rightarrow> string \<Rightarrow> string list" where
  "stream_pieces buffer s = split_lines buffer (filter (\<lambda>c. c \<noteq> CHR 0x0D) s)"

definition kept_part :: "string \<Rightarrow> string" where
  "kept_part line = drop (Suc max_rx_line * (length line div Suc max_rx_line)) line"

lemma kept_short [simp]: "length line \<le> max_rx_line \<Longrightarrow> kept_part line = line"
  by (simp add: kept_part_def)

lemma kept_length: "length (kept_part line) = length line mod Suc max_rx_line"
  unfolding kept_part_def length_drop by (rule minus_mult_div_eq_mod)

lemma kept_snoc:
  "kept_part (line @ [c]) =
     (if max_rx_line < length (kept_part line @ [c]) then [] else kept_part line @ [c])"
proof (cases "length line mod Suc max_rx_line = max_rx_line")
  case True
  then have "length (kept_part (line @ [c])) = 0" by (simp add: kept_length mod_Suc)
  then have "kept_part (line @ [c]) = []" by (simp only: length_0_conv)
  then show ?thesis using True by (simp add: kept_length)
next
  case False
  have "length line mod Suc max_rx_line < Suc max_rx_line" by simp
  then have m: "length line mod Suc max_rx_line < max_rx_line" using False by linarith
  have "Suc (length line) div Suc max_rx_line = length line div Suc max_rx_line"
    using False by (simp add: div_Suc mod_Suc)
  moreover have "Suc max_rx_line * (length line div Suc max_rx_line) \<le> length line"
    by (rule times_div_less_eq_dividend)
  ultimately have "kept_part (line @ [c]) = kept_part line @ [c]"
    by (simp add: kept_part_def)
  then show ?thesis using m by (simp add: kept_length)
qed

lemma split_lines_nonempty: "split_lines piece s \<noteq> []"
  by (induction piece s rule: split_lines.induct) auto

lemma rx_lines_split:
  "rx_lines (kept_part buffer) s =
    (filter (\<lambda>l. l \<noteq> []) (map kept_part (butlast (stream_pieces buffer s))),
     kept_part (last (stream_pieces buffer s)))"
  unfolding stream_pieces_def
proof (induction s arbitrary: buffer)
  case (Cons c s)
  consider "c = CHR 0x0D" | "c = CHR 0x0A" | "c \<noteq> CHR 0x0D" "c \<noteq> CHR 0x0A" by blast
  then show ?case
  proof cases
    case 1
    then show ?thesis using Cons by (simp add: rx_push_def)
  next
    case 2
    then show ?thesis
      using Cons.IH [of "[]"] split_lines_nonempty by (simp add: rx_push_def)
  next
    case 3
    then have "rx_push (kept_part buffer) c = (kept_part (buffer @ [c]), None)"
      by (simp add: rx_push_def Let_def kept_snoc)
    then show ?thesis using 3 Cons.IH [of "buffer @ [c]"] by simp
  qed
qed simp

lemma rx_lines_append:
  "rx_lines buffer (s @ t) =
     (let (ls, b) = rx_lines buffer s; (ms, b') = rx_lines b t in (ls @ ms, b'))"
  by (induction buffer s rule: rx_lines.induct) (auto simp: Let_def split: prod.splits option.splits)

lemma rx_push_bound: "length buffer \<le> max_rx_line \<Longrightarrow> length (fst (rx_push buffer c)) \<le> max_rx_line"
  by (auto simp: rx_push_def Let_def)

text \<open>\<open>receive_text\<close> handles the lines of \<open>rx_lines\<close> in their order.\<close>

fun handle_lines :: "upload_env \<Rightarrow> string list \<Rightarrow> unit up_act" where
  "handle_lines e [] = ret ()"
| "handle_lines e (l # ls) = do { handle_line e l; handle_lines e ls }"

text \<open>Actions that neither read nor change the receive buffer.\<close>

definition rx_blind :: "'a up_act \<Rightarrow> bool" where
  "rx_blind m \<longleftrightarrow> (\<forall>w b. run_state m (w\<lparr>up_rx := b\<rparr>) =
     (fst (run_state m w), (snd (run_state m w))\<lparr>up_rx := b\<rparr>))"

named_theorems blind_intros \<open>actions that leave the receive buffer alone\<close>

lemma blind_ret [blind_intros]: "rx_blind (ret x)"
  by (simp add: rx_blind_def ret_def)

lemma blind_bind [blind_intros]: "rx_blind m \<Longrightarrow> (\<And>x. rx_blind (f x)) \<Longrightarrow> rx_blind (m \<bind> f)"
  by (simp add: rx_blind_def case_prod_unfold)

lemma blind_ask: "(\<And>w b. f (w\<lparr>up_rx := b\<rparr>) = f w) \<Longrightarrow> rx_blind (ask f)"
  by (simp add: rx_blind_def ask_def)

lemma blind_upd: "(\<And>w b. f (w\<lparr>up_rx := b\<rparr>) = (f w)\<lparr>up_rx := b\<rparr>) \<Longrightarrow> rx_blind (upd f)"
  by (simp add: rx_blind_def upd_def)

lemma blind_if [blind_intros]: "rx_blind m \<Longrightarrow> rx_blind n \<Longrightarrow> rx_blind (if c then m else n)"
  by simp

lemma blind_pair [blind_intros]: "(\<And>a b. rx_blind (f a b)) \<Longrightarrow> rx_blind (case x of (a, b) \<Rightarrow> f a b)"
  by (cases x) simp

lemma blind_option [blind_intros]:
  "rx_blind m \<Longrightarrow> (\<And>y. rx_blind (f y)) \<Longrightarrow> rx_blind (case x of None \<Rightarrow> m | Some y \<Rightarrow> f y)"
  by (cases x) simp_all

lemma blind_sum [blind_intros]:
  "(\<And>y. rx_blind (f y)) \<Longrightarrow> (\<And>y. rx_blind (g y)) \<Longrightarrow> rx_blind (case x of Inl y \<Rightarrow> f y | Inr y \<Rightarrow> g y)"
  by (cases x) simp_all

lemma log_event_rx: "log_event ev (w\<lparr>up_rx := b\<rparr>) = (log_event ev w)\<lparr>up_rx := b\<rparr>"
  by (simp add: log_event_def)

lemma set_snapshot_rx: "set_snapshot st m p (w\<lparr>up_rx := b\<rparr>) = (set_snapshot st m p w)\<lparr>up_rx := b\<rparr>"
  by (simp add: set_snapshot_def Let_def)

lemma serve_request_rx: "serve_request rq (w\<lparr>up_rx := b\<rparr>) = (serve_request rq w)\<lparr>up_rx := b\<rparr>"
  by (auto simp: serve_request_def queue_result_def request_stop_def Let_def log_event_def
      set_snapshot_def heartbeat_milliseconds_def split: option.splits upload_request.splits)

lemma blind_interact [blind_intros]: "rx_blind (up_interact e)"
proof -
  have "w\<lparr>up_rx := b, up_steps := k, up_now := n\<rparr> = w\<lparr>up_steps := k, up_now := n\<rparr>\<lparr>up_rx := b\<rparr>"
    for w :: upload and b k n by simp
  then have "serve_request rq (w\<lparr>up_rx := b, up_steps := k, up_now := n\<rparr>) =
      (serve_request rq (w\<lparr>up_steps := k, up_now := n\<rparr>))\<lparr>up_rx := b\<rparr>" for rq w b k n
    using serve_request_rx by presburger
  then show ?thesis by (simp add: rx_blind_def up_interact_def)
qed

lemma blind_finish_request [blind_intros]: "rx_blind (finish_request e st m p)"
  unfolding finish_request_def
  by (intro blind_intros blind_upd) (simp add: log_event_def set_snapshot_def Let_def)

lemma blind_publish_unless_terminal [blind_intros]: "rx_blind (publish_unless_terminal e st m p)"
  unfolding publish_unless_terminal_def has_terminal_upload_snapshot_def up_publish_def
  by (intro blind_intros blind_upd blind_ask) (simp_all add: set_snapshot_rx)

lemma blind_write [blind_intros]: "rx_blind (up_write e s)"
  unfolding up_write_def up_query_def
  by (intro blind_intros blind_upd) (simp add: log_event_rx)

lemma blind_handle_line [blind_intros]: "rx_blind (handle_line e l)"
  unfolding handle_line_def handle_handshake_def handle_result_ack_def send_handshake_ack_def
  by (intro blind_intros blind_upd blind_ask) (simp_all add: log_event_rx)

lemma blind_handle_lines: "rx_blind (handle_lines e ls)"
  by (induction ls) (simp_all add: blind_intros)

lemma receive_text_lines:
  "run_state (receive_text e s) w =
     ((), (snd (run_state (handle_lines e (fst (rx_lines (up_rx w) s))) w))
            \<lparr>up_rx := snd (rx_lines (up_rx w) s)\<rparr>)"
proof (induction s arbitrary: w)
  case Nil
  then show ?case by (simp add: ret_def)
next
  case (Cons c s)
  obtain b l where push: "rx_push (up_rx w) c = (b, l)" by fastforce
  obtain ls rest where lines: "rx_lines b s = (ls, rest)" by fastforce
  have rx: "up_rx (snd (run_state m (w\<lparr>up_rx := x\<rparr>))) = x" if "rx_blind m" for m :: "unit up_act" and w x
    using that by (simp add: rx_blind_def)
  have blind: "snd (run_state m (w\<lparr>up_rx := x\<rparr>)) = (snd (run_state m w))\<lparr>up_rx := x\<rparr>"
    if "rx_blind m" for m :: "unit up_act" and w x
    using that by (simp add: rx_blind_def)
  show ?case
  proof (cases l)
    case None
    then show ?thesis
      using push lines Cons.IH [of "w\<lparr>up_rx := b\<rparr>"] blind [where m = "handle_lines e ls" and w = w and x = b, OF blind_handle_lines]
      by (simp add: ask_def upd_def ret_def)
  next
    case (Some line)
    let ?w = "snd (run_state (handle_line e line) w)"
    show ?thesis
      using push lines Some Cons.IH [of "?w\<lparr>up_rx := b\<rparr>"] blind [where m = "handle_lines e ls" and w = ?w and x = b, OF blind_handle_lines]
        blind [where m = "handle_line e line" and w = w and x = b, OF blind_handle_line]
      by (simp add: ask_def upd_def case_prod_unfold)
  qed
qed

subsection \<open>Bounds\<close>

definition payload_ok :: "string \<Rightarrow> bool" where
  "payload_ok p \<longleftrightarrow> p \<noteq> [] \<and> CHR 0x0D \<notin> set p \<and> CHR 0x0A \<notin> set p \<and>
     length result_command + 1 + length p \<le> max_protocol_line"

definition is_result_line :: "string \<Rightarrow> bool" where
  "is_result_line t \<longleftrightarrow> take (length result_command) t = result_command"

fun event_tidy :: "upload_event \<Rightarrow> bool" where
  "event_tidy (UpWrote t ok) = (is_result_line t \<longrightarrow> (\<exists>p. payload_ok p \<and> t = result_line p))"
| "event_tidy (UpAccepted p) = payload_ok p"
| "event_tidy _ = True"

definition upload_tidy :: "upload \<Rightarrow> bool" where
  "upload_tidy w \<longleftrightarrow> length (up_rx w) \<le> max_rx_line \<and>
     (case up_pending w of None \<Rightarrow> True | Some p \<Rightarrow> payload_ok p) \<and>
     (case up_active w of None \<Rightarrow> True | Some p \<Rightarrow> payload_ok p) \<and>
     list_all event_tidy (up_trace w)"

lemma tidy_log [simp]: "upload_tidy (log_event ev w) \<longleftrightarrow> upload_tidy w \<and> event_tidy ev"
  by (auto simp: upload_tidy_def log_event_def)

lemma tidy_set_snapshot [simp]: "upload_tidy (set_snapshot st m p w) \<longleftrightarrow> upload_tidy w"
  by (auto simp: upload_tidy_def set_snapshot_def Let_def)

lemma tidy_updates [simp]:
  "upload_tidy (w\<lparr>up_steps := k\<rparr>) \<longleftrightarrow> upload_tidy w" "upload_tidy (w\<lparr>up_now := k\<rparr>) \<longleftrightarrow> upload_tidy w"
  "upload_tidy (w\<lparr>up_stop_requested := b\<rparr>) \<longleftrightarrow> upload_tidy w"
  "upload_tidy (w\<lparr>up_request_active := b\<rparr>) \<longleftrightarrow> upload_tidy w"
  "upload_tidy (w\<lparr>up_pending_deadline := k\<rparr>) \<longleftrightarrow> upload_tidy w"
  "upload_tidy (w\<lparr>up_session := b\<rparr>) \<longleftrightarrow> upload_tidy w" "upload_tidy (w\<lparr>up_device := d\<rparr>) \<longleftrightarrow> upload_tidy w"
  "upload_tidy (w\<lparr>up_port := s\<rparr>) \<longleftrightarrow> upload_tidy w" "upload_tidy (w\<lparr>up_handshaked := b\<rparr>) \<longleftrightarrow> upload_tidy w"
  "upload_tidy (w\<lparr>up_waiting := b\<rparr>) \<longleftrightarrow> upload_tidy w"
  "upload_tidy (w\<lparr>up_next_heartbeat := k\<rparr>) \<longleftrightarrow> upload_tidy w"
  "upload_tidy (w\<lparr>up_request_deadline := k\<rparr>) \<longleftrightarrow> upload_tidy w"
  "upload_tidy (w\<lparr>up_result_deadline := k\<rparr>) \<longleftrightarrow> upload_tidy w"
  "upload_tidy (w\<lparr>up_heartbeat_ms := k\<rparr>) \<longleftrightarrow> upload_tidy w"
  "upload_tidy (w\<lparr>up_listener_running := b\<rparr>) \<longleftrightarrow> upload_tidy w"
  "upload_tidy (w\<lparr>up_worker := b\<rparr>) \<longleftrightarrow> upload_tidy w"
  by (simp_all add: upload_tidy_def)

lemma tidy_resets:
  "upload_tidy w \<Longrightarrow> upload_tidy (w\<lparr>up_active := None\<rparr>)"
  "upload_tidy w \<Longrightarrow> upload_tidy (w\<lparr>up_pending := None\<rparr>)"
  "upload_tidy w \<Longrightarrow> upload_tidy (w\<lparr>up_rx := []\<rparr>)"
  by (simp_all add: upload_tidy_def)

lemma tidy_queue_result: "upload_tidy w \<Longrightarrow> upload_tidy (snd (queue_result p w))"
  by (auto simp: queue_result_def Let_def payload_ok_def) (auto simp: upload_tidy_def payload_ok_def)

lemma tidy_serve_request: "upload_tidy w \<Longrightarrow> upload_tidy (serve_request rq w)"
  by (auto simp: serve_request_def request_stop_def tidy_queue_result split: option.splits upload_request.splits)

abbreviation tidy_act :: "'a up_act \<Rightarrow> bool" where
  "tidy_act \<equiv> keeps upload_tidy"

lemma tidy_interact [keeps_intros]: "tidy_act (up_interact e)"
  unfolding keeps_def up_interact_def by (rule triple_State) (simp add: tidy_serve_request)

lemma tidy_upd: "(\<And>w. upload_tidy w \<Longrightarrow> upload_tidy (f w)) \<Longrightarrow> tidy_act (upd f)"
  by (rule keeps_upd)

lemma not_result_ack: "\<not> is_result_line (ack_command @ t)"
  by (simp add: is_result_line_def command_defs)

lemma tidy_write:
  "(is_result_line t \<longrightarrow> (\<exists>p. payload_ok p \<and> t = result_line p)) \<Longrightarrow> tidy_act (up_write e t)"
  unfolding up_write_def up_query_def by (intro keeps_intros tidy_upd) simp

lemma tidy_small [keeps_intros]:
  "tidy_act (up_query e f)" "tidy_act (up_clock e)" "tidy_act (should_stop e)" "tidy_act (wait_for e)"
  "tidy_act (up_publish e st m p)" "tidy_act (has_terminal_upload_snapshot e)"
  "tidy_act (expire_pending_request e m p)" "tidy_act (fail_pending_request e m p)"
  "tidy_act (finish_request e st m p)" "tidy_act (beat e)" "tidy_act (close_session e)"
  unfolding up_query_def up_clock_def should_stop_def wait_for_def up_publish_def
    has_terminal_upload_snapshot_def expire_pending_request_def fail_pending_request_def
    finish_request_def beat_def close_session_def
  by (intro keeps_intros tidy_upd; simp add: drop_pending_def tidy_resets)+

lemma tidy_publish_unless_terminal [keeps_intros]: "tidy_act (publish_unless_terminal e st m p)"
  unfolding publish_unless_terminal_def by (intro keeps_intros)

lemma tidy_take_pending [keeps_intros]: "tidy_act (take_pending_payload e)"
  unfolding take_pending_payload_def
proof (rule keeps_bind [OF tidy_interact], rule keeps_ask_bind)
  fix w assume w: "upload_tidy w"
  then have "up_pending w = Some p \<Longrightarrow> payload_ok p" for p by (auto simp: upload_tidy_def)
  then show "tidy_act (case up_pending w of None \<Rightarrow> ret None
      | Some payload \<Rightarrow> do {
          upd (\<lambda>w. log_event (UpTaken payload) (w\<lparr>up_pending := None, up_active := Some payload\<rparr>));
          ret (Some payload) })"
    by (intro keeps_intros tidy_upd) (auto simp: upload_tidy_def log_event_def)
qed

lemma tidy_handle_line [keeps_intros]: "tidy_act (handle_line e l)"
  unfolding handle_line_def handle_handshake_def handle_result_ack_def send_handshake_ack_def
  by (intro keeps_intros tidy_upd tidy_write) (simp_all add: not_result_ack tidy_resets)

lemma tidy_receive_text [keeps_intros]: "tidy_act (receive_text e s)"
proof (induction s)
  case (Cons c s)
  have "tidy_act (case rx_push (up_rx w) c of (buffer', line) \<Rightarrow> do {
        upd (\<lambda>w. w\<lparr>up_rx := buffer'\<rparr>);
        (case line of None \<Rightarrow> ret () | Some l \<Rightarrow> handle_line e l) })" if "upload_tidy w" for w
    using rx_push_bound [of "up_rx w" c] that
    by (intro keeps_intros tidy_upd) (auto simp: upload_tidy_def)
  then show ?case
    unfolding receive_text.simps by (intro keeps_ask_bind keeps_bind [OF _ Cons])
qed (simp add: keeps_intros)

lemma tidy_send_result: "payload_ok p \<Longrightarrow> tidy_act (send_result e p port)"
  unfolding send_result_def
  by (intro keeps_intros tidy_upd tidy_write) (auto simp: tidy_resets)

lemma tidy_drive_request [keeps_intros]: "tidy_act (drive_request e now)"
  unfolding drive_request_def
  apply (rule keeps_bind [OF keeps_ask], rule keeps_ask_bind)
  apply (intro keeps_intros tidy_upd tidy_send_result)
  apply (auto simp: tidy_resets)
  apply (auto simp: upload_tidy_def)
  done

lemma tidy_pass: "tidy_act (upload_pass e)"
  unfolding upload_pass_def connect_device_def link_heartbeat_def serve_device_def take_request_def
    read_failed_def
  by (intro keeps_intros tidy_upd) (simp_all add: tidy_resets)

end
