(* ===== verification/UploadProtocol.thy ===== *)
theory UploadProtocol
  imports UploadTheorems
begin

section \<open>UploadProtocol: the service refines the request protocol\<close>

text \<open>
  The contract of the service as an automaton over the events of one run. Its state says what
  the service owes: the payload queued, the payload taken, the payload whose RESULT line was
  written and whose outcome is awaited, and whether the request counts as under way. A payload
  is accepted only where none is queued or under way, it is dropped or taken, its RESULT line is
  written at most once, and nothing is reported uploaded unless the outcome of a written line is
  awaited. The state of the automaton after the events so far is the service's state, which
  every step keeps.

  One thing the code does is not orderly: a handshake it rejects while an outcome is awaited
  fails the request and forgets the payload, but not that an outcome is awaited. The automaton
  follows it there exactly and marks its state as disturbed, until an outcome leaves it idle.
\<close>

subsection \<open>The automaton\<close>

record request =
  rq_queued :: "string option"
  rq_busy :: bool
  rq_held :: "string option"
  rq_awaiting :: "string option"
  rq_failing :: bool \<comment> \<open>only the report of a failure may follow\<close>
  rq_disturbed :: bool

definition idle_request :: request where
  "idle_request = \<lparr>rq_queued = None, rq_busy = False, rq_held = None, rq_awaiting = None,
     rq_failing = False, rq_disturbed = False\<rparr>"

text \<open>An outcome ends the request; with nothing queued or awaited nothing is left disturbed.\<close>

definition settle :: "request \<Rightarrow> request" where
  "settle r = r\<lparr>rq_busy := False, rq_failing := False,
     rq_disturbed := (rq_disturbed r \<and> (rq_queued r \<noteq> None \<or> rq_awaiting r \<noteq> None))\<rparr>"

fun protocol_step :: "request \<Rightarrow> upload_event \<Rightarrow> request option" where
  "protocol_step r (UpAccepted p) =
     (if rq_queued r = None \<and> \<not> rq_busy r then Some (r\<lparr>rq_queued := Some p, rq_busy := True\<rparr>) else None)"
| "protocol_step r (UpFinished st) =
     (if rq_failing r then (if st = UP_FAILED then Some (settle (r\<lparr>rq_held := None\<rparr>)) else None)
      else if rq_held r = None \<and> rq_awaiting r = None then None
      else if st = UP_FAILED \<or> st = UP_SUCCEEDED \<and> rq_awaiting r \<noteq> None
      then Some (settle (r\<lparr>rq_held := None, rq_awaiting := None\<rparr>)) else None)"
| "protocol_step r UpDropped =
     (if rq_queued r \<noteq> None \<and> rq_held r = None \<and> rq_awaiting r = None \<and> \<not> rq_failing r
      then Some (settle (r\<lparr>rq_queued := None\<rparr>)) else None)"
| "protocol_step r (UpTaken p) =
     (if rq_queued r = Some p \<and> rq_held r = None \<and> \<not> rq_failing r
      then Some (r\<lparr>rq_queued := None, rq_held := Some p\<rparr>) else None)"
| "protocol_step r (UpWrote t ok) =
     (if rq_failing r then None
      else if \<not> is_result_line t then Some r
      else case rq_held r of
          None \<Rightarrow> None
        | Some p \<Rightarrow>
            if rq_awaiting r = None \<and> t = result_line p
            then Some (if ok then r\<lparr>rq_awaiting := Some p\<rparr> else r\<lparr>rq_failing := True\<rparr>) else None)"
| "protocol_step r (UpHandshake ok) =
     (if rq_failing r then None
      else if ok \<or> rq_held r = None then Some r
      else Some (r\<lparr>rq_failing := True, rq_disturbed := (rq_disturbed r \<or> rq_awaiting r \<noteq> None)\<rparr>))"
| "protocol_step r (UpOpened d) =
     (if rq_held r = None \<and> rq_awaiting r = None \<and> \<not> rq_failing r then Some r else None)"
| "protocol_step r UpClosed =
     (if rq_held r = None \<and> rq_awaiting r = None \<and> \<not> rq_failing r then Some r else None)"

definition protocol_run :: "upload_event list \<Rightarrow> request option" where
  "protocol_run evs = foldl (\<lambda>r ev. Option.bind r (\<lambda>q. protocol_step q ev)) (Some idle_request) evs"

lemma protocol_run_Nil [simp]: "protocol_run [] = Some idle_request"
  by (simp add: protocol_run_def)

lemma protocol_run_snoc [simp]:
  "protocol_run (evs @ [ev]) = Option.bind (protocol_run evs) (\<lambda>r. protocol_step r ev)"
  by (simp add: protocol_run_def)

text \<open>
  What the automaton promises where nothing is disturbed: one request at a time, under way from
  its acceptance to its outcome, and the outcome awaited is that of the payload it holds.
\<close>

definition orderly :: "request \<Rightarrow> bool" where
  "orderly r \<longleftrightarrow> (rq_busy r \<longleftrightarrow> rq_queued r \<noteq> None \<or> rq_held r \<noteq> None) \<and>
     (rq_queued r = None \<or> rq_held r = None) \<and> (rq_awaiting r = None \<or> rq_awaiting r = rq_held r) \<and>
     (rq_failing r \<longrightarrow> rq_held r \<noteq> None \<and> rq_awaiting r = None)"

lemma step_orderly:
  "protocol_step r ev = Some r' \<Longrightarrow> rq_disturbed r \<or> orderly r \<Longrightarrow> rq_disturbed r' \<or> orderly r'"
  by (cases ev) (auto simp: orderly_def settle_def split: if_splits option.splits)

lemma run_orderly: "protocol_run evs = Some r \<Longrightarrow> rq_disturbed r \<or> orderly r"
proof (induction evs arbitrary: r rule: rev_induct)
  case Nil
  then show ?case by (auto simp: idle_request_def orderly_def)
next
  case (snoc ev evs)
  then show ?case using step_orderly by (auto simp: bind_eq_Some_conv)
qed

text \<open>An awaited outcome is that of a line that was written.\<close>

lemma step_awaiting:
  "protocol_step r ev = Some r' \<Longrightarrow> rq_awaiting r' = Some p \<Longrightarrow>
     rq_awaiting r = Some p \<or> ev = UpWrote (result_line p) True"
  by (cases ev) (auto simp: settle_def split: if_splits option.splits)

lemma awaited_written:
  "protocol_run evs = Some r \<Longrightarrow> rq_awaiting r = Some p \<Longrightarrow> UpWrote (result_line p) True \<in> set evs"
proof (induction evs arbitrary: r rule: rev_induct)
  case Nil
  then show ?case by (auto simp: idle_request_def)
next
  case (snoc ev evs)
  then obtain q where "protocol_run evs = Some q" "protocol_step q ev = Some r"
    by (auto simp: bind_eq_Some_conv)
  then show ?case using step_awaiting snoc by fastforce
qed

text \<open>So a success is reported only for a line written, and undisturbed for the payload held.\<close>

lemma success_needs_result:
  assumes "protocol_run (evs @ [UpFinished UP_SUCCEEDED]) = Some r'"
  shows "\<exists>r p. protocol_run evs = Some r \<and> rq_awaiting r = Some p \<and>
     UpWrote (result_line p) True \<in> set evs \<and> (rq_disturbed r \<or> rq_held r = Some p)"
proof -
  obtain r where r: "protocol_run evs = Some r" "protocol_step r (UpFinished UP_SUCCEEDED) = Some r'"
    using assms by (auto simp: bind_eq_Some_conv)
  then obtain p where p: "rq_awaiting r = Some p" by (auto split: if_splits)
  then have "rq_disturbed r \<or> rq_held r = Some p"
    using run_orderly [OF r(1)] by (auto simp: orderly_def)
  then show ?thesis using r p awaited_written by blast
qed

subsection \<open>The abstraction\<close>

text \<open>
  \<open>tracks w a wt f\<close>: the automaton's state has what the mutex protects as the service has it,
  holds \<open>a\<close>, awaits an outcome if \<open>wt\<close> and has to report a failure if \<open>f\<close>.
\<close>

definition tracks :: "upload \<Rightarrow> string option \<Rightarrow> bool \<Rightarrow> bool \<Rightarrow> bool" where
  "tracks w a wt f \<longleftrightarrow> (\<exists>r. protocol_run (up_trace w) = Some r \<and> rq_queued r = up_pending w \<and>
     rq_busy r = up_request_active w \<and> rq_held r = a \<and> (rq_awaiting r \<noteq> None) = wt \<and> rq_failing r = f)"

definition locals_of :: "upload \<Rightarrow> bool \<times> string option \<times> bool" where
  "locals_of w = (up_session w, up_active w, up_waiting w)"

text \<open>
  \<open>at_rest_with\<close>: between the worker's actions. \<open>cleaning_with\<close>: a request has been finished
  and the worker has still to reset its locals. \<open>failing_with\<close>: its failure is to be reported;
  \<open>failed_with\<close>: that has been done, and the payload is still to be forgotten.
\<close>

definition at_rest_with :: "bool \<times> string option \<times> bool \<Rightarrow> upload \<Rightarrow> bool" where
  "at_rest_with l w \<longleftrightarrow> locals_of w = l \<and> (up_session w \<or> up_active w = None \<and> \<not> up_waiting w) \<and>
     tracks w (up_active w) (up_waiting w) False"

definition cleaning_with :: "bool \<times> string option \<times> bool \<Rightarrow> upload \<Rightarrow> bool" where
  "cleaning_with l w \<longleftrightarrow> locals_of w = l \<and> tracks w None False False"

definition failing_with :: "string \<Rightarrow> bool \<Rightarrow> upload \<Rightarrow> bool" where
  "failing_with p wt w \<longleftrightarrow> locals_of w = (True, Some p, wt) \<and> tracks w (Some p) wt True"

definition failed_with :: "string \<Rightarrow> bool \<Rightarrow> upload \<Rightarrow> bool" where
  "failed_with p wt w \<longleftrightarrow> locals_of w = (True, Some p, wt) \<and> tracks w None wt False"

lemmas rest_defs = at_rest_with_def cleaning_with_def failing_with_def failed_with_def locals_of_def tracks_def

definition follows_protocol :: "upload \<Rightarrow> bool" where
  "follows_protocol w \<longleftrightarrow> (\<exists>l. at_rest_with l w)"

lemma idle_cleaning: "at_rest_with (s, None, False) w \<Longrightarrow> cleaning_with (s, None, False) w"
  by (auto simp: at_rest_with_def cleaning_with_def locals_of_def)

lemma tracks_updates [simp]:
  "tracks (w\<lparr>up_steps := k\<rparr>) a wt f \<longleftrightarrow> tracks w a wt f"
  "tracks (w\<lparr>up_now := k\<rparr>) a wt f \<longleftrightarrow> tracks w a wt f"
  "tracks (w\<lparr>up_device := d\<rparr>) a wt f \<longleftrightarrow> tracks w a wt f"
  "tracks (w\<lparr>up_port := t\<rparr>) a wt f \<longleftrightarrow> tracks w a wt f"
  "tracks (w\<lparr>up_rx := t\<rparr>) a wt f \<longleftrightarrow> tracks w a wt f"
  "tracks (w\<lparr>up_handshaked := b\<rparr>) a wt f \<longleftrightarrow> tracks w a wt f"
  "tracks (w\<lparr>up_next_heartbeat := k\<rparr>) a wt f \<longleftrightarrow> tracks w a wt f"
  "tracks (w\<lparr>up_request_deadline := k\<rparr>) a wt f \<longleftrightarrow> tracks w a wt f"
  "tracks (w\<lparr>up_result_deadline := k\<rparr>) a wt f \<longleftrightarrow> tracks w a wt f"
  "tracks (w\<lparr>up_heartbeat_ms := k\<rparr>) a wt f \<longleftrightarrow> tracks w a wt f"
  "tracks (w\<lparr>up_stop_requested := b\<rparr>) a wt f \<longleftrightarrow> tracks w a wt f"
  "tracks (w\<lparr>up_session := b\<rparr>) a wt f \<longleftrightarrow> tracks w a wt f"
  "tracks (w\<lparr>up_active := q\<rparr>) a wt f \<longleftrightarrow> tracks w a wt f"
  "tracks (w\<lparr>up_waiting := b\<rparr>) a wt f \<longleftrightarrow> tracks w a wt f"
  "tracks (set_snapshot st m t w) a wt f \<longleftrightarrow> tracks w a wt f"
  by (simp_all add: tracks_def set_snapshot_def Let_def)

lemma locals_updates [simp]:
  "locals_of (w\<lparr>up_steps := k\<rparr>) = locals_of w" "locals_of (w\<lparr>up_now := k\<rparr>) = locals_of w"
  "locals_of (w\<lparr>up_device := d\<rparr>) = locals_of w" "locals_of (w\<lparr>up_port := t\<rparr>) = locals_of w"
  "locals_of (w\<lparr>up_rx := t\<rparr>) = locals_of w" "locals_of (w\<lparr>up_handshaked := b\<rparr>) = locals_of w"
  "locals_of (w\<lparr>up_next_heartbeat := k\<rparr>) = locals_of w"
  "locals_of (w\<lparr>up_request_deadline := k\<rparr>) = locals_of w"
  "locals_of (w\<lparr>up_result_deadline := k\<rparr>) = locals_of w"
  "locals_of (w\<lparr>up_heartbeat_ms := k\<rparr>) = locals_of w"
  "locals_of (w\<lparr>up_stop_requested := b\<rparr>) = locals_of w"
  "locals_of (w\<lparr>up_pending := q\<rparr>) = locals_of w" "locals_of (w\<lparr>up_request_active := b\<rparr>) = locals_of w"
  "locals_of (set_snapshot st m t w) = locals_of w" "locals_of (log_event ev w) = locals_of w"
  by (simp_all add: locals_of_def set_snapshot_def log_event_def Let_def)

lemma at_rest_updates [simp]:
  "at_rest_with l (w\<lparr>up_steps := k\<rparr>) \<longleftrightarrow> at_rest_with l w"
  "at_rest_with l (w\<lparr>up_now := k\<rparr>) \<longleftrightarrow> at_rest_with l w"
  "at_rest_with l (w\<lparr>up_device := d\<rparr>) \<longleftrightarrow> at_rest_with l w"
  "at_rest_with l (w\<lparr>up_port := p\<rparr>) \<longleftrightarrow> at_rest_with l w"
  "at_rest_with l (w\<lparr>up_rx := r\<rparr>) \<longleftrightarrow> at_rest_with l w"
  "at_rest_with l (w\<lparr>up_handshaked := b\<rparr>) \<longleftrightarrow> at_rest_with l w"
  "at_rest_with l (w\<lparr>up_next_heartbeat := k\<rparr>) \<longleftrightarrow> at_rest_with l w"
  "at_rest_with l (w\<lparr>up_request_deadline := k\<rparr>) \<longleftrightarrow> at_rest_with l w"
  "at_rest_with l (w\<lparr>up_result_deadline := k\<rparr>) \<longleftrightarrow> at_rest_with l w"
  "at_rest_with l (w\<lparr>up_heartbeat_ms := k\<rparr>) \<longleftrightarrow> at_rest_with l w"
  "at_rest_with l (w\<lparr>up_stop_requested := b\<rparr>) \<longleftrightarrow> at_rest_with l w"
  "at_rest_with l (set_snapshot st m q w) \<longleftrightarrow> at_rest_with l w"
  by (simp_all add: at_rest_with_def) (simp add: set_snapshot_def Let_def)

text \<open>Serving the user interface keeps what is tracked, in any of these states.\<close>

lemma queue_tracks: "tracks w a wt f \<Longrightarrow> tracks (snd (queue_result p w)) a wt f"
  by (cases "fst (queue_result p w)")
    (auto simp: queue_result_def Let_def tracks_def log_event_def set_snapshot_def split: if_splits)

lemma queue_locals [simp]:
  "locals_of (snd (queue_result p w)) = locals_of w" "up_session (snd (queue_result p w)) = up_session w"
  "up_active (snd (queue_result p w)) = up_active w" "up_waiting (snd (queue_result p w)) = up_waiting w"
  by (simp_all add: queue_result_def Let_def log_event_def set_snapshot_def locals_of_def)

lemma serve_tracks:
  "tracks w a wt f \<Longrightarrow> tracks (serve_request rq w) a wt f"
  "locals_of (serve_request rq w) = locals_of w"
  by (auto simp: serve_request_def request_stop_def queue_tracks split: option.splits upload_request.splits)

lemma serve_at_rest: "at_rest_with l w \<Longrightarrow> at_rest_with l (serve_request rq w)"
  using serve_tracks(1) [of w "up_active w" "up_waiting w" False rq] serve_tracks(2) [of rq w]
  by (auto simp: at_rest_with_def locals_of_def)

lemma interact_at_rest: "triple (at_rest_with l) (up_interact e) (\<lambda>_. at_rest_with l)"
  unfolding up_interact_def by (rule triple_State) (auto intro: serve_at_rest)

lemma interact_cleaning: "triple (cleaning_with l) (up_interact e) (\<lambda>_. cleaning_with l)"
  unfolding up_interact_def
  by (rule triple_State) (auto simp: cleaning_with_def serve_tracks intro!: serve_tracks)

lemma interact_failing: "triple (failing_with p wt) (up_interact e) (\<lambda>_. failing_with p wt)"
  unfolding up_interact_def
  by (rule triple_State) (auto simp: failing_with_def serve_tracks intro!: serve_tracks)

subsection \<open>The worker's actions\<close>

abbreviation rests :: "bool \<times> string option \<times> bool \<Rightarrow> 'a up_act \<Rightarrow> bool" where
  "rests l \<equiv> keeps (at_rest_with l)"

lemma rests_interact [keeps_intros]: "rests l (up_interact e)"
  unfolding keeps_def by (rule interact_at_rest)

lemma rests_small [keeps_intros]:
  "rests l (up_query e f)" "rests l (up_clock e)" "rests l (should_stop e)" "rests l (wait_for e)"
  "rests l (up_publish e st m p)" "rests l (has_terminal_upload_snapshot e)" "rests l (beat e)"
  unfolding up_query_def up_clock_def should_stop_def wait_for_def up_publish_def
    has_terminal_upload_snapshot_def beat_def
  by (intro keeps_intros keeps_upd; simp)+

lemma rests_publish_unless_terminal [keeps_intros]: "rests l (publish_unless_terminal e st m p)"
  unfolding publish_unless_terminal_def by (intro keeps_intros)

text \<open>Dropping a pending payload, without a session.\<close>

lemma drop_pending_at_rest:
  "at_rest_with (s, None, False) w \<Longrightarrow> up_pending w \<noteq> None \<Longrightarrow> at_rest_with (s, None, False) (drop_pending m p w)"
  by (auto simp: rest_defs drop_pending_def log_event_def set_snapshot_def settle_def Let_def)

lemma rests_drop [keeps_intros]:
  "rests (s, None, False) (expire_pending_request e m p)"
  "rests (s, None, False) (fail_pending_request e m p)"
  unfolding keeps_def triple_def expire_pending_request_def fail_pending_request_def
  using tripleD [OF interact_at_rest]
  by (auto simp: ask_def ret_def upd_def case_prod_unfold intro: drop_pending_at_rest)

text \<open>Finishing a request, and the reset that follows.\<close>

lemma finish_request_triple:
  assumes "a \<noteq> None \<or> wt" "st = UP_FAILED \<or> st = UP_SUCCEEDED \<and> wt"
  shows "triple (at_rest_with (s, a, wt)) (finish_request e st m p) (\<lambda>_. cleaning_with (s, a, wt))"
  unfolding finish_request_def
  by (rule triple_bind [OF interact_at_rest], rule triple_upd)
    (use assms in \<open>auto simp: rest_defs log_event_def set_snapshot_def settle_def Let_def\<close>)

lemma finish_failing_triple:
  "triple (failing_with q wt) (finish_request e UP_FAILED m p) (\<lambda>_. failed_with q wt)"
  unfolding finish_request_def
  by (rule triple_bind [OF interact_failing], rule triple_upd)
    (auto simp: rest_defs log_event_def set_snapshot_def settle_def Let_def)

lemma forget_triple:
  "triple (failed_with p wt) (upd (\<lambda>w. w\<lparr>up_active := None\<rparr>)) (\<lambda>_. at_rest_with (True, None, wt))"
  by (rule triple_upd) (auto simp: rest_defs)

lemma reset_triple:
  "triple (cleaning_with (s, a, wt)) (upd (\<lambda>w. w\<lparr>up_waiting := False, up_active := None\<rparr>))
     (\<lambda>_. at_rest_with (s, None, False))"
  by (rule triple_upd) (auto simp: rest_defs)

lemma reset_active_triple:
  "triple (cleaning_with (s, a, False)) (upd (\<lambda>w. w\<lparr>up_active := None\<rparr>)) (\<lambda>_. at_rest_with (s, None, False))"
  by (rule triple_upd) (auto simp: rest_defs)

lemma close_session_triple:
  "triple (cleaning_with (s, a, wt)) (close_session e) (\<lambda>_. at_rest_with (False, None, False))"
  unfolding close_session_def
  by (rule triple_bind [OF interact_cleaning], rule triple_upd)
    (auto simp: rest_defs log_event_def)

lemma finish_or_idle:
  "triple (at_rest_with (s, a, wt))
     (if a \<noteq> None \<or> wt then finish_request e UP_FAILED m p else ret ()) (\<lambda>_. cleaning_with (s, a, wt))"
  by (rule triple_if, rule finish_request_triple) (auto intro!: triple_ret idle_cleaning)

subsection \<open>Lines, passes and steps\<close>

definition open_rest :: "upload \<Rightarrow> bool" where
  "open_rest w \<longleftrightarrow> (\<exists>a wt. at_rest_with (True, a, wt) w)"

lemma open_restI: "at_rest_with (True, a, wt) w \<Longrightarrow> open_rest w"
  by (auto simp: open_rest_def)

lemma triple_open: "(\<And>a wt. triple (at_rest_with (True, a, wt)) m Q) \<Longrightarrow> triple open_rest m Q"
  unfolding open_rest_def by (intro triple_ex)

lemma at_rest_locals:
  "at_rest_with (s, a, wt) w \<Longrightarrow> up_session w = s \<and> up_active w = a \<and> up_waiting w = wt"
  by (simp add: at_rest_with_def locals_of_def)

lemma rests_write: "\<not> is_result_line t \<Longrightarrow> rests l (up_write e t)"
  unfolding up_write_def
  by (intro keeps_intros keeps_upd) (auto simp: rest_defs log_event_def)

lemma rests_handshake_ack [keeps_intros]: "rests l (send_handshake_ack e line)"
  unfolding send_handshake_ack_def by (intro keeps_intros rests_write) (simp add: not_result_ack)

lemma handshake_logged:
  "triple (at_rest_with (True, a, wt)) (upd (log_event (UpHandshake ok)))
     (\<lambda>_ w. case (ok, a) of (False, Some p) \<Rightarrow> failing_with p wt w | _ \<Rightarrow> at_rest_with (True, a, wt) w)"
  by (rule triple_upd) (cases ok; cases a; auto simp: rest_defs log_event_def)

text \<open>A failure is reported and the payload forgotten; what is awaited stays awaited.\<close>

lemma fail_and_forget:
  "triple (failing_with p wt) (do {
     finish_request e UP_FAILED m port; upd (\<lambda>w. w\<lparr>up_active := None\<rparr>) }) (\<lambda>_. open_rest)"
  by (rule triple_bind [OF finish_failing_triple], rule triple_post [OF forget_triple]) (rule open_restI)

lemma rejected_active:
  "triple (\<lambda>w. case a of Some p \<Rightarrow> failing_with p wt w | None \<Rightarrow> at_rest_with (True, a, wt) w)
     (do { active \<leftarrow> ask (\<lambda>w. up_active w \<noteq> None);
        if active then do {
          finish_request e UP_FAILED m port;
          upd (\<lambda>w. w\<lparr>up_active := None\<rparr>) }
        else ret () }) (\<lambda>_. open_rest)"
proof (rule triple_ask_known [where v = "a \<noteq> None"], goal_cases)
  case (1 w)
  then show ?case by (auto simp: rest_defs split: option.splits)
next
  case 2
  show ?case
  proof (cases a)
    case None
    then show ?thesis by (auto intro!: triple_ret open_restI)
  next
    case (Some p)
    then show ?thesis using fail_and_forget [of p wt] by simp
  qed
qed

lemma handle_handshake_open: "triple open_rest (handle_handshake e line) (\<lambda>_. open_rest)"
proof (rule triple_open)
  fix a wt
  let ?at = "at_rest_with (True, a, wt)"
  have greeted: "keeps ?at (do {
        upd (\<lambda>w. w\<lparr>up_handshaked := True\<rparr>);
        quiet \<leftarrow> ask (\<lambda>w. up_active w = None \<and> \<not> up_waiting w);
        if quiet then publish_unless_terminal e UP_READY ''Factory upload handshake ready'' port
        else ret () })" for port
    by (intro keeps_intros keeps_upd) simp
  show "triple ?at (handle_handshake e line) (\<lambda>_. open_rest)"
    unfolding handle_handshake_def
  proof (rule triple_ask_any, rule triple_keeps_bind [OF rests_handshake_ack],
      rule triple_bind [OF handshake_logged], goal_cases)
    case (1 port sent u)
    show ?case
    proof (cases sent)
      case True
      then show ?thesis using greeted [of port] unfolding keeps_def
        by (auto intro: triple_post open_restI)
    next
      case False
      then show ?thesis using rejected_active [of a wt e "''Factory upload handshake failed''" port]
        by (cases a) simp_all
    qed
  qed
qed

lemma handle_result_ack_open: "triple open_rest (handle_result_ack e line) (\<lambda>_. open_rest)"
proof (rule triple_open)
  fix a wt
  show "triple (at_rest_with (True, a, wt)) (handle_result_ack e line) (\<lambda>_. open_rest)"
    unfolding handle_result_ack_def
  proof (rule triple_ask_any, rule triple_ask_known [where v = wt], goal_cases)
    case 1
    then show ?case by (simp add: at_rest_locals)
  next
    case (2 port)
    have fin: "triple (at_rest_with (True, a, True)) (finish_request e UP_FAILED m port)
        (\<lambda>_. cleaning_with (True, a, True))"
      "triple (at_rest_with (True, a, True)) (finish_request e UP_SUCCEEDED m port)
        (\<lambda>_. cleaning_with (True, a, True))" for m
      by (rule finish_request_triple; simp)+
    have reset: "triple (cleaning_with (True, a, True)) (upd (\<lambda>w. w\<lparr>up_waiting := False, up_active := None\<rparr>))
        (\<lambda>_. open_rest)"
      by (rule triple_post [OF reset_triple]) (rule open_restI)
    show ?case
    proof (cases wt)
      case True
      from True have at: "at_rest_with (True, a, wt) = at_rest_with (True, a, True)" by simp
      show ?thesis unfolding at
      proof (rule triple_if, goal_cases)
        case 1
        then show ?case using True by simp
      next
        case 2
        show ?case by (rule triple_bind [OF _ reset]) (intro triple_sum triple_pair triple_if fin)
      qed
    next
      case False
      then show ?thesis by (auto intro!: triple_ret open_restI)
    qed
  qed
qed

lemma handle_line_open: "triple open_rest (handle_line e line) (\<lambda>_. open_rest)"
  unfolding handle_line_def
  by (intro triple_if handle_handshake_open handle_result_ack_open triple_ret)

lemma open_rest_rx [simp]: "open_rest (w\<lparr>up_rx := b\<rparr>) \<longleftrightarrow> open_rest w"
  by (simp add: open_rest_def)

lemma receive_text_open: "keeps open_rest (receive_text e s)"
proof (induction s)
  case (Cons c s)
  have "keeps open_rest (handle_line e l)" for l
    unfolding keeps_def by (rule handle_line_open)
  then show ?case
    unfolding receive_text.simps by (intro keeps_intros keeps_upd Cons) simp_all
qed (simp add: keeps_intros)

definition closed_rest :: "upload \<Rightarrow> bool" where
  "closed_rest w \<longleftrightarrow> at_rest_with (False, None, False) w"

abbreviation closes :: "'a up_act \<Rightarrow> bool" where
  "closes \<equiv> keeps (at_rest_with (False, None, False))"

lemma session_opened:
  "at_rest_with (False, None, False) w \<Longrightarrow> at_rest_with (True, None, False)
     (log_event (UpOpened d) (w\<lparr>up_session := True, up_handshaked := False, up_waiting := False\<rparr>))"
  by (auto simp: rest_defs log_event_def)

lemma connect_device_rest:
  "triple (at_rest_with (False, None, False)) (connect_device e)
     (\<lambda>ok w. if ok then at_rest_with (True, None, False) w else at_rest_with (False, None, False) w)"
proof -
  let ?closed = "at_rest_with (False, None, False)" and ?open = "at_rest_with (True, None, False)"
  let ?Q = "\<lambda>ok w. if ok then ?open w else ?closed w"
  have give_up: "triple ?closed (m \<bind> (\<lambda>x. (f x :: unit up_act) \<bind> (\<lambda>_. wait_for e \<bind> (\<lambda>_. ret False)))) ?Q"
    if "closes m" "\<And>x. closes (f x)" for m :: "bool up_act" and f
  proof -
    have "closes (m \<bind> (\<lambda>x. f x \<bind> (\<lambda>_. wait_for e)))" by (intro keeps_intros that)
    then show ?thesis
      using that by (intro triple_keeps_bind [OF that(1)] triple_keeps_bind [OF that(2)]
          triple_keeps_bind [OF rests_small(4)] triple_ret) simp
  qed
  have opened: "triple ?closed (do {
         upd (\<lambda>w. log_event (UpOpened d) (w\<lparr>up_session := True, up_handshaked := False, up_waiting := False\<rparr>));
         connected_at \<leftarrow> up_clock e;
         upd (\<lambda>w. w\<lparr>up_next_heartbeat := connected_at + seconds 1, up_rx := []\<rparr>);
         publish_unless_terminal e UP_WAITING_HANDSHAKE ''Waiting for M5FACTORY handshake'' d;
         ret True }) ?Q" for d
    by (rule triple_bind [where R = "\<lambda>_. ?open"], rule triple_upd, erule session_opened,
        rule triple_keeps_bind [OF rests_small(2)], rule triple_keeps_bind, rule keeps_upd, simp,
        rule triple_keeps_bind [OF rests_publish_unless_terminal], rule triple_ret) simp
  show ?thesis
    unfolding connect_device_def
    by (rule triple_keeps_bind [OF rests_small(1)], rule triple_pair, rule triple_keeps_bind, rule keeps_upd, simp,
        rule triple_if, rule give_up, (intro keeps_intros)+, rule triple_keeps_bind [OF rests_small(1)],
        rule triple_if, rule give_up, (intro keeps_intros)+, rule opened)
qed

lemma cleaned_rest:
  "triple (at_rest_with (True, a, wt))
     (do { (if a \<noteq> None \<or> wt then finish_request e UP_FAILED m port else ret ()); close_session e })
     (\<lambda>_. at_rest_with (False, None, False))"
  by (rule triple_bind [OF finish_or_idle close_session_triple])

lemma link_heartbeat_rest:
  "triple open_rest (link_heartbeat e)
     (\<lambda>alive w. if alive then open_rest w else at_rest_with (False, None, False) w)"
proof (rule triple_open)
  fix a wt
  let ?at = "at_rest_with (True, a, wt)" and ?closed = "at_rest_with (False, None, False)"
  let ?Q = "\<lambda>alive w. if alive then open_rest w else ?closed w"
  have stay: "triple ?at (ret True) ?Q" by (rule triple_ret) (auto intro: open_restI)
  have leave: "triple ?at (do {
         (if b then finish_request e UP_FAILED ''USB serial device disconnected'' port else ret ());
         close_session e;
         upd (\<lambda>w. w\<lparr>up_handshaked := False, up_rx := []\<rparr>);
         (if b then ret () else publish_unless_terminal e UP_SEARCHING ''Factory upload device disconnected'' []);
         ret False }) ?Q" if b: "b = (a \<noteq> None \<or> wt)" for b port
  proof -
    have after: "triple ?closed (do {
         upd (\<lambda>w. w\<lparr>up_handshaked := False, up_rx := []\<rparr>);
         (if b then ret () else publish_unless_terminal e UP_SEARCHING ''Factory upload device disconnected'' []);
         ret False }) ?Q"
      by (rule triple_keeps_bind, rule keeps_upd, simp, rule triple_keeps_bind, intro keeps_intros,
          rule triple_ret) simp
    show ?thesis unfolding b
      by (rule triple_bind [OF finish_or_idle], rule triple_bind [OF close_session_triple])
        (use after b in simp)
  qed
  have known: "triple ?at (ask (\<lambda>w. up_active w \<noteq> None \<or> up_waiting w) \<bind> g) ?Q"
    if "triple ?at (g (a \<noteq> None \<or> wt)) ?Q" for g
    using that by (intro triple_ask_known [where v = "a \<noteq> None \<or> wt"]) (auto simp: at_rest_locals)
  show "triple ?at (link_heartbeat e) ?Q"
    unfolding link_heartbeat_def
    by (rule triple_keeps_bind [OF rests_small(2)], rule triple_ask_any, rule triple_if, rule stay,
        rule triple_keeps_bind [OF rests_small(1)], rule triple_pair, rule triple_keeps_bind, rule keeps_upd, simp,
        rule triple_ask_any, rule triple_if, rule stay, rule triple_ask_any, rule known, rule leave, rule refl)
qed

lemma take_pending_rest:
  "triple (at_rest_with (True, None, wt)) (take_pending_payload e)
     (\<lambda>r. at_rest_with (True, r, wt))"
  unfolding take_pending_payload_def
proof (rule triple_bind [OF interact_at_rest])
  fix k
  show "triple (at_rest_with (True, None, wt)) (ask up_pending \<bind> (\<lambda>p. case p of None \<Rightarrow> ret None
      | Some payload \<Rightarrow> do {
          upd (\<lambda>w. log_event (UpTaken payload) (w\<lparr>up_pending := None, up_active := Some payload\<rparr>));
          ret (Some payload) })) (\<lambda>r. at_rest_with (True, r, wt))"
    by (auto simp: triple_def ask_def ret_def upd_def rest_defs log_event_def split: option.split)
qed

lemma take_request_rest: "triple open_rest (take_request e) (\<lambda>_. open_rest)"
proof (rule triple_open)
  fix a wt
  let ?at = "at_rest_with (True, a, wt)"
  show "triple ?at (take_request e) (\<lambda>_. open_rest)"
    unfolding take_request_def
  proof (rule triple_ask_known [where v = "a = None"], goal_cases)
    case (1 w)
    then show ?case by (simp add: at_rest_locals)
  next
    case 2
    show ?case
    proof (rule triple_if, goal_cases)
      case 1
      show ?case by (rule triple_ret) (rule open_restI)
    next
      case 2
      then have a: "a = None" by simp
      show ?case unfolding a
        by (rule triple_bind [OF take_pending_rest], rule triple_option, rule triple_ret, erule open_restI,
            rule triple_keeps_bind [OF rests_small(2)], rule triple_upd) (auto intro: open_restI)
    qed
  qed
qed

lemma result_line_is: "is_result_line (result_line p)"
  by (simp add: is_result_line_def result_line_def)

text \<open>Between the write and the local that records it the automaton is ahead.\<close>

definition sent_with :: "string \<Rightarrow> upload \<Rightarrow> bool" where
  "sent_with p w \<longleftrightarrow> locals_of w = (True, Some p, False) \<and> tracks w (Some p) True False"

lemma write_result_rest:
  "triple (at_rest_with (True, Some p, False)) (up_write e (result_line p))
     (\<lambda>r w. if r = None then sent_with p w else failing_with p False w)"
  unfolding up_write_def
proof (rule triple_keeps_bind [OF rests_small(1)], goal_cases)
  case (1 r)
  have "triple (at_rest_with (True, Some p, False)) (upd (log_event (UpWrote (result_line p) (r = None))))
     (\<lambda>_ w. if r = None then sent_with p w else failing_with p False w)"
    by (rule triple_upd) (auto simp: sent_with_def rest_defs log_event_def result_line_is)
  then show ?case by (rule triple_bind) (auto intro: triple_ret)
qed

lemma sent_waiting:
  "triple (sent_with p) (upd (\<lambda>w. w\<lparr>up_waiting := True\<rparr>)) (\<lambda>_. at_rest_with (True, Some p, True))"
  by (rule triple_upd) (auto simp: sent_with_def rest_defs)

lemma finish_reset_active:
  "triple (at_rest_with (True, Some p, False)) (do {
     finish_request e UP_FAILED m port; upd (\<lambda>w. w\<lparr>up_active := None\<rparr>) }) (\<lambda>_. open_rest)"
  by (rule triple_bind [OF finish_request_triple], simp, simp, rule triple_post [OF reset_active_triple])
    (rule open_restI)

lemma finish_reset_waiting:
  "triple (at_rest_with (True, a, True)) (do {
     finish_request e UP_FAILED m port;
     upd (\<lambda>w. w\<lparr>up_waiting := False, up_active := None\<rparr>) }) (\<lambda>_. open_rest)"
  by (rule triple_bind [OF finish_request_triple], simp, simp, rule triple_post [OF reset_triple])
    (rule open_restI)

lemma send_result_rest:
  "triple (at_rest_with (True, Some p, False)) (send_result e p port) (\<lambda>_. open_rest)"
proof -
  have failed: "triple (failing_with p False) (do {
        finish_request e UP_FAILED (''Failed to send test result: '' @ m) port;
        upd (\<lambda>w. w\<lparr>up_active := None\<rparr>) }) (\<lambda>_. open_rest)" for m
    by (rule fail_and_forget)
  have sent: "triple (sent_with p) (do {
         upd (\<lambda>w. w\<lparr>up_waiting := True\<rparr>);
         t \<leftarrow> up_clock e;
         upd (\<lambda>w. w\<lparr>up_result_deadline := t + seconds 60\<rparr>);
         up_publish e UP_WAITING_RESULT_ACK ''Waiting for upload acknowledgement'' port }) (\<lambda>_. open_rest)"
    by (rule triple_bind [OF sent_waiting], rule triple_post [where Q' = "\<lambda>_. at_rest_with (True, Some p, True)"],
        rule keeps_triple, intro keeps_intros keeps_upd, simp, rule open_restI)
  show ?thesis
    unfolding send_result_def
  proof (rule triple_keeps_bind [OF rests_small(5)], rule triple_bind [OF write_result_rest], goal_cases)
    case (1 u r)
    then show ?case using failed sent by (cases r) simp_all
  qed
qed

lemma drive_request_rest: "triple open_rest (drive_request e now) (\<lambda>_. open_rest)"
proof (rule triple_open)
  fix a wt
  let ?at = "at_rest_with (True, a, wt)"
  have stay: "triple ?at (ret ()) (\<lambda>_. open_rest)" by (rule triple_ret) (rule open_restI)
  show "triple ?at (drive_request e now) (\<lambda>_. open_rest)"
    unfolding drive_request_def
    apply (rule triple_ask_any, rule triple_ask_known [where v = a], simp add: at_rest_locals)
    apply (rule triple_ask_known [where v = wt], simp add: at_rest_locals)
    apply (rule triple_ask_any, rule triple_ask_any, rule triple_ask_any)
    apply (rule triple_option; intro triple_if stay)
    using finish_reset_waiting finish_reset_active send_result_rest by (auto intro: stay)
qed

lemma read_failed_rest: "triple open_rest (read_failed e) (\<lambda>_. at_rest_with (False, None, False))"
proof (rule triple_open)
  fix a wt
  let ?at = "at_rest_with (True, a, wt)"
  have known: "triple ?at (ask (\<lambda>w. up_active w \<noteq> None \<or> up_waiting w) \<bind> g) Q"
    if "triple ?at (g (a \<noteq> None \<or> wt)) Q" for g :: "bool \<Rightarrow> unit up_act" and Q
    using that by (intro triple_ask_known [where v = "a \<noteq> None \<or> wt"]) (auto simp: at_rest_locals)
  show "triple ?at (read_failed e) (\<lambda>_. at_rest_with (False, None, False))"
    unfolding read_failed_def by (rule triple_ask_any, rule known, rule cleaned_rest)
qed

text \<open>What holds between passes: with a session, or without one and with fresh locals.\<close>

definition settled :: "upload \<Rightarrow> bool" where
  "settled w \<longleftrightarrow> open_rest w \<or> at_rest_with (False, None, False) w"

lemma settled_iff: "settled w \<longleftrightarrow> follows_protocol w"
proof
  assume "follows_protocol w"
  then obtain s a wt where "at_rest_with (s, a, wt) w" by (auto simp: follows_protocol_def)
  then show "settled w"
    by (cases s) (auto simp: settled_def open_rest_def at_rest_with_def locals_of_def)
qed (auto simp: settled_def follows_protocol_def open_rest_def)

lemma open_keeps: "(\<And>a wt. keeps (at_rest_with (True, a, wt)) m) \<Longrightarrow> keeps open_rest m"
  unfolding open_rest_def by (intro keeps_ex)

lemma open_small [keeps_intros]:
  "keeps open_rest (up_query e f)" "keeps open_rest (up_clock e)" "keeps open_rest (wait_for e)"
  "keeps open_rest (beat e)"
  by (rule open_keeps, rule rests_small)+

lemma serve_device_rest: "triple open_rest (serve_device e) (\<lambda>_. settled)"
proof -
  have drive: "keeps open_rest (drive_request e now)" for now
    unfolding keeps_def by (rule drive_request_rest)
  have "triple open_rest (do { receive_text e s; now \<leftarrow> up_clock e; drive_request e now; wait_for e }) (\<lambda>_. settled)" for s
    by (rule triple_post [where Q' = "\<lambda>_. open_rest"], rule keeps_triple,
        intro keeps_intros receive_text_open drive) (simp add: settled_def)
  moreover have "triple open_rest (read_failed e) (\<lambda>_. settled)"
    by (rule triple_post [OF read_failed_rest]) (simp add: settled_def)
  ultimately show ?thesis
    unfolding serve_device_def
    by (intro triple_bind [OF take_request_rest] triple_keeps_bind [OF open_small(1)] triple_pair triple_if)
qed

lemma upload_pass_settled: "keeps settled (upload_pass e)"
  unfolding keeps_def upload_pass_def
proof (rule triple_keeps_bind, goal_cases)
  case 1
  show ?case unfolding settled_def by (rule keeps_disj [OF open_small(4) rests_small(7)])
next
  case (2 u)
  let ?rest = "\<lambda>ready. if \<not> ready then ret () else do {
       alive \<leftarrow> link_heartbeat e;
       if alive then serve_device e else ret () }"
  let ?closed = "at_rest_with (False, None, False)"
  have alive: "triple (\<lambda>w. if alive then open_rest w else ?closed w)
      (if alive then serve_device e else ret ()) (\<lambda>_. settled)" for alive
    using serve_device_rest by (cases alive) (auto intro!: triple_ret simp: settled_def)
  have ready: "triple (\<lambda>w. if ready then open_rest w else ?closed w) (?rest ready) (\<lambda>_. settled)" for ready
    using triple_bind [OF link_heartbeat_rest alive]
    by (cases ready) (auto intro!: triple_ret simp: settled_def)
  have connected: "triple ?closed (connect_device e) (\<lambda>ok w. if ok then open_rest w else ?closed w)"
    by (rule triple_post [OF connect_device_rest]) (auto split: if_splits intro: open_restI)
  have opened: "triple open_rest (ret True) (\<lambda>ok w. if ok then open_rest w else ?closed w)"
    by (rule triple_ret) simp
  have whole: "triple P (ask up_session \<bind> (\<lambda>s. (if s then ret True else connect_device e) \<bind> ?rest)) (\<lambda>_. settled)"
    if "\<And>w. P w \<Longrightarrow> up_session w = s" "triple P (if s then ret True else connect_device e)
      (\<lambda>ok w. if ok then open_rest w else ?closed w)" for P s
    by (rule triple_ask_known [where v = s, OF that(1)], assumption, rule triple_bind [OF that(2) ready])
  have "triple open_rest (ask up_session \<bind> (\<lambda>s. (if s then ret True else connect_device e) \<bind> ?rest)) (\<lambda>_. settled)"
    by (rule whole [where s = True]) (auto simp: open_rest_def at_rest_with_def locals_of_def opened)
  moreover have "triple ?closed (ask up_session \<bind> (\<lambda>s. (if s then ret True else connect_device e) \<bind> ?rest)) (\<lambda>_. settled)"
    by (rule whole [where s = False]) (auto simp: at_rest_with_def locals_of_def connected)
  ultimately show ?case unfolding triple_def settled_def by blast
qed

subsection \<open>The run as steps\<close>

text \<open>
  A run of the worker: a pass where it is not asked to stop, and between the passes what the
  user interface asks for. (Inside a pass the interactions serve the requests.)
\<close>

inductive upload_step :: "upload_env \<Rightarrow> upload \<Rightarrow> upload \<Rightarrow> bool" for e where
  pass: "run_state (should_stop e) w = (False, w1) \<Longrightarrow> upload_step e w (snd (run_state (upload_pass e) w1))"
| request: "upload_step e w (serve_request (Some rq) w)"

text \<open>The state in which the loop of \<open>run ()\<close> is entered for the first time.\<close>

definition listening :: "upload_env \<Rightarrow> string \<Rightarrow> string \<Rightarrow> nat \<Rightarrow> upload" where
  "listening e model firmware now =
     snd (run_state (beat e) (start_listener ((initial_upload model firmware now)\<lparr>up_worker := True\<rparr>)))"

lemma step_invariant:
  assumes "(upload_step e)\<^sup>*\<^sup>* (listening e model firmware now) w"
    "I (start_listener ((initial_upload model firmware now)\<lparr>up_worker := True\<rparr>))"
    "keeps I (beat e)" "keeps I (should_stop e)" "keeps I (upload_pass e)"
    "\<And>rq w. I w \<Longrightarrow> I (serve_request (Some rq) w)"
  shows "I w"
  using assms(1)
proof (induction rule: rtranclp_induct)
  case base
  then show ?case unfolding listening_def using assms(2,3) by (rule keepsD [rotated])
next
  case (step v w)
  from step.hyps(2) show ?case
  proof (cases rule: upload_step.cases)
    case (pass w1)
    then have "I w1" using keepsD [OF assms(4) step.IH] by simp
    then show ?thesis using pass keepsD [OF assms(5)] by simp
  next
    case (request rq)
    then show ?thesis using assms(6) [OF step.IH] by simp
  qed
qed

lemma settled_start:
  "settled (start_listener ((initial_upload model firmware now)\<lparr>up_worker := True\<rparr>))"
  by (simp add: settled_def rest_defs start_listener_def initial_upload_def idle_request_def)

lemma settled_small: "keeps settled (beat e)" "keeps settled (should_stop e)"
  unfolding settled_def by (intro keeps_disj open_keeps rests_small)+

lemma settled_request: "settled w \<Longrightarrow> settled (serve_request (Some rq) w)"
  unfolding settled_def open_rest_def using serve_at_rest by blast

subsection \<open>A late acknowledgement\<close>

lemma matches_ack_only:
  "command_matches line result_ack_command \<Longrightarrow> \<not> command_matches line handshake_command"
proof
  assume "command_matches line result_ack_command" "command_matches line handshake_command"
  then have "take (length result_ack_command) line = result_ack_command"
      "take (length handshake_command) line = handshake_command"
    by (simp_all add: command_matches_def)
  then have "take 11 (take (length result_ack_command) line) = take 11 result_ack_command"
      "take 11 (take (length handshake_command) line) = take 11 handshake_command"
    by (simp_all only:)
  then have "take 11 result_ack_command = take 11 handshake_command"
    by (simp add: command_defs min_def)
  then show False by (simp add: command_defs)
qed

lemma quiet_interact:
  "ue_request e (up_steps w) = None \<Longrightarrow> run_state (up_interact e) w =
     (up_steps w, w\<lparr>up_steps := Suc (up_steps w), up_now := up_now w + ue_lapse e (up_steps w)\<rparr>)"
  by (simp add: up_interact_def serve_request_def)

lemma queue_accepted:
  "queue_result raw w = (None, w') \<Longrightarrow> \<exists>p. p = filter (\<lambda>c. c \<noteq> CHR 0x0D \<and> c \<noteq> CHR 0x0A) raw \<and>
     up_pending w' = Some p \<and> up_trace w' = up_trace w @ [UpAccepted p] \<and>
     up_active w' = up_active w \<and> up_waiting w' = up_waiting w"
  by (auto simp: queue_result_def Let_def log_event_def set_snapshot_def split: if_splits)

lemma snapshot_state [simp]: "us_state (up_snapshot (set_snapshot st m p w)) = st"
  by (simp add: set_snapshot_def Let_def)

lemma set_snapshot_rest [simp]:
  "up_pending (set_snapshot st m p w) = up_pending w" "up_active (set_snapshot st m p w) = up_active w"
  "up_waiting (set_snapshot st m p w) = up_waiting w" "up_trace (set_snapshot st m p w) = up_trace w"
  by (simp_all add: set_snapshot_def Let_def)

end
