(* ===== verification/UploadRuns.thy ===== *)
theory UploadRuns
  imports UploadProtocol JsonText
begin

section \<open>UploadRuns: one upload, from the queue to its acknowledgement\<close>

text \<open>
  A run of the service on a bench where the device is present, shakes hands and acknowledges,
  with the reference reader of JSON. It instantiates the properties of the service.
\<close>

subsection \<open>The lines of the device\<close>

definition bench_lib :: json_lib where
  "bench_lib = (reference_cjson, \<lambda>t. None)"

definition hello_object :: output_value where
  "hello_object = OVObject [(''proto'', OVNumber (Fin 1)), (''role'', OVString ''tab5'')]"

definition hello_line :: string where
  "hello_line = handshake_command @ '' '' @ output_value_to_string hello_object"

definition saved_line :: string where
  "saved_line = result_ack_command @ '' {'' @ quote ''saved'' @ '':true}''"

lemma quoted_words: "quoted ''proto'' = quote ''proto''" "quoted ''role'' = quote ''role''" "quoted ''tab5'' = quote ''tab5''"
  unfolding quoted_def quote_def by code_simp+

lemma digit_1: "digit_char (Suc 0) = CHR ''1''"
  by (simp add: digit_char_def)

lemma hello_text:
  "output_value_to_string hello_object = ''{'' @ quote ''proto'' @ '': 1, '' @ quote ''role'' @ '': '' @ quote ''tab5'' @ ''}''"
  by (simp add: hello_object_def quoted_words int_text_def nat_text.simps digit_1)

lemma hello_read:
  "json_read (output_value_to_string hello_object) = Some (JObj [(''proto'', JNum (Fin 1)), (''role'', JStr ''tab5'')])"
proof -
  have "json_num (Fin 1)" unfolding json_num_def by (rule disjI2, rule exI [of _ 1]) simp
  then show ?thesis
    using reads_json_read [OF compact_reads [of hello_object], of "[]"] by (simp add: hello_object_def)
qed

lemma saved_read: "json_read (''{'' @ quote ''saved'' @ '':true}'') = Some (JObj [(''saved'', JBool True)])"
  unfolding quote_def by code_simp

lemma payload_after: "c \<noteq> CHR '' '' \<Longrightarrow> payload_after_command (command @ '' '' @ c # s) command = c # s"
  by (simp add: payload_after_command_def)

lemma hello_parsed: "parse_handshake bench_lib (payload_after_command hello_line handshake_command) = Inr None"
proof -
  have "payload_after_command hello_line handshake_command = output_value_to_string hello_object"
    by (simp add: hello_line_def hello_text payload_after [simplified])
  then show ?thesis
    by (simp add: parse_handshake_def parse_object_def parse_json_output_def bench_lib_def reference_cjson_def
        hello_read object_field_def not_proto_1_def proto_bound_def)
qed

lemma saved_parsed: "parse_result_ack bench_lib (payload_after_command saved_line result_ack_command) = Inr (True, [], [])"
proof -
  have "payload_after_command saved_line result_ack_command = ''{'' @ quote ''saved'' @ '':true}''"
    by (simp add: saved_line_def payload_after [simplified])
  then show ?thesis
    by (simp add: parse_result_ack_def parse_object_def parse_json_output_def bench_lib_def reference_cjson_def
        saved_read [simplified] object_field_def string_field_def)
qed

lemma bench_commands:
  "command_matches hello_line handshake_command"
  "command_matches saved_line result_ack_command"
  by (simp_all add: command_matches_def hello_line_def saved_line_def)

lemma whole_line:
  "list_all (\<lambda>c. c \<noteq> CHR 0x0D \<and> c \<noteq> CHR 0x0A) l \<Longrightarrow> length b + length l \<le> max_rx_line \<Longrightarrow> b @ l \<noteq> [] \<Longrightarrow>
     rx_lines b (l @ [CHR 0x0A]) = ([b @ l], [])"
  by (induction l arbitrary: b) (simp_all add: rx_push_def Let_def)

lemma bench_lines:
  "rx_lines [] (hello_line @ [CHR 0x0A]) = ([hello_line], [])"
  "rx_lines [] (saved_line @ [CHR 0x0A]) = ([saved_line], [])"
  by (subst whole_line; simp add: hello_line_def saved_line_def hello_text command_defs quote_def max_rx_line_def)+


subsection \<open>The run\<close>

definition bench :: upload_env where
  "bench = \<lparr>ue_json = bench_lib, ue_request = (\<lambda>k. None), ue_lapse = (\<lambda>k. 0),
     ue_find = (\<lambda>k. (\<lparr>sd_path = ''/dev/ttyACM0'', sd_bus = 1, sd_address = 2\<rparr>, [])), ue_open = (\<lambda>k. True),
     ue_read = (\<lambda>k. (if k < 15 then hello_line @ [CHR 0x0A] else saved_line @ [CHR 0x0A], [])),
     ue_write = (\<lambda>k. None)\<rparr>"

definition bench_turn :: "upload \<Rightarrow> upload" where
  "bench_turn w = snd (run_state (upload_pass bench) (snd (run_state (should_stop bench) w)))"

definition bench_queued :: upload where
  "bench_queued = serve_request (Some (RqQueue ''PASS'')) (listening bench ''Zero'' ''1.0'' 5000000)"

lemma bench_interact [simp]: "run_state (up_interact bench) w = (up_steps w, w\<lparr>up_steps := Suc (up_steps w)\<rparr>)"
  by (simp add: quiet_interact bench_def)

lemma bench_query [simp]: "run_state (up_query bench f) w = (f (up_steps w), w\<lparr>up_steps := Suc (up_steps w)\<rparr>)"
  by (simp add: up_query_def ret_def)

lemma bench_clock [simp]: "run_state (up_clock bench) w = (up_now w, w\<lparr>up_steps := Suc (up_steps w)\<rparr>)"
  by (simp add: up_clock_def ask_def)

lemmas act_defs = ask_def ret_def upd_def


lemma bench_env [simp]:
  "ue_find bench = (\<lambda>k. (\<lparr>sd_path = ''/dev/ttyACM0'', sd_bus = 1, sd_address = 2\<rparr>, []))"
  "ue_open bench = (\<lambda>k. True)" "ue_write bench = (\<lambda>k. None)" "ue_json bench = bench_lib"
  "ue_read bench = (\<lambda>k. (if k < 15 then hello_line @ [CHR 0x0A] else saved_line @ [CHR 0x0A], []))"
  by (simp_all add: bench_def)

lemmas snapshot_defs = log_event_def set_snapshot_def Let_def up_publish_def publish_unless_terminal_def
  has_terminal_upload_snapshot_def terminal_state_def

lemma bench_queued_eval: "bench_queued =
   (initial_upload ''Zero'' ''1.0'' 5000000)\<lparr>up_worker := True, up_listener_running := True, up_heartbeat_ms := 5,
     up_request_active := True, up_pending := Some ''PASS'', up_pending_deadline := 10005000000,
     up_snapshot := \<lparr>us_state = UP_QUEUED, us_message = ''Test result queued for upload'', us_port = [],
       us_revision = 1, us_listener_online = False, us_heartbeat_age_ms = 0\<rparr>,
     up_steps := 1, up_trace := [UpAccepted ''PASS'']\<rparr>"
  by (simp add: bench_queued_def listening_def serve_request_def queue_result_def initial_upload_def
      start_listener_def beat_def act_defs heartbeat_milliseconds_def snapshot_defs seconds_def
      max_protocol_line_def result_command_def)

text \<open>The first pass opens the port, answers the handshake and sends; the second reads the ACK.\<close>

definition bench_sent :: upload where
  "bench_sent = (initial_upload ''Zero'' ''1.0'' 5000000)\<lparr>up_worker := True, up_listener_running := True,
     up_heartbeat_ms := 5, up_request_active := True, up_pending_deadline := 10005000000,
     up_snapshot := \<lparr>us_state = UP_WAITING_RESULT_ACK, us_message = ''Waiting for upload acknowledgement'',
       us_port = ''/dev/ttyACM0'', us_revision = 4, us_listener_online = False, us_heartbeat_age_ms = 0\<rparr>,
     up_session := True, up_device := \<lparr>sd_path = ''/dev/ttyACM0'', sd_bus = 1, sd_address = 2\<rparr>,
     up_port := ''/dev/ttyACM0'', up_active := Some ''PASS'', up_handshaked := True, up_waiting := True,
     up_next_heartbeat := 1005000000, up_request_deadline := 10005000000, up_result_deadline := 60005000000,
     up_steps := 19, up_trace := [UpAccepted ''PASS'', UpOpened ''/dev/ttyACM0'', UpTaken ''PASS'',
       UpWrote (ack_command @ '' {'' @ quote ''proto'' @ '':1,'' @ quote ''role'' @ '':'' @ quote ''tester'' @ '','' @
         quote ''model'' @ '':'' @ quote ''Zero'' @ '','' @ quote ''fw'' @ '':'' @ quote ''1.0'' @ ''}'' @ [CHR 0x0A]) True,
       UpHandshake True, UpWrote (result_line ''PASS'') True]\<rparr>"

lemma bench_first_turn: "bench_turn bench_queued = bench_sent"
  apply (simp add: bench_queued_eval initial_upload_def bench_turn_def should_stop_def upload_pass_def beat_def
      act_defs heartbeat_milliseconds_def)
  apply (simp add: connect_device_def act_defs seconds_def snapshot_defs)
  apply (simp add: link_heartbeat_def act_defs)
  apply (simp add: serve_device_def take_request_def take_pending_payload_def act_defs log_event_def seconds_def)
  apply (simp add: receive_text_lines bench_lines)
  apply (simp add: handle_line_def bench_commands handle_handshake_def send_handshake_ack_def act_defs hello_parsed
      up_write_def log_event_def)
  apply (simp add: drive_request_def act_defs send_result_def snapshot_defs up_write_def wait_for_def seconds_def
      bench_sent_def initial_upload_def)
  done

lemma bench_second_turn:
  "us_state (up_snapshot (bench_turn bench_sent)) = UP_SUCCEEDED"
  "up_trace (bench_turn bench_sent) = up_trace bench_sent @ [UpFinished UP_SUCCEEDED]"
  apply (simp_all add: bench_sent_def initial_upload_def bench_turn_def should_stop_def upload_pass_def beat_def
      act_defs heartbeat_milliseconds_def link_heartbeat_def)
  apply (simp_all add: serve_device_def take_request_def act_defs receive_text_lines bench_lines)
  apply (simp_all add: handle_line_def bench_commands matches_ack_only handle_result_ack_def act_defs saved_parsed
      finish_request_def log_event_def)
  apply (simp_all add: drive_request_def act_defs wait_for_def)
  done

lemma bench_step: "\<not> up_stop_requested w \<Longrightarrow> upload_step bench w (bench_turn w)"
  unfolding bench_turn_def by (rule upload_step.pass) (simp add: should_stop_def act_defs)

lemma bench_sent_reached:
  "(upload_step bench)\<^sup>*\<^sup>* (listening bench ''Zero'' ''1.0'' 5000000) bench_sent"
proof -
  have "upload_step bench (listening bench ''Zero'' ''1.0'' 5000000) bench_queued"
    unfolding bench_queued_def by (rule upload_step.request)
  moreover have "upload_step bench bench_queued bench_sent"
    using bench_step [of bench_queued] by (simp add: bench_first_turn) (simp add: bench_queued_eval initial_upload_def)
  ultimately show ?thesis by (meson converse_rtranclp_into_rtranclp rtranclp.rtrancl_refl)
qed

lemma bench_reached:
  "(upload_step bench)\<^sup>*\<^sup>* (listening bench ''Zero'' ''1.0'' 5000000) (bench_turn bench_sent)"
  using bench_sent_reached bench_step [of bench_sent]
  by (simp add: bench_sent_def initial_upload_def rtranclp.rtrancl_into_rtrancl)

subsection \<open>Properties\<close>

text \<open>C2: The service refines the request protocol: after every pass and every call of the user
  interface, for every environment and interleaving, the events so far are a run of the
  automaton, and its state is what the members under the mutex and the worker's locals say. So a
  payload is accepted only with none queued or under way, only the taken payload's RESULT line is
  written, at most once, and success is reported only where the outcome of a written line is
  awaited. Unless the state is disturbed, which only a handshake rejected while an outcome is
  awaited makes it, the outcome awaited is the held payload's own, and a request is under way
  exactly from its acceptance to its outcome. In a disturbed state the service still awaits the
  outcome of a payload it has dropped, and the next outcome is reported for whatever is held
  then (\<open>late_acknowledgement\<close>).\<close>

theorem upload_refines_protocol:
  assumes "(upload_step e)\<^sup>*\<^sup>* (listening e model firmware now) w"
  shows "\<exists>r. protocol_run (up_trace w) = Some r \<and> rq_queued r = up_pending w \<and>
    rq_busy r = up_request_active w \<and> rq_held r = up_active w \<and>
    (rq_awaiting r \<noteq> None) = up_waiting w \<and> \<not> rq_failing r \<and> (rq_disturbed r \<or> orderly r)"
proof -
  have "settled w"
    by (rule step_invariant [OF assms settled_start settled_small upload_pass_settled settled_request])
  then have "tracks w (up_active w) (up_waiting w) False"
    by (auto simp: settled_def open_rest_def at_rest_with_def)
  then show ?thesis using run_orderly by (auto simp: tracks_def)
qed

theorem upload_refines_protocol_witness:
  "us_state (up_snapshot (bench_turn bench_sent)) = UP_SUCCEEDED \<and>
   (\<exists>r. protocol_run (up_trace bench_sent) = Some r \<and> rq_held r = Some ''PASS'' \<and>
      rq_awaiting r = Some ''PASS'' \<and> rq_busy r)"
proof -
  obtain r where r: "protocol_run (up_trace bench_sent) = Some r" "rq_queued r = up_pending bench_sent"
      "rq_busy r = up_request_active bench_sent" "rq_held r = up_active bench_sent"
      "(rq_awaiting r \<noteq> None) = up_waiting bench_sent" "rq_disturbed r \<or> orderly r"
    using upload_refines_protocol [OF bench_sent_reached] by blast
  have w: "up_active bench_sent = Some ''PASS''" "up_waiting bench_sent" "up_request_active bench_sent"
    by (simp_all add: bench_sent_def)
  have "rq_awaiting r = Some q \<Longrightarrow> UpWrote (result_line q) True \<in> set (up_trace bench_sent)" for q
    using awaited_written [OF r(1)] .
  then have "rq_awaiting r = Some q \<Longrightarrow> q = ''PASS''" for q
    by (auto simp: bench_sent_def initial_upload_def result_line_def command_defs)
  then show ?thesis using r w bench_second_turn(1) by auto
qed

text \<open>C25: Whatever the device sends and the user interface queues, every RESULT line the service
  writes is one protocol line of at most 512 bytes, its newline included, with no line break
  inside, and the receive buffer never holds more than 1024 characters.\<close>

theorem upload_lines_bounded:
  assumes "(upload_step e)\<^sup>*\<^sup>* (listening e model firmware now) w"
  shows "length (up_rx w) \<le> max_rx_line \<and>
    (\<forall>t ok. UpWrote t ok \<in> set (up_trace w) \<longrightarrow> is_result_line t \<longrightarrow>
       length t \<le> max_protocol_line + 1 \<and> last t = CHR 0x0A \<and>
       CHR 0x0A \<notin> set (butlast t) \<and> CHR 0x0D \<notin> set t)"
proof -
  have start: "upload_tidy (start_listener ((initial_upload model firmware now)\<lparr>up_worker := True\<rparr>))"
    by (simp add: upload_tidy_def start_listener_def initial_upload_def)
  have tidy: "upload_tidy w"
    by (rule step_invariant [OF assms start tidy_small(10) tidy_small(3) tidy_pass tidy_serve_request])
  have "length t \<le> max_protocol_line + 1 \<and> last t = CHR 0x0A \<and>
      CHR 0x0A \<notin> set (butlast t) \<and> CHR 0x0D \<notin> set t"
    if ev: "UpWrote t ok \<in> set (up_trace w)" "is_result_line t" for t ok
  proof -
    have "event_tidy (UpWrote t ok)" using tidy ev(1) by (auto simp: upload_tidy_def list_all_iff)
    then obtain p where "payload_ok p" "t = result_line p" using ev(2) by auto
    then show ?thesis by (auto simp: result_line_def payload_ok_def command_defs butlast_append)
  qed
  then show ?thesis using tidy by (auto simp: upload_tidy_def)
qed

theorem upload_lines_bounded_witness:
  "UpWrote (result_line ''PASS'') True \<in> set (up_trace (bench_turn bench_sent)) \<and>
   length (up_rx (bench_turn bench_sent)) \<le> 1024 \<and> length (result_line ''PASS'') \<le> 512"
proof -
  have "UpWrote (result_line ''PASS'') True \<in> set (up_trace (bench_turn bench_sent))"
    by (simp add: bench_second_turn) (simp add: bench_sent_def)
  then show ?thesis
    using upload_lines_bounded [OF bench_reached] result_line_is
    by (auto simp: max_rx_line_def max_protocol_line_def)
qed

text \<open>C26: The service handles exactly the lines of what it receives: however the serial port
  splits the stream, receiving it is handling its lines in order, the empty ones skipped,
  and keeping the last, unfinished one, behind what the buffer held before. Of a line longer
  than 1024 characters it is the part \<open>kept_part\<close> that is handled: the characters
  after the last multiple of 1025.\<close>

theorem received_lines:
  assumes "length (up_rx w) \<le> max_rx_line"
  shows "foldl (\<lambda>v chunk. snd (run_state (receive_text e chunk) v)) w chunks =
    (snd (run_state (handle_lines e
       (filter (\<lambda>l. l \<noteq> []) (map kept_part (butlast (stream_pieces (up_rx w) (concat chunks)))))) w))
      \<lparr>up_rx := kept_part (last (stream_pieces (up_rx w) (concat chunks)))\<rparr>"
proof -
  have split: "run_state (receive_text e (s @ t)) v =
      run_state (receive_text e t) (snd (run_state (receive_text e s) v))" for s t v
    by (induction s arbitrary: v) (simp_all add: ret_def case_prod_unfold)
  have "foldl (\<lambda>v chunk. snd (run_state (receive_text e chunk) v)) w chunks =
      snd (run_state (receive_text e (concat chunks)) w)"
    by (induction chunks arbitrary: w) (simp_all add: ret_def split)
  then show ?thesis
    using receive_text_lines [of e "concat chunks" w] rx_lines_split [of "up_rx w" "concat chunks"] assms
    by simp
qed

theorem received_lines_witness:
  "foldl (\<lambda>v chunk. snd (run_state (receive_text bench chunk) v)) bench_sent [''M5'', ''F'' @ [CHR 0x0D, CHR 0x0A, CHR 0x0A], ''AC''] =
   (snd (run_state (handle_lines bench [''M5F'']) bench_sent))\<lparr>up_rx := ''AC''\<rparr>"
  using received_lines [of bench_sent bench "[''M5'', ''F'' @ [CHR 0x0D, CHR 0x0A, CHR 0x0A], ''AC'']"]
  by (simp add: stream_pieces_def kept_part_def max_rx_line_def bench_sent_def initial_upload_def)

text \<open>An acknowledgement of an earlier result can be taken for that of a result never sent:
  when a handshake is rejected while a result waits for its acknowledgement, the request is
  failed but the worker goes on waiting; the next queued payload is taken, the late
  acknowledgement of the first result reports it as uploaded, and it is dropped without having
  been written.\<close>

theorem late_acknowledgement:
  assumes "\<And>k. ue_request e k = None" "up_active w = Some a" "up_waiting w"
    "command_matches bad handshake_command"
    "parse_handshake (ue_json e) (payload_after_command bad handshake_command) = Inl m"
    "queue_result raw (snd (run_state (handle_line e bad) w)) = (None, w2)"
    "command_matches ack result_ack_command"
    "parse_result_ack (ue_json e) (payload_after_command ack result_ack_command) = Inr (True, status, message)"
    "w3 = snd (run_state (take_request e) w2)" "w4 = snd (run_state (handle_line e ack) w3)"
  shows "us_state (up_snapshot w4) = UP_SUCCEEDED \<and> up_pending w4 = None \<and> up_active w4 = None \<and>
    (\<exists>b. up_trace w4 = up_trace w @
      [UpHandshake False, UpFinished UP_FAILED, UpAccepted b, UpTaken b, UpFinished UP_SUCCEEDED])"
proof -
  let ?w1 = "snd (run_state (handle_line e bad) w)"
  have w1: "up_active ?w1 = None" "up_waiting ?w1"
      "up_trace ?w1 = up_trace w @ [UpHandshake False, UpFinished UP_FAILED]"
    using assms(1-5)
    by (simp_all add: handle_line_def handle_handshake_def send_handshake_ack_def finish_request_def
        ask_def ret_def upd_def quiet_interact log_event_def)
  obtain b where w2: "up_pending w2 = Some b" "up_trace w2 = up_trace ?w1 @ [UpAccepted b]"
      "up_active w2 = None" "up_waiting w2"
    using queue_accepted [OF assms(6)] w1 by auto
  have w3: "up_pending w3 = None" "up_trace w3 = up_trace w2 @ [UpTaken b]" "up_active w3 = Some b" "up_waiting w3"
    unfolding assms(9) using w2 assms(1)
    by (simp_all add: take_request_def take_pending_payload_def up_clock_def ask_def ret_def upd_def
        quiet_interact log_event_def)
  have "us_state (up_snapshot w4) = UP_SUCCEEDED" "up_pending w4 = None" "up_active w4 = None"
      "up_trace w4 = up_trace w3 @ [UpFinished UP_SUCCEEDED]"
    unfolding assms(10) using w3 assms(1,7,8) matches_ack_only [OF assms(7)]
    by (simp_all add: handle_line_def handle_result_ack_def finish_request_def ask_def ret_def upd_def
        quiet_interact log_event_def)
  then show ?thesis using w1 w2 w3 by simp
qed

theorem late_acknowledgement_witness:
  "let w2 = snd (queue_result ''NEXT'' (snd (run_state (handle_line bench handshake_command) bench_sent)));
       w4 = snd (run_state (handle_line bench saved_line) (snd (run_state (take_request bench) w2))) in
   us_state (up_snapshot w4) = UP_SUCCEEDED \<and> up_pending w4 = None \<and>
   (\<exists>b. up_trace w4 = up_trace bench_sent @
      [UpHandshake False, UpFinished UP_FAILED, UpAccepted b, UpTaken b, UpFinished UP_SUCCEEDED])"
proof -
  have bad: "parse_handshake (ue_json bench) (payload_after_command handshake_command handshake_command) =
      Inl ''invalid handshake JSON: failed to parse JSON''"
    by (simp add: payload_after_command_def parse_handshake_def parse_object_def parse_json_output_def bench_lib_def
        reference_cjson_def json_read_def skip_ws_def)
  have matches: "command_matches handshake_command handshake_command" by (simp add: command_matches_def)
  have waiting: "up_active bench_sent = Some ''PASS''" "up_waiting bench_sent" by (simp_all add: bench_sent_def)
  let ?w1 = "snd (run_state (handle_line bench handshake_command) bench_sent)"
  have queued: "queue_result ''NEXT'' ?w1 = (None, snd (queue_result ''NEXT'' ?w1))"
    using bad
    by (simp add: handle_line_def matches handle_handshake_def send_handshake_ack_def act_defs finish_request_def
        snapshot_defs bench_sent_def initial_upload_def queue_result_def heartbeat_milliseconds_def
        max_protocol_line_def result_command_def)
  show ?thesis
    using late_acknowledgement [of bench, OF _ waiting matches bad queued bench_commands(2) _ refl refl] saved_parsed
    by (simp add: bench_def Let_def)
qed

end
