(* ===== verification/Translation.thy ===== *)
theory Translation
  imports Serialization
begin

section \<open>Translation: message catalogs\<close>

text \<open>
  The class \<open>TranslationService\<close> of src/src/model/translation_service.cpp: a language, the
  catalogs by locale and the list of languages the settings show. A file is given by the
  content its stream yields, \<open>None\<close> where it cannot be opened.
\<close>

type_synonym catalog = "string \<rightharpoonup> string"

record language_info =
  li_locale :: string
  li_display_name :: string

record translation_service =
  ts_language :: string
  ts_catalogs :: "string \<rightharpoonup> catalog"
  ts_languages :: "language_info list"

definition new_translations :: translation_service where
  "new_translations = \<lparr>ts_language = ''en'', ts_catalogs = Map.empty,
     ts_languages = [\<lparr>li_locale = ''en'', li_display_name = ''English''\<rparr>]\<rparr>"

definition object_value_for_key :: "output_value \<Rightarrow> string \<Rightarrow> output_value option" where
  "object_value_for_key v key = (case v of OVObject kvs \<Rightarrow> map_of kvs key | _ \<Rightarrow> None)"

definition string_value_or :: "output_value option \<Rightarrow> string \<Rightarrow> string" where
  "string_value_or v fallback = (case v of Some (OVString s) \<Rightarrow> s | _ \<Rightarrow> fallback)"

text \<open>The loop over the messages keeps the texts; what is not a text is skipped.\<close>

fun fill_catalog :: "(string \<times> output_value) list \<Rightarrow> catalog \<Rightarrow> catalog" where
  "fill_catalog [] c = c"
| "fill_catalog ((k, OVString s) # kvs) c = fill_catalog kvs (c(k \<mapsto> s))"
| "fill_catalog (_ # kvs) c = fill_catalog kvs c"

fun upsert_language_info :: "language_info \<Rightarrow> language_info list \<Rightarrow> language_info list" where
  "upsert_language_info info [] = [info]"
| "upsert_language_info info (l # ls) =
     (if li_locale l = li_locale info then info # ls else l # upsert_language_info info ls)"

definition load_language_file ::
  "cjson \<Rightarrow> (string \<Rightarrow> string option) \<Rightarrow> string \<Rightarrow> string \<Rightarrow> string option \<Rightarrow> translation_service \<Rightarrow>
   string option \<times> translation_service" where
  "load_language_file c error_ptr locale path content ts =
     (if locale = [] \<or> path = [] then (Some ''empty language locale or path'', ts)
      else case parse_json_file c error_ptr path content of
          Inl err \<Rightarrow> (Some err, ts)
        | Inr doc \<Rightarrow>
            (case doc of
               OVObject _ \<Rightarrow>
                 (case (case object_value_for_key doc ''messages'' of None \<Rightarrow> doc | Some m \<Rightarrow> m) of
                    OVObject messages \<Rightarrow>
                      (None, ts\<lparr>ts_catalogs := (ts_catalogs ts)(locale \<mapsto> fill_catalog messages Map.empty),
                         ts_languages := upsert_language_info
                           \<lparr>li_locale = locale,
                            li_display_name = string_value_or (object_value_for_key doc ''display_name'') locale\<rparr>
                           (ts_languages ts)\<rparr>)
                  | _ \<Rightarrow> (Some ''translation messages must be a JSON object'', ts))
             | _ \<Rightarrow> (Some ''translation root must be a JSON object'', ts)))"

definition has_language :: "translation_service \<Rightarrow> string \<Rightarrow> bool" where
  "has_language ts locale \<longleftrightarrow> locale = ''en'' \<or> ts_catalogs ts locale \<noteq> None"

definition set_service_language :: "string \<Rightarrow> translation_service \<Rightarrow> bool \<times> translation_service" where
  "set_service_language locale ts =
     (if has_language ts locale then (True, ts\<lparr>ts_language := locale\<rparr>) else (False, ts))"

definition translate :: "translation_service \<Rightarrow> string \<Rightarrow> string" where
  "translate ts msgid =
     (if msgid = [] \<or> ts_language ts = ''en'' then msgid
      else case ts_catalogs ts (ts_language ts) of
          None \<Rightarrow> msgid
        | Some c \<Rightarrow> (case c msgid of None \<Rightarrow> msgid | Some m \<Rightarrow> m))"

definition uses_cjk_font :: "translation_service \<Rightarrow> bool" where
  "uses_cjk_font ts \<longleftrightarrow> take 2 (ts_language ts) = ''zh''"

text \<open>
  The services a caller can reach: the list of languages is exactly the languages that can be
  set, each once, whatever files were loaded in whatever order.
\<close>

definition listed :: "translation_service \<Rightarrow> bool" where
  "listed ts \<longleftrightarrow> distinct (map li_locale (ts_languages ts)) \<and>
     (\<forall>locale. has_language ts locale \<longleftrightarrow> locale \<in> li_locale ` set (ts_languages ts)) \<and>
     has_language ts (ts_language ts)"

lemma upsert_locales:
  "li_locale ` set (upsert_language_info info ls) = insert (li_locale info) (li_locale ` set ls)"
  by (induction ls) auto

lemma upsert_distinct:
  "distinct (map li_locale ls) \<Longrightarrow> distinct (map li_locale (upsert_language_info info ls))"
proof (induction ls)
  case (Cons l ls)
  then show ?case using upsert_locales [of info ls] by (auto simp: image_iff)
qed simp

lemma listed_new: "listed new_translations"
  by (auto simp: listed_def new_translations_def has_language_def)

lemma listed_set_language: "listed ts \<Longrightarrow> listed (snd (set_service_language locale ts))"
  by (auto simp: listed_def set_service_language_def has_language_def)

lemma listed_added:
  assumes "listed ts" "li_locale info = locale"
  shows "listed (ts\<lparr>ts_catalogs := (ts_catalogs ts)(locale \<mapsto> c), ts_languages := upsert_language_info info (ts_languages ts)\<rparr>)"
  using assms by (simp add: listed_def has_language_def upsert_distinct upsert_locales) metis

lemma load_language_cases:
  "snd (load_language_file c err locale path content ts) = ts \<or>
   (\<exists>info cat. li_locale info = locale \<and> snd (load_language_file c err locale path content ts) =
      ts\<lparr>ts_catalogs := (ts_catalogs ts)(locale \<mapsto> cat), ts_languages := upsert_language_info info (ts_languages ts)\<rparr>)"
proof -
  have "\<exists>info'. li_locale info' = locale \<and> info' = \<lparr>li_locale = locale, li_display_name = n\<rparr>" for n by simp
  then show ?thesis
    unfolding load_language_file_def
    by (simp split: sum.split output_value.split option.split) (metis language_info.select_convs(1))
qed

lemma listed_load: "listed ts \<Longrightarrow> listed (snd (load_language_file c err locale path content ts))"
  using load_language_cases [of c err "locale" path content ts] listed_added by metis

end
