(* ===== verification/AppFlow.thy ===== *)
theory AppFlow
  imports Session AppConfig Upload Translation Device
begin

section \<open>AppFlow: the application's view model\<close>

text \<open>
  src/src/viewmodel/app_viewmodel.cpp over src/src/model/app_model.cpp: the pages, the sequence
  of tests and its session, the settings and the result upload behind them. The members are one
  record; the session manager, the configuration store, the translations and the upload service
  are the models of their own theories. A subject of the user interface is the value last set
  to it, the title as far as its buffer of 48 bytes holds it. A callback of the user
  interface is a number; sounds are a trace. Log output is not modelled.
\<close>

subsection \<open>Pages (app_model.h)\<close>

datatype app_page =
  START | KEYBOARD_TEST | LCD_TEST | AUDIO_TEST | CAMERA_TEST | IR_SEND_TEST | IR_RECEIVE_TEST |
  POWER_INFO | IMU_TEST | DEVICE_INFO | PERF_TEST | WIFI_TEST | BT_TEST | ETH_TEST | USB_TEST |
  HDMI_TEST | I2C_TEST | SPI_TEST | UART_TEST | EXT_IO_TEST | LINK_TEST | CPU_BENCHMARK |
  MEM_STRESS_TEST | SD_CARD_TEST | TEST_RESULT | CAP_FIXTURE_TEST | CAP_LORA_1262_TEST |
  CAP_CC1101_TEST | IR_FIXTURE_TEST | PY32_UPGRADE | FIRE_IN_THE_PI

fun page_to_int :: "app_page \<Rightarrow> int" where
  "page_to_int START = 0" | "page_to_int KEYBOARD_TEST = 1" | "page_to_int LCD_TEST = 2"
| "page_to_int AUDIO_TEST = 3" | "page_to_int CAMERA_TEST = 4" | "page_to_int IR_SEND_TEST = 5"
| "page_to_int IR_RECEIVE_TEST = 6" | "page_to_int POWER_INFO = 7" | "page_to_int IMU_TEST = 8"
| "page_to_int DEVICE_INFO = 9" | "page_to_int PERF_TEST = 10" | "page_to_int WIFI_TEST = 11"
| "page_to_int BT_TEST = 12" | "page_to_int ETH_TEST = 13" | "page_to_int USB_TEST = 14"
| "page_to_int HDMI_TEST = 15" | "page_to_int I2C_TEST = 16" | "page_to_int SPI_TEST = 17"
| "page_to_int UART_TEST = 18" | "page_to_int EXT_IO_TEST = 19" | "page_to_int LINK_TEST = 20"
| "page_to_int CPU_BENCHMARK = 21" | "page_to_int MEM_STRESS_TEST = 22"
| "page_to_int SD_CARD_TEST = 23" | "page_to_int TEST_RESULT = 24"
| "page_to_int CAP_FIXTURE_TEST = 25" | "page_to_int CAP_LORA_1262_TEST = 26"
| "page_to_int CAP_CC1101_TEST = 27" | "page_to_int IR_FIXTURE_TEST = 28"
| "page_to_int PY32_UPGRADE = 29" | "page_to_int FIRE_IN_THE_PI = 30"

text \<open>The pages in the order of their numbers.\<close>

lemma page_to_int_inject: "page_to_int p = page_to_int q \<Longrightarrow> p = q"
  by (cases p; cases q) simp_all

instantiation app_page :: linorder
begin

definition less_eq_app_page :: "app_page \<Rightarrow> app_page \<Rightarrow> bool" where
  "p \<le> q \<longleftrightarrow> page_to_int p \<le> page_to_int q"

definition less_app_page :: "app_page \<Rightarrow> app_page \<Rightarrow> bool" where
  "p < q \<longleftrightarrow> page_to_int p < page_to_int q"

instance
  by standard (auto simp: less_eq_app_page_def less_app_page_def intro: page_to_int_inject)

end

fun app_title :: "app_page \<Rightarrow> string" where
  "app_title START = ''Factory Test''"
| "app_title KEYBOARD_TEST = ''Input Test''"
| "app_title LCD_TEST = ''Display Test''"
| "app_title FIRE_IN_THE_PI = ''Fire in the Pi''"
| "app_title AUDIO_TEST = ''Audio Test''"
| "app_title CAMERA_TEST = ''Camera Test''"
| "app_title IR_SEND_TEST = ''IR Sender''"
| "app_title IR_RECEIVE_TEST = ''IR Receiver''"
| "app_title IR_FIXTURE_TEST = ''IR Fixture Test''"
| "app_title POWER_INFO = ''Power Information''"
| "app_title IMU_TEST = ''IMU Test''"
| "app_title DEVICE_INFO = ''Device Information''"
| "app_title PY32_UPGRADE = ''IOE1 Upgrade''"
| "app_title PERF_TEST = ''Performance Test''"
| "app_title WIFI_TEST = ''Wi-Fi''"
| "app_title BT_TEST = ''Bluetooth''"
| "app_title ETH_TEST = ''Ethernet''"
| "app_title USB_TEST = ''USB''"
| "app_title HDMI_TEST = ''HDMI''"
| "app_title I2C_TEST = ''I2C''"
| "app_title SPI_TEST = ''SPI''"
| "app_title UART_TEST = ''UART''"
| "app_title EXT_IO_TEST = ''EXT.IO''"
| "app_title LINK_TEST = ''Link Test''"
| "app_title CPU_BENCHMARK = ''CPU Benchmark''"
| "app_title MEM_STRESS_TEST = ''Mem Stress Test''"
| "app_title SD_CARD_TEST = ''SD Card Test''"
| "app_title TEST_RESULT = ''Test Result''"
| "app_title CAP_FIXTURE_TEST = ''CAP Fixture Test''"
| "app_title CAP_LORA_1262_TEST = ''CAP LoRa-1262''"
| "app_title CAP_CC1101_TEST = ''CAP-CC1101''"

subsection \<open>The sequence of tests\<close>

record test_sequence_item =
  sq_id :: string
  sq_name :: string
  sq_page :: app_page

definition test_sequence :: "test_sequence_item list" where
  "test_sequence = map (\<lambda>(i, n, p). \<lparr>sq_id = i, sq_name = n, sq_page = p\<rparr>)
    [(''input'', ''Input Test'', KEYBOARD_TEST),
     (''display'', ''Display Test'', LCD_TEST),
     (''audio'', ''Audio Test'', AUDIO_TEST),
     (''camera'', ''Camera Test'', CAMERA_TEST),
     (''ir_fixture'', ''IR Fixture Test'', IR_FIXTURE_TEST),
     (''wifi'', ''Wi-Fi'', WIFI_TEST),
     (''bluetooth'', ''Bluetooth'', BT_TEST),
     (''ethernet'', ''Ethernet'', ETH_TEST),
     (''link'', ''Link Test'', LINK_TEST),
     (''hdmi'', ''HDMI'', HDMI_TEST),
     (''cap_fixture'', ''CAP Fixture Test'', CAP_FIXTURE_TEST),
     (''cap_lora_1262'', ''CAP LoRa-1262'', CAP_LORA_1262_TEST),
     (''cap_cc1101'', ''CAP-CC1101'', CAP_CC1101_TEST),
     (''device_info'', ''Device Information'', DEVICE_INFO),
     (''power'', ''Power Information'', POWER_INFO),
     (''imu'', ''IMU Test'', IMU_TEST),
     (''cpu'', ''CPU Benchmark'', CPU_BENCHMARK),
     (''memory'', ''Mem Stress Test'', MEM_STRESS_TEST),
     (''sd_card'', ''SD Card Test'', SD_CARD_TEST)]"

definition sequence_item_enabled :: "product_model \<Rightarrow> test_sequence_item \<Rightarrow> bool" where
  "sequence_item_enabled m item \<longleftrightarrow>
     m = CARDPUTER_ZERO \<or> (sq_page item \<noteq> CAMERA_TEST \<and> sq_page item \<noteq> IMU_TEST)"

text \<open>The loop of \<open>sequence_item\<close>: the enabled item of a number, \<open>None\<close> past the last.\<close>

fun find_item :: "product_model \<Rightarrow> nat \<Rightarrow> nat \<Rightarrow> test_sequence_item list \<Rightarrow> test_sequence_item option" where
  "find_item m index enabled_index [] = None"
| "find_item m index enabled_index (item # rest) =
     (if \<not> sequence_item_enabled m item then find_item m index enabled_index rest
      else if enabled_index = index then Some item
      else find_item m index (Suc enabled_index) rest)"

definition sequence_item :: "product_model \<Rightarrow> nat \<Rightarrow> test_sequence_item option" where
  "sequence_item m index = find_item m index 0 test_sequence"

definition test_sequence_size :: "product_model \<Rightarrow> nat" where
  "test_sequence_size m = length (filter (sequence_item_enabled m) test_sequence)"

definition test_sequence_plan :: "product_model \<Rightarrow> test_definition list" where
  "test_sequence_plan m = map (\<lambda>item. \<lparr>td_id = sq_id item, td_name = sq_name item\<rparr>)
     (filter (sequence_item_enabled m) test_sequence)"

subsection \<open>Data (app_viewmodel.h)\<close>

datatype hold_target = HOLD_NONE | HOLD_SUCCESS | HOLD_ERROR

text \<open>Callbacks are numbers, \<open>None\<close> the empty function; the event code is the library's.\<close>

record nav_action =
  na_icon :: string
  na_action :: "nat option"
  na_press_action :: "nat option"
  na_release_action :: "nat option"
  na_event_code :: int
  na_hold_target :: hold_target
  na_force_enabled :: bool

datatype ui_sound =
  UI_PRESS | UI_SELECT | UI_OPEN | UI_CLOSE | UI_SUCCESS | UI_ERROR | UI_WARNING | UI_START |
  UI_COMPLETE | UI_TOGGLE_ON | UI_COUNT

datatype app_effect = PlaySound ui_sound | EnableSounds bool | InitSounds | Invoke nat

datatype test_upload_state =
  TU_UNAVAILABLE | TU_SEARCHING | TU_WAITING_HANDSHAKE | TU_READY | TU_QUEUED | TU_SENDING |
  TU_WAITING_RESULT_ACK | TU_SUCCEEDED | TU_FAILED

record test_upload_info =
  tu_state :: test_upload_state
  tu_message :: string
  tu_port :: string
  tu_revision :: "64 word"
  tu_listener_online :: bool
  tu_heartbeat_age_ms :: nat

record subjects =
  sb_title :: string
  sb_title_alignment :: int
  sb_title_x :: int
  sb_title_y :: int
  sb_nav_actions :: int
  sb_dark_mode :: bool
  sb_language :: int
  sb_current_page :: int
  sb_quit_requested :: bool

record app_env =
  ae_product :: product_model
  ae_serial_number :: string
  ae_version :: string
  ae_commit :: string
  ae_session :: session_env
  ae_listing :: "nat \<Rightarrow> dir_entry list option"
  ae_config :: config_env
  ae_meanwhile :: "upload \<Rightarrow> upload"
  ae_handler :: "nat \<Rightarrow> nat \<Rightarrow> bool"
  ae_clicked :: int \<comment> \<open>\<open>LV_EVENT_CLICKED\<close>\<close>
  ae_left_mid :: int \<comment> \<open>\<open>LV_ALIGN_LEFT_MID\<close>\<close>

record app_view =
  av_dark_mode :: bool
  av_page :: app_page
  av_sequence_active :: bool
  av_translations :: translation_service
  av_config :: config_store
  av_session :: session_manager
  av_upload :: "upload option"
  av_index :: nat
  av_title_msgid :: string
  av_nav_actions :: "nav_action list"
  av_nav_revision :: int
  av_subjects :: subjects
  av_handler :: "(nat \<times> nat) option"
  av_effects :: "app_effect list"

type_synonym 'a av_act = "(app_view, 'a) state"

subsection \<open>Small actions\<close>

definition effect :: "app_effect \<Rightarrow> unit av_act" where
  "effect x = upd (\<lambda>v. v\<lparr>av_effects := av_effects v @ [x]\<rparr>)"

abbreviation play_ui_sound :: "ui_sound \<Rightarrow> unit av_act" where
  "play_ui_sound s \<equiv> effect (PlaySound s)"

definition on_subjects :: "(subjects \<Rightarrow> subjects) \<Rightarrow> unit av_act" where
  "on_subjects f = upd (\<lambda>v. v\<lparr>av_subjects := f (av_subjects v)\<rparr>)"

definition on_config :: "(app_config \<Rightarrow> app_config) \<Rightarrow> unit av_act" where
  "on_config f = upd (\<lambda>v. v\<lparr>av_config := (av_config v)\<lparr>cs_config := f (cs_config (av_config v))\<rparr>\<rparr>)"

definition on_session :: "(session_manager \<Rightarrow> bool \<times> session_manager) \<Rightarrow> bool av_act" where
  "on_session f = State (\<lambda>v. case f (av_session v) of (ok, s) \<Rightarrow> (ok, v\<lparr>av_session := s\<rparr>))"

definition metadata_for_session :: "app_env \<Rightarrow> string \<Rightarrow> session_metadata" where
  "metadata_for_session e station_id =
     \<lparr>md_sku = product_model_sku (ae_product e), md_serial_number = ae_serial_number e,
      md_station = station_id, md_firmware = ae_version e, md_commit = ae_commit e\<rparr>"

definition save_config :: "app_env \<Rightarrow> bool av_act" where
  "save_config e = State (\<lambda>v. case save (ae_config e) (av_config v) of (ok, c) \<Rightarrow> (ok, v\<lparr>av_config := c\<rparr>))"

subsection \<open>Titles and navigation\<close>

text \<open>\<open>title_subject_\<close> is a \<open>StringSubject<48>\<close>: the library copies the characters before the first
  zero into its buffer, as many as fit before the zero that closes it.\<close>

definition title_buffer_size :: nat where "title_buffer_size = 48"

definition title_buffer :: "string \<Rightarrow> string" where
  "title_buffer title = take (title_buffer_size - 1) (c_str title)"

definition publish_title :: "unit av_act" where
  "publish_title = upd (\<lambda>v. v\<lparr>av_subjects := (av_subjects v)
     \<lparr>sb_title := title_buffer (translate (av_translations v) (av_title_msgid v))\<rparr>\<rparr>)"

definition set_title_text :: "string option \<Rightarrow> unit av_act" where
  "set_title_text title = do {
     upd (\<lambda>v. v\<lparr>av_title_msgid := (case title of None \<Rightarrow> [] | Some t \<Rightarrow> t)\<rparr>);
     publish_title }"

definition set_title_alignment :: "int \<Rightarrow> int \<Rightarrow> int \<Rightarrow> unit av_act" where
  "set_title_alignment align x y =
     on_subjects (\<lambda>s. s\<lparr>sb_title_alignment := align, sb_title_x := x, sb_title_y := y\<rparr>)"

definition no_action :: "app_env \<Rightarrow> nav_action" where
  "no_action e = \<lparr>na_icon = [], na_action = None, na_press_action = None, na_release_action = None,
     na_event_code = ae_clicked e, na_hold_target = HOLD_NONE, na_force_enabled = False\<rparr>"

definition publish_nav_actions :: "nav_action list \<Rightarrow> unit av_act" where
  "publish_nav_actions actions = upd (\<lambda>v. v\<lparr>av_nav_actions := actions, av_nav_revision := av_nav_revision v + 1,
     av_subjects := (av_subjects v)\<lparr>sb_nav_actions := av_nav_revision v + 1\<rparr>\<rparr>)"

definition set_nav_action :: "nat \<Rightarrow> nav_action \<Rightarrow> unit av_act" where
  "set_nav_action index action = do {
     actions \<leftarrow> ask av_nav_actions;
     if length actions \<le> index then ret () else publish_nav_actions (actions[index := action]) }"

definition set_keypad_nav_action :: "nat \<Rightarrow> nav_action \<Rightarrow> unit av_act" where
  "set_keypad_nav_action keypad action =
     (if keypad < 52 \<or> 56 < keypad then ret () else set_nav_action (keypad - 52) action)"

definition set_nav_actions :: "nav_action list \<Rightarrow> unit av_act" where
  "set_nav_actions actions = publish_nav_actions actions"

definition clear_nav_actions :: "app_env \<Rightarrow> unit av_act" where
  "clear_nav_actions e = publish_nav_actions (replicate 5 (no_action e))"

definition trigger_nav_action :: "nat \<Rightarrow> int \<Rightarrow> bool av_act" where
  "trigger_nav_action index event_code = do {
     actions \<leftarrow> ask av_nav_actions;
     if length actions \<le> index then ret False
     else (case na_action (actions ! index) of
         None \<Rightarrow> ret False
       | Some f \<Rightarrow>
           if na_event_code (actions ! index) \<noteq> event_code then ret False
           else do { effect (Invoke f); ret True }) }"

definition notify_nav_action :: "(nav_action \<Rightarrow> nat option) \<Rightarrow> nat \<Rightarrow> unit av_act" where
  "notify_nav_action which index = do {
     actions \<leftarrow> ask av_nav_actions;
     if length actions \<le> index then ret ()
     else (case which (actions ! index) of None \<Rightarrow> ret () | Some f \<Rightarrow> effect (Invoke f)) }"

definition notify_nav_action_pressed :: "nat \<Rightarrow> unit av_act" where
  "notify_nav_action_pressed = notify_nav_action na_press_action"

definition notify_nav_action_released :: "nat \<Rightarrow> unit av_act" where
  "notify_nav_action_released = notify_nav_action na_release_action"

definition publish_all :: "unit av_act" where
  "publish_all = do {
     upd (\<lambda>v. v\<lparr>av_title_msgid := app_title (av_page v)\<rparr>);
     publish_title;
     upd (\<lambda>v. v\<lparr>av_subjects := (av_subjects v)
       \<lparr>sb_dark_mode := av_dark_mode v, sb_current_page := page_to_int (av_page v)\<rparr>\<rparr>) }"

definition show_page :: "app_env \<Rightarrow> app_page \<Rightarrow> unit av_act" where
  "show_page e page = do {
     clear_nav_actions e;
     set_title_alignment (ae_left_mid e) 8 0;
     upd (\<lambda>v. v\<lparr>av_page := page\<rparr>);
     publish_all }"

definition set_sequence_active :: "bool \<Rightarrow> unit av_act" where
  "set_sequence_active b = upd (\<lambda>v. v\<lparr>av_sequence_active := b\<rparr>)"

definition show_start_page :: "app_env \<Rightarrow> unit av_act" where
  "show_start_page e = do { set_sequence_active False; show_page e START }"

definition show_test_result_page :: "app_env \<Rightarrow> unit av_act" where
  "show_test_result_page e = show_page e TEST_RESULT"

definition show_single_test_page :: "app_env \<Rightarrow> app_page \<Rightarrow> unit av_act" where
  "show_single_test_page e page = do { set_sequence_active False; show_page e page }"

subsection \<open>Settings\<close>

definition publish_dark_mode :: "app_env \<Rightarrow> unit av_act" where
  "publish_dark_mode e = do {
     dark \<leftarrow> ask av_dark_mode;
     on_subjects (\<lambda>s. s\<lparr>sb_dark_mode := dark\<rparr>);
     on_config (\<lambda>c. c\<lparr>cf_ui := (cf_ui c)\<lparr>ui_dark_mode := dark\<rparr>\<rparr>);
     save_config e;
     ret () }"

definition set_dark_mode :: "app_env \<Rightarrow> bool \<Rightarrow> unit av_act" where
  "set_dark_mode e enabled = do { upd (\<lambda>v. v\<lparr>av_dark_mode := enabled\<rparr>); publish_dark_mode e }"

definition toggle_dark_mode :: "app_env \<Rightarrow> unit av_act" where
  "toggle_dark_mode e = do { upd (\<lambda>v. v\<lparr>av_dark_mode := \<not> av_dark_mode v\<rparr>); publish_dark_mode e }"

definition key_click :: "app_view \<Rightarrow> bool" where
  "key_click v = ui_key_click_enabled (cf_ui (cs_config (av_config v)))"

definition set_key_click :: "bool \<Rightarrow> unit av_act" where
  "set_key_click b = on_config (\<lambda>c. c\<lparr>cf_ui := (cf_ui c)\<lparr>ui_key_click_enabled := b\<rparr>\<rparr>)"

definition set_ui_sounds_enabled :: "app_env \<Rightarrow> bool \<Rightarrow> bool av_act" where
  "set_ui_sounds_enabled e enabled = do {
     previous \<leftarrow> ask key_click;
     if previous = enabled then ret True
     else do {
       set_key_click enabled;
       saved \<leftarrow> save_config e;
       if \<not> saved then do { set_key_click previous; ret False }
       else do {
         effect (EnableSounds enabled);
         (if enabled then do { effect InitSounds; play_ui_sound UI_TOGGLE_ON } else ret ());
         ret True } } }"

definition set_language :: "app_env \<Rightarrow> string \<Rightarrow> bool av_act" where
  "set_language e locale = do {
     known \<leftarrow> State (\<lambda>v. case set_service_language locale (av_translations v) of
       (ok, ts) \<Rightarrow> (ok, v\<lparr>av_translations := ts\<rparr>));
     if \<not> known then ret False
     else do {
       publish_title;
       on_subjects (\<lambda>s. s\<lparr>sb_language := sb_language s + 1\<rparr>);
       on_config (\<lambda>c. c\<lparr>cf_ui := (cf_ui c)\<lparr>ui_language := locale\<rparr>\<rparr>);
       save_config e;
       ret True } }"

definition set_uart_baud_rate :: "app_env \<Rightarrow> int \<Rightarrow> bool av_act" where
  "set_uart_baud_rate e baud_rate = do {
     on_config (\<lambda>c. c\<lparr>cf_baud_rate := baud_rate\<rparr>);
     save_config e }"

definition set_iperf_settings :: "app_env \<Rightarrow> string \<Rightarrow> int \<Rightarrow> bool av_act" where
  "set_iperf_settings e host port =
     (if host = [] \<or> port \<le> 0 \<or> 65535 < port then ret False
      else do {
        on_config (\<lambda>c. c\<lparr>cf_network := (cf_network c)\<lparr>net_iperf_host := host, net_iperf_port := port\<rparr>\<rparr>);
        save_config e })"

definition ui_font_name :: "translation_service \<Rightarrow> string \<Rightarrow> string" where
  "ui_font_name ts latin = (if uses_cjk_font ts then ''alibaba-puhui-regular.ttf'' else latin)"

subsection \<open>The test sequence\<close>

definition load_recoverable_test_session :: "app_env \<Rightarrow> bool av_act" where
  "load_recoverable_test_session e =
     on_session (\<lambda>s. load_latest_recoverable (ae_session e) (ae_listing e (sm_steps s))
       (test_sequence_plan (ae_product e)) s)"

definition open_test_sequence_item :: "app_env \<Rightarrow> nat \<Rightarrow> bool av_act" where
  "open_test_sequence_item e index =
     (case sequence_item (ae_product e) index of
        None \<Rightarrow> do { show_start_page e; ret False }
      | Some item \<Rightarrow> do {
          ok \<leftarrow> on_session (set_current_test (ae_session e) (sq_id item));
          if \<not> ok then do { play_ui_sound UI_ERROR; show_start_page e; ret False }
          else do { show_page e (sq_page item); ret True } })"

definition open_sequence_at :: "app_env \<Rightarrow> nat \<Rightarrow> bool av_act" where
  "open_sequence_at e index = do {
     opened \<leftarrow> open_test_sequence_item e index;
     if \<not> opened then do { set_sequence_active False; ret False }
     else do { play_ui_sound UI_START; ret True } }"

definition start_full_test_sequence :: "app_env \<Rightarrow> bool av_act" where
  "start_full_test_sequence e = do {
     station \<leftarrow> ask (\<lambda>v. cf_station_id (cs_config (av_config v)));
     ok \<leftarrow> on_session (start_new (ae_session e) (test_sequence_plan (ae_product e)) (metadata_for_session e station));
     if \<not> ok then do { play_ui_sound UI_ERROR; ret False }
     else do {
       set_sequence_active True;
       upd (\<lambda>v. v\<lparr>av_index := 0\<rparr>);
       open_sequence_at e 0 } }"

definition resume_session :: "app_env \<Rightarrow> bool av_act" where
  "resume_session e = do {
     index \<leftarrow> ask (\<lambda>v. next_incomplete_index (av_session v));
     upd (\<lambda>v. v\<lparr>av_index := index\<rparr>);
     if test_sequence_size (ae_product e) \<le> index then do {
       ok \<leftarrow> on_session (finalize (ae_session e));
       if \<not> ok then do { play_ui_sound UI_ERROR; ret False }
       else do {
         set_sequence_active False;
         show_test_result_page e;
         play_ui_sound UI_COMPLETE;
         ret True } }
     else do {
       set_sequence_active True;
       open_sequence_at e index } }"

definition resume_full_test_sequence :: "app_env \<Rightarrow> bool av_act" where
  "resume_full_test_sequence e = do {
     there \<leftarrow> ask (\<lambda>v. recoverable (av_session v));
     loaded \<leftarrow> (if there then ret True else load_recoverable_test_session e);
     if \<not> loaded then ret False else resume_session e }"

definition current_item :: "app_env \<Rightarrow> test_sequence_item option av_act" where
  "current_item e = ask (\<lambda>v. if av_sequence_active v then sequence_item (ae_product e) (av_index v) else None)"

definition begin_current_test_attempt :: "app_env \<Rightarrow> bool av_act" where
  "begin_current_test_attempt e = do {
     item \<leftarrow> current_item e;
     (case item of None \<Rightarrow> ret False | Some i \<Rightarrow> on_session (begin_test (ae_session e) (sq_id i))) }"

definition record_current_test_value :: "app_env \<Rightarrow> string \<Rightarrow> evidence_value \<Rightarrow> bool av_act" where
  "record_current_test_value e key val = do {
     item \<leftarrow> current_item e;
     (case item of None \<Rightarrow> ret False
      | Some i \<Rightarrow> on_session (record_evidence_value (ae_session e) (sq_id i) key val)) }"

definition record_current_test_evidence :: "app_env \<Rightarrow> test_evidence \<Rightarrow> bool av_act" where
  "record_current_test_evidence e evidence = do {
     item \<leftarrow> current_item e;
     (case item of None \<Rightarrow> ret False | Some i \<Rightarrow> on_session (record_evidence (ae_session e) (sq_id i) evidence)) }"

definition advance_test_sequence :: "app_env \<Rightarrow> unit av_act" where
  "advance_test_sequence e = do {
     running \<leftarrow> ask av_sequence_active;
     if \<not> running then show_start_page e
     else do {
       upd (\<lambda>v. v\<lparr>av_index := Suc (av_index v)\<rparr>);
       index \<leftarrow> ask av_index;
       (case sequence_item (ae_product e) index of
          Some item \<Rightarrow> do {
            ok \<leftarrow> on_session (set_current_test (ae_session e) (sq_id item));
            if \<not> ok then do { play_ui_sound UI_ERROR; set_sequence_active False; show_start_page e }
            else show_page e (sq_page item) }
        | None \<Rightarrow> do { set_sequence_active False; show_test_result_page e }) } }"

text \<open>The sound of a completed test and the step to the next one.\<close>

definition announce_and_advance :: "app_env \<Rightarrow> test_result \<Rightarrow> unit av_act" where
  "announce_and_advance e result = do {
     sequence_complete \<leftarrow> ask (\<lambda>v. av_sequence_active v \<and> test_sequence_size (ae_product e) \<le> av_index v + 1);
     play_ui_sound (if result = FAIL then UI_ERROR else if sequence_complete then UI_COMPLETE else UI_SUCCESS);
     advance_test_sequence e }"

definition complete_current_test :: "app_env \<Rightarrow> test_result \<Rightarrow> unit av_act" where
  "complete_current_test e result = do {
     running \<leftarrow> ask av_sequence_active;
     item \<leftarrow> current_item e;
     ok \<leftarrow> (if \<not> running then ret True
       else case item of
           None \<Rightarrow> ret False
         | Some i \<Rightarrow> on_session (complete_test (ae_session e) (sq_id i) result []));
     if \<not> ok then play_ui_sound UI_ERROR else announce_and_advance e result }"

definition complete_current_test_with_details ::
  "app_env \<Rightarrow> test_result \<Rightarrow> named_test_result list \<Rightarrow> unit av_act" where
  "complete_current_test_with_details e result details = do {
     running \<leftarrow> ask av_sequence_active;
     item \<leftarrow> current_item e;
     if \<not> running then announce_and_advance e result
     else (case item of
         None \<Rightarrow> ret ()
       | Some i \<Rightarrow> do {
           (if details = [] then ret True
            else on_session (record_evidence_value (ae_session e) (sq_id i) ''subtest_count''
                   (EvNumber (dbl_of_nat (length details)))));
           ok \<leftarrow> on_session (complete_test (ae_session e) (sq_id i) result details);
           if \<not> ok then play_ui_sound UI_ERROR else announce_and_advance e result }) }"

definition current_test_name :: "app_env \<Rightarrow> app_view \<Rightarrow> string" where
  "current_test_name e v =
     (case (if av_sequence_active v then sequence_item (ae_product e) (av_index v) else None) of
        Some item \<Rightarrow> sq_name item
      | None \<Rightarrow>
          (if av_page v = START \<or> av_page v = TEST_RESULT then ''Factory Test'' else app_title (av_page v)))"

definition current_test_number :: "app_env \<Rightarrow> app_view \<Rightarrow> nat" where
  "current_test_number e v =
     (if \<not> av_sequence_active v \<or> test_sequence_size (ae_product e) \<le> av_index v then 0 else av_index v + 1)"

subsection \<open>The upload\<close>

text \<open>The worker may go on between the look at the snapshot and the queueing.\<close>

definition upload_test_result :: "app_env \<Rightarrow> string option av_act" where
  "upload_test_result e = do {
     u \<leftarrow> ask av_upload;
     (case u of
        None \<Rightarrow> ret (Some ''Factory upload service is unavailable'')
      | Some w \<Rightarrow>
          if \<not> us_listener_online (get_snapshot w) then ret (Some ''Factory upload listener is offline'')
          else do {
            s \<leftarrow> ask av_session;
            let payload = build_upload_result_json (se_json (ae_session e)) (se_build (ae_session e) (sm_steps s)) False s;
            if payload = [] then ret (Some ''Completed test result is unavailable'')
            else (case queue_result payload (ae_meanwhile e w) of
                (error, w') \<Rightarrow> do { upd (\<lambda>v. v\<lparr>av_upload := Some w'\<rparr>); ret error }) }) }"

fun test_upload_state_of :: "upload_state \<Rightarrow> test_upload_state" where
  "test_upload_state_of UP_SEARCHING = TU_SEARCHING"
| "test_upload_state_of UP_WAITING_HANDSHAKE = TU_WAITING_HANDSHAKE"
| "test_upload_state_of UP_READY = TU_READY"
| "test_upload_state_of UP_QUEUED = TU_QUEUED"
| "test_upload_state_of UP_SENDING = TU_SENDING"
| "test_upload_state_of UP_WAITING_RESULT_ACK = TU_WAITING_RESULT_ACK"
| "test_upload_state_of UP_SUCCEEDED = TU_SUCCEEDED"
| "test_upload_state_of UP_FAILED = TU_FAILED"
| "test_upload_state_of UP_UNAVAILABLE = TU_UNAVAILABLE"

definition test_upload_snapshot :: "app_view \<Rightarrow> test_upload_info" where
  "test_upload_snapshot v =
     (case av_upload v of
        None \<Rightarrow> \<lparr>tu_state = TU_UNAVAILABLE, tu_message = ''Factory upload service is unavailable'',
                  tu_port = [], tu_revision = 0, tu_listener_online = False, tu_heartbeat_age_ms = 0\<rparr>
      | Some w \<Rightarrow>
          (let s = get_snapshot w in
           \<lparr>tu_state = test_upload_state_of (us_state s), tu_message = us_message s, tu_port = us_port s,
            tu_revision = us_revision s, tu_listener_online = us_listener_online s,
            tu_heartbeat_age_ms = us_heartbeat_age_ms s\<rparr>))"

subsection \<open>Leaving\<close>

definition set_back_request_handler :: "(nat \<times> nat) option \<Rightarrow> unit av_act" where
  "set_back_request_handler h = upd (\<lambda>v. v\<lparr>av_handler := h\<rparr>)"

definition clear_back_request_handler :: "nat \<times> nat \<Rightarrow> unit av_act" where
  "clear_back_request_handler h = upd (\<lambda>v. if av_handler v = Some h then v\<lparr>av_handler := None\<rparr> else v)"

definition request_quit :: "unit av_act" where
  "request_quit = on_subjects (\<lambda>s. s\<lparr>sb_quit_requested := True\<rparr>)"

definition request_back_or_quit :: "app_env \<Rightarrow> unit av_act" where
  "request_back_or_quit e = do {
     handler \<leftarrow> ask av_handler;
     if (case handler of None \<Rightarrow> False | Some (f, data) \<Rightarrow> ae_handler e f data) then ret ()
     else do {
       page \<leftarrow> ask av_page;
       if page = START then request_quit else show_start_page e } }"

subsection \<open>The constructor\<close>

definition new_app_view ::
  "app_env \<Rightarrow> translation_service \<Rightarrow> config_store \<Rightarrow> session_manager \<Rightarrow> nat \<Rightarrow> app_view" where
  "new_app_view e ts store manager now =
     (let ui = cf_ui (cs_config store);
          fallback = (\<not> has_language ts (ui_language ui));
          locale = (if fallback then ''en'' else ui_language ui);
          ts' = snd (set_service_language locale ts);
          store' = (if fallback
            then snd (save (ae_config e) (store\<lparr>cs_config := (cs_config store)\<lparr>cf_ui := ui\<lparr>ui_language := ''en''\<rparr>\<rparr>\<rparr>))
            else store)
      in \<lparr>av_dark_mode = ui_dark_mode ui, av_page = START, av_sequence_active = False, av_translations = ts',
          av_config = store', av_session = manager,
          av_upload = Some ((initial_upload ''FactoryTestApp'' (ae_version e) now)\<lparr>up_worker := True\<rparr>),
          av_index = 0, av_title_msgid = app_title START, av_nav_actions = replicate 5 (no_action e),
          av_nav_revision = 0,
          av_subjects = \<lparr>sb_title = title_buffer (translate ts' (app_title START)), sb_title_alignment = ae_left_mid e,
            sb_title_x = 8, sb_title_y = 0, sb_nav_actions = 0, sb_dark_mode = ui_dark_mode ui,
            sb_language = 0, sb_current_page = page_to_int START, sb_quit_requested = False\<rparr>,
          av_handler = None, av_effects = []\<rparr>)"

end
