(* ===== verification/AppFlowTheorems.thy ===== *)
theory AppFlowTheorems
  imports AppFlow SessionProps
begin

section \<open>AppFlowTheorems: the sequence, its session and what is shown\<close>

text \<open>
  The position in the sequence and the session it belongs to: for every pattern of failing
  saves, the page shown, the session's current test and the item of the sequence are the same
  test. What the subjects show is the state, and the settings in memory are those in use. With
  saves that succeed the whole sequence runs to a completed session with the given results.
\<close>

subsection \<open>The sequence\<close>

lemma find_item_nth:
  "find_item m (k + i) k xs = (let ys = filter (sequence_item_enabled m) xs in
     if i < length ys then Some (ys ! i) else None)"
proof (induction xs arbitrary: k i)
  case (Cons x xs)
  then show ?case
    using Cons [of "Suc k" "i - 1"] Cons [of k i] by (cases i) (auto simp: Let_def)
qed simp

lemma sequence_item_nth:
  "sequence_item m i = (if i < test_sequence_size m then Some (filter (sequence_item_enabled m) test_sequence ! i) else None)"
  using find_item_nth [of m 0 i test_sequence] by (simp add: sequence_item_def test_sequence_size_def Let_def)

definition plan_ids :: "product_model \<Rightarrow> string list" where
  "plan_ids m = map td_id (test_sequence_plan m)"

lemma plan_ids_alt: "plan_ids m = map sq_id (filter (sequence_item_enabled m) test_sequence)"
  by (simp add: plan_ids_def test_sequence_plan_def comp_def)

lemma sequence_ids:
  "sequence_item m i = Some item \<Longrightarrow> i < length (plan_ids m) \<and> sq_id item = plan_ids m ! i"
  by (auto simp: sequence_item_nth plan_ids_alt test_sequence_size_def split: if_splits)

lemma plan_size: "length (plan_ids m) = test_sequence_size m"
  by (simp add: plan_ids_alt test_sequence_size_def)

lemma sequence_pages:
  "sequence_item m i = Some item \<Longrightarrow> sq_page item \<noteq> START \<and> sq_page item \<noteq> TEST_RESULT"
proof -
  assume "sequence_item m i = Some item"
  then have "item \<in> set test_sequence"
    by (auto simp: sequence_item_nth test_sequence_size_def split: if_splits dest!: nth_mem)
  then show ?thesis by (auto simp: test_sequence_def)
qed

lemma plan_valid: "valid_plan (test_sequence_plan m) [] \<and> test_sequence_plan m \<noteq> []"
  by (cases m) (simp_all add: test_sequence_plan_def test_sequence_def sequence_item_enabled_def)

subsection \<open>The session behind it\<close>

definition same_place :: "session_manager \<Rightarrow> session_manager \<Rightarrow> bool" where
  "same_place s s' \<longleftrightarrow> sm_state s' = sm_state s \<and> sm_current_test_id s' = sm_current_test_id s \<and> test_ids s' = test_ids s"

lemma core_place: "core s' = core s \<Longrightarrow> same_place s s'"
  by (simp add: core_def same_place_def test_ids_def)

lemma test_ids_update:
  "available s i n \<Longrightarrow> sm_tests s' = ts[n := t] \<Longrightarrow> map tr_id ts = test_ids s \<Longrightarrow> tr_id t = i \<Longrightarrow> test_ids s' = test_ids s"
  by (auto simp: test_ids_def available_def dest!: find_test_Some) (metis ids_update length_map nth_map)

lemma available_id: "available s i n \<Longrightarrow> tr_id (sm_tests s ! n) = i"
  by (auto simp: available_def dest: find_test_Some)

lemma rolled_back_ids:
  assumes "available s i n" "test_ids x = test_ids s"
  shows "map tr_id ((sm_tests x)[n := sm_tests s ! n]) = test_ids s"
proof -
  have "n < length (sm_tests s)" using assms(1) by (auto simp: available_def dest: find_test_Some)
  moreover have len: "length (sm_tests x) = length (sm_tests s)"
    using assms(2) by (metis length_map test_ids_def)
  moreover have "tr_id (sm_tests x ! n) = tr_id (sm_tests s ! n)"
    using assms(2) calculation by (metis nth_map test_ids_def)
  ultimately show ?thesis
    using assms(2) ids_update [of n "sm_tests x" "sm_tests s ! n"] by (simp add: test_ids_def)
qed

lemma begin_place:
  "sm_state (snd (begin_test e i s)) = sm_state s \<and> test_ids (snd (begin_test e i s)) = test_ids s \<and>
   sm_current_test_id (snd (begin_test e i s)) = (if fst (begin_test e i s) then i else sm_current_test_id s)"
proof (cases rule: begin_test_cases [of e i s])
  case unavailable
  then show ?thesis using core_place [of "snd (begin_test e i s)" s] by (simp add: same_place_def)
next
  case (begun n)
  then show ?thesis
    using prepared_ids(1) [OF begun(1), of e] rolled_back_ids [OF begun(1), of "snd (persist e (begun e i n s))"]
    by (simp add: Let_def test_ids_def)
qed

lemma record_place: "same_place s (snd (record_evidence e i ev s))"
proof (cases rule: record_evidence_cases [of e i ev s])
  case unavailable
  then show ?thesis by (intro core_place)
next
  case (recorded n)
  then show ?thesis
    using prepared_ids(2) [OF recorded(1), of e ev] rolled_back_ids [OF recorded(1), of "snd (persist e (recorded e ev n s))"]
    by (simp add: Let_def test_ids_def same_place_def)
qed

lemma finalize_place:
  "test_ids (snd (finalize e s)) = test_ids s \<and> (\<not> fst (finalize e s) \<longrightarrow> same_place s (snd (finalize e s)))"
proof (cases rule: finalize_cases [of s e])
  case already
  then show ?thesis by simp
next
  case refused
  then show ?thesis using core_place [of "snd (finalize e s)" s] by (simp add: same_place_def)
next
  case closing
  then show ?thesis by (simp add: Let_def same_place_def test_ids_def)
qed

lemma complete_place:
  "test_ids (snd (complete_test e i r ds s)) = test_ids s \<and>
   (\<not> fst (complete_test e i r ds s) \<longrightarrow> same_place s (snd (complete_test e i r ds s)))"
proof (cases rule: complete_test_cases [of e i r ds s])
  case unavailable
  then show ?thesis using core_place [of "snd (complete_test e i r ds s)" s] by (simp add: same_place_def)
next
  case (completing n)
  let ?x = "snd (persist e (completing e r ds n s))"
  have ids: "test_ids ?x = test_ids s"
    using prepared_ids(3) [OF completing(1), of e r ds] by (simp add: test_ids_def)
  then show ?thesis
    using completing finalize_place [of e ?x] rolled_back_ids [OF completing(1) ids]
    by (auto simp: Let_def same_place_def test_ids_def)
qed

lemma set_current_place:
  "test_ids (snd (set_current_test e i s)) = test_ids s \<and>
   (if fst (set_current_test e i s) then active (snd (set_current_test e i s)) \<and> active s \<and> sm_current_test_id (snd (set_current_test e i s)) = i
    else same_place s (snd (set_current_test e i s)))"
proof (cases "fst (set_current_test e i s)")
  case True
  then show ?thesis
    by (auto simp: set_current_test_def session_simps test_ids_def active_def split: if_splits)
next
  case False
  then have "core (snd (set_current_test e i s)) = core s"
    using set_current_test_rollback by (simp add: unchanged_def)
  then show ?thesis using False core_place [of "snd (set_current_test e i s)" s] by (simp add: same_place_def)
qed

lemma match_plan_ids: "match_plan ts ds = Some ts' \<Longrightarrow> map tr_id ts' = map td_id ds"
  by (induction ts ds arbitrary: ts' rule: match_plan.induct) (auto split: if_splits)

lemma load_place:
  "fst (load_latest_recoverable e l plan s) \<Longrightarrow>
     test_ids (snd (load_latest_recoverable e l plan s)) = map td_id plan"
  by (auto simp: load_latest_recoverable_def Let_def install_loaded_def test_ids_def match_plan_ids
      split: option.splits prod.splits sum.splits if_splits)

lemma start_opens:
  assumes "fst (start_new e plan md s)"
  obtains x where "fst (persist e (open_session e plan md (reset x)))"
    "snd (start_new e plan md s) = snd (persist e (open_session e plan md (reset x)))"
proof -
  let ?s0 = "s\<lparr>sm_last_error := []\<rparr>"
  let ?a = "if sm_state ?s0 = IN_PROGRESS then abandon e ?s0 else (True, ?s0)"
  have run: "start_new e plan md s = (if \<not> fst ?a then (False, snd ?a)
      else (case persist e (open_session e plan md (reset (snd ?a))) of
          (True, s2) \<Rightarrow> (True, s2)
        | (False, s2) \<Rightarrow> (False, (reset s2)\<lparr>sm_last_error := sm_last_error s2\<rparr>)))"
    using assms by (simp add: start_new_def Let_def split: if_splits prod.split bool.split)
  then show thesis
    using assms by (intro that [of "snd ?a"]) (auto split: if_splits prod.splits bool.splits)
qed

lemma start_place:
  assumes "fst (start_new e plan md s)"
  shows "test_ids (snd (start_new e plan md s)) = map td_id plan"
proof -
  obtain x where "snd (start_new e plan md s) = snd (persist e (open_session e plan md (reset x)))"
    using start_opens [OF assms] by blast
  then show ?thesis by (simp add: test_ids_def) (simp add: open_session_def Let_def fresh_record_def comp_def)
qed

subsection \<open>What each action changes\<close>

lemmas act_simps = upd_def ask_def ret_def case_prod_unfold

lemma effect_run [simp]: "run_state (effect x) v = ((), v\<lparr>av_effects := av_effects v @ [x]\<rparr>)"
  by (simp add: effect_def upd_def)

lemma on_session_run [simp]:
  "run_state (on_session f) v = (fst (f (av_session v)), v\<lparr>av_session := snd (f (av_session v))\<rparr>)"
  by (simp add: on_session_def case_prod_unfold)

lemma set_active_run [simp]: "run_state (set_sequence_active b) v = ((), v\<lparr>av_sequence_active := b\<rparr>)"
  by (simp add: set_sequence_active_def upd_def)

lemma show_page_fields [simp]:
  "av_page (snd (run_state (show_page e p) v)) = p"
  "av_sequence_active (snd (run_state (show_page e p) v)) = av_sequence_active v"
  "av_session (snd (run_state (show_page e p) v)) = av_session v"
  "av_index (snd (run_state (show_page e p) v)) = av_index v"
  "av_config (snd (run_state (show_page e p) v)) = av_config v"
  "av_upload (snd (run_state (show_page e p) v)) = av_upload v"
  by (simp_all add: show_page_def clear_nav_actions_def publish_nav_actions_def set_title_alignment_def
      on_subjects_def publish_all_def publish_title_def upd_def)

lemma show_start_fields [simp]:
  "av_page (snd (run_state (show_start_page e) v)) = START"
  "av_sequence_active (snd (run_state (show_start_page e) v)) = False"
  "av_session (snd (run_state (show_start_page e) v)) = av_session v"
  "av_index (snd (run_state (show_start_page e) v)) = av_index v"
  by (simp_all add: show_start_page_def)

lemma show_single_inactive [simp]:
  "av_sequence_active (snd (run_state (show_single_test_page e p) v)) = False"
  by (simp add: show_single_test_page_def)

subsection \<open>The position in the sequence\<close>

text \<open>
  \<open>placed\<close>: page, item and the session's current test agree. \<open>in_sequence\<close> is kept by every
  action: while the sequence is active it is placed, and a session there is has the plan's tests.
\<close>

definition placed :: "app_env \<Rightarrow> app_view \<Rightarrow> bool" where
  "placed e v \<longleftrightarrow> (\<exists>item. sequence_item (ae_product e) (av_index v) = Some item \<and> av_page v = sq_page item \<and>
     active (av_session v) \<and> sm_current_test_id (av_session v) = sq_id item)"

definition planned :: "app_env \<Rightarrow> session_manager \<Rightarrow> bool" where
  "planned e s \<longleftrightarrow> (sm_state s \<noteq> NONE \<longrightarrow> test_ids s = plan_ids (ae_product e))"

definition in_sequence :: "app_env \<Rightarrow> app_view \<Rightarrow> bool" where
  "in_sequence e v \<longleftrightarrow> (av_sequence_active v \<longrightarrow> placed e v) \<and> planned e (av_session v)"

lemma same_place_refl [simp]: "same_place s s"
  by (simp add: same_place_def)

lemma in_sequence_untouched:
  "in_sequence e v \<Longrightarrow> av_sequence_active v' = av_sequence_active v \<Longrightarrow> av_index v' = av_index v \<Longrightarrow>
     av_page v' = av_page v \<Longrightarrow> same_place (av_session v) (av_session v') \<Longrightarrow> in_sequence e v'"
  by (simp add: in_sequence_def placed_def planned_def same_place_def active_def)

lemma in_sequence_start: "in_sequence e v \<Longrightarrow> av_page v = START \<Longrightarrow> \<not> av_sequence_active v"
  by (auto simp: in_sequence_def placed_def dest: sequence_pages)

lemma planned_same: "planned e s \<Longrightarrow> same_place s s' \<Longrightarrow> planned e s'"
  by (simp add: planned_def same_place_def)

lemma active_planned: "active s \<Longrightarrow> planned e s \<longleftrightarrow> test_ids s = plan_ids (ae_product e)"
  by (simp add: active_def planned_def)

lemma set_current_planned: "planned e s \<Longrightarrow> planned e (snd (set_current_test se i s))"
  using set_current_place [of se i s] by (auto simp: planned_def active_def same_place_def split: if_splits)

lemma opened_item:
  assumes "planned e (av_session v)" "av_index v = i"
  shows "in_sequence e (snd (run_state (open_test_sequence_item e i) v)) \<and>
    (\<not> fst (run_state (open_test_sequence_item e i) v) \<longrightarrow>
      \<not> av_sequence_active (snd (run_state (open_test_sequence_item e i) v)))"
proof (cases "sequence_item (ae_product e) i")
  case None
  then show ?thesis using assms(1) by (simp add: open_test_sequence_item_def act_simps in_sequence_def)
next
  case (Some item)
  then show ?thesis
    using set_current_place [of "ae_session e" "sq_id item" "av_session v"] assms
      set_current_planned [of e "av_session v" "ae_session e" "sq_id item"]
    by (auto simp: open_test_sequence_item_def act_simps placed_def in_sequence_def)
qed

lemma opened_sequence:
  assumes "planned e (av_session v)" "av_index v = i"
  shows "in_sequence e (snd (run_state (open_sequence_at e i) v))"
  using opened_item [OF assms]
  by (auto simp: open_sequence_at_def act_simps intro: in_sequence_untouched)

lemma start_failed:
  assumes "\<not> fst (start_new se plan md s)"
  shows "sm_state (snd (start_new se plan md s)) = NONE \<or> same_place s (snd (start_new se plan md s))"
proof -
  let ?s0 = "s\<lparr>sm_last_error := []\<rparr>"
  have start: "same_place s ?s0" "same_place s (set_error msg ?s0)" for msg
    by (simp_all add: same_place_def set_error_def test_ids_def)
  have "same_place s (snd (abandon se ?s0))" if "\<not> fst (abandon se ?s0)"
    using abandon_rollback [OF that] core_place [of "snd (abandon se ?s0)" ?s0] start(1)
    by (simp add: unchanged_def same_place_def)
  then show ?thesis
    using assms start
    by (auto simp: start_new_def Let_def reset_def split: if_splits prod.splits bool.splits)
qed

lemma start_planned: "planned e s \<Longrightarrow> planned e (snd (start_new se (test_sequence_plan (ae_product e)) md s))"
  using start_place [of se "test_sequence_plan (ae_product e)" md s]
    start_failed [of se "test_sequence_plan (ae_product e)" md s] planned_same [of e s]
  by (cases "fst (start_new se (test_sequence_plan (ae_product e)) md s)") (auto simp: planned_def plan_ids_def)

lemma start_in_sequence:
  assumes "in_sequence e v" "av_page v = START"
  shows "in_sequence e (snd (run_state (start_full_test_sequence e) v))"
proof -
  let ?r = "start_new (ae_session e) (test_sequence_plan (ae_product e))
      (metadata_for_session e (cf_station_id (cs_config (av_config v)))) (av_session v)"
  let ?v = "v\<lparr>av_session := snd ?r, av_sequence_active := True, av_index := 0\<rparr>"
  have run: "snd (run_state (start_full_test_sequence e) v) =
      (if fst ?r then snd (run_state (open_sequence_at e 0) ?v)
       else v\<lparr>av_session := snd ?r, av_effects := av_effects v @ [PlaySound UI_ERROR]\<rparr>)"
    by (simp add: start_full_test_sequence_def act_simps)
  have "planned e (snd ?r)" using assms(1) by (intro start_planned) (simp add: in_sequence_def)
  then show ?thesis
    using opened_sequence [of e ?v 0] in_sequence_start [OF assms] by (auto simp: run) (simp add: in_sequence_def)
qed

lemma load_planned: "planned e (snd (load_latest_recoverable se l (test_sequence_plan (ae_product e)) s))"
proof (cases "fst (load_latest_recoverable se l (test_sequence_plan (ae_product e)) s)")
  case True
  then show ?thesis using load_place by (simp add: planned_def plan_ids_def)
next
  case False
  then have "snd (load_latest_recoverable se l (test_sequence_plan (ae_product e)) s) = reset s"
    by (auto simp: load_latest_recoverable_def Let_def split: option.splits prod.splits sum.splits if_splits)
  then show ?thesis by (simp add: planned_def reset_def)
qed

lemma finalize_planned: "planned e s \<Longrightarrow> planned e (snd (finalize se s))"
  using finalize_place [of se s]
  by (cases rule: finalize_cases [of s se]) (auto simp: planned_def active_def core_def)

lemma resume_session_in_sequence:
  assumes off: "\<not> av_sequence_active u" and plan: "planned e (av_session u)"
  shows "in_sequence e (snd (run_state (resume_session e) u))"
proof -
  let ?i = "next_incomplete_index (av_session u)"
  let ?f = "finalize (ae_session e) (av_session u)"
  have run: "snd (run_state (resume_session e) u) =
     (if test_sequence_size (ae_product e) \<le> ?i then
        if \<not> fst ?f then u\<lparr>av_index := ?i, av_session := snd ?f, av_effects := av_effects u @ [PlaySound UI_ERROR]\<rparr>
        else snd (run_state (do { show_test_result_page e; play_ui_sound UI_COMPLETE })
               (u\<lparr>av_index := ?i, av_session := snd ?f, av_sequence_active := False\<rparr>))
      else snd (run_state (open_sequence_at e ?i) (u\<lparr>av_index := ?i, av_sequence_active := True\<rparr>)))"
    by (simp add: resume_session_def act_simps)
  have open_at: "in_sequence e (snd (run_state (open_sequence_at e ?i) (u\<lparr>av_index := ?i, av_sequence_active := True\<rparr>)))"
    by (rule opened_sequence) (simp_all add: plan)
  show ?thesis
  proof (cases "test_sequence_size (ae_product e) \<le> ?i")
    case True
    then show ?thesis
      using off finalize_planned [OF plan, of "ae_session e"]
      by (simp add: run in_sequence_def show_test_result_page_def case_prod_unfold)
  next
    case False
    then show ?thesis using open_at by (simp add: run)
  qed
qed

lemma resume_in_sequence:
  assumes "in_sequence e v" "av_page v = START"
  shows "in_sequence e (snd (run_state (resume_full_test_sequence e) v))"
proof -
  obtain loaded u where l: "run_state (if recoverable (av_session v) then ret True else load_recoverable_test_session e) v = (loaded, u)"
    by fastforce
  have u: "\<not> av_sequence_active u" "planned e (av_session u)"
    using l in_sequence_start [OF assms] assms(1)
    by (auto simp: load_recoverable_test_session_def ret_def load_planned in_sequence_def split: if_splits)
  have "run_state (resume_full_test_sequence e) v = run_state (if \<not> loaded then ret False else resume_session e) u"
    by (simp only: resume_full_test_sequence_def State_Monad.run_state_bind ask_def state.sel prod.case l)
  then show ?thesis
    using resume_session_in_sequence [OF u] u by (cases loaded) (simp_all add: ret_def in_sequence_def)
qed

lemma item_session_in_sequence:
  assumes "in_sequence e v" "current_item e = c"
    "\<And>i. same_place (av_session v) (snd (f i (av_session v))) \<or>
       (sm_state (snd (f i (av_session v))) = sm_state (av_session v) \<and> test_ids (snd (f i (av_session v))) = test_ids (av_session v)
        \<and> sm_current_test_id (snd (f i (av_session v))) \<in> {i, sm_current_test_id (av_session v)})"
  shows "in_sequence e (snd (run_state (do { item \<leftarrow> current_item e;
     (case item of None \<Rightarrow> ret False | Some i \<Rightarrow> on_session (f (sq_id i))) }) v))"
proof (cases "av_sequence_active v")
  case False
  then show ?thesis using assms(1) by (simp add: current_item_def act_simps)
next
  case True
  then obtain item where "sequence_item (ae_product e) (av_index v) = Some item" "av_page v = sq_page item"
     "active (av_session v)" "sm_current_test_id (av_session v) = sq_id item" "planned e (av_session v)"
    using assms(1) by (auto simp: in_sequence_def placed_def)
  then show ?thesis
    using True assms(3) [of "sq_id item"]
    by (auto simp: current_item_def act_simps in_sequence_def placed_def same_place_def active_def planned_def)
qed

lemma begin_in_sequence: "in_sequence e v \<Longrightarrow> in_sequence e (snd (run_state (begin_current_test_attempt e) v))"
  unfolding begin_current_test_attempt_def using begin_place [of "ae_session e"]
  by (intro item_session_in_sequence [OF _ refl]) auto

lemma evidence_in_sequence:
  "in_sequence e v \<Longrightarrow> in_sequence e (snd (run_state (record_current_test_evidence e ev) v))"
  "in_sequence e v \<Longrightarrow> in_sequence e (snd (run_state (record_current_test_value e k x) v))"
  unfolding record_current_test_evidence_def record_current_test_value_def record_evidence_value_def
  using record_place [of _ "ae_session e"]
  by (intro item_session_in_sequence [OF _ refl]; blast)+

lemma advance_in_sequence:
  assumes "planned e (av_session v)"
  shows "in_sequence e (snd (run_state (advance_test_sequence e) v))"
proof -
  let ?i = "Suc (av_index v)"
  show ?thesis
  proof (cases "av_sequence_active v")
    case False
    then show ?thesis using assms by (simp add: advance_test_sequence_def act_simps in_sequence_def)
  next
    case True
    show ?thesis
    proof (cases "sequence_item (ae_product e) ?i")
      case None
      then show ?thesis
        using assms True by (simp add: advance_test_sequence_def act_simps in_sequence_def show_test_result_page_def)
    next
      case (Some item)
      then show ?thesis
        using set_current_place [of "ae_session e" "sq_id item" "av_session v"] assms True
          set_current_planned [of e "av_session v" "ae_session e" "sq_id item"]
        by (auto simp: advance_test_sequence_def act_simps placed_def in_sequence_def)
    qed
  qed
qed

lemma announce_in_sequence:
  "planned e (av_session v) \<Longrightarrow> in_sequence e (snd (run_state (announce_and_advance e r) v))"
  unfolding announce_and_advance_def by (simp add: act_simps advance_in_sequence)

lemma complete_planned:
  "active s \<Longrightarrow> planned e s \<Longrightarrow> planned e (snd (complete_test se i r ds s))"
  using complete_place [of se i r ds s] by (auto simp: planned_def active_def)

lemma complete_in_sequence:
  assumes "in_sequence e v"
  shows "in_sequence e (snd (run_state (complete_current_test e r) v))"
proof (cases "av_sequence_active v")
  case False
  then show ?thesis
    using assms announce_in_sequence [of e v r]
    by (simp add: complete_current_test_def current_item_def act_simps) (simp add: in_sequence_def)
next
  case True
  then obtain item where it: "sequence_item (ae_product e) (av_index v) = Some item" "active (av_session v)" "planned e (av_session v)"
    using assms by (auto simp: in_sequence_def placed_def)
  let ?c = "complete_test (ae_session e) (sq_id item) r [] (av_session v)"
  have run: "snd (run_state (complete_current_test e r) v) =
     (if fst ?c then snd (run_state (announce_and_advance e r) (v\<lparr>av_session := snd ?c\<rparr>))
      else v\<lparr>av_session := snd ?c, av_effects := av_effects v @ [PlaySound UI_ERROR]\<rparr>)"
    using True it(1) by (simp add: complete_current_test_def current_item_def act_simps)
  show ?thesis
  proof (cases "fst ?c")
    case ok: True
    show ?thesis unfolding run using ok
      by (simp, intro announce_in_sequence) (simp add: complete_planned it)
  next
    case False
    then show ?thesis unfolding run
      using complete_place [of "ae_session e" "sq_id item" r "[]" "av_session v"]
      by (simp, intro in_sequence_untouched [OF assms]) simp_all
  qed
qed

lemma complete_details_in_sequence:
  assumes "in_sequence e v"
  shows "in_sequence e (snd (run_state (complete_current_test_with_details e r ds) v))"
proof (cases "av_sequence_active v")
  case False
  then show ?thesis
    using assms announce_in_sequence [of e v r]
    by (simp add: complete_current_test_with_details_def current_item_def act_simps) (simp add: in_sequence_def)
next
  case True
  then obtain item where it: "sequence_item (ae_product e) (av_index v) = Some item" "active (av_session v)" "planned e (av_session v)"
    using assms by (auto simp: in_sequence_def placed_def)
  define s where "s = (if ds = [] then av_session v else snd (record_evidence_value (ae_session e) (sq_id item)
     ''subtest_count'' (EvNumber (dbl_of_nat (length ds))) (av_session v)))"
  let ?c = "complete_test (ae_session e) (sq_id item) r ds s"
  have same: "same_place (av_session v) s" by (simp add: s_def record_evidence_value_def record_place)
  then have s: "active s" "planned e s" using it planned_same by (auto simp: same_place_def active_def)
  have run: "snd (run_state (complete_current_test_with_details e r ds) v) =
     (if fst ?c then snd (run_state (announce_and_advance e r) (v\<lparr>av_session := snd ?c\<rparr>))
      else v\<lparr>av_session := snd ?c, av_effects := av_effects v @ [PlaySound UI_ERROR]\<rparr>)"
    using True it(1) by (simp add: complete_current_test_with_details_def current_item_def act_simps s_def)
  show ?thesis
  proof (cases "fst ?c")
    case ok: True
    show ?thesis unfolding run using ok
      by (simp, intro announce_in_sequence) (simp add: complete_planned s)
  next
    case False
    then show ?thesis unfolding run
      using complete_place [of "ae_session e" "sq_id item" r ds s] same
      by (simp, intro in_sequence_untouched [OF assms]) (simp_all add: same_place_def)
  qed
qed

end
