(* ===== verification/AppRuns.thy ===== *)
theory AppRuns
  imports AppFlowTheorems UploadProtocol
begin

section \<open>AppRuns: the application as a step relation\<close>

text \<open>
  The calls of the screens, any upload worker beside them, and what holds after every sequence
  of calls: the position in the sequence, and that what is shown is the state. The start screen
  is the only caller that starts, resumes or looks for a session, so these calls need its page.
\<close>

subsection \<open>The calls of the screens\<close>

datatype app_call =
    DoStart | DoResume | DoLoad
  | DoSingle app_page | DoBegin | DoRecord test_evidence | DoRecordValue string evidence_value
  | DoComplete test_result | DoCompleteDetails test_result "named_test_result list"
  | DoShowStart | DoBack | DoQuit
  | DoDarkMode bool | DoToggleDarkMode | DoSounds bool | DoLanguage string | DoBaudRate int
  | DoIperf string int
  | DoTitle "string option" | DoAlign int int int
  | DoNav nat nav_action | DoKeypad nat nav_action | DoClearNav
  | DoTrigger nat int | DoPressed nat | DoReleased nat
  | DoUpload | DoSetHandler "(nat \<times> nat) option" | DoClearHandler "nat \<times> nat"

definition ignoring :: "'a av_act \<Rightarrow> unit av_act" where
  "ignoring m = do { m; ret () }"

fun perform :: "app_env \<Rightarrow> app_call \<Rightarrow> unit av_act" where
  "perform e DoStart = ignoring (start_full_test_sequence e)"
| "perform e DoResume = ignoring (resume_full_test_sequence e)"
| "perform e DoLoad = ignoring (load_recoverable_test_session e)"
| "perform e (DoSingle p) = show_single_test_page e p"
| "perform e DoBegin = ignoring (begin_current_test_attempt e)"
| "perform e (DoRecord ev) = ignoring (record_current_test_evidence e ev)"
| "perform e (DoRecordValue k x) = ignoring (record_current_test_value e k x)"
| "perform e (DoComplete r) = complete_current_test e r"
| "perform e (DoCompleteDetails r ds) = complete_current_test_with_details e r ds"
| "perform e DoShowStart = show_start_page e"
| "perform e DoBack = request_back_or_quit e"
| "perform e DoQuit = request_quit"
| "perform e (DoDarkMode b) = set_dark_mode e b"
| "perform e DoToggleDarkMode = toggle_dark_mode e"
| "perform e (DoSounds b) = ignoring (set_ui_sounds_enabled e b)"
| "perform e (DoLanguage l) = ignoring (set_language e l)"
| "perform e (DoBaudRate b) = ignoring (set_uart_baud_rate e b)"
| "perform e (DoIperf h p) = ignoring (set_iperf_settings e h p)"
| "perform e (DoTitle t) = set_title_text t"
| "perform e (DoAlign a x y) = set_title_alignment a x y"
| "perform e (DoNav i a) = set_nav_action i a"
| "perform e (DoKeypad k a) = set_keypad_nav_action k a"
| "perform e DoClearNav = clear_nav_actions e"
| "perform e (DoTrigger i c) = ignoring (trigger_nav_action i c)"
| "perform e (DoPressed i) = notify_nav_action_pressed i"
| "perform e (DoReleased i) = notify_nav_action_released i"
| "perform e DoUpload = ignoring (upload_test_result e)"
| "perform e (DoSetHandler h) = set_back_request_handler h"
| "perform e (DoClearHandler h) = clear_back_request_handler h"

definition from_start :: "app_call \<Rightarrow> bool" where
  "from_start c \<longleftrightarrow> c \<in> {DoStart, DoResume, DoLoad}"

inductive app_step :: "app_env \<Rightarrow> app_view \<Rightarrow> app_view \<Rightarrow> bool" for e where
  call: "(from_start c \<Longrightarrow> av_page v = START) \<Longrightarrow> app_step e v (snd (run_state (perform e c) v))"
| worker: "av_upload v = Some w \<Longrightarrow> upload_step ue w w' \<Longrightarrow> app_step e v (v\<lparr>av_upload := Some w'\<rparr>)"

inductive_simps app_step_iff: "app_step e v v'"

subsection \<open>What is shown\<close>

definition shown :: "app_view \<Rightarrow> bool" where
  "shown v \<longleftrightarrow>
     sb_dark_mode (av_subjects v) = av_dark_mode v \<and>
     sb_current_page (av_subjects v) = page_to_int (av_page v) \<and>
     sb_title (av_subjects v) = title_buffer (translate (av_translations v) (av_title_msgid v)) \<and>
     sb_nav_actions (av_subjects v) = av_nav_revision v \<and> length (av_nav_actions v) = 5 \<and>
     ui_dark_mode (cf_ui (cs_config (av_config v))) = av_dark_mode v \<and>
     ui_language (cf_ui (cs_config (av_config v))) = ts_language (av_translations v) \<and>
     has_language (av_translations v) (ts_language (av_translations v))"

lemma save_same_config [simp]: "cs_config (snd (save e s)) = cs_config s"
  by (simp add: save_def after_attempt_def Let_def split: prod.split option.split)

lemma shown_updates [simp]:
  "shown (v\<lparr>av_sequence_active := b\<rparr>) \<longleftrightarrow> shown v" "shown (v\<lparr>av_index := n\<rparr>) \<longleftrightarrow> shown v"
  "shown (v\<lparr>av_session := s\<rparr>) \<longleftrightarrow> shown v" "shown (v\<lparr>av_effects := x\<rparr>) \<longleftrightarrow> shown v"
  "shown (v\<lparr>av_upload := u\<rparr>) \<longleftrightarrow> shown v" "shown (v\<lparr>av_handler := h\<rparr>) \<longleftrightarrow> shown v"
  by (simp_all add: shown_def)

abbreviation shows_state :: "'a av_act \<Rightarrow> bool" where
  "shows_state \<equiv> keeps shown"

lemma shown_small [keeps_intros]:
  "shows_state (effect sound)" "shows_state (on_session f)" "shows_state (set_sequence_active b)"
  "shows_state (upd (\<lambda>v. v\<lparr>av_index := n v\<rparr>))" "shows_state (upd (\<lambda>v. v\<lparr>av_upload := u v\<rparr>))"
  "shows_state (show_page e p)" "shows_state publish_title" "shows_state (save_config e)"
  "shows_state (set_title_alignment a i j)" "shows_state request_quit" "shows_state (set_title_text t)"
  by (simp_all add: keeps_def triple_def on_session_def save_config_def case_prod_unfold effect_def
      set_sequence_active_def upd_def show_page_def clear_nav_actions_def publish_nav_actions_def
      set_title_alignment_def on_subjects_def publish_all_def publish_title_def request_quit_def set_title_text_def)
    (simp_all add: shown_def)


lemma shown_pages [keeps_intros]:
  "shows_state (show_start_page e)" "shows_state (show_test_result_page e)" "shows_state (show_single_test_page e p)"
  unfolding show_start_page_def show_test_result_page_def show_single_test_page_def
  by (intro keeps_intros)+

lemma shown_nav [keeps_intros]:
  "length actions = 5 \<Longrightarrow> shows_state (publish_nav_actions actions)"
  by (auto simp: keeps_def triple_def publish_nav_actions_def upd_def shown_def)

lemma shown_set_nav [keeps_intros]: "shows_state (set_nav_action i a)"
  unfolding set_nav_action_def
  by (rule keeps_ask_bind) (auto simp: shown_def intro!: keeps_intros)

lemma shown_nav_calls [keeps_intros]:
  "shows_state (set_keypad_nav_action k a)" "shows_state (clear_nav_actions e)" "shows_state (trigger_nav_action i c)"
  "shows_state (notify_nav_action_pressed i)" "shows_state (notify_nav_action_released i)"
  unfolding set_keypad_nav_action_def clear_nav_actions_def trigger_nav_action_def
    notify_nav_action_pressed_def notify_nav_action_released_def notify_nav_action_def
  by (intro keeps_intros; simp)+

lemma shown_settings [keeps_intros]:
  "shows_state (set_dark_mode e b)" "shows_state (toggle_dark_mode e)" "shows_state (set_uart_baud_rate e rate)"
  "shows_state (set_iperf_settings e h p)" "shows_state (set_language e l)" "shows_state (set_ui_sounds_enabled e b)"
  by (simp_all add: keeps_def triple_def set_dark_mode_def toggle_dark_mode_def publish_dark_mode_def
      set_uart_baud_rate_def set_iperf_settings_def set_language_def set_ui_sounds_enabled_def set_key_click_def
      on_config_def on_subjects_def save_config_def publish_title_def set_service_language_def act_simps)
    (auto simp: shown_def has_language_def)

lemma shown_upload [keeps_intros]: "shows_state (upload_test_result e)"
  by (auto simp: keeps_def triple_def upload_test_result_def act_simps Let_def split: option.split)

lemma shown_sequence [keeps_intros]:
  "shows_state (load_recoverable_test_session e)" "shows_state (open_sequence_at e i)"
  "shows_state (advance_test_sequence e)" "shows_state (current_item e)"
  unfolding load_recoverable_test_session_def open_sequence_at_def open_test_sequence_item_def
    advance_test_sequence_def current_item_def
  by (intro keeps_intros)+

lemma shown_resume_session [keeps_intros]: "shows_state (resume_session e)"
  unfolding resume_session_def by (intro keeps_intros)

lemma shown_announce [keeps_intros]: "shows_state (announce_and_advance e r)"
  unfolding announce_and_advance_def by (intro keeps_intros)

lemma shown_session_calls [keeps_intros]:
  "shows_state (start_full_test_sequence e)" "shows_state (resume_full_test_sequence e)"
  "shows_state (begin_current_test_attempt e)" "shows_state (record_current_test_evidence e ev)"
  "shows_state (record_current_test_value e k x)" "shows_state (complete_current_test e r)"
  "shows_state (complete_current_test_with_details e r ds)" "shows_state (request_back_or_quit e)"
  unfolding start_full_test_sequence_def resume_full_test_sequence_def begin_current_test_attempt_def
    record_current_test_evidence_def record_current_test_value_def complete_current_test_def
    complete_current_test_with_details_def request_back_or_quit_def
  by (intro keeps_intros)+

lemma shown_handler [keeps_intros]:
  "shows_state (set_back_request_handler h)" "shows_state (clear_back_request_handler k)"
  unfolding set_back_request_handler_def clear_back_request_handler_def by (rule keeps_upd; simp)+

lemma shown_calls: "shows_state (perform e c)"
  by (cases c) (simp_all only: perform.simps ignoring_def, (intro keeps_intros)+)

subsection \<open>The invariants of every run\<close>

lemma place_small:
  "in_sequence e v \<Longrightarrow> av_sequence_active v' = av_sequence_active v \<Longrightarrow> av_index v' = av_index v \<Longrightarrow>
     av_page v' = av_page v \<Longrightarrow> av_session v' = av_session v \<Longrightarrow> in_sequence e v'"
  by (erule in_sequence_untouched) (simp_all add: same_place_def)

lemma in_sequence_inactive: "\<not> av_sequence_active v \<Longrightarrow> planned e (av_session v) \<Longrightarrow> in_sequence e v"
  by (simp add: in_sequence_def)

lemma in_sequence_planned: "in_sequence e v \<Longrightarrow> planned e (av_session v)"
  by (simp add: in_sequence_def)

text \<open>The calls that leave the sequence alone.\<close>

definition aside :: "'a av_act \<Rightarrow> bool" where
  "aside m \<longleftrightarrow> (\<forall>v. let v' = snd (run_state m v) in av_sequence_active v' = av_sequence_active v \<and>
     av_index v' = av_index v \<and> av_page v' = av_page v \<and> av_session v' = av_session v)"

lemma aside_in_sequence: "aside m \<Longrightarrow> in_sequence e v \<Longrightarrow> in_sequence e (snd (run_state m v))"
  unfolding aside_def Let_def by (rule place_small) auto

lemma aside_settings:
  "aside request_quit" "aside (set_dark_mode e b)" "aside (toggle_dark_mode e)"
  "aside (set_ui_sounds_enabled e b)" "aside (set_language e l)" "aside (set_uart_baud_rate e rate)"
  "aside (set_iperf_settings e h p)" "aside (set_title_text t)" "aside (set_title_alignment a x y)"
  by (simp_all add: aside_def set_dark_mode_def toggle_dark_mode_def publish_dark_mode_def request_quit_def
      set_uart_baud_rate_def set_iperf_settings_def set_language_def set_ui_sounds_enabled_def set_key_click_def
      on_config_def on_subjects_def save_config_def publish_title_def set_service_language_def act_simps
      set_title_text_def set_title_alignment_def Let_def)

lemma aside_nav:
  "aside (set_nav_action i a)" "aside (set_keypad_nav_action k a)" "aside (clear_nav_actions e)"
  "aside (trigger_nav_action i c)" "aside (notify_nav_action_pressed i)" "aside (notify_nav_action_released i)"
  "aside (set_back_request_handler h)" "aside (clear_back_request_handler g)" "aside (upload_test_result e)"
  by (auto simp: aside_def set_nav_action_def set_keypad_nav_action_def clear_nav_actions_def
      publish_nav_actions_def trigger_nav_action_def notify_nav_action_pressed_def notify_nav_action_released_def
      notify_nav_action_def set_back_request_handler_def clear_back_request_handler_def upload_test_result_def
      act_simps Let_def split: option.split)

lemma ignoring_run [simp]: "snd (run_state (ignoring m) v) = snd (run_state m v)"
  by (simp add: ignoring_def act_simps)

lemma perform_in_sequence:
  assumes "in_sequence e v" "from_start c \<Longrightarrow> av_page v = START"
  shows "in_sequence e (snd (run_state (perform e c) v))"
proof (cases c)
  case DoLoad
  then show ?thesis
    using assms in_sequence_start by (auto simp: from_start_def load_recoverable_test_session_def load_planned intro!: in_sequence_inactive)
next
  case DoBack
  then show ?thesis
    using assms(1) aside_in_sequence [OF aside_settings(1) assms(1)]
    by (simp add: request_back_or_quit_def act_simps in_sequence_inactive in_sequence_planned)
qed (use assms in \<open>simp_all add: from_start_def start_in_sequence resume_in_sequence begin_in_sequence
    evidence_in_sequence complete_in_sequence complete_details_in_sequence aside_in_sequence aside_settings aside_nav
    in_sequence_inactive in_sequence_planned show_single_test_page_def\<close>)

lemma new_view_in_sequence: "in_sequence e (new_app_view e ts store (initial_manager files) now)"
  by (simp add: in_sequence_def new_app_view_def Let_def planned_def initial_manager_def)

lemma new_view_shown: "shown (new_app_view e ts store (initial_manager files) now)"
  by (auto simp: shown_def new_app_view_def Let_def set_service_language_def has_language_def)

lemma run_invariant:
  assumes "(app_step e)\<^sup>*\<^sup>* (new_app_view e ts store (initial_manager files) now) v"
  shows "in_sequence e v \<and> shown v"
  using assms
proof (induction rule: rtranclp_induct)
  case base
  then show ?case using new_view_in_sequence new_view_shown by blast
next
  case (step v w)
  then consider (call) c where "w = snd (run_state (perform e c) v)" "from_start c \<Longrightarrow> av_page v = START"
    | (worker) u where "w = v\<lparr>av_upload := Some u\<rparr>"
    unfolding app_step_iff by blast
  then show ?case
  proof cases
    case call
    then show ?thesis using step.IH perform_in_sequence keepsD [OF shown_calls] by simp
  next
    case (worker u)
    then show ?thesis using step.IH place_small [of e v w] by simp
  qed
qed

end
