(* ===== verification/AppSequence.thy ===== *)
theory AppSequence
  imports AppRuns SessionTheorems AppConfigTheorems
begin

section \<open>AppSequence: the whole sequence\<close>

text \<open>
  Where saves succeed, a started sequence that is completed test by test ends on the result page
  with a completed session that holds the given results in the plan's order.
\<close>

subsection \<open>Saves that succeed\<close>

definition reliable :: "session_env \<Rightarrow> bool" where
  "reliable se \<longleftrightarrow> (\<forall>k. se_io se k = io_ok) \<and> (\<forall>k. se_build se k = BuildOk) \<and>
     (\<forall>j. \<exists>t. cj_print (se_json se) True j = Some t)"

lemma reliable_prints: "reliable se \<Longrightarrow> print_json (se_json se) True j \<noteq> []"
  by (auto simp: reliable_def print_json_def split: option.split)

lemma reliableD: "reliable se \<Longrightarrow> se_io se k = io_ok" "reliable se \<Longrightarrow> se_build se k = BuildOk"
  by (simp_all add: reliable_def)

lemma io_ok_writes: "write_text_file_atomic io_ok p t m = (None, (m(p @ ''.tmp'' := None))(p \<mapsto> t))"
  by (simp add: write_text_file_atomic_def io_ok_def Let_def)

lemma reliable_persist:
  "reliable se \<Longrightarrow> sm_session_path s \<noteq> [] \<Longrightarrow> sm_updated_at s \<noteq> [] \<Longrightarrow> fst (persist se s)"
  by (simp add: persist_def Let_def reliable_prints reliableD io_ok_writes build_error_def)

lemma reliable_result:
  "reliable se \<Longrightarrow> sm_session_id s \<noteq> [] \<Longrightarrow> sm_tests s \<noteq> [] \<Longrightarrow> fst (write_result se s)"
  by (simp add: write_result_def Let_def reliable_prints reliableD io_ok_writes build_result_json_def build_error_def tick_def)

lemma reliable_finalize:
  assumes "reliable se" "active s" "list_all tr_completed (sm_tests s)" "sm_tests s \<noteq> []" "sm_session_id s \<noteq> []"
    "sm_session_path s \<noteq> []"
  shows "fst (finalize se s) \<and> sm_state (snd (finalize se s)) = COMPLETED \<and> sm_tests (snd (finalize se s)) = sm_tests s"
proof -
  have "fst (write_result se (closing se s))" using assms by (intro reliable_result) simp_all
  moreover have "fst (persist se (snd (write_result se (closing se s))))"
    using assms by (intro reliable_persist) simp_all
  ultimately show ?thesis
    using finalize_closing [of s se] assms(2,3) next_incomplete_all [of s] by (simp add: Let_def)
qed

lemma reliable_set_current:
  assumes "reliable se" "active s" "i \<in> set (test_ids s)" "sm_session_path s \<noteq> []"
  shows "fst (set_current_test se i s) \<and> (let s' = snd (set_current_test se i s) in
     sm_state s' = sm_state s \<and> sm_tests s' = sm_tests s \<and> sm_session_id s' = sm_session_id s \<and>
     sm_session_path s' = sm_session_path s)"
proof -
  let ?x = "(tick (s\<lparr>sm_current_test_id := i\<rparr>))\<lparr>sm_updated_at := iso_timestamp (se_clock se (sm_steps s))\<rparr>"
  have there: "find_test i (sm_tests s) \<noteq> None" using assms(3) by (simp add: find_test_None_iff test_ids_def)
  have "fst (persist se ?x)" using assms by (intro reliable_persist) (simp_all add: tick_def)
  then show ?thesis
    using assms(2) there
    by (simp add: set_current_test_def Let_def case_prod_unfold now_iso_timestamp_def) (simp add: tick_def)
qed

lemma find_test_nth:
  "distinct (map tr_id ts) \<Longrightarrow> k < length ts \<Longrightarrow> find_test (tr_id (ts ! k)) ts = Some k"
proof (induction ts arbitrary: k)
  case (Cons t ts)
  then show ?case by (cases k) auto
qed simp

text \<open>A test completed where it stands; the last one closes the session.\<close>

definition completed_at :: "session_env \<Rightarrow> test_result \<Rightarrow> named_test_result list \<Rightarrow> nat \<Rightarrow> session_manager \<Rightarrow> test_record list" where
  "completed_at se res ds k s =
     (sm_tests s)[k := completed_record (iso_timestamp (se_clock se (sm_steps s))) res ds (sm_tests s ! k)]"

lemma reliable_complete:
  assumes "reliable se" "active s" "distinct (test_ids s)" "k < length (sm_tests s)" "sm_session_path s \<noteq> []"
    "sm_session_id s \<noteq> []"
  shows "let r = complete_test se (test_ids s ! k) res ds s; ts = completed_at se res ds k s in
    fst r \<and> sm_tests (snd r) = ts \<and>
    (if list_all tr_completed ts then sm_state (snd r) = COMPLETED
     else active (snd r) \<and> sm_session_path (snd r) = sm_session_path s \<and> sm_session_id (snd r) = sm_session_id s)"
proof -
  have av: "available s (test_ids s ! k) k"
    using assms(2-4) find_test_nth [of "sm_tests s" k] by (simp add: test_ids_def available_def)
  let ?x = "completing se res ds k s" and ?ts = "completed_at se res ds k s"
  let ?p = "snd (persist se ?x)"
  have tests: "sm_tests ?x = ?ts" by (simp add: completing_def completed_at_def Let_def)
  have p: "fst (persist se ?x)" using assms by (intro reliable_persist) simp_all
  have eq: "complete_test se (test_ids s ! k) res ds s =
      (if length (sm_tests ?p) \<le> next_incomplete_index ?p then finalize se ?p else (True, ?p))"
    using complete_test_completing [OF av, of se res ds] p by (simp add: Let_def)
  have all: "length (sm_tests ?p) \<le> next_incomplete_index ?p \<longleftrightarrow> list_all tr_completed ?ts"
    using next_incomplete_all [of ?p] by (simp add: tests)
  show ?thesis
  proof (cases "list_all tr_completed ?ts")
    case True
    have "?ts \<noteq> []" using assms(4) by (auto simp: completed_at_def)
    then have "fst (finalize se ?p) \<and> sm_state (snd (finalize se ?p)) = COMPLETED \<and> sm_tests (snd (finalize se ?p)) = sm_tests ?p"
      using assms True by (intro reliable_finalize) (simp_all add: tests active_def)
    then show ?thesis using True all by (simp add: eq tests Let_def)
  next
    case False
    then show ?thesis using all assms(2) by (simp add: eq tests active_def Let_def)
  qed
qed

subsection \<open>Progress\<close>

text \<open>After \<open>k\<close> completed tests of a running sequence.\<close>

definition progress :: "app_env \<Rightarrow> test_result list \<Rightarrow> app_view \<Rightarrow> bool" where
  "progress e rs v \<longleftrightarrow> av_sequence_active v \<and> av_index v = length rs \<and> active (av_session v) \<and>
     sm_session_path (av_session v) \<noteq> [] \<and> sm_session_id (av_session v) \<noteq> [] \<and>
     test_ids (av_session v) = plan_ids (ae_product e) \<and>
     map tr_completed (sm_tests (av_session v)) = map (\<lambda>i. i < length rs) [0..<test_sequence_size (ae_product e)] \<and>
     map tr_result (take (length rs) (sm_tests (av_session v))) = rs"

lemma plan_ids_distinct: "distinct (plan_ids m)"
  using valid_plan_ids [of "test_sequence_plan m" "[]"] plan_valid [of m] by (simp add: plan_ids_def)

lemma fresh_incomplete: "map tr_completed (map fresh_record plan) = map (\<lambda>i. False) [0..<length plan]"
  by (simp add: fresh_record_def test_record_default_def comp_def map_replicate_const)

lemma started:
  assumes "reliable (ae_session e)" "\<not> active (av_session v)"
  shows "progress e [] (snd (run_state (start_full_test_sequence e) v)) \<and> fst (run_state (start_full_test_sequence e) v)"
proof -
  let ?plan = "test_sequence_plan (ae_product e)"
  let ?md = "metadata_for_session e (cf_station_id (cs_config (av_config v)))"
  let ?o = "open_session (ae_session e) ?plan ?md (reset (av_session v\<lparr>sm_last_error := []\<rparr>))"
  have path: "sm_session_path ?o \<noteq> []"
    using open_session_path_ends [of "ae_session e" ?plan ?md "reset (av_session v\<lparr>sm_last_error := []\<rparr>)"]
    by (auto simp: session_suffix_def)
  have p: "fst (persist (ae_session e) ?o)" using assms(1) path by (intro reliable_persist) simp_all
  let ?s = "snd (persist (ae_session e) ?o)"
  have start: "start_new (ae_session e) ?plan ?md (av_session v) = (True, ?s)"
    using plan_valid [of "ae_product e"] assms(2) p
    by (cases "persist (ae_session e) ?o") (simp add: start_new_def Let_def active_def)
  have tests: "sm_tests ?s = map fresh_record ?plan"
    by simp
  have s: "active ?s" "sm_session_path ?s \<noteq> []" "sm_session_id ?s \<noteq> []" "test_ids ?s = plan_ids (ae_product e)"
    using path tests by (simp_all add: active_def test_ids_def fresh_record_def plan_ids_def comp_def)
  have pos: "0 < test_sequence_size (ae_product e)"
    using plan_valid [of "ae_product e"] plan_size [of "ae_product e"] by (metis length_greater_0_conv length_map plan_ids_def)
  then obtain item where item: "sequence_item (ae_product e) 0 = Some item" by (simp add: sequence_item_nth)
  have "sq_id item \<in> set (test_ids ?s)"
    using sequence_ids [OF item] s(4) by (auto simp: in_set_conv_nth)
  then have set: "fst (set_current_test (ae_session e) (sq_id item) ?s)"
      "sm_state (snd (set_current_test (ae_session e) (sq_id item) ?s)) = sm_state ?s"
      "sm_tests (snd (set_current_test (ae_session e) (sq_id item) ?s)) = sm_tests ?s"
      "sm_session_id (snd (set_current_test (ae_session e) (sq_id item) ?s)) = sm_session_id ?s"
      "sm_session_path (snd (set_current_test (ae_session e) (sq_id item) ?s)) = sm_session_path ?s"
    using reliable_set_current [OF assms(1) s(1) _ s(2)] by (simp_all add: Let_def)
  have "length ?plan = test_sequence_size (ae_product e)"
    using plan_size [of "ae_product e"] by (simp add: plan_ids_def)
  then have none: "map tr_completed (sm_tests ?s) = map (\<lambda>i. False) [0..<test_sequence_size (ae_product e)]"
    by (simp only: tests fresh_incomplete)
  show ?thesis
    using s set none start item
    by (simp add: start_full_test_sequence_def open_sequence_at_def open_test_sequence_item_def act_simps
        progress_def active_def test_ids_def)
qed


lemma completed_at_progress:
  fixes e rs v r ds
  assumes "progress e rs v" "length rs < test_sequence_size (ae_product e)"
  defines "ts \<equiv> completed_at (ae_session e) r ds (length rs) (av_session v)"
  shows "map tr_completed ts = map (\<lambda>i. i < Suc (length rs)) [0..<test_sequence_size (ae_product e)]"
    "map tr_result (take (Suc (length rs)) ts) = rs @ [r]" "map tr_id ts = plan_ids (ae_product e)"
    "list_all tr_completed ts \<longleftrightarrow> test_sequence_size (ae_product e) = Suc (length rs)"
proof -
  let ?old = "sm_tests (av_session v)" and ?n = "test_sequence_size (ae_product e)"
  have old: "map tr_completed ?old = map (\<lambda>i. i < length rs) [0..<?n]" "map tr_result (take (length rs) ?old) = rs"
      "map tr_id ?old = plan_ids (ae_product e)"
    using assms(1) by (auto simp: progress_def test_ids_def)
  then have len: "length ?old = ?n" by (metis length_map length_upt minus_nat.diff_0)
  then have k: "length rs < length ?old" using assms(2) by simp
  have at: "ts ! i = (if i = length rs then completed_record (iso_timestamp (se_clock (ae_session e) (sm_steps (av_session v)))) r ds (?old ! i)
      else ?old ! i)" if "i < ?n" for i
    using that len by (auto simp: ts_def completed_at_def)
  have lents: "length ts = ?n" using len by (simp add: ts_def completed_at_def)
  have done_at: "tr_completed (?old ! i) \<longleftrightarrow> i < length rs" if "i < ?n" for i
    using arg_cong [OF old(1), of "\<lambda>xs. xs ! i"] that len by simp
  show flags: "map tr_completed ts = map (\<lambda>i. i < Suc (length rs)) [0..<?n]"
    using lents at done_at by (auto simp: list_eq_iff_nth_eq completed_record_def less_Suc_eq)
  have "take (length rs) ts = take (length rs) ?old" by (simp add: ts_def completed_at_def)
  moreover have "tr_result (ts ! length rs) = r" using at [OF assms(2)] by (simp add: completed_record_def)
  ultimately show "map tr_result (take (Suc (length rs)) ts) = rs @ [r]"
    using lents assms(2) old(2) by (simp add: take_Suc_conv_app_nth)
  show "map tr_id ts = plan_ids (ae_product e)"
    using k old(3) ids_update [of "length rs" ?old] by (simp add: ts_def completed_at_def completed_record_def)
  have "list_all tr_completed ts \<longleftrightarrow> list_all id (map tr_completed ts)" by (simp add: list_all_iff)
  then show "list_all tr_completed ts \<longleftrightarrow> ?n = Suc (length rs)"
    using assms(2) unfolding flags by (auto simp: list_all_iff)
qed

definition finished :: "app_env \<Rightarrow> test_result list \<Rightarrow> app_view \<Rightarrow> bool" where
  "finished e rs v \<longleftrightarrow> \<not> av_sequence_active v \<and> av_page v = TEST_RESULT \<and> sm_state (av_session v) = COMPLETED \<and>
     test_ids (av_session v) = plan_ids (ae_product e) \<and> list_all tr_completed (sm_tests (av_session v)) \<and>
     map tr_result (sm_tests (av_session v)) = rs"

lemma completed_step:
  assumes good: "reliable (ae_session e)" and pr: "progress e rs v" and n: "length rs < test_sequence_size (ae_product e)"
  shows "let v' = snd (run_state (complete_current_test e r) v) in
    if test_sequence_size (ae_product e) = Suc (length rs) then finished e (rs @ [r]) v' else progress e (rs @ [r]) v'"
proof -
  let ?s = "av_session v" and ?n = "test_sequence_size (ae_product e)"
  let ?ts = "completed_at (ae_session e) r [] (length rs) ?s"
  note pr' = pr [unfolded progress_def]
  note ts = completed_at_progress [OF pr n, of r "[]"]
  obtain item where i: "sequence_item (ae_product e) (length rs) = Some item"
    using n by (simp add: sequence_item_nth)
  then have item: "sequence_item (ae_product e) (length rs) = Some item" "sq_id item = test_ids ?s ! length rs"
    using sequence_ids [OF i] pr' by simp_all
  let ?c = "complete_test (ae_session e) (sq_id item) r [] ?s"
  have "length (sm_tests ?s) = ?n" using pr' by (metis length_map plan_size test_ids_def)
  then have c: "fst ?c" "sm_tests (snd ?c) = ?ts"
    "if list_all tr_completed ?ts then sm_state (snd ?c) = COMPLETED
     else active (snd ?c) \<and> sm_session_path (snd ?c) = sm_session_path ?s \<and> sm_session_id (snd ?c) = sm_session_id ?s"
    using reliable_complete [OF good, of ?s "length rs" r "[]"] pr' n plan_ids_distinct [of "ae_product e"] item(2)
    by (simp_all add: Let_def)
  let ?v = "v\<lparr>av_session := snd ?c, av_effects := av_effects v @ [PlaySound (if r = FAIL then UI_ERROR
      else if ?n \<le> Suc (length rs) then UI_COMPLETE else UI_SUCCESS)]\<rparr>"
  have run: "snd (run_state (complete_current_test e r) v) = snd (run_state (advance_test_sequence e) ?v)"
    using pr' item(1) c(1)
    by (simp add: complete_current_test_def current_item_def announce_and_advance_def act_simps)
  have ids: "test_ids (snd ?c) = plan_ids (ae_product e)" using c(2) ts(3) by (simp add: test_ids_def)
  show ?thesis
  proof (cases "?n = Suc (length rs)")
    case True
    then have "sequence_item (ae_product e) (Suc (length rs)) = None" by (simp add: sequence_item_nth)
    moreover have "length ?ts = Suc (length rs)" using arg_cong [OF ts(1), of length] True by simp
    ultimately show ?thesis
      using True pr' c ts ids
      by (simp add: run advance_test_sequence_def act_simps show_test_result_page_def finished_def)
  next
    case False
    then obtain next_item where nx: "sequence_item (ae_product e) (Suc (length rs)) = Some next_item"
      using n by (simp add: sequence_item_nth)
    have act: "active (snd ?c)" "sm_session_path (snd ?c) \<noteq> []" "sm_session_id (snd ?c) \<noteq> []"
      using c(3) ts(4) False pr' by auto
    have "sq_id next_item \<in> set (test_ids (snd ?c))"
      using sequence_ids [OF nx] ids by (auto simp: in_set_conv_nth)
    then have set: "fst (set_current_test (ae_session e) (sq_id next_item) (snd ?c))"
      "sm_state (snd (set_current_test (ae_session e) (sq_id next_item) (snd ?c))) = sm_state (snd ?c)"
      "sm_tests (snd (set_current_test (ae_session e) (sq_id next_item) (snd ?c))) = sm_tests (snd ?c)"
      "sm_session_id (snd (set_current_test (ae_session e) (sq_id next_item) (snd ?c))) = sm_session_id (snd ?c)"
      "sm_session_path (snd (set_current_test (ae_session e) (sq_id next_item) (snd ?c))) = sm_session_path (snd ?c)"
      using reliable_set_current [OF good act(1) _ act(2)] by (simp_all add: Let_def)
    then show ?thesis
      using False pr' c(2) ts ids act nx
      by (simp add: run advance_test_sequence_def act_simps progress_def active_def test_ids_def)
  qed
qed


lemma completed_run:
  assumes "reliable (ae_session e)" "progress e done v" "rs \<noteq> []"
    "length done + length rs = test_sequence_size (ae_product e)"
  shows "finished e (done @ rs) (foldl (\<lambda>v r. snd (run_state (complete_current_test e r) v)) v rs)"
  using assms
proof (induction rs arbitrary: "done" v)
  case (Cons r rs)
  let ?v = "snd (run_state (complete_current_test e r) v)"
  have step: "if test_sequence_size (ae_product e) = Suc (length done) then finished e (done @ [r]) ?v
      else progress e (done @ [r]) ?v"
    using completed_step [OF Cons.prems(1,2), of r] Cons.prems(4) by (simp add: Let_def)
  show ?case
  proof (cases "rs = []")
    case True
    then show ?thesis using step Cons.prems(4) by simp
  next
    case False
    then have "test_sequence_size (ae_product e) \<noteq> Suc (length done)" using Cons.prems(4) by (cases rs) auto
    then show ?thesis using False step Cons.IH [OF Cons.prems(1), of "done @ [r]" ?v] Cons.prems(4) by simp
  qed
qed simp

lemma finished_passed: "finished e rs v \<Longrightarrow> session_passed (av_session v) \<longleftrightarrow> (\<forall>r \<in> set rs. r = PASS)"
proof -
  assume f: "finished e rs v"
  let ?ts = "sm_tests (av_session v)"
  have all: "list_all tr_completed ?ts" "rs = map tr_result ?ts" using f by (simp_all add: finished_def)
  then have "filter tr_completed ?ts = ?ts" by (simp add: filter_id_conv list_all_iff)
  moreover have "filter (\<lambda>t. tr_completed t \<and> tr_result t = FAIL) ?ts = [] \<longleftrightarrow> (\<forall>r \<in> set rs. r = PASS)"
    using all by (auto simp: filter_empty_conv list_all_iff intro: test_result.exhaust)
  ultimately show ?thesis by (simp add: session_passed_def summary_def summarize_counts)
qed

subsection \<open>A bench\<close>

definition bench_app :: app_env where
  "bench_app = \<lparr>ae_product = CARDPUTER_ZERO_LITE, ae_serial_number = ''S'', ae_version = ''1.0'', ae_commit = ''c'',
     ae_session = (quiet_env reference_cjson)\<lparr>se_json := reference_cjson\<lparr>cj_print := (\<lambda>formatted j. Some ''J'')\<rparr>\<rparr>,
     ae_listing = (\<lambda>k. None), ae_config = config_env_ok, ae_meanwhile = id, ae_handler = (\<lambda>f d. False),
     ae_clicked = 10, ae_left_mid = 7\<rparr>"

definition bench_view :: app_view where
  "bench_view = new_app_view bench_app new_translations (initial_store config_env_ok Map.empty)
     (initial_manager Map.empty) 0"

lemma bench_reliable: "reliable (ae_session bench_app)"
  by (simp add: reliable_def bench_app_def quiet_env_def)

lemma bench_idle: "\<not> active (av_session bench_view)" "av_page bench_view = START"
  by (simp_all add: bench_view_def new_app_view_def Let_def initial_manager_def active_def)

definition bench_started :: app_view where
  "bench_started = snd (run_state (start_full_test_sequence bench_app) bench_view)"

lemma bench_started_reached:
  "(app_step bench_app)\<^sup>*\<^sup>* bench_view bench_started" "av_sequence_active bench_started"
proof -
  have "app_step bench_app bench_view (snd (run_state (perform bench_app DoStart) bench_view))"
    by (rule app_step.call) (simp add: bench_idle)
  then show "(app_step bench_app)\<^sup>*\<^sup>* bench_view bench_started" by (simp add: bench_started_def)
  show "av_sequence_active bench_started"
    using started [OF bench_reliable, of bench_view] bench_idle by (simp add: bench_started_def progress_def)
qed

subsection \<open>Properties\<close>

text \<open>C3: After any calls of the screens in any order, under any failures of the saves and with any
  upload worker beside them: while the test sequence is active, the item at its position, the page
  that is shown and the session's current test are the same test, and the open session has exactly
  the plan's tests.\<close>

theorem sequence_in_step:
  assumes "(app_step e)\<^sup>*\<^sup>* (new_app_view e ts store (initial_manager files) now) v" "av_sequence_active v"
  shows "\<exists>item. sequence_item (ae_product e) (av_index v) = Some item \<and> av_page v = sq_page item \<and>
    active (av_session v) \<and> sm_current_test_id (av_session v) = sq_id item \<and>
    map tr_id (sm_tests (av_session v)) = map td_id (test_sequence_plan (ae_product e))"
  using run_invariant [OF assms(1)] assms(2)
  by (auto simp: in_sequence_def placed_def planned_def test_ids_def plan_ids_def active_def)

theorem sequence_in_step_witness:
  "\<exists>item. sequence_item CARDPUTER_ZERO_LITE (av_index bench_started) = Some item \<and> av_page bench_started = sq_page item \<and>
     sm_current_test_id (av_session bench_started) = sq_id item"
  using sequence_in_step [OF bench_started_reached(1) [unfolded bench_view_def] bench_started_reached(2)]
  by (auto simp: bench_app_def)

text \<open>C27: After any calls, what the subjects show is the state: the page, the dark mode, the title in
  the language in use (its first 47 bytes, before any zero: the buffer of the title holds no more) and
  the navigation actions; and the settings in memory are the ones in use,
  saved or not.\<close>

theorem shown_is_state:
  assumes "(app_step e)\<^sup>*\<^sup>* (new_app_view e ts store (initial_manager files) now) v"
  shows "sb_current_page (av_subjects v) = page_to_int (av_page v) \<and>
    sb_dark_mode (av_subjects v) = av_dark_mode v \<and>
    sb_title (av_subjects v) = title_buffer (translate (av_translations v) (av_title_msgid v)) \<and>
    sb_nav_actions (av_subjects v) = av_nav_revision v \<and> length (av_nav_actions v) = 5 \<and>
    ui_dark_mode (cf_ui (cs_config (av_config v))) = av_dark_mode v \<and>
    ui_language (cf_ui (cs_config (av_config v))) = ts_language (av_translations v) \<and>
    has_language (av_translations v) (ts_language (av_translations v))"
  using run_invariant [OF assms] by (simp add: shown_def)

theorem shown_is_state_witness:
  "sb_current_page (av_subjects bench_started) = page_to_int (av_page bench_started) \<and> av_page bench_started \<noteq> START"
  using shown_is_state [OF bench_started_reached(1) [unfolded bench_view_def]]
    run_invariant [OF bench_started_reached(1) [unfolded bench_view_def]] in_sequence_start bench_started_reached(2)
  by blast

text \<open>C10: Where the saves succeed, a started sequence whose tests are completed one after the other
  ends: on the result page, with a completed session of the plan's tests, with exactly the given
  results in the plan's order, passed if and only if all of them are.\<close>

theorem whole_sequence:
  assumes "reliable (ae_session e)" "\<not> active (av_session v)" "length rs = test_sequence_size (ae_product e)"
  defines "v' \<equiv> foldl (\<lambda>v r. snd (run_state (complete_current_test e r) v))
    (snd (run_state (start_full_test_sequence e) v)) rs"
  shows "\<not> av_sequence_active v' \<and> av_page v' = TEST_RESULT \<and> sm_state (av_session v') = COMPLETED \<and>
    map tr_id (sm_tests (av_session v')) = map td_id (test_sequence_plan (ae_product e)) \<and>
    list_all tr_completed (sm_tests (av_session v')) \<and> map tr_result (sm_tests (av_session v')) = rs \<and>
    (session_passed (av_session v') \<longleftrightarrow> (\<forall>r \<in> set rs. r = PASS))"
proof -
  have "rs \<noteq> []"
    using assms(3) plan_valid [of "ae_product e"] plan_size [of "ae_product e"] by (auto simp: plan_ids_def)
  then have "finished e rs v'"
    using completed_run [OF assms(1), of "[]"] started [OF assms(1,2)] assms(3) by (simp add: v'_def)
  then show ?thesis using finished_passed [of e rs v'] by (simp add: finished_def test_ids_def plan_ids_def)
qed

theorem whole_sequence_witness:
  "let rs = FAIL # replicate 16 PASS;
       v' = foldl (\<lambda>v r. snd (run_state (complete_current_test bench_app r) v)) bench_started rs in
   av_page v' = TEST_RESULT \<and> map tr_result (sm_tests (av_session v')) = rs \<and> \<not> session_passed (av_session v')"
proof -
  have "length (FAIL # replicate 16 PASS) = test_sequence_size (ae_product bench_app)"
    by (simp add: bench_app_def test_sequence_size_def test_sequence_def sequence_item_enabled_def)
  note w = whole_sequence [OF bench_reliable bench_idle(1) this]
  have "\<not> (\<forall>r \<in> set (FAIL # replicate 16 PASS). r = PASS)" by simp
  then show ?thesis unfolding Let_def bench_started_def using w by blast
qed

end
