(* ===== verification/IrCodec.thy ===== *)
theory IrCodec
  imports Prelude "HOL-Library.Word"
begin

section \<open>IrCodec: NEC packets as durations\<close>

text \<open>
  The codec of src/src/platform/ir_service.cpp: the four bytes of a NEC packet, the train of
  pulse and space durations that carries them (microseconds, \<open>uint32_t\<close>), the decoder with its
  tolerances, and the two ways a received packet gets its address, command and protocol. The
  lemmas show the comparison with a tolerance free of wrap-around and the decoder right for
  every train whose durations are near enough to the nominal ones.
\<close>

unbundle bit_operations_syntax

subsection \<open>Bytes, address and command\<close>

definition packet_bytes :: nat where "packet_bytes = 4"
definition nec_hdr_pulse_us :: "32 word" where "nec_hdr_pulse_us = 9000"
definition nec_hdr_space_us :: "32 word" where "nec_hdr_space_us = 4500"
definition nec_bit_pulse_us :: "32 word" where "nec_bit_pulse_us = 560"
definition nec_zero_space_us :: "32 word" where "nec_zero_space_us = 560"
definition nec_one_space_us :: "32 word" where "nec_one_space_us = 1690"

lemmas nec_constants = nec_hdr_pulse_us_def nec_hdr_space_us_def nec_bit_pulse_us_def
  nec_zero_space_us_def nec_one_space_us_def

definition make_nec_command :: "8 word \<Rightarrow> 16 word" where
  "make_nec_command command_byte = ucast command_byte OR push_bit 8 (ucast (NOT command_byte))"

definition make_nec_bytes :: "16 word \<Rightarrow> 16 word \<Rightarrow> 8 word list" where
  "make_nec_bytes address command =
     [ucast (address AND 0xFF), ucast (drop_bit 8 address AND 0xFF),
      ucast (command AND 0xFF), ucast (drop_bit 8 command AND 0xFF)]"

definition make_standard_nec_bytes :: "8 word \<Rightarrow> 8 word \<Rightarrow> 8 word list" where
  "make_standard_nec_bytes address command = [address, NOT address, command, NOT command]"

definition word_of_bytes :: "8 word \<Rightarrow> 8 word \<Rightarrow> 16 word" where
  "word_of_bytes low high = ucast low OR push_bit 8 (ucast high)"

definition parse_nec_bytes :: "8 word list \<Rightarrow> (16 word \<times> 16 word \<times> string) option" where
  "parse_nec_bytes bytes =
     (if length bytes \<noteq> packet_bytes then None
      else Some (word_of_bytes (bytes ! 0) (bytes ! 1), word_of_bytes (bytes ! 2) (bytes ! 3),
        (if bytes ! 0 XOR bytes ! 1 = 0xFF then ''NEC''
         else if bytes ! 2 XOR bytes ! 3 = 0xFF then ''NECX'' else ''NEC32'')))"

definition random_command :: "nat \<Rightarrow> 16 word" where
  "random_command draw = word_of_nat draw"

subsection \<open>Durations\<close>

fun encode_bits :: "8 word \<Rightarrow> nat list \<Rightarrow> 32 word list" where
  "encode_bits byte [] = []"
| "encode_bits byte (b # bs) =
     nec_bit_pulse_us # (if byte AND push_bit b 1 \<noteq> 0 then nec_one_space_us else nec_zero_space_us)
       # encode_bits byte bs"

definition encode_nec_packet :: "8 word list \<Rightarrow> 32 word list" where
  "encode_nec_packet bytes =
     [nec_hdr_pulse_us, nec_hdr_space_us] @ concat (map (\<lambda>byte. encode_bits byte [0..<8]) bytes)
       @ [nec_bit_pulse_us]"

text \<open>\<open>uint32_t\<close> arithmetic, which wraps around.\<close>

definition approx :: "32 word \<Rightarrow> 32 word \<Rightarrow> 32 word \<Rightarrow> bool" where
  "approx v target tolerance \<longleftrightarrow> v + tolerance \<ge> target \<and> v \<le> target + tolerance"

definition required_durations :: nat where
  "required_durations = 2 + packet_bytes * 16 + 1"

text \<open>The two loops of \<open>decode_nec_packet_from\<close>, over the bits of a byte and over the bytes.\<close>

fun decode_byte :: "32 word list \<Rightarrow> nat \<Rightarrow> nat list \<Rightarrow> 8 word \<Rightarrow> (8 word \<times> nat) option" where
  "decode_byte durations index [] byte = Some (byte, index)"
| "decode_byte durations index (b # bs) byte =
     (let pulse = durations ! index; space = durations ! (index + 1) in
      if \<not> approx pulse nec_bit_pulse_us 450 then None
      else if approx space nec_one_space_us 850
        then decode_byte durations (index + 2) bs (byte OR push_bit b 1)
      else if \<not> approx space nec_zero_space_us 500 then None
      else decode_byte durations (index + 2) bs byte)"

fun decode_bytes :: "32 word list \<Rightarrow> nat \<Rightarrow> nat \<Rightarrow> 8 word list option" where
  "decode_bytes durations index 0 = Some []"
| "decode_bytes durations index (Suc n) =
     (case decode_byte durations index [0..<8] 0 of
        None \<Rightarrow> None
      | Some (byte, index') \<Rightarrow> (case decode_bytes durations index' n of
          None \<Rightarrow> None
        | Some bytes \<Rightarrow> Some (byte # bytes)))"

definition decode_nec_packet_from :: "32 word list \<Rightarrow> nat \<Rightarrow> 8 word list option" where
  "decode_nec_packet_from durations start =
     (if length durations < start + required_durations then None
      else if \<not> approx (durations ! start) nec_hdr_pulse_us 2500 \<or>
              \<not> approx (durations ! (start + 1)) nec_hdr_space_us 1800 then None
      else decode_bytes durations (start + 2) packet_bytes)"

text \<open>The first start from which a packet is found; the loop runs while \<open>i + 2 < size\<close>.\<close>

fun first_some :: "('a \<Rightarrow> 'b option) \<Rightarrow> 'a list \<Rightarrow> 'b option" where
  "first_some f [] = None"
| "first_some f (x # xs) = (case f x of Some y \<Rightarrow> Some y | None \<Rightarrow> first_some f xs)"

definition decode_nec_packet :: "32 word list \<Rightarrow> 8 word list option" where
  "decode_nec_packet durations =
     first_some (decode_nec_packet_from durations) [0..<length durations - 2]"

subsection \<open>Comparison with a tolerance\<close>

text \<open>The sums of \<open>approx\<close> wrap around, which never changes its answer for the code's constants.\<close>

lemma approx_iff:
  assumes "unat target + 2 * unat tolerance < 2 ^ 32"
  shows "approx v target tolerance \<longleftrightarrow>
    unat v \<le> unat target + unat tolerance \<and> unat target \<le> unat v + unat tolerance"
proof -
  have up: "unat (target + tolerance) = unat target + unat tolerance"
    using assms by (intro unat_add_lem [THEN iffD1]) simp
  show ?thesis
  proof (cases "unat v \<le> unat target + unat tolerance")
    case True
    then have "unat (v + tolerance) = unat v + unat tolerance"
      using assms by (intro unat_add_lem [THEN iffD1]) simp
    then show ?thesis using True up by (auto simp: approx_def word_le_nat_alt)
  next
    case False
    then show ?thesis using up by (auto simp: approx_def word_le_nat_alt)
  qed
qed

lemma approx_numeral:
  "approx v nec_hdr_pulse_us 2500 \<longleftrightarrow> 6500 \<le> unat v \<and> unat v \<le> 11500"
  "approx v nec_hdr_space_us 1800 \<longleftrightarrow> 2700 \<le> unat v \<and> unat v \<le> 6300"
  "approx v nec_bit_pulse_us 450 \<longleftrightarrow> 110 \<le> unat v \<and> unat v \<le> 1010"
  "approx v nec_one_space_us 850 \<longleftrightarrow> 840 \<le> unat v \<and> unat v \<le> 2540"
  "approx v nec_zero_space_us 500 \<longleftrightarrow> 60 \<le> unat v \<and> unat v \<le> 1060"
  by (simp_all add: approx_iff nec_constants) linarith+

subsection \<open>What a train carries\<close>

text \<open>
  The reference for the decoder, in terms of the durations alone: the header is between the
  limits, every bit is a pulse of 110 to 1010 microseconds and a space of 60 to 839 for a zero
  and 840 to 2540 for a one, least significant bit first. The last pulse is not looked at.
\<close>

definition carries_bit :: "32 word \<Rightarrow> 32 word \<Rightarrow> bool \<Rightarrow> bool" where
  "carries_bit pulse space one \<longleftrightarrow>
     110 \<le> unat pulse \<and> unat pulse \<le> 1010 \<and>
     (if one then 840 \<le> unat space \<and> unat space \<le> 2540
      else 60 \<le> unat space \<and> unat space < 840)"

definition carries_byte :: "32 word list \<Rightarrow> nat \<Rightarrow> 8 word \<Rightarrow> bool" where
  "carries_byte durations i byte \<longleftrightarrow>
     (\<forall>n\<in>{..<8}. carries_bit (durations ! (i + 2 * n)) (durations ! (i + 2 * n + 1)) (bit byte n))"

definition carries :: "32 word list \<Rightarrow> nat \<Rightarrow> 8 word list \<Rightarrow> bool" where
  "carries durations start bytes \<longleftrightarrow>
     length bytes = packet_bytes \<and> start + required_durations \<le> length durations \<and>
     6500 \<le> unat (durations ! start) \<and> unat (durations ! start) \<le> 11500 \<and>
     2700 \<le> unat (durations ! (start + 1)) \<and> unat (durations ! (start + 1)) \<le> 6300 \<and>
     (\<forall>k\<in>{..<packet_bytes}. carries_byte durations (start + 2 + 16 * k) (bytes ! k))"

lemma decode_byte_iff:
  assumes "distinct bs" "\<forall>b\<in>set bs. b < 8 \<and> \<not> bit v b"
  shows "decode_byte durations i bs v = Some (v', j) \<longleftrightarrow>
    j = i + 2 * length bs \<and>
    (\<forall>k<length bs. carries_bit (durations ! (i + 2 * k)) (durations ! (i + 2 * k + 1)) (bit v' (bs ! k))) \<and>
    (\<forall>n<8. n \<notin> set bs \<longrightarrow> bit v' n = bit v n)"
  using assms
proof (induction bs arbitrary: i v)
  case Nil
  have "v = v' \<longleftrightarrow> (\<forall>n<8. bit v' n = bit v n)"
    using bit_word_eqI [of v v'] by auto
  then show ?case by auto
next
  case (Cons b bs)
  let ?p = "durations ! i" and ?s = "durations ! Suc i"
  have b: "b < 8" "\<not> bit v b" "b \<notin> set bs" using Cons.prems by auto
  have bits: "bit (v OR 2 ^ b) n \<longleftrightarrow> bit v n \<or> n = b" for n
    using b by (auto simp: bit_simps)
  have all: "(\<forall>k<length (b # bs). P k) \<longleftrightarrow> P 0 \<and> (\<forall>k<length bs. P (Suc k))" for P
    by (metis length_Cons less_Suc_eq_0_disj)
  have one: "decode_byte durations (i + 2) bs (v OR push_bit b 1) = Some (v', j) \<longleftrightarrow>
    j = i + 2 + 2 * length bs \<and>
    (\<forall>k<length bs. carries_bit (durations ! (i + 2 + 2 * k)) (durations ! (i + 2 + 2 * k + 1)) (bit v' (bs ! k))) \<and>
    (\<forall>n<8. n \<notin> set bs \<longrightarrow> bit v' n = (bit v n \<or> n = b))"
    using Cons.IH [of "v OR push_bit b 1" "i + 2"] Cons.prems b by (simp add: bits) blast
  have zero: "decode_byte durations (i + 2) bs v = Some (v', j) \<longleftrightarrow>
    j = i + 2 + 2 * length bs \<and>
    (\<forall>k<length bs. carries_bit (durations ! (i + 2 + 2 * k)) (durations ! (i + 2 + 2 * k + 1)) (bit v' (bs ! k))) \<and>
    (\<forall>n<8. n \<notin> set bs \<longrightarrow> bit v' n = bit v n)"
    using Cons.IH [of v "i + 2"] Cons.prems by auto
  have last_one: "(\<forall>n<8. n \<notin> set bs \<longrightarrow> bit v' n = (bit v n \<or> n = b)) \<longleftrightarrow>
      bit v' b \<and> (\<forall>n<8. n \<notin> set (b # bs) \<longrightarrow> bit v' n = bit v n)"
    using b by auto
  have last_zero: "(\<forall>n<8. n \<notin> set bs \<longrightarrow> bit v' n = bit v n) \<longleftrightarrow>
      \<not> bit v' b \<and> (\<forall>n<8. n \<notin> set (b # bs) \<longrightarrow> bit v' n = bit v n)"
    using b by auto
  show ?case
  proof (cases "110 \<le> unat ?p \<and> unat ?p \<le> 1010")
    case False
    then have "\<not> carries_bit ?p ?s one" for one by (auto simp: carries_bit_def)
    then show ?thesis using False unfolding all by (simp add: approx_numeral)
  next
    case pulse: True
    consider "840 \<le> unat ?s \<and> unat ?s \<le> 2540" | "60 \<le> unat ?s \<and> unat ?s < 840"
      | "unat ?s < 60 \<or> 2540 < unat ?s" by linarith
    then show ?thesis
    proof cases
      case 1
      then have eq: "decode_byte durations i (b # bs) v = decode_byte durations (i + 2) bs (v OR push_bit b 1)"
        using pulse by (simp add: approx_numeral)
      have cb: "carries_bit ?p ?s one \<longleftrightarrow> one" for one
        using 1 pulse by (auto simp: carries_bit_def)
      show ?thesis unfolding eq all one last_one by (simp add: cb conj_ac)
    next
      case 2
      then have eq: "decode_byte durations i (b # bs) v = decode_byte durations (i + 2) bs v"
        using pulse by (simp add: approx_numeral)
      have cb: "carries_bit ?p ?s one \<longleftrightarrow> \<not> one" for one
        using 2 pulse by (auto simp: carries_bit_def)
      show ?thesis unfolding eq all zero last_zero by (simp add: cb conj_ac)
    next
      case 3
      then have "\<not> carries_bit ?p ?s one" for one by (auto simp: carries_bit_def)
      then show ?thesis using 3 unfolding all by (auto simp: approx_numeral Let_def)
    qed
  qed
qed

lemma decode_byte_carries:
  "decode_byte durations i [0..<8] 0 = Some (byte, j) \<longleftrightarrow> j = i + 16 \<and> carries_byte durations i byte"
  by (subst decode_byte_iff) (auto simp: carries_byte_def)

declare decode_byte.simps [simp del]

lemma decode_bytes_carries:
  "decode_bytes durations i n = Some bytes \<longleftrightarrow>
     length bytes = n \<and> (\<forall>k\<in>{..<n}. carries_byte durations (i + 16 * k) (bytes ! k))"
proof (induction n arbitrary: i bytes)
  case (Suc n)
  have all: "(\<forall>k\<in>{..<Suc n}. P k) \<longleftrightarrow> P 0 \<and> (\<forall>k\<in>{..<n}. P (Suc k))" for P
    by (metis lessThan_iff less_Suc_eq_0_disj)
  have "decode_bytes durations i (Suc n) = Some bytes \<longleftrightarrow>
      (\<exists>b bs. bytes = b # bs \<and> carries_byte durations i b \<and> decode_bytes durations (i + 16) n = Some bs)"
  proof (cases "decode_byte durations i [0..<8] 0")
    case None
    then show ?thesis by (metis decode_byte_carries decode_bytes.simps(2) option.case(1) option.distinct(1))
  next
    case (Some r)
    obtain b j where r: "r = (b, j)" by fastforce
    have "j = i + 16" "carries_byte durations i b" using Some r decode_byte_carries by auto
    moreover have "c = b" if "carries_byte durations i c" for c
      using that Some r decode_byte_carries [of durations i c "i + 16"] by simp
    ultimately have "(\<exists>c bs. bytes = c # bs \<and> carries_byte durations i c \<and> P bs) \<longleftrightarrow>
        (\<exists>bs. bytes = b # bs \<and> P bs)" for P by blast
    then show ?thesis using Some r \<open>j = i + 16\<close> by (auto split: option.splits)
  qed
  also have "\<dots> \<longleftrightarrow> (\<exists>b bs. bytes = b # bs \<and> carries_byte durations i b \<and> length bs = n \<and>
      (\<forall>k\<in>{..<n}. carries_byte durations (i + 16 + 16 * k) (bs ! k)))"
    by (simp add: Suc.IH)
  also have "\<dots> \<longleftrightarrow> length bytes = Suc n \<and> (\<forall>k\<in>{..<Suc n}. carries_byte durations (i + 16 * k) (bytes ! k))"
    unfolding all by (cases bytes) (auto simp: algebra_simps)
  finally show ?case .
qed auto

lemma decode_from_carries:
  "decode_nec_packet_from durations start = Some bytes \<longleftrightarrow> carries durations start bytes"
  unfolding decode_nec_packet_from_def carries_def
  by (auto simp: decode_bytes_carries approx_numeral)

lemma first_some_iff:
  "first_some f xs = Some y \<longleftrightarrow>
     (\<exists>us x vs. xs = us @ x # vs \<and> f x = Some y \<and> (\<forall>u\<in>set us. f u = None))"
proof (induction xs)
  case (Cons x xs)
  show ?case
  proof (cases "f x")
    case None
    have "(\<exists>us z vs. x # xs = us @ z # vs \<and> f z = Some y \<and> (\<forall>u\<in>set us. f u = None)) \<longleftrightarrow>
        (\<exists>us z vs. xs = us @ z # vs \<and> f z = Some y \<and> (\<forall>u\<in>set us. f u = None))" (is "?l \<longleftrightarrow> ?r")
    proof
      assume ?l
      then obtain us z vs where "x # xs = us @ z # vs" "f z = Some y" "\<forall>u\<in>set us. f u = None" by blast
      then show ?r using None by (cases us) auto
    next
      assume ?r
      then obtain us z vs where "xs = us @ z # vs" "f z = Some y" "\<forall>u\<in>set us. f u = None" by blast
      then have "x # xs = (x # us) @ z # vs \<and> f z = Some y \<and> (\<forall>u\<in>set (x # us). f u = None)"
        using None by simp
      then show ?l by blast
    qed
    then show ?thesis using None Cons.IH by simp
  next
    case (Some z)
    have "x # xs = [] @ x # xs \<and> f x = Some z \<and> (\<forall>u\<in>set []. f u = None)" using Some by simp
    moreover have "us = [] \<and> v = x" if "x # xs = us @ v # vs" "\<forall>u\<in>set us. f u = None" for us v vs
      using that Some by (cases us) auto
    ultimately show ?thesis using Some by (metis first_some.simps(2) option.case(2) option.inject)
  qed
qed simp

lemma first_some_None: "first_some f xs = None \<longleftrightarrow> (\<forall>x\<in>set xs. f x = None)"
  by (induction xs) (auto split: option.splits)

text \<open>The first packet of a train that carries one from its start is that one.\<close>

lemma decode_starts:
  assumes "carries durations 0 bytes"
  shows "decode_nec_packet durations = Some bytes"
proof -
  have "0 < length durations - 2" using assms by (simp add: carries_def required_durations_def)
  then have "[0..<length durations - 2] = 0 # [1..<length durations - 2]"
    by (simp add: upt_conv_Cons)
  then show ?thesis
    using assms by (simp add: decode_nec_packet_def decode_from_carries [THEN iffD2])
qed

lemma carries_unique: "carries durations start b \<Longrightarrow> carries durations start c \<Longrightarrow> b = c"
  by (metis decode_from_carries option.inject)

subsection \<open>What is encoded\<close>

lemma encode_bits_nth:
  "k < length bs \<Longrightarrow> encode_bits byte bs ! (2 * k) = nec_bit_pulse_us \<and>
     encode_bits byte bs ! (2 * k + 1) =
       (if bit byte (bs ! k) then nec_one_space_us else nec_zero_space_us)"
proof (induction bs arbitrary: k)
  case (Cons b bs)
  have "byte AND push_bit b 1 \<noteq> 0 \<longleftrightarrow> bit byte b"
    by (simp add: bit_iff_and_push_bit_not_eq_0)
  then show ?case using Cons by (cases k) simp_all
qed simp

lemma length_encode_bits: "length (encode_bits byte bs) = 2 * length bs"
  by (induction bs) simp_all

lemma length_encoded: "length (concat (map (\<lambda>b. encode_bits b [0..<8]) bytes)) = 16 * length bytes"
  by (induction bytes) (simp_all add: length_encode_bits)

lemma encoded_nth:
  "k < length bytes \<Longrightarrow> j < 16 \<Longrightarrow>
     concat (map (\<lambda>b. encode_bits b [0..<8]) bytes) ! (16 * k + j) = encode_bits (bytes ! k) [0..<8] ! j"
proof (induction bytes arbitrary: k)
  case (Cons b bytes)
  then show ?case by (cases k) (simp_all add: nth_append length_encode_bits)
qed simp

lemma encoded_carries:
  assumes "length bytes = packet_bytes"
  shows "carries (encode_nec_packet bytes @ rest) 0 bytes"
proof -
  let ?body = "concat (map (\<lambda>b. encode_bits b [0..<8]) bytes)"
  let ?ds = "encode_nec_packet bytes @ rest"
  have body: "?ds ! (2 + m) = ?body ! m" if "m < 64" for m
    using that assms length_encoded [of bytes]
    by (simp add: encode_nec_packet_def nth_append packet_bytes_def)
  have "carries_byte ?ds (2 + 16 * k) (bytes ! k)" if "k < 4" for k
    unfolding carries_byte_def
  proof (intro ballI)
    fix n :: nat assume "n \<in> {..<8}"
    then have n: "n < 8" by simp
    have "?ds ! (2 + 16 * k + 2 * n) = encode_bits (bytes ! k) [0..<8] ! (2 * n)"
      "?ds ! (2 + 16 * k + 2 * n + 1) = encode_bits (bytes ! k) [0..<8] ! (2 * n + 1)"
      using body [of "16 * k + 2 * n"] body [of "16 * k + (2 * n + 1)"] n that assms
        encoded_nth [of k bytes "2 * n"] encoded_nth [of k bytes "2 * n + 1"]
      by (simp_all add: packet_bytes_def add.assoc)
    then show "carries_bit (?ds ! (2 + 16 * k + 2 * n)) (?ds ! (2 + 16 * k + 2 * n + 1)) (bit (bytes ! k) n)"
      using n encode_bits_nth [of n "[0..<8]" "bytes ! k"]
      by (simp add: carries_bit_def nec_constants)
  qed
  moreover have "?ds ! 0 = nec_hdr_pulse_us" "?ds ! 1 = nec_hdr_space_us"
    by (simp_all add: encode_nec_packet_def)
  ultimately show ?thesis using assms length_encoded [of bytes]
    by (auto simp: carries_def packet_bytes_def required_durations_def encode_nec_packet_def nec_constants)
qed

lemma bit_FF:
  "bit (0xFF :: 16 word) n \<longleftrightarrow> n < 8" "bit (0xFF :: 8 word) n \<longleftrightarrow> n < 8" "bit (0xFF :: int) n \<longleftrightarrow> n < 8"
proof -
  have "(0xFF :: 16 word) = mask 8" "(0xFF :: 8 word) = mask 8" "(0xFF :: int) = mask 8"
    by (simp_all add: mask_eq_exp_minus_1)
  then show "bit (0xFF :: 16 word) n \<longleftrightarrow> n < 8" "bit (0xFF :: 8 word) n \<longleftrightarrow> n < 8"
      "bit (0xFF :: int) n \<longleftrightarrow> n < 8"
    by (simp_all only: bit_mask_iff) auto
qed

lemma bytes_of_word:
  "word_of_bytes (ucast (a AND 0xFF)) (ucast (drop_bit 8 a AND 0xFF)) = a"
  by (intro bit_word_eqI) (auto simp: word_of_bytes_def bit_simps bit_FF)

lemma parse_make:
  "\<exists>protocol. parse_nec_bytes (make_nec_bytes address command) = Some (address, command, protocol)"
  by (simp add: parse_nec_bytes_def make_nec_bytes_def packet_bytes_def bytes_of_word)

lemma bytes_of_word_of_bytes:
  "make_nec_bytes (word_of_bytes a b) (word_of_bytes c d) = [a, b, c, d]"
proof -
  have "ucast (word_of_bytes x y AND 0xFF) = x" for x y :: "8 word"
    by (intro bit_word_eqI) (auto simp: word_of_bytes_def bit_simps bit_FF)
  moreover have "ucast (drop_bit 8 (word_of_bytes x y) AND 0xFF) = y" for x y :: "8 word"
    by (rule bit_word_eqI) (auto simp: word_of_bytes_def bit_simps bit_FF dest: bit_imp_le_length)
  ultimately show ?thesis by (simp add: make_nec_bytes_def)
qed

lemma parse_nec_bytes_make:
  "parse_nec_bytes bytes = Some (address, command, protocol) \<Longrightarrow> make_nec_bytes address command = bytes"
proof -
  assume parsed: "parse_nec_bytes bytes = Some (address, command, protocol)"
  then have "length bytes = 4" by (auto simp: parse_nec_bytes_def packet_bytes_def split: if_splits)
  then obtain a b c d where "bytes = [a, b, c, d]" by (auto simp: numeral_eq_Suc length_Suc_conv)
  then show ?thesis using parsed
    by (auto simp: parse_nec_bytes_def packet_bytes_def bytes_of_word_of_bytes numeral_eq_Suc split: if_splits)
qed

end
