(* ===== verification/Texts.thy ===== *)
theory Texts
  imports Prelude
begin

section \<open>Texts: searching, trimming and letter case\<close>

text \<open>
  The operations of \<open>std::string\<close> and \<open><cctype>\<close> (in the C locale) that the services under
  src/src/platform use to take texts apart: \<open>find\<close>, \<open>find_first_of\<close>, trimming of white space,
  \<open>toupper\<close> and \<open>tolower\<close>.
\<close>

subsection \<open>Search\<close>

fun find_text :: "string \<Rightarrow> string \<Rightarrow> nat option" where
  "find_text needle [] = (if needle = [] then Some 0 else None)"
| "find_text needle (c # s) =
     (if take (length needle) (c # s) = needle then Some 0 else map_option Suc (find_text needle s))"

definition contains :: "string \<Rightarrow> string \<Rightarrow> bool" where
  "contains s needle \<longleftrightarrow> find_text needle s \<noteq> None"

definition starts_with :: "string \<Rightarrow> string \<Rightarrow> bool" where
  "starts_with s prefix \<longleftrightarrow> take (length prefix) s = prefix"

fun find_char :: "(char \<Rightarrow> bool) \<Rightarrow> string \<Rightarrow> nat option" where
  "find_char p [] = None"
| "find_char p (c # s) = (if p c then Some 0 else map_option Suc (find_char p s))"

lemma contains_iff: "contains s needle \<longleftrightarrow> (\<exists>a b. s = a @ needle @ b)"
proof (induction s)
  case Nil
  then show ?case by (auto simp: contains_def)
next
  case (Cons c s)
  have "contains (c # s) needle \<longleftrightarrow> take (length needle) (c # s) = needle \<or> contains s needle"
    by (auto simp: contains_def)
  also have "take (length needle) (c # s) = needle \<longleftrightarrow> (\<exists>b. c # s = needle @ b)"
    by (metis append_eq_conv_conj append_take_drop_id)
  finally show ?case using Cons.IH by (auto simp: Cons_eq_append_conv)
qed

lemma find_char_Some:
  "find_char p s = Some n \<longleftrightarrow> n < length s \<and> p (s ! n) \<and> (\<forall>c\<in>set (take n s). \<not> p c)"
proof (induction s arbitrary: n)
  case (Cons c s)
  then show ?case by (cases n) auto
qed simp

lemma find_char_None: "find_char p s = None \<longleftrightarrow> (\<forall>c\<in>set s. \<not> p c)"
  by (induction s) auto

lemma find_char_split:
  "find_char p s = Some n \<Longrightarrow> s = take n s @ s ! n # drop (Suc n) s"
  by (simp add: find_char_Some id_take_nth_drop)

lemma find_char_append: "\<forall>c\<in>set a. \<not> p c \<Longrightarrow> p c \<Longrightarrow> find_char p (a @ c # b) = Some (length a)"
  by (induction a) auto

subsection \<open>White space and letters\<close>

definition is_space :: "char \<Rightarrow> bool" where
  "is_space c \<longleftrightarrow> c = CHR '' '' \<or> (9 \<le> (of_char c :: nat) \<and> (of_char c :: nat) \<le> 13)"

definition drop_back :: "(char \<Rightarrow> bool) \<Rightarrow> string \<Rightarrow> string" where
  "drop_back p s = rev (dropWhile p (rev s))"

definition trim_text :: "string \<Rightarrow> string" where
  "trim_text s = drop_back is_space (dropWhile is_space s)"

definition to_upper :: "char \<Rightarrow> char" where
  "to_upper c = (let n = of_char c :: nat in if 97 \<le> n \<and> n \<le> 122 then char_of (n - 32) else c)"

definition to_lower :: "char \<Rightarrow> char" where
  "to_lower c = (let n = of_char c :: nat in if 65 \<le> n \<and> n \<le> 90 then char_of (n + 32) else c)"

lemma drop_back_id: "s = [] \<or> \<not> p (last s) \<Longrightarrow> drop_back p s = s"
proof -
  assume "s = [] \<or> \<not> p (last s)"
  then have "dropWhile p (rev s) = rev s"
    by (cases s rule: rev_cases) auto
  then show ?thesis by (simp add: drop_back_def)
qed

lemma set_drop_back: "set (drop_back p s) \<subseteq> set s"
  unfolding drop_back_def by (metis set_dropWhileD set_rev subsetI)

lemma trim_id: "s \<noteq> [] \<Longrightarrow> \<not> is_space (hd s) \<Longrightarrow> \<not> is_space (last s) \<Longrightarrow> trim_text s = s"
  by (cases s) (simp_all add: trim_text_def drop_back_id)

end
