(* ===== verification/IrReceiver.thy ===== *)
theory IrReceiver
  imports IrCodec Texts
begin

section \<open>IrReceiver: the IR service\<close>

text \<open>
  The rest of src/src/platform/ir_service.cpp: the search for a LIRC device, sending a packet
  and the class \<open>IrReceiverSession\<close>, whose members are the record \<open>ir_receiver\<close>. The macros and
  flags of the kernel's header linux/lirc.h are the parameter \<open>lirc_header\<close>; the answers of the
  system calls are arguments of the operations. A poll is given what its reads return, up to
  the first that returns no data. Log output and the desktop build are not modelled.
\<close>

subsection \<open>The kernel's header\<close>

record lirc_header =
  lh_is_timeout :: "32 word \<Rightarrow> bool"
  lh_is_overflow :: "32 word \<Rightarrow> bool"
  lh_is_space :: "32 word \<Rightarrow> bool"
  lh_is_pulse :: "32 word \<Rightarrow> bool"
  lh_value :: "32 word \<Rightarrow> 32 word"
  lh_can_send_pulse :: "32 word"
  lh_can_send_raw :: "32 word"
  lh_can_rec_mode2 :: "32 word"
  lh_can_rec_raw :: "32 word"
  lh_can_rec_scancode :: "32 word"

datatype rc_proto = RC_PROTO_NEC | RC_PROTO_NECX | RC_PROTO_NEC32 | RC_PROTO_OTHER

record lirc_scancode =
  sc_proto :: rc_proto
  sc_repeat :: bool \<comment> \<open>LIRC_SCANCODE_FLAG_REPEAT\<close>
  sc_scancode :: "64 word"

subsection \<open>Data (ir_service.h)\<close>

record ir_device_info =
  di_available :: bool
  di_rc_name :: string
  di_lirc_path :: string
  di_driver_name :: string
  di_device_name :: string
  di_error_message :: string
  di_features :: "32 word"

record ir_send_result =
  sr_success :: bool
  sr_address :: "16 word"
  sr_command :: "16 word"
  sr_data :: "8 word list"
  sr_protocol :: string
  sr_device_path :: string
  sr_message :: string

record ir_receive_snapshot =
  rs_opened :: bool
  rs_signal_seen :: bool
  rs_data_changed :: bool
  rs_address_matched :: bool
  rs_address_filter_enabled :: bool
  rs_expected_address :: "16 word"
  rs_address :: "16 word"
  rs_command :: "16 word"
  rs_data :: "8 word list"
  rs_protocol :: string
  rs_device_path :: string
  rs_raw_summary :: string
  rs_message :: string

definition empty_snapshot :: ir_receive_snapshot where
  "empty_snapshot = \<lparr>rs_opened = False, rs_signal_seen = False, rs_data_changed = False,
     rs_address_matched = False, rs_address_filter_enabled = False, rs_expected_address = 0,
     rs_address = 0, rs_command = 0, rs_data = [], rs_protocol = [], rs_device_path = [],
     rs_raw_summary = [], rs_message = []\<rparr>"

record ir_receiver =
  ir_fd :: int
  ir_scancode_mode :: bool
  ir_mode2 :: bool
  ir_pulse_space_buffer :: "32 word list"
  ir_pending_receives :: "ir_receive_snapshot list"
  ir_receive_state :: ir_receive_snapshot
  ir_shown :: ir_receive_snapshot

definition initial_receiver :: ir_receiver where
  "initial_receiver = \<lparr>ir_fd = -1, ir_scancode_mode = False, ir_mode2 = True,
     ir_pulse_space_buffer = [], ir_pending_receives = [], ir_receive_state = empty_snapshot,
     ir_shown = empty_snapshot\<rparr>"

subsection \<open>Discovery\<close>

text \<open>What the kernel's directories and device nodes answer.\<close>

record lirc_env =
  le_rc_entries :: "string list" \<comment> \<open>the names under /sys/class/rc\<close>
  le_entries :: "string \<Rightarrow> string list" \<comment> \<open>the names in the directory of an rc device\<close>
  le_uevent :: "string \<Rightarrow> string list" \<comment> \<open>lines of its uevent file\<close>
  le_device_uevent :: "string \<Rightarrow> string list" \<comment> \<open>lines of device/uevent\<close>
  le_name :: "string \<Rightarrow> string option" \<comment> \<open>first line of its name file\<close>
  le_open :: "string \<Rightarrow> string option" \<comment> \<open>the error of the last open, if all fail\<close>
  le_features :: "string \<Rightarrow> string + 32 word"

definition trim_line :: "string \<Rightarrow> string" where
  "trim_line s = (let back = drop_back (\<lambda>c. c \<in> {CHR 0x0A, CHR 0x0D, CHR '' '', CHR 0x09}) s
     in dropWhile (\<lambda>c. c \<in> {CHR '' '', CHR 0x09}) back)"

fun read_uevent_value :: "string list \<Rightarrow> string \<Rightarrow> string" where
  "read_uevent_value [] key = []"
| "read_uevent_value (line # rest) key =
     (if starts_with line (key @ ''='') then trim_line (drop (length key + 1) line)
      else read_uevent_value rest key)"

definition list_rc_names :: "lirc_env \<Rightarrow> string list" where
  "list_rc_names e = sort (filter (\<lambda>n. starts_with n ''rc'') (le_rc_entries e))"

definition find_lirc_paths_for_rc :: "lirc_env \<Rightarrow> string \<Rightarrow> string list" where
  "find_lirc_paths_for_rc e rc_name =
     sort (map (\<lambda>n. ''/dev/'' @ n) (filter (\<lambda>n. starts_with n ''lirc'') (le_entries e rc_name)))"

definition supports_sender :: "lirc_header \<Rightarrow> 32 word \<Rightarrow> bool" where
  "supports_sender h features \<longleftrightarrow> features AND (lh_can_send_pulse h OR lh_can_send_raw h) \<noteq> 0"

definition supports_receiver :: "lirc_header \<Rightarrow> 32 word \<Rightarrow> bool" where
  "supports_receiver h features \<longleftrightarrow>
     features AND (lh_can_rec_mode2 h OR lh_can_rec_raw h OR lh_can_rec_scancode h) \<noteq> 0"

definition make_device_info :: "lirc_header \<Rightarrow> lirc_env \<Rightarrow> string \<Rightarrow> string \<Rightarrow> bool \<Rightarrow> ir_device_info" where
  "make_device_info h e rc_name lirc_path sender =
     (let driver = read_uevent_value (le_uevent e rc_name) ''DRV_NAME'';
          device = read_uevent_value (le_uevent e rc_name) ''DEV_NAME'';
          info = \<lparr>di_available = False, di_rc_name = rc_name, di_lirc_path = lirc_path,
            di_driver_name = (if driver = [] then read_uevent_value (le_device_uevent e rc_name) ''DRIVER'' else driver),
            di_device_name = (if device = []
              then (case le_name e rc_name of None \<Rightarrow> [] | Some line \<Rightarrow> trim_line line) else device),
            di_error_message = [], di_features = 0\<rparr>
      in if lirc_path = [] then info\<lparr>di_error_message := ''No LIRC node found for '' @ rc_name\<rparr>
      else case le_open e lirc_path of
        Some failure \<Rightarrow> info\<lparr>di_error_message := ''Open failed: '' @ failure\<rparr>
      | None \<Rightarrow> (case le_features e lirc_path of
          Inl failure \<Rightarrow> info\<lparr>di_error_message := ''Read LIRC features failed: '' @ failure\<rparr>
        | Inr features \<Rightarrow>
            (let known = info\<lparr>di_features := features\<rparr>;
                 supported = (if sender then supports_sender h features else supports_receiver h features)
             in if \<not> supported
                then known\<lparr>di_error_message := ''LIRC device does not advertise required capability''\<rparr>
                else known\<lparr>di_available := True\<rparr>)))"

text \<open>The candidates in the order they are probed; the search ends at the first available one.\<close>

definition ir_candidates :: "lirc_env \<Rightarrow> (string \<times> string) list" where
  "ir_candidates e = concat (map (\<lambda>rc. map (Pair rc) (find_lirc_paths_for_rc e rc)) (list_rc_names e))"

fun probe_candidates ::
  "lirc_header \<Rightarrow> lirc_env \<Rightarrow> bool \<Rightarrow> (string \<times> string) list \<Rightarrow> ir_device_info option \<Rightarrow>
     ir_device_info + ir_device_info option" where
  "probe_candidates h e sender [] first_probe_error = Inr first_probe_error"
| "probe_candidates h e sender ((rc_name, lirc_path) # cs) first_probe_error =
     (let info = make_device_info h e rc_name lirc_path sender in
      if di_available info then Inl info
      else if first_probe_error = None \<and> di_features info = 0
        then probe_candidates h e sender cs (Some info)
      else probe_candidates h e sender cs first_probe_error)"

definition find_ir_device :: "lirc_header \<Rightarrow> lirc_env \<Rightarrow> bool \<Rightarrow> ir_device_info" where
  "find_ir_device h e sender = (case probe_candidates h e sender (ir_candidates e) None of
     Inl info \<Rightarrow> info
   | Inr (Some first_probe_error) \<Rightarrow> first_probe_error
   | Inr None \<Rightarrow>
       \<lparr>di_available = False, di_rc_name = [], di_lirc_path = [], di_driver_name = [],
        di_device_name = [],
        di_error_message = (if ir_candidates e = [] then ''No LIRC nodes found under /sys/class/rc''
          else ''No LIRC device advertises IR '' @ (if sender then ''sender'' else ''receiver'')
            @ '' capability''), di_features = 0\<rparr>)"

subsection \<open>Sending\<close>

text \<open>The answers: the error of \<open>open\<close>, and the error of \<open>write\<close> or the number of bytes written.\<close>

definition send_nec_packet ::
  "ir_device_info \<Rightarrow> string option \<Rightarrow> (32 word list \<Rightarrow> string + nat) \<Rightarrow> 16 word \<Rightarrow> 16 word \<Rightarrow> ir_send_result" where
  "send_nec_packet info opening writing address command =
     (let bytes = make_nec_bytes address command;
          encoded = encode_nec_packet bytes;
          result = \<lparr>sr_success = False, sr_address = address, sr_command = command, sr_data = bytes,
            sr_protocol = ''NEC32'', sr_device_path = di_lirc_path info, sr_message = []\<rparr>
      in if \<not> di_available info
         then result\<lparr>sr_message := (if di_error_message info = [] then ''IR sender unavailable''
                                     else di_error_message info)\<rparr>
      else case opening of
        Some failure \<Rightarrow> result\<lparr>sr_message := ''Open sender failed: '' @ failure\<rparr>
      | None \<Rightarrow> (case writing encoded of
          Inl failure \<Rightarrow> result\<lparr>sr_message := ''Send failed: '' @ failure\<rparr>
        | Inr bytes_written \<Rightarrow>
            if bytes_written \<noteq> length encoded * 4
            then result\<lparr>sr_message := ''Short write while sending NEC packet''\<rparr>
            else result\<lparr>sr_success := True, sr_message := ''NEC32 packet sent''\<rparr>))"

subsection \<open>Received packets\<close>

definition format_hex_word :: "16 word \<Rightarrow> string" where
  "format_hex_word v = ''0x'' @ map (\<lambda>i. hex_char (unat (drop_bit (4 * i) v) mod 16)) [3, 2, 1, 0]"

definition format_hex_byte :: "8 word \<Rightarrow> string" where
  "format_hex_byte v = ''0x'' @ map (\<lambda>i. hex_char (unat (drop_bit (4 * i) v) mod 16)) [1, 0]"

fun joined_with :: "string \<Rightarrow> string list \<Rightarrow> string" where
  "joined_with sep [] = []"
| "joined_with sep [x] = x"
| "joined_with sep (x # xs) = x @ sep @ joined_with sep xs"

definition format_hex_bytes :: "8 word list \<Rightarrow> string" where
  "format_hex_bytes bytes = (if bytes = [] then ''--'' else joined_with '', '' (map format_hex_byte bytes))"

definition summarize_raw :: "32 word list \<Rightarrow> string" where
  "summarize_raw durations =
     (if durations = [] then []
      else joined_with '', '' (map (\<lambda>d. nat_text (unat d) @ ''us'') (take 12 durations)) @
        (if length durations > 12 then '' ...'' else []))"

definition received_packet ::
  "8 word list \<Rightarrow> 16 word \<Rightarrow> 16 word \<Rightarrow> string \<Rightarrow> ir_receive_snapshot \<Rightarrow> ir_receive_snapshot" where
  "received_packet bytes address command protocol s =
     (let matched = \<not> rs_address_filter_enabled s \<or> address = rs_expected_address s in
      s\<lparr>rs_data_changed := bytes \<noteq> rs_data s \<or> address \<noteq> rs_address s \<or> command \<noteq> rs_command s \<or>
          protocol \<noteq> rs_protocol s \<or> matched \<noteq> rs_address_matched s,
        rs_data := bytes, rs_address := address, rs_command := command, rs_protocol := protocol,
        rs_address_matched := matched,
        rs_message := (if matched then protocol @ '' packet received'' else ''NEC address mismatch'')\<rparr>)"

definition finalize_receive :: "32 word list \<Rightarrow> ir_receive_snapshot \<Rightarrow> ir_receive_snapshot" where
  "finalize_receive durations s =
     (let seen = s\<lparr>rs_signal_seen := True, rs_raw_summary := summarize_raw durations,
        rs_data_changed := False\<rparr>
      in case decode_nec_packet durations of
        None \<Rightarrow> seen\<lparr>rs_message := ''IR signal received (raw)''\<rparr>
      | Some decoded \<Rightarrow> (case parse_nec_bytes decoded of
          None \<Rightarrow> seen\<lparr>rs_message := ''IR signal received (raw)''\<rparr>
        | Some (address, command, protocol) \<Rightarrow> received_packet decoded address command protocol seen))"

definition decode_scancode :: "lirc_scancode \<Rightarrow> (16 word \<times> 16 word \<times> 8 word list \<times> string) option" where
  "decode_scancode sc =
     (let command_byte = ucast (sc_scancode sc AND 0xFF) :: 8 word in
      case sc_proto sc of
        RC_PROTO_NEC \<Rightarrow>
          (let address_byte = ucast (drop_bit 8 (sc_scancode sc) AND 0xFF) :: 8 word in
           Some (ucast address_byte OR push_bit 8 (ucast (NOT address_byte)),
             make_nec_command command_byte, make_standard_nec_bytes address_byte command_byte, ''NEC''))
      | RC_PROTO_NECX \<Rightarrow>
          (let address = ucast (drop_bit 8 (sc_scancode sc) AND 0xFFFF) :: 16 word in
           Some (address, make_nec_command command_byte,
             make_nec_bytes address (make_nec_command command_byte), ''NECX''))
      | RC_PROTO_NEC32 \<Rightarrow>
          (let v = ucast (sc_scancode sc AND 0xFFFFFFFF) :: 32 word;
               address = ucast (drop_bit 16 v AND 0xFFFF) :: 16 word;
               command = ucast (v AND 0xFFFF) :: 16 word
           in Some (address, command, make_nec_bytes address command, ''NEC32''))
      | RC_PROTO_OTHER \<Rightarrow> None)"

definition finalize_receive_scancode :: "lirc_scancode \<Rightarrow> ir_receive_snapshot \<Rightarrow> ir_receive_snapshot" where
  "finalize_receive_scancode sc s =
     (if sc_repeat sc then s\<lparr>rs_signal_seen := True, rs_message := ''NEC repeat received''\<rparr>
      else case decode_scancode sc of
        None \<Rightarrow> s\<lparr>rs_signal_seen := True, rs_message := ''IR scancode received''\<rparr>
      | Some (address, command, bytes, protocol) \<Rightarrow>
          (received_packet bytes address command protocol (s\<lparr>rs_signal_seen := True\<rparr>))
            \<lparr>rs_raw_summary := []\<rparr>)"

subsection \<open>stop and poll\<close>

definition stop_receiver :: "ir_receiver \<Rightarrow> ir_receiver" where
  "stop_receiver r = r\<lparr>ir_fd := -1, ir_scancode_mode := False, ir_pulse_space_buffer := [],
     ir_pending_receives := [], ir_receive_state := empty_snapshot,
     ir_shown := (ir_shown r)\<lparr>rs_opened := False\<rparr>\<rparr>"

text \<open>The block that ends a frame: finalize the buffer, queue a change, clear the buffer.\<close>

definition push_change :: "ir_receive_snapshot \<Rightarrow> ir_receiver \<Rightarrow> ir_receiver" where
  "push_change s r = r\<lparr>ir_receive_state := s,
     ir_pending_receives := (if rs_data_changed s then ir_pending_receives r @ [s]
                             else ir_pending_receives r)\<rparr>"

definition end_frame :: "ir_receiver \<Rightarrow> ir_receiver" where
  "end_frame r = (push_change (finalize_receive (ir_pulse_space_buffer r)
     ((ir_receive_state r)\<lparr>rs_data_changed := False\<rparr>)) r)\<lparr>ir_pulse_space_buffer := []\<rparr>"

definition end_started_frame :: "ir_receiver \<Rightarrow> ir_receiver" where
  "end_started_frame r = (if ir_pulse_space_buffer r = [] then r else end_frame r)"

definition check_buffer :: "ir_receiver \<Rightarrow> ir_receiver" where
  "check_buffer r =
     (let decoded = (if length (ir_pulse_space_buffer r) \<ge> 2 + packet_bytes * 16 + 1 \<and>
            decode_nec_packet (ir_pulse_space_buffer r) \<noteq> None then end_frame r else r)
      in if length (ir_pulse_space_buffer decoded) > 160 then end_frame decoded else decoded)"

definition buffer_word :: "32 word \<Rightarrow> ir_receiver \<Rightarrow> ir_receiver" where
  "buffer_word v r = r\<lparr>ir_pulse_space_buffer := ir_pulse_space_buffer r @ [v]\<rparr>"

definition take_word :: "lirc_header \<Rightarrow> 32 word \<Rightarrow> ir_receiver \<Rightarrow> ir_receiver" where
  "take_word h word r =
     (if ir_mode2 r then
        (if lh_is_timeout h word \<or> lh_is_overflow h word then end_started_frame r
         else if lh_is_space h word \<or> lh_is_pulse h word then
           (if lh_is_space h word \<and> lh_value h word > 12000 then end_started_frame r
            else check_buffer (buffer_word (lh_value h word) r))
         else check_buffer r)
      else check_buffer (buffer_word word r))"

definition take_scancode :: "lirc_scancode \<Rightarrow> ir_receiver \<Rightarrow> ir_receiver" where
  "take_scancode sc r =
     push_change (finalize_receive_scancode sc ((ir_receive_state r)\<lparr>rs_data_changed := False\<rparr>)) r"

text \<open>
  What a read returns: data, nothing at present (\<open>EAGAIN\<close>, \<open>EWOULDBLOCK\<close>, \<open>EINTR\<close>), no bytes,
  or an error with the text of \<open>strerror\<close>. The list ends with the first result that is not
  data; an empty list stands for nothing at present.
\<close>

datatype 'a read_result = ReadData "'a list" | ReadAgain | ReadEnd | ReadError string

fun drain :: "('a \<Rightarrow> ir_receiver \<Rightarrow> ir_receiver) \<Rightarrow> 'a read_result list \<Rightarrow> ir_receiver \<Rightarrow> bool \<times> ir_receiver" where
  "drain take_one [] r = (True, r)"
| "drain take_one (ReadData xs # rs) r = drain take_one rs (fold take_one xs r)"
| "drain take_one (ReadAgain # rs) r = (True, r)"
| "drain take_one (ReadEnd # rs) r = (True, r)"
| "drain take_one (ReadError failure # rs) r =
     (False, stop_receiver (r\<lparr>ir_shown := (ir_shown r)\<lparr>rs_message := ''Receive failed: '' @ failure\<rparr>\<rparr>))"

definition pop_pending :: "ir_receiver \<Rightarrow> ir_receiver" where
  "pop_pending r = (case ir_pending_receives r of
     [] \<Rightarrow> r
   | s # rest \<Rightarrow> r\<lparr>ir_shown := s, ir_pending_receives := rest\<rparr>)"

definition poll_receiver_session ::
  "lirc_header \<Rightarrow> 32 word read_result list \<Rightarrow> lirc_scancode read_result list \<Rightarrow> ir_receiver \<Rightarrow> ir_receiver" where
  "poll_receiver_session h words scancodes r =
     (let r1 = r\<lparr>ir_shown := (ir_shown r)\<lparr>rs_data_changed := False\<rparr>\<rparr> in
      if ir_fd r1 < 0 then r1
      else let (ok, r2) = (if ir_scancode_mode r1 then drain take_scancode scancodes r1
                           else drain (take_word h) words r1)
      in if ok then pop_pending r2 else r2)"

subsection \<open>start\<close>

text \<open>The answers of the system calls of \<open>start\<close>; an ioctl answers with its error, if any.\<close>

record receiver_env =
  rv_protocols :: "string \<times> string" \<comment> \<open>first line of protocols, before and after the writes\<close>
  rv_protocols_open :: "nat \<Rightarrow> bool" \<comment> \<open>whether each write can be opened\<close>
  rv_open :: "string + nat" \<comment> \<open>the error, or the descriptor\<close>
  rv_set_scancode :: "string option"
  rv_set_mode :: "string option"

definition protocols_have_nec_enabled :: "string \<Rightarrow> bool" where
  "protocols_have_nec_enabled content \<longleftrightarrow>
     contains content ''[nec]'' \<or> contains content ''[necx]'' \<or> contains content ''[nec32]''"

definition enable_nec_protocols :: "receiver_env \<Rightarrow> bool" where
  "enable_nec_protocols v \<longleftrightarrow> protocols_have_nec_enabled (fst (rv_protocols v)) \<or>
     (rv_protocols_open v 0 \<and> rv_protocols_open v 1 \<and> rv_protocols_open v 2 \<and>
      protocols_have_nec_enabled (snd (rv_protocols v)))"

definition open_receiver ::
  "lirc_header \<Rightarrow> receiver_env \<Rightarrow> ir_device_info \<Rightarrow> ir_receiver \<Rightarrow> bool \<times> ir_receiver" where
  "open_receiver h v info r = (case rv_open v of
     Inl failure \<Rightarrow> (False, r\<lparr>ir_fd := -1, ir_shown := (ir_shown r)\<lparr>rs_message := ''Open receiver failed: '' @ failure\<rparr>\<rparr>)
   | Inr fd \<Rightarrow>
       (let nec_scancode_ready = enable_nec_protocols v;
            has_raw_receive = di_features info AND (lh_can_rec_mode2 h OR lh_can_rec_raw h) \<noteq> 0;
            scancode = di_features info AND lh_can_rec_scancode h \<noteq> 0 \<and>
              (nec_scancode_ready \<or> \<not> has_raw_receive) \<and> rv_set_scancode v = None;
            opened = r\<lparr>ir_fd := int fd, ir_scancode_mode := scancode,
              ir_mode2 := di_features info AND lh_can_rec_mode2 h \<noteq> 0\<rparr>
        in case (if scancode then None else rv_set_mode v) of
          Some failure \<Rightarrow> (False, stop_receiver (opened\<lparr>ir_shown :=
            (ir_shown opened)\<lparr>rs_message := ''Set receiver mode failed: '' @ failure\<rparr>\<rparr>))
        | None \<Rightarrow> (True, opened\<lparr>ir_shown := (ir_shown opened)
            \<lparr>rs_opened := True, rs_message := ''Waiting for NEC data''\<rparr>, ir_pulse_space_buffer := []\<rparr>)))"

definition start_receiver ::
  "lirc_header \<Rightarrow> receiver_env \<Rightarrow> ir_device_info \<Rightarrow> 16 word \<Rightarrow> bool \<Rightarrow> ir_receiver \<Rightarrow> bool \<times> ir_receiver" where
  "start_receiver h v info expected filter_address r =
     (if ir_fd r \<ge> 0 then
        (True, r\<lparr>ir_shown := (ir_shown r)
          \<lparr>rs_expected_address := expected, rs_address_filter_enabled := filter_address\<rparr>\<rparr>)
      else
        (let s = empty_snapshot\<lparr>rs_expected_address := expected,
               rs_address_filter_enabled := filter_address, rs_device_path := di_lirc_path info\<rparr>;
             r1 = r\<lparr>ir_shown := s, ir_pending_receives := [], ir_receive_state := s\<rparr>
         in if \<not> di_available info
            then (False, r1\<lparr>ir_shown := s\<lparr>rs_message := (if di_error_message info = []
              then ''IR receiver unavailable'' else di_error_message info)\<rparr>\<rparr>)
            else open_receiver h v info r1))"

end
