(* ===== verification/IrReceiverTheorems.thy ===== *)
theory IrReceiverTheorems
  imports IrReceiver IrFixture
begin

section \<open>IrReceiverTheorems: what the receiver session delivers\<close>

text \<open>
  The queue of the receiver session: the locale \<open>frame_taker\<close> says what its two modes have in
  common, taking one word or one scancode after the other, and shows that polling delivers
  every changed frame exactly once and in order, however the samples are cut into reads and the
  reads into polls. Then what a packet within the tolerances becomes, the fixture's replies, and
  the invariant of the session under any calls.
\<close>

subsection \<open>The queue of changed frames\<close>

text \<open>What a sequence of reads hands over, and whether it ends without an error.\<close>

fun data_of :: "'a read_result list \<Rightarrow> 'a list" where
  "data_of (ReadData xs # rs) = xs @ data_of rs"
| "data_of _ = []"

fun reads_well :: "'a read_result list \<Rightarrow> bool" where
  "reads_well (ReadData xs # rs) = reads_well rs"
| "reads_well (ReadError failure # rs) = False"
| "reads_well _ = True"

lemma drain_well: "reads_well rs \<Longrightarrow> drain take_one rs r = (True, fold take_one (data_of rs) r)"
  by (induction take_one rs r rule: drain.induct) auto

lemma drain_ill: "\<not> reads_well rs \<Longrightarrow> \<exists>failure. drain take_one rs r =
    (False, stop_receiver (let r1 = fold take_one (data_of rs) r in
      r1\<lparr>ir_shown := (ir_shown r1)\<lparr>rs_message := ''Receive failed: '' @ failure\<rparr>\<rparr>))"
  by (induction take_one rs r rule: drain.induct) (auto simp: Let_def)

locale frame_taker =
  fixes take_one :: "'a \<Rightarrow> ir_receiver \<Rightarrow> ir_receiver"
  assumes queue_only: "take_one x (r\<lparr>ir_pending_receives := p, ir_shown := s\<rparr>) =
      (let r' = take_one x (r\<lparr>ir_pending_receives := []\<rparr>) in
       r'\<lparr>ir_pending_receives := p @ ir_pending_receives r', ir_shown := s\<rparr>)"
    and mode_kept: "ir_fd (take_one x r) = ir_fd r \<and> ir_scancode_mode (take_one x r) = ir_scancode_mode r \<and>
      ir_shown (take_one x r) = ir_shown r"
    and queued_changed: "\<forall>q\<in>set (ir_pending_receives r). rs_data_changed q \<Longrightarrow>
      \<forall>q\<in>set (ir_pending_receives (take_one x r)). rs_data_changed q"
begin

lemma fold_mode_kept: "ir_fd (fold take_one xs r) = ir_fd r \<and>
    ir_scancode_mode (fold take_one xs r) = ir_scancode_mode r \<and> ir_shown (fold take_one xs r) = ir_shown r"
  by (induction xs arbitrary: r) (auto simp: mode_kept)

lemma fold_queued_changed:
  "\<forall>q\<in>set (ir_pending_receives r). rs_data_changed q \<Longrightarrow>
     \<forall>q\<in>set (ir_pending_receives (fold take_one xs r)). rs_data_changed q"
  by (induction xs arbitrary: r) (auto dest: queued_changed)

lemma fold_queue_only:
  "fold take_one xs (r\<lparr>ir_pending_receives := p, ir_shown := s\<rparr>) =
     (let r' = fold take_one xs (r\<lparr>ir_pending_receives := []\<rparr>) in
      r'\<lparr>ir_pending_receives := p @ ir_pending_receives r', ir_shown := s\<rparr>)"
proof (induction xs arbitrary: r p s)
  case (Cons x xs)
  let ?a = "take_one x (r\<lparr>ir_pending_receives := []\<rparr>)"
  have "fold take_one (x # xs) (r\<lparr>ir_pending_receives := p, ir_shown := s\<rparr>) =
      fold take_one xs (?a\<lparr>ir_pending_receives := p @ ir_pending_receives ?a, ir_shown := s\<rparr>)"
    by (simp add: queue_only Let_def)
  also have "\<dots> = (let r' = fold take_one xs (?a\<lparr>ir_pending_receives := []\<rparr>) in
      r'\<lparr>ir_pending_receives := p @ ir_pending_receives ?a @ ir_pending_receives r', ir_shown := s\<rparr>)"
    by (subst Cons.IH) (simp add: Let_def)
  also have "\<dots> = (let r' = fold take_one (x # xs) (r\<lparr>ir_pending_receives := []\<rparr>) in
      r'\<lparr>ir_pending_receives := p @ ir_pending_receives r', ir_shown := s\<rparr>)"
  proof -
    have "fold take_one xs ?a = fold take_one xs (?a\<lparr>ir_pending_receives := ir_pending_receives ?a, ir_shown := ir_shown ?a\<rparr>)"
      by simp
    also have "\<dots> = (let r' = fold take_one xs (?a\<lparr>ir_pending_receives := []\<rparr>) in
      r'\<lparr>ir_pending_receives := ir_pending_receives ?a @ ir_pending_receives r', ir_shown := ir_shown ?a\<rparr>)"
      by (rule Cons.IH)
    finally show ?thesis by (simp add: Let_def)
  qed
  finally show ?case .
qed (simp add: Let_def)

text \<open>One poll of an open session that is in this mode: the samples of its reads, then one delivery.\<close>

definition poll_samples :: "'a list \<Rightarrow> ir_receiver \<Rightarrow> ir_receiver" where
  "poll_samples xs r = pop_pending (fold take_one xs (r\<lparr>ir_shown := (ir_shown r)\<lparr>rs_data_changed := False\<rparr>\<rparr>))"

primrec delivered_by :: "'a list list \<Rightarrow> ir_receiver \<Rightarrow> ir_receive_snapshot list" where
  "delivered_by [] r = []"
| "delivered_by (xs # xss) r = (let r1 = poll_samples xs r in
     (if rs_data_changed (ir_shown r1) then [ir_shown r1] else []) @ delivered_by xss r1)"

primrec polled :: "'a list list \<Rightarrow> ir_receiver \<Rightarrow> ir_receiver" where
  "polled [] r = r"
| "polled (xs # xss) r = polled xss (poll_samples xs r)"

lemma poll_samples_changed:
  "\<forall>q\<in>set (ir_pending_receives r). rs_data_changed q \<Longrightarrow>
     \<forall>q\<in>set (ir_pending_receives (poll_samples xs r)). rs_data_changed q"
  using fold_queued_changed [of "r\<lparr>ir_shown := (ir_shown r)\<lparr>rs_data_changed := False\<rparr>\<rparr>" xs]
  by (auto simp: poll_samples_def pop_pending_def split: list.splits)

lemma poll_samples_delivers:
  assumes "\<forall>q\<in>set (ir_pending_receives r). rs_data_changed q"
  shows "(if rs_data_changed (ir_shown (poll_samples xs r)) then [ir_shown (poll_samples xs r)] else []) @
      ir_pending_receives (poll_samples xs r) =
    ir_pending_receives r @ ir_pending_receives (fold take_one xs (r\<lparr>ir_pending_receives := []\<rparr>))"
proof -
  let ?r1 = "r\<lparr>ir_shown := (ir_shown r)\<lparr>rs_data_changed := False\<rparr>\<rparr>"
  let ?w = "fold take_one xs ?r1"
  have "?w = fold take_one xs (r\<lparr>ir_pending_receives := ir_pending_receives r, ir_shown := (ir_shown r)\<lparr>rs_data_changed := False\<rparr>\<rparr>)"
    by simp
  then have q: "ir_pending_receives ?w =
      ir_pending_receives r @ ir_pending_receives (fold take_one xs (r\<lparr>ir_pending_receives := []\<rparr>))"
    unfolding fold_queue_only by (simp add: Let_def)
  have all: "\<forall>q\<in>set (ir_pending_receives ?w). rs_data_changed q"
    using assms by (intro fold_queued_changed) simp
  show ?thesis
  proof (cases "ir_pending_receives ?w")
    case Nil
    then show ?thesis using q fold_mode_kept [of xs ?r1] by (simp add: poll_samples_def pop_pending_def)
  next
    case (Cons s rest)
    then show ?thesis using q all by (simp add: poll_samples_def pop_pending_def)
  qed
qed

lemma same_rest:
  "fold take_one xs ((poll_samples ys r)\<lparr>ir_pending_receives := []\<rparr>) =
     (fold take_one xs ((fold take_one ys (r\<lparr>ir_pending_receives := []\<rparr>))\<lparr>ir_pending_receives := []\<rparr>))
       \<lparr>ir_shown := ir_shown (poll_samples ys r)\<rparr>"
proof -
  let ?w = "fold take_one ys (r\<lparr>ir_pending_receives := []\<rparr>)"
  have "fold take_one ys (r\<lparr>ir_pending_receives := ir_pending_receives r, ir_shown := (ir_shown r)\<lparr>rs_data_changed := False\<rparr>\<rparr>) =
      ?w\<lparr>ir_pending_receives := ir_pending_receives r @ ir_pending_receives ?w, ir_shown := (ir_shown r)\<lparr>rs_data_changed := False\<rparr>\<rparr>"
    unfolding fold_queue_only by (simp add: Let_def)
  then have "(poll_samples ys r)\<lparr>ir_pending_receives := []\<rparr> =
      ?w\<lparr>ir_pending_receives := [], ir_shown := ir_shown (poll_samples ys r)\<rparr>"
    by (auto simp: poll_samples_def pop_pending_def split: list.splits)
  then show ?thesis
    using fold_queue_only [where xs = xs and r = ?w and p = "[]" and s = "ir_shown (poll_samples ys r)"] by (simp add: Let_def)
qed

lemma poll_samples_mode:
  "ir_fd (poll_samples xs r) = ir_fd r" "ir_scancode_mode (poll_samples xs r) = ir_scancode_mode r"
  using fold_mode_kept [of xs "r\<lparr>ir_shown := (ir_shown r)\<lparr>rs_data_changed := False\<rparr>\<rparr>"]
  by (auto simp: poll_samples_def pop_pending_def split: list.splits)

lemma polled_mode:
  "ir_fd (polled xss r) = ir_fd r \<and> ir_scancode_mode (polled xss r) = ir_scancode_mode r"
  by (induction xss arbitrary: r) (simp_all add: poll_samples_mode)

text \<open>Every change is delivered once and in order, or is still pending.\<close>

lemma delivered_in_order:
  assumes "\<forall>q\<in>set (ir_pending_receives r). rs_data_changed q"
  shows "delivered_by xss r @ ir_pending_receives (polled xss r) =
    ir_pending_receives r @ ir_pending_receives (fold take_one (concat xss) (r\<lparr>ir_pending_receives := []\<rparr>))"
  using assms
proof (induction xss arbitrary: r)
  case (Cons xs xss)
  let ?r1 = "poll_samples xs r" and ?w = "fold take_one xs (r\<lparr>ir_pending_receives := []\<rparr>)"
  have "fold take_one (concat xss) (?w\<lparr>ir_pending_receives := ir_pending_receives ?w, ir_shown := ir_shown ?w\<rparr>) =
      (let r' = fold take_one (concat xss) (?w\<lparr>ir_pending_receives := []\<rparr>) in
       r'\<lparr>ir_pending_receives := ir_pending_receives ?w @ ir_pending_receives r', ir_shown := ir_shown ?w\<rparr>)"
    by (rule fold_queue_only)
  then have w: "ir_pending_receives (fold take_one (concat xss) ?w) =
      ir_pending_receives ?w @ ir_pending_receives (fold take_one (concat xss) (?w\<lparr>ir_pending_receives := []\<rparr>))"
    by (simp add: Let_def)
  have "delivered_by (xs # xss) r @ ir_pending_receives (polled (xs # xss) r) =
      (if rs_data_changed (ir_shown ?r1) then [ir_shown ?r1] else []) @ ir_pending_receives ?r1 @
        ir_pending_receives (fold take_one (concat xss) (?r1\<lparr>ir_pending_receives := []\<rparr>))"
    using Cons.IH [OF poll_samples_changed [OF Cons.prems], of xs] by (simp add: Let_def)
  also have "\<dots> = ir_pending_receives r @ ir_pending_receives ?w @
      ir_pending_receives (fold take_one (concat xss) (?w\<lparr>ir_pending_receives := []\<rparr>))"
    using poll_samples_delivers [OF Cons.prems, of xs] by (simp add: same_rest)
  finally show ?case using w by simp
qed simp

end

text \<open>Both modes take their samples this way.\<close>

lemma end_frame_queue: "end_frame (r\<lparr>ir_pending_receives := p, ir_shown := s\<rparr>) =
    (let r' = end_frame (r\<lparr>ir_pending_receives := []\<rparr>) in
     r'\<lparr>ir_pending_receives := p @ ir_pending_receives r', ir_shown := s\<rparr>)"
  by (simp add: end_frame_def push_change_def Let_def)

lemma end_frame_kept: "ir_fd (end_frame r) = ir_fd r \<and> ir_scancode_mode (end_frame r) = ir_scancode_mode r \<and>
    ir_shown (end_frame r) = ir_shown r \<and> ir_mode2 (end_frame r) = ir_mode2 r \<and>
    ir_pulse_space_buffer (end_frame r) = []"
  by (simp add: end_frame_def push_change_def)

lemma end_frame_changed:
  "\<forall>q\<in>set (ir_pending_receives r). rs_data_changed q \<Longrightarrow>
     \<forall>q\<in>set (ir_pending_receives (end_frame r)). rs_data_changed q"
  by (simp add: end_frame_def push_change_def)

text \<open>The second test of the buffer never finds one that is too long: the first keeps it short.\<close>

lemma check_buffer_cases:
  "check_buffer r = r \<or> check_buffer r = end_frame r"
  by (simp add: check_buffer_def end_frame_kept Let_def)

lemma check_buffer_queue: "check_buffer (r\<lparr>ir_pending_receives := p, ir_shown := s\<rparr>) =
    (let r' = check_buffer (r\<lparr>ir_pending_receives := []\<rparr>) in
     r'\<lparr>ir_pending_receives := p @ ir_pending_receives r', ir_shown := s\<rparr>)"
  by (auto simp: check_buffer_def end_frame_kept end_frame_queue Let_def)

lemma take_word_cases:
  "take_word h word r = r \<or> take_word h word r = end_frame r \<or>
   (\<exists>v. take_word h word r = buffer_word v r \<or> take_word h word r = end_frame (buffer_word v r))"
  using check_buffer_cases by (fastforce simp: take_word_def end_started_frame_def)

lemma buffer_word_swap:
  "buffer_word v (r\<lparr>ir_pending_receives := p, ir_shown := s\<rparr>) = (buffer_word v r)\<lparr>ir_pending_receives := p, ir_shown := s\<rparr>"
  "buffer_word v (r\<lparr>ir_pending_receives := p\<rparr>) = (buffer_word v r)\<lparr>ir_pending_receives := p\<rparr>"
  by (cases r, simp add: buffer_word_def)+

lemma take_word_queue: "take_word h word (r\<lparr>ir_pending_receives := p, ir_shown := s\<rparr>) =
    (let r' = take_word h word (r\<lparr>ir_pending_receives := []\<rparr>) in
     r'\<lparr>ir_pending_receives := p @ ir_pending_receives r', ir_shown := s\<rparr>)"
proof -
  have buffered: "check_buffer (buffer_word v (r\<lparr>ir_pending_receives := p, ir_shown := s\<rparr>)) =
    (let r' = check_buffer (buffer_word v (r\<lparr>ir_pending_receives := []\<rparr>)) in
     r'\<lparr>ir_pending_receives := p @ ir_pending_receives r', ir_shown := s\<rparr>)" for v
    using check_buffer_queue [where r = "buffer_word v r" and p = p and s = s] by (simp add: buffer_word_swap)
  show ?thesis
    by (simp add: take_word_def end_started_frame_def end_frame_queue check_buffer_queue buffered Let_def)
qed

interpretation raw_mode: frame_taker "take_word h" for h
proof
  show "take_word h x (r\<lparr>ir_pending_receives := p, ir_shown := s\<rparr>) =
      (let r' = take_word h x (r\<lparr>ir_pending_receives := []\<rparr>) in
       r'\<lparr>ir_pending_receives := p @ ir_pending_receives r', ir_shown := s\<rparr>)" for x r p s
    by (rule take_word_queue)
  show "ir_fd (take_word h x r) = ir_fd r \<and> ir_scancode_mode (take_word h x r) = ir_scancode_mode r \<and>
      ir_shown (take_word h x r) = ir_shown r" for x r
    using take_word_cases [of h x r] by (auto simp: end_frame_kept buffer_word_def)
  show "\<forall>q\<in>set (ir_pending_receives (take_word h x r)). rs_data_changed q"
    if "\<forall>q\<in>set (ir_pending_receives r). rs_data_changed q" for x r
    using take_word_cases [of h x r] that end_frame_changed [of r] end_frame_changed [of "buffer_word v r" for v]
    by (auto simp: buffer_word_def)
qed

interpretation scancode_mode: frame_taker take_scancode
  by unfold_locales (auto simp: take_scancode_def push_change_def Let_def)

text \<open>The session polled again and again: what the polls show as changed, and the session after them.\<close>

primrec run_polls ::
  "lirc_header \<Rightarrow> (32 word read_result list \<times> lirc_scancode read_result list) list \<Rightarrow> ir_receiver \<Rightarrow>
     ir_receive_snapshot list \<times> ir_receiver" where
  "run_polls h [] r = ([], r)"
| "run_polls h (reads # rest) r =
     (let r1 = poll_receiver_session h (fst reads) (snd reads) r; (out, r2) = run_polls h rest r1 in
      ((if rs_data_changed (ir_shown r1) then [ir_shown r1] else []) @ out, r2))"

text \<open>The reads of a poll that count are those of the session's mode.\<close>

definition reads_ok :: "bool \<Rightarrow> 32 word read_result list \<times> lirc_scancode read_result list \<Rightarrow> bool" where
  "reads_ok scancodes reads = (if scancodes then reads_well (snd reads) else reads_well (fst reads))"

definition take_polls :: "lirc_header \<Rightarrow> (32 word read_result list \<times> lirc_scancode read_result list) list \<Rightarrow>
    ir_receiver \<Rightarrow> ir_receiver" where
  "take_polls h rss r =
     (if ir_scancode_mode r then fold take_scancode (concat (map (data_of \<circ> snd) rss)) r
      else fold (take_word h) (concat (map (data_of \<circ> fst) rss)) r)"

lemma poll_raw:
  "ir_fd r \<ge> 0 \<Longrightarrow> \<not> ir_scancode_mode r \<Longrightarrow> reads_well words \<Longrightarrow>
     poll_receiver_session h words codes r = raw_mode.poll_samples h (data_of words) r"
  by (simp add: poll_receiver_session_def raw_mode.poll_samples_def drain_well Let_def)

lemma poll_scancodes:
  "ir_fd r \<ge> 0 \<Longrightarrow> ir_scancode_mode r \<Longrightarrow> reads_well codes \<Longrightarrow>
     poll_receiver_session h words codes r = scancode_mode.poll_samples (data_of codes) r"
  by (simp add: poll_receiver_session_def scancode_mode.poll_samples_def drain_well Let_def)

lemma poll_failed:
  assumes "ir_fd r \<ge> 0" "\<not> reads_ok (ir_scancode_mode r) reads"
  shows "ir_fd (poll_receiver_session h (fst reads) (snd reads) r) < 0 \<and>
    ir_pending_receives (poll_receiver_session h (fst reads) (snd reads) r) = [] \<and>
    \<not> rs_data_changed (ir_shown (poll_receiver_session h (fst reads) (snd reads) r))"
proof -
  let ?r1 = "r\<lparr>ir_shown := (ir_shown r)\<lparr>rs_data_changed := False\<rparr>\<rparr>"
  have stopped: "\<not> fst (drain take_one rs ?r1) \<and> ir_fd (snd (drain take_one rs ?r1)) < 0 \<and>
      ir_pending_receives (snd (drain take_one rs ?r1)) = [] \<and> \<not> rs_data_changed (ir_shown (snd (drain take_one rs ?r1)))"
    if "\<not> reads_well rs" "ir_shown (fold take_one (data_of rs) ?r1) = ir_shown ?r1" for take_one and rs :: "'a read_result list"
    using drain_ill [OF that(1), of take_one ?r1] that(2) by (auto simp: stop_receiver_def Let_def)
  show ?thesis
    using assms stopped [of "fst reads" "take_word h"] stopped [of "snd reads" take_scancode]
      raw_mode.fold_mode_kept [of h "data_of (fst reads)" ?r1]
      scancode_mode.fold_mode_kept [of "data_of (snd reads)" ?r1]
    by (auto simp: poll_receiver_session_def reads_ok_def Let_def case_prod_unfold split: if_splits)
qed

text \<open>A closed session shows no change, however often it is polled.\<close>

lemma polls_closed:
  "ir_fd r < 0 \<Longrightarrow> fst (run_polls h rss r) = [] \<and> ir_fd (snd (run_polls h rss r)) < 0 \<and>
     ir_pending_receives (snd (run_polls h rss r)) = ir_pending_receives r"
  by (induction rss arbitrary: r) (simp_all add: poll_receiver_session_def Let_def case_prod_unfold)

lemma run_polls_append:
  "run_polls h (rss @ rst) r = (let (out, r1) = run_polls h rss r; (out', r2) = run_polls h rst r1 in (out @ out', r2))"
  by (induction rss arbitrary: r) (simp_all add: Let_def case_prod_unfold)

lemma run_polls_raw:
  assumes "ir_fd r \<ge> 0" "\<not> ir_scancode_mode r" "\<forall>reads\<in>set rss. reads_well (fst reads)"
  shows "run_polls h rss r = (raw_mode.delivered_by h (map (data_of \<circ> fst) rss) r,
    raw_mode.polled h (map (data_of \<circ> fst) rss) r)"
  using assms by (induction rss arbitrary: r) (simp_all add: poll_raw raw_mode.poll_samples_mode Let_def)

lemma run_polls_scancodes:
  assumes "ir_fd r \<ge> 0" "ir_scancode_mode r" "\<forall>reads\<in>set rss. reads_well (snd reads)"
  shows "run_polls h rss r = (scancode_mode.delivered_by (map (data_of \<circ> snd) rss) r,
    scancode_mode.polled (map (data_of \<circ> snd) rss) r)"
  using assms by (induction rss arbitrary: r) (simp_all add: poll_scancodes scancode_mode.poll_samples_mode Let_def)

text \<open>Polls whose reads end without an error.\<close>

lemma good_polls:
  assumes "ir_fd r \<ge> 0" "\<forall>reads\<in>set rss. reads_ok (ir_scancode_mode r) reads"
    and "\<forall>q\<in>set (ir_pending_receives r). rs_data_changed q"
  shows "fst (run_polls h rss r) @ ir_pending_receives (snd (run_polls h rss r)) =
      ir_pending_receives r @ ir_pending_receives (take_polls h rss (r\<lparr>ir_pending_receives := []\<rparr>))"
    and "ir_fd (snd (run_polls h rss r)) = ir_fd r"
    and "ir_scancode_mode (snd (run_polls h rss r)) = ir_scancode_mode r"
proof -
  have "fst (run_polls h rss r) @ ir_pending_receives (snd (run_polls h rss r)) =
      ir_pending_receives r @ ir_pending_receives (take_polls h rss (r\<lparr>ir_pending_receives := []\<rparr>)) \<and>
      ir_fd (snd (run_polls h rss r)) = ir_fd r \<and>
      ir_scancode_mode (snd (run_polls h rss r)) = ir_scancode_mode r"
  proof (cases "ir_scancode_mode r")
    case True
    then have "run_polls h rss r = (scancode_mode.delivered_by (map (data_of \<circ> snd) rss) r,
        scancode_mode.polled (map (data_of \<circ> snd) rss) r)"
      using assms by (intro run_polls_scancodes) (simp_all add: reads_ok_def)
    then show ?thesis
      using True scancode_mode.delivered_in_order [OF assms(3)]
      by (simp add: take_polls_def scancode_mode.polled_mode)
  next
    case False
    then have "run_polls h rss r = (raw_mode.delivered_by h (map (data_of \<circ> fst) rss) r,
        raw_mode.polled h (map (data_of \<circ> fst) rss) r)"
      using assms by (intro run_polls_raw) (simp_all add: reads_ok_def)
    then show ?thesis
      using False raw_mode.delivered_in_order [OF assms(3)]
      by (simp add: take_polls_def raw_mode.polled_mode)
  qed
  then show "fst (run_polls h rss r) @ ir_pending_receives (snd (run_polls h rss r)) =
      ir_pending_receives r @ ir_pending_receives (take_polls h rss (r\<lparr>ir_pending_receives := []\<rparr>))"
    "ir_fd (snd (run_polls h rss r)) = ir_fd r"
    "ir_scancode_mode (snd (run_polls h rss r)) = ir_scancode_mode r" by blast+
qed

text \<open>C7: however the kernel's samples, raw words or scancodes after the session's mode, are cut into
  reads and the reads into polls, the changed frames are shown by the polls each exactly once and
  in the order of the samples, and what has not been shown yet is pending, in order - as long as
  no read fails. From the first poll with a read that fails the session is closed and shows no
  change any more: what was shown until then is the beginning of the changes before that poll,
  and the rest is lost.\<close>

theorem changes_delivered:
  assumes "ir_fd r \<ge> 0" "\<forall>q\<in>set (ir_pending_receives r). rs_data_changed q"
  shows "let good = takeWhile (reads_ok (ir_scancode_mode r)) rss;
      changes = ir_pending_receives r @ ir_pending_receives (take_polls h good (r\<lparr>ir_pending_receives := []\<rparr>));
      shown = fst (run_polls h rss r); r' = snd (run_polls h rss r) in
    if good = rss then shown @ ir_pending_receives r' = changes
    else (\<exists>lost. shown @ lost = changes) \<and> ir_fd r' < 0 \<and> ir_pending_receives r' = []"
proof -
  let ?good = "takeWhile (reads_ok (ir_scancode_mode r)) rss"
  have ok: "\<forall>reads\<in>set ?good. reads_ok (ir_scancode_mode r) reads" by (auto dest: set_takeWhileD)
  note g = good_polls [OF assms(1) ok assms(2), of h]
  show ?thesis
  proof (cases "?good = rss")
    case True
    show ?thesis unfolding Let_def True using g(1) [unfolded True] by simp
  next
    case False
    obtain bad rest where bad: "rss = ?good @ bad # rest" "\<not> reads_ok (ir_scancode_mode r) bad"
      using False by (metis dropWhile_eq_Cons_conv list.exhaust self_append_conv takeWhile_dropWhile_id)
    let ?r1 = "snd (run_polls h ?good r)"
    have f: "ir_fd ?r1 \<ge> 0" "\<not> reads_ok (ir_scancode_mode ?r1) bad" using g(2,3) assms(1) bad(2) by simp_all
    note closed = poll_failed [OF f, of h]
      polls_closed [of "poll_receiver_session h (fst bad) (snd bad) ?r1" h rest]
    have "run_polls h (bad # rest) ?r1 = ([], snd (run_polls h rest (poll_receiver_session h (fst bad) (snd bad) ?r1)))"
      using closed by (simp add: Let_def case_prod_unfold)
    then have "run_polls h rss r = (fst (run_polls h ?good r),
        snd (run_polls h rest (poll_receiver_session h (fst bad) (snd bad) ?r1)))"
      by (subst bad(1), subst run_polls_append) (simp add: Let_def case_prod_unfold)
    then show ?thesis using False closed g(1) by (auto simp: Let_def)
  qed
qed

subsection \<open>Packets within the tolerances\<close>

definition plain_word :: "lirc_header \<Rightarrow> 32 word \<Rightarrow> bool" where
  "plain_word h w \<longleftrightarrow> \<not> lh_is_timeout h w \<and> \<not> lh_is_overflow h w \<and>
     (lh_is_pulse h w \<or> (lh_is_space h w \<and> lh_value h w \<le> 12000)) \<and>
     (lh_is_space h w \<longrightarrow> lh_value h w \<le> 12000)"

definition packet_words :: "lirc_header \<Rightarrow> 32 word list \<Rightarrow> 8 word list \<Rightarrow> bool" where
  "packet_words h ws bytes \<longleftrightarrow> length ws = required_durations \<and> (\<forall>w\<in>set ws. plain_word h w) \<and>
     carries (map (lh_value h) ws) 0 bytes"

lemma take_plain:
  "ir_mode2 r \<Longrightarrow> plain_word h w \<Longrightarrow> take_word h w r = check_buffer (buffer_word (lh_value h w) r)"
  by (auto simp: take_word_def plain_word_def)

lemma check_short: "length (ir_pulse_space_buffer r) < required_durations \<Longrightarrow> check_buffer r = r"
  by (simp add: check_buffer_def required_durations_def packet_bytes_def)

lemma buffered_words:
  "ir_mode2 r \<Longrightarrow> \<forall>w\<in>set ws. plain_word h w \<Longrightarrow>
     length (ir_pulse_space_buffer r) + length ws < required_durations \<Longrightarrow>
     fold (take_word h) ws r = r\<lparr>ir_pulse_space_buffer := ir_pulse_space_buffer r @ map (lh_value h) ws\<rparr>"
proof (induction ws arbitrary: r)
  case (Cons w ws)
  then have "take_word h w r = buffer_word (lh_value h w) r"
    by (simp add: take_plain check_short buffer_word_def)
  then show ?case using Cons by (simp add: buffer_word_def)
qed simp

lemma packet_taken:
  assumes "ir_mode2 r" "ir_pulse_space_buffer r = []" "packet_words h ws bytes"
  shows "fold (take_word h) ws r = end_frame (r\<lparr>ir_pulse_space_buffer := map (lh_value h) ws\<rparr>)"
proof -
  have ws: "length ws = required_durations" "\<forall>w\<in>set ws. plain_word h w" "carries (map (lh_value h) ws) 0 bytes"
    using assms(3) by (auto simp: packet_words_def)
  then have "ws \<noteq> []" by (auto simp: required_durations_def)
  then obtain us w where us: "ws = us @ [w]" by (metis rev_exhaust)
  let ?r = "r\<lparr>ir_pulse_space_buffer := map (lh_value h) ws\<rparr>"
  have "fold (take_word h) us r = r\<lparr>ir_pulse_space_buffer := map (lh_value h) us\<rparr>"
    using ws us assms buffered_words [of r us h] by simp
  then have "fold (take_word h) ws r = check_buffer ?r"
    using ws us assms by (simp add: take_plain buffer_word_def)
  also have "\<dots> = end_frame ?r"
    using ws decode_starts [OF ws(3)] by (simp add: check_buffer_def end_frame_kept required_durations_def Let_def)
  finally show ?thesis .
qed

text \<open>What the session makes of the bytes of a packet.\<close>

definition packet_view :: "ir_receive_snapshot \<Rightarrow> 8 word list \<times> bool \<times> string \<times> 16 word \<times> 16 word" where
  "packet_view s = (rs_data s, rs_address_matched s, rs_protocol s, rs_address s, rs_command s)"

definition view_of_bytes :: "bool \<Rightarrow> 16 word \<Rightarrow> 8 word list \<Rightarrow> 8 word list \<times> bool \<times> string \<times> 16 word \<times> 16 word" where
  "view_of_bytes filter_address expected bytes = (case parse_nec_bytes bytes of
     Some (address, command, protocol) \<Rightarrow>
       (bytes, \<not> filter_address \<or> address = expected, protocol, address, command)
   | None \<Rightarrow> (bytes, False, [], 0, 0))"

lemma finalize_packet:
  assumes "carries ds 0 bytes"
  shows "packet_view (finalize_receive ds s) =
      view_of_bytes (rs_address_filter_enabled s) (rs_expected_address s) bytes"
    and "rs_address_filter_enabled (finalize_receive ds s) = rs_address_filter_enabled s"
    and "rs_expected_address (finalize_receive ds s) = rs_expected_address s"
    and "bytes \<noteq> rs_data s \<Longrightarrow> rs_data_changed (finalize_receive ds s)"
proof -
  have "length bytes = 4" using assms by (simp add: carries_def packet_bytes_def)
  then obtain address command protocol where "parse_nec_bytes bytes = Some (address, command, protocol)"
    by (simp add: parse_nec_bytes_def packet_bytes_def)
  then show "packet_view (finalize_receive ds s) =
      view_of_bytes (rs_address_filter_enabled s) (rs_expected_address s) bytes"
    and "rs_address_filter_enabled (finalize_receive ds s) = rs_address_filter_enabled s"
    and "rs_expected_address (finalize_receive ds s) = rs_expected_address s"
    and "bytes \<noteq> rs_data s \<Longrightarrow> rs_data_changed (finalize_receive ds s)"
    by (simp_all add: finalize_receive_def decode_starts [OF assms] received_packet_def packet_view_def
        view_of_bytes_def Let_def)
qed

lemma packets_taken:
  assumes "ir_mode2 r" "ir_pulse_space_buffer r = []" "\<forall>(ws, bytes)\<in>set fs. packet_words h ws bytes"
    and "distinct_adj (rs_data (ir_receive_state r) # map snd fs)"
  shows "map packet_view (ir_pending_receives (fold (take_word h) (concat (map fst fs)) r)) =
    map packet_view (ir_pending_receives r) @
    map (\<lambda>f. view_of_bytes (rs_address_filter_enabled (ir_receive_state r))
      (rs_expected_address (ir_receive_state r)) (snd f)) fs"
  using assms
proof (induction fs arbitrary: r)
  case (Cons f fs)
  obtain ws bytes where f: "f = (ws, bytes)" by fastforce
  have p: "packet_words h ws bytes" using Cons.prems f by simp
  then have c: "carries (map (lh_value h) ws) 0 bytes" by (simp add: packet_words_def)
  have new: "bytes \<noteq> rs_data (ir_receive_state r)" using Cons.prems f by (auto simp: distinct_adj_Cons)
  let ?s = "finalize_receive (map (lh_value h) ws) ((ir_receive_state r)\<lparr>rs_data_changed := False\<rparr>)"
  let ?r = "fold (take_word h) ws r"
  have r': "?r = r\<lparr>ir_receive_state := ?s, ir_pending_receives := ir_pending_receives r @ [?s],
      ir_pulse_space_buffer := []\<rparr>"
    using packet_taken [OF Cons.prems(1,2) p] finalize_packet(4) [OF c, of "(ir_receive_state r)\<lparr>rs_data_changed := False\<rparr>"] new
    by (simp add: end_frame_def push_change_def)
  have data: "rs_data ?s = bytes"
    using finalize_packet(1) [OF c, of "(ir_receive_state r)\<lparr>rs_data_changed := False\<rparr>"]
    by (auto simp: packet_view_def view_of_bytes_def split: option.splits)
  have "map packet_view (ir_pending_receives (fold (take_word h) (concat (map fst fs)) ?r)) =
      map packet_view (ir_pending_receives ?r) @
      map (\<lambda>f. view_of_bytes (rs_address_filter_enabled (ir_receive_state ?r))
        (rs_expected_address (ir_receive_state ?r)) (snd f)) fs"
  proof (rule Cons.IH)
    show "ir_mode2 ?r" "ir_pulse_space_buffer ?r = []" using Cons.prems r' by simp_all
    show "\<forall>(ws, bytes)\<in>set fs. packet_words h ws bytes" using Cons.prems by simp
    show "distinct_adj (rs_data (ir_receive_state ?r) # map snd fs)"
      using Cons.prems r' data f by (simp add: distinct_adj_Cons)
  qed
  then show ?case using r' finalize_packet(1-3) [OF c] f by simp
qed simp

subsection \<open>The replies of the IR fixture\<close>

text \<open>What the IR fixture test looks at in a poll.\<close>

definition as_received :: "ir_receive_snapshot \<Rightarrow> ir_received" where
  "as_received s = \<lparr>rx_data_changed = rs_data_changed s, rx_address_matched = rs_address_matched s,
     rx_protocol = rs_protocol s, rx_address = rs_address s, rx_command = rs_command s\<rparr>"

definition fixture_reply :: "nat \<Rightarrow> 8 word list" where
  "fixture_reply i = make_nec_bytes fixture_address (expected_fixture_command i)"

lemma fixture_reply_view: "i < 5 \<Longrightarrow> view_of_bytes True fixture_address (fixture_reply i) =
    (fixture_reply i, True, ''NEC32'', fixture_address, expected_fixture_command i)"
proof -
  assume "i < 5"
  then consider "i = 0" | "i = 1" | "i = 2" | "i = 3" | "i = 4" by linarith
  then show ?thesis
    by cases (simp_all add: view_of_bytes_def fixture_reply_def make_nec_bytes_def parse_nec_bytes_def
        packet_bytes_def fixture_address_def expected_fixture_command_def word_of_bytes_def)
qed

lemma start_raw:
  assumes "start_receiver h v info expected filter_address initial_receiver = (True, r)"
  shows "ir_fd r \<ge> 0" "ir_pulse_space_buffer r = []" "ir_pending_receives r = []"
    "rs_data (ir_receive_state r) = []" "rs_address_filter_enabled (ir_receive_state r) = filter_address"
    "rs_expected_address (ir_receive_state r) = expected"
  using assms by (auto simp: start_receiver_def open_receiver_def initial_receiver_def empty_snapshot_def
      Let_def split: if_splits sum.splits option.splits)

lemma verify_fixture_reply:
  assumes "packet_view s = view_of_bytes True fixture_address (fixture_reply i)" "rs_data_changed s" "i < 5"
  shows "fst (run_state (verify_reply (as_received s) i) w) = Some (Suc i)"
  using assms(1,2) unfolding fixture_reply_view [OF assms(3)]
  by (auto simp: packet_view_def as_received_def verify_reply_def ret_def ir_on_snapshot_def upd_def Let_def)

lemma distinct_replies: "distinct_adj ([] # map fixture_reply [0..<5])"
proof -
  have "[0..<5] = [0, 1, 2, 3, 4 :: nat]" by (simp add: upt_rec)
  then show ?thesis
    by (simp add: fixture_reply_def make_nec_bytes_def expected_fixture_command_def)
qed

text \<open>C31: a session opened for the IR fixture in raw mode that receives the five replies F1 to F5,
  each as any train within the tolerances and cut into reads and polls in any way, shows them by
  its polls in order or still has them pending, and the IR fixture test verifies each at its turn.\<close>

theorem fixture_replies_verified:
  assumes "start_receiver h v info fixture_address True initial_receiver = (True, r)"
    and "\<not> ir_scancode_mode r" "ir_mode2 r"
    and "length trains = 5" "\<forall>i\<in>{..<5}. packet_words h (trains ! i) (fixture_reply i)"
    and "\<forall>(words, codes)\<in>set rss. reads_well words" "concat (map (data_of \<circ> fst) rss) = concat trains"
  shows "let shown = fst (run_polls h rss r) @ ir_pending_receives (snd (run_polls h rss r)) in
    length shown = 5 \<and>
    (\<forall>i\<in>{..<5}. fst (run_state (verify_reply (as_received (shown ! i)) i) w) = Some (Suc i))"
proof -
  note r = start_raw [OF assms(1)]
  let ?fs = "zip trains (map fixture_reply [0..<5])"
  let ?shown = "fst (run_polls h rss r) @ ir_pending_receives (snd (run_polls h rss r))"
  let ?w = "fold (take_word h) (concat trains) (r\<lparr>ir_pending_receives := []\<rparr>)"
  have same: "r\<lparr>ir_pending_receives := []\<rparr> = r" using r(3) by simp
  have shown: "?shown = ir_pending_receives ?w"
    using good_polls(1) [of r rss h] r(1,3) assms(2,6,7) by (simp add: reads_ok_def take_polls_def case_prod_unfold)
  have changed: "\<forall>q\<in>set ?shown. rs_data_changed q"
    unfolding shown same using r(3) by (intro raw_mode.fold_queued_changed) simp
  have fs: "map fst ?fs = trains" "map snd ?fs = map fixture_reply [0..<5]" using assms(4) by simp_all
  have "\<forall>(ws, bytes)\<in>set ?fs. packet_words h ws bytes"
    using assms(4,5) by (auto simp: set_zip)
  then have taken: "map packet_view (ir_pending_receives (fold (take_word h) (concat (map fst ?fs)) r)) =
      map packet_view (ir_pending_receives r) @
      map (\<lambda>f. view_of_bytes (rs_address_filter_enabled (ir_receive_state r))
        (rs_expected_address (ir_receive_state r)) (snd f)) ?fs"
    by (rule packets_taken [OF assms(3) r(2)]) (simp only: fs r(4) distinct_replies)
  have "map packet_view ?shown = map (view_of_bytes True fixture_address) (map snd ?fs)"
    unfolding shown same using taken unfolding fs(1) r(3,5,6) by (simp only: list.map append_Nil map_map comp_def)
  then have view: "map packet_view ?shown = map (\<lambda>i. view_of_bytes True fixture_address (fixture_reply i)) [0..<5]"
    unfolding fs(2) by (simp only: map_map comp_def)
  then have len: "length ?shown = 5" by (metis (no_types, lifting) length_map length_upt diff_zero)
  moreover have "fst (run_state (verify_reply (as_received (?shown ! i)) i) w) = Some (Suc i)" if "i < 5" for i
  proof (rule verify_fixture_reply [OF _ _ that])
    show "packet_view (?shown ! i) = view_of_bytes True fixture_address (fixture_reply i)"
      using arg_cong [OF view, of "\<lambda>l. l ! i"] len that by (simp only: nth_map length_upt diff_zero nth_upt add_0)
    show "rs_data_changed (?shown ! i)" using changed len that nth_mem by (metis (no_types, lifting))
  qed
  ultimately show ?thesis by (simp add: Let_def)
qed

text \<open>An instance: the values of the kernel's header, and the replies as the encoder makes them.\<close>

definition linux_lirc_header :: lirc_header where
  "linux_lirc_header = \<lparr>lh_is_timeout = (\<lambda>w. w AND 0xFF000000 = 0x03000000),
     lh_is_overflow = (\<lambda>w. w AND 0xFF000000 = 0x04000000),
     lh_is_space = (\<lambda>w. w AND 0xFF000000 = 0), lh_is_pulse = (\<lambda>w. w AND 0xFF000000 = 0x01000000),
     lh_value = (\<lambda>w. w AND 0x00FFFFFF), lh_can_send_pulse = 2, lh_can_send_raw = 1,
     lh_can_rec_mode2 = 0x40000, lh_can_rec_raw = 0x10000, lh_can_rec_scancode = 0x80000\<rparr>"

definition mark_train :: "32 word list \<Rightarrow> 32 word list" where
  "mark_train ds = map (\<lambda>(i, d). if even i then d OR 0x01000000 else d) (zip [0..<length ds] ds)"

lemma set_encode_bits: "set (encode_bits byte bs) \<subseteq> {560, 1690}"
  by (induction bs) (auto simp: nec_constants)

lemma set_encode: "set (encode_nec_packet bytes) \<subseteq> {9000, 4500, 560, 1690}"
  using set_encode_bits by (fastforce simp: encode_nec_packet_def nec_constants)

lemma marked_word:
  assumes "d \<in> {9000, 4500, 560, 1690 :: 32 word}"
  shows "plain_word linux_lirc_header (d OR 0x01000000)" "plain_word linux_lirc_header d"
    "lh_value linux_lirc_header (d OR 0x01000000) = d" "lh_value linux_lirc_header d = d"
  using assms by (auto simp: plain_word_def linux_lirc_header_def)

lemma marked_train:
  assumes "set ds \<subseteq> {9000, 4500, 560, 1690}"
  shows "map (lh_value linux_lirc_header) (mark_train ds) = ds"
    and "\<forall>w\<in>set (mark_train ds). plain_word linux_lirc_header w"
proof -
  have nth: "mark_train ds ! i = (if even i then ds ! i OR 0x01000000 else ds ! i)" if "i < length ds" for i
    using that by (simp add: mark_train_def)
  have len: "length (mark_train ds) = length ds" by (simp add: mark_train_def)
  have mem: "ds ! i \<in> {9000, 4500, 560, 1690}" if "i < length ds" for i
    using that assms nth_mem by blast
  show "map (lh_value linux_lirc_header) (mark_train ds) = ds"
    using marked_word [OF mem] by (intro nth_equalityI) (simp_all add: len nth)
  show "\<forall>w\<in>set (mark_train ds). plain_word linux_lirc_header w"
    using marked_word [OF mem] by (auto simp: in_set_conv_nth len nth)
qed

lemma encoded_packet_words:
  assumes "length bytes = packet_bytes"
  shows "packet_words linux_lirc_header (mark_train (encode_nec_packet bytes)) bytes"
  unfolding packet_words_def
  using marked_train [OF set_encode [of bytes]] encoded_carries [OF assms, of "[]"] assms
  by (simp add: mark_train_def encode_nec_packet_def length_encoded required_durations_def packet_bytes_def)

definition raw_info :: ir_device_info where
  "raw_info = \<lparr>di_available = True, di_rc_name = ''rc0'', di_lirc_path = ''/dev/lirc0'',
     di_driver_name = [], di_device_name = [], di_error_message = [], di_features = 0x40000\<rparr>"

definition raw_env :: receiver_env where
  "raw_env = \<lparr>rv_protocols = ([], []), rv_protocols_open = (\<lambda>_. False), rv_open = Inr 5,
     rv_set_scancode = None, rv_set_mode = None\<rparr>"

definition raw_session :: ir_receiver where
  "raw_session = snd (start_receiver linux_lirc_header raw_env raw_info fixture_address True initial_receiver)"

definition reply_trains :: "32 word list list" where
  "reply_trains = map (\<lambda>i. mark_train (encode_nec_packet (fixture_reply i))) [0..<5]"

lemma fixture_replies_verified_witness:
  "let shown = fst (run_polls linux_lirc_header [([ReadData (concat reply_trains), ReadAgain], [])] raw_session) @
      ir_pending_receives (snd (run_polls linux_lirc_header [([ReadData (concat reply_trains), ReadAgain], [])] raw_session)) in
    length shown = 5 \<and>
    (\<forall>i\<in>{..<5}. fst (run_state (verify_reply (as_received (shown ! i)) i) initial_ir_fixture) = Some (Suc i))"
proof (rule fixture_replies_verified)
  show "start_receiver linux_lirc_header raw_env raw_info fixture_address True initial_receiver = (True, raw_session)"
    by (simp add: raw_session_def start_receiver_def open_receiver_def raw_info_def raw_env_def
        linux_lirc_header_def initial_receiver_def empty_snapshot_def Let_def)
  show "\<not> ir_scancode_mode raw_session" "ir_mode2 raw_session"
    by (simp_all add: raw_session_def start_receiver_def open_receiver_def raw_info_def raw_env_def
        linux_lirc_header_def initial_receiver_def empty_snapshot_def Let_def)
  show "length reply_trains = 5" by (simp add: reply_trains_def)
  have "length (fixture_reply i) = packet_bytes" for i
    by (simp add: fixture_reply_def make_nec_bytes_def packet_bytes_def)
  then have "reply_trains ! i = mark_train (encode_nec_packet (fixture_reply i)) \<and>
      packet_words linux_lirc_header (mark_train (encode_nec_packet (fixture_reply i))) (fixture_reply i)"
    if "i < 5" for i
    using that encoded_packet_words unfolding reply_trains_def by (simp del: upt_rec_numeral)
  then show "\<forall>i\<in>{..<5}. packet_words linux_lirc_header (reply_trains ! i) (fixture_reply i)"
    by simp
qed simp_all

text \<open>The five replies again, cut in the middle of a train between two polls.\<close>

lemma changes_delivered_witness:
  "let rss = [([ReadData (take 100 (concat reply_trains)), ReadAgain], []),
              ([ReadData (drop 100 (concat reply_trains)), ReadAgain], [])];
       out = run_polls linux_lirc_header rss raw_session;
       broken = run_polls linux_lirc_header (rss @ [([ReadError ''EIO''], [])]) raw_session;
       changes = ir_pending_receives (fold (take_word linux_lirc_header) (concat reply_trains) raw_session)
   in fst out @ ir_pending_receives (snd out) = changes \<and>
      (\<exists>lost. fst broken @ lost = changes) \<and> ir_fd (snd broken) < 0"
proof -
  have raw: "ir_fd raw_session \<ge> 0" "\<not> ir_scancode_mode raw_session" "ir_pending_receives raw_session = []"
    by (simp_all add: raw_session_def start_receiver_def open_receiver_def raw_info_def raw_env_def
        linux_lirc_header_def initial_receiver_def empty_snapshot_def Let_def)
  then have same: "raw_session\<lparr>ir_pending_receives := []\<rparr> = raw_session" by simp
  let ?rss = "[([ReadData (take 100 (concat reply_trains)), ReadAgain], []),
              ([ReadData (drop 100 (concat reply_trains)), ReadAgain], [] :: lirc_scancode read_result list)]"
  show ?thesis
    using changes_delivered [of raw_session ?rss linux_lirc_header]
      changes_delivered [of raw_session "?rss @ [([ReadError ''EIO''], [])]" linux_lirc_header] raw same
    by (simp add: Let_def take_polls_def reads_ok_def del: run_polls.simps)
qed

subsection \<open>The codec\<close>

text \<open>C29: the decoder finds a packet exactly where a train carries one within the tolerances, and
  of several the first.\<close>

theorem nec_decode_exact:
  "decode_nec_packet durations = Some bytes \<longleftrightarrow>
     (\<exists>start. carries durations start bytes \<and> (\<forall>i\<in>{..<start}. \<nexists>other. carries durations i other))"
proof -
  have none: "decode_nec_packet_from durations i = None \<longleftrightarrow> (\<nexists>other. carries durations i other)" for i
    using decode_from_carries [of durations i] by (cases "decode_nec_packet_from durations i") auto
  have early: "start < length durations - 2" if "carries durations start bytes" for start
    using that unfolding carries_def required_durations_def by linarith
  have split: "[0..<n] = us @ start # vs \<longleftrightarrow> start < n \<and> us = [0..<start] \<and> vs = [Suc start..<n]" for n us start vs
  proof
    assume l: "[0..<n] = us @ start # vs"
    have n: "length us < n" using arg_cong [OF l, of length] by (simp only: length_append length_upt list.size)
    have "start = length us" using arg_cong [OF l, of "\<lambda>x. x ! length us"] n by simp
    moreover have "us = take (length us) [0..<n]" "vs = drop (Suc (length us)) [0..<n]" using l by simp_all
    ultimately show "start < n \<and> us = [0..<start] \<and> vs = [Suc start..<n]" using n by simp
  next
    assume "start < n \<and> us = [0..<start] \<and> vs = [Suc start..<n]"
    then show "[0..<n] = us @ start # vs"
      using upt_add_eq_append [of 0 start "n - start"] upt_conv_Cons [of start n] by simp
  qed
  have "decode_nec_packet durations = Some bytes \<longleftrightarrow>
      (\<exists>start<length durations - 2. carries durations start bytes \<and> (\<forall>i\<in>set [0..<start]. \<nexists>other. carries durations i other))"
    unfolding decode_nec_packet_def first_some_iff split none decode_from_carries by blast
  then show ?thesis using early by (auto simp: atLeast0LessThan)
qed

lemma nec_decode_exact_witness:
  "decode_nec_packet (encode_nec_packet (make_nec_bytes 0x1234 0x5678)) = Some (make_nec_bytes 0x1234 0x5678)"
proof -
  have "carries (encode_nec_packet (make_nec_bytes 0x1234 0x5678)) 0 (make_nec_bytes 0x1234 0x5678)"
    using encoded_carries [of "make_nec_bytes 0x1234 0x5678" "[]"] by (simp add: make_nec_bytes_def packet_bytes_def)
  then show ?thesis
    using nec_decode_exact [of "encode_nec_packet (make_nec_bytes 0x1234 0x5678)" "make_nec_bytes 0x1234 0x5678"]
    by auto
qed

text \<open>C30: every packet comes back: what is sent for an address and a command decodes, whatever
  follows it, to the bytes that were sent, and these parse to that address and command; and the
  three kinds of scancode of the kernel are turned into bytes that parse to the same address
  and command as they are reported with.\<close>

theorem nec_roundtrip:
  "decode_nec_packet (encode_nec_packet (make_nec_bytes address command) @ rest) =
     Some (make_nec_bytes address command) \<and>
   map_option (\<lambda>(a, c, protocol). (a, c)) (parse_nec_bytes (make_nec_bytes address command)) = Some (address, command) \<and>
   (case decode_scancode sc of
      None \<Rightarrow> sc_proto sc = RC_PROTO_OTHER
    | Some (a, c, bytes, protocol) \<Rightarrow> map_option (\<lambda>(a, c, protocol). (a, c)) (parse_nec_bytes bytes) = Some (a, c))"
proof (intro conjI)
  have "length (make_nec_bytes address command) = packet_bytes"
    by (simp add: make_nec_bytes_def packet_bytes_def)
  then show "decode_nec_packet (encode_nec_packet (make_nec_bytes address command) @ rest) =
      Some (make_nec_bytes address command)"
    by (intro decode_starts encoded_carries)
  have made: "map_option (\<lambda>(a, c, protocol). (a, c)) (parse_nec_bytes (make_nec_bytes a c)) = Some (a, c)" for a c
    using parse_make [of a c] by auto
  then show "map_option (\<lambda>(a, c, protocol). (a, c)) (parse_nec_bytes (make_nec_bytes address command)) = Some (address, command)" .
  have "make_standard_nec_bytes a c =
      make_nec_bytes (ucast a OR push_bit 8 (ucast (NOT a))) (make_nec_command c)" for a c
    using bytes_of_word_of_bytes [of a "NOT a" c "NOT c"]
    by (simp add: make_standard_nec_bytes_def make_nec_command_def word_of_bytes_def)
  then show "case decode_scancode sc of
      None \<Rightarrow> sc_proto sc = RC_PROTO_OTHER
    | Some (a, c, bytes, protocol) \<Rightarrow> map_option (\<lambda>(a, c, protocol). (a, c)) (parse_nec_bytes bytes) = Some (a, c)"
    by (cases "sc_proto sc") (simp_all only: decode_scancode_def made Let_def rc_proto.case option.case prod.case)
qed

subsection \<open>The invariant of the session\<close>

datatype receiver_call =
    RStart receiver_env ir_device_info "16 word" bool
  | RStop
  | RPoll "32 word read_result list" "lirc_scancode read_result list"

fun call_receiver :: "lirc_header \<Rightarrow> receiver_call \<Rightarrow> ir_receiver \<Rightarrow> ir_receiver" where
  "call_receiver h (RStart v info expected filter_address) r = snd (start_receiver h v info expected filter_address r)"
| "call_receiver h RStop r = stop_receiver r"
| "call_receiver h (RPoll words codes) r = poll_receiver_session h words codes r"

text \<open>The bytes shown always belong to the address and the command shown.\<close>

definition packet_agrees :: "ir_receive_snapshot \<Rightarrow> bool" where
  "packet_agrees s \<longleftrightarrow> rs_data s = [] \<or> rs_data s = make_nec_bytes (rs_address s) (rs_command s)"

definition receiver_inv :: "ir_receiver \<Rightarrow> bool" where
  "receiver_inv r \<longleftrightarrow>
     (ir_fd r < 0 \<longrightarrow> ir_pulse_space_buffer r = [] \<and> ir_pending_receives r = []) \<and>
     length (ir_pulse_space_buffer r) \<le> 160 \<and>
     (\<forall>s\<in>set (ir_pending_receives r). rs_data_changed s \<and> packet_agrees s) \<and>
     packet_agrees (ir_receive_state r) \<and> packet_agrees (ir_shown r)"

lemma received_agrees:
  "make_nec_bytes address command = bytes \<Longrightarrow> packet_agrees (received_packet bytes address command protocol s)"
  by (simp add: packet_agrees_def received_packet_def Let_def)

lemma finalize_agrees: "packet_agrees s \<Longrightarrow> packet_agrees (finalize_receive ds s)"
  by (auto simp: finalize_receive_def Let_def packet_agrees_def received_packet_def
      dest: parse_nec_bytes_make split: option.splits)

lemma decode_scancode_bytes:
  "decode_scancode sc = Some (a, c, bytes, protocol) \<Longrightarrow> make_nec_bytes a c = bytes"
  using bytes_of_word_of_bytes
  by (auto simp: decode_scancode_def make_standard_nec_bytes_def make_nec_command_def
      word_of_bytes_def Let_def split: rc_proto.splits)

lemma finalize_scancode_agrees: "packet_agrees s \<Longrightarrow> packet_agrees (finalize_receive_scancode sc s)"
  by (auto simp: finalize_receive_scancode_def Let_def packet_agrees_def received_packet_def
      dest: decode_scancode_bytes split: option.splits)

lemma unchanged_agrees: "packet_agrees (s\<lparr>rs_data_changed := b\<rparr>) \<longleftrightarrow> packet_agrees s"
  by (simp add: packet_agrees_def)

lemma end_frame_inv: "receiver_inv r \<or> (ir_fd r \<ge> 0 \<and> receiver_inv (r\<lparr>ir_pulse_space_buffer := []\<rparr>)) \<Longrightarrow>
    ir_fd r \<ge> 0 \<Longrightarrow> receiver_inv (end_frame r)"
  by (auto simp: receiver_inv_def end_frame_def push_change_def finalize_agrees unchanged_agrees)

lemma take_word_inv:
  assumes "receiver_inv r" "ir_fd r \<ge> 0"
  shows "receiver_inv (take_word h word r)"
proof -
  have cleared: "receiver_inv ((buffer_word v r)\<lparr>ir_pulse_space_buffer := []\<rparr>)" for v
    using assms by (simp add: receiver_inv_def buffer_word_def)
  have ended: "receiver_inv (end_frame (buffer_word v r))" for v
    using end_frame_inv [of "buffer_word v r"] cleared assms by (simp add: buffer_word_def)
  have "receiver_inv (check_buffer (buffer_word v r))" for v
  proof (cases "check_buffer (buffer_word v r) = buffer_word v r")
    case True
    then have "length (ir_pulse_space_buffer (buffer_word v r)) \<le> 160"
      using end_frame_kept [of "buffer_word v r"]
      by (auto simp: check_buffer_def buffer_word_def Let_def split: if_splits)
    then show ?thesis using True assms by (auto simp: receiver_inv_def buffer_word_def)
  next
    case False
    then show ?thesis using check_buffer_cases ended by metis
  qed
  moreover have "receiver_inv (check_buffer r)"
    using check_buffer_cases [of r] assms end_frame_inv by metis
  ultimately show ?thesis
    using assms end_frame_inv by (auto simp: take_word_def end_started_frame_def)
qed

lemma take_scancode_inv: "receiver_inv r \<Longrightarrow> ir_fd r \<ge> 0 \<Longrightarrow> receiver_inv (take_scancode sc r)"
  by (auto simp: receiver_inv_def take_scancode_def push_change_def finalize_scancode_agrees unchanged_agrees)

lemma fold_inv:
  assumes "\<And>x r. receiver_inv r \<Longrightarrow> ir_fd r \<ge> 0 \<Longrightarrow> receiver_inv (take_one x r)"
    and "\<And>x r. ir_fd (take_one x r) = ir_fd r"
  shows "receiver_inv r \<Longrightarrow> ir_fd r \<ge> 0 \<Longrightarrow> receiver_inv (fold take_one xs r)"
  using assms by (induction xs arbitrary: r) auto

lemma stop_inv: "receiver_inv r \<or> packet_agrees (ir_shown r) \<Longrightarrow> receiver_inv (stop_receiver r)"
  by (auto simp: receiver_inv_def stop_receiver_def packet_agrees_def empty_snapshot_def)

lemma drain_inv:
  assumes "\<And>x r. receiver_inv r \<Longrightarrow> ir_fd r \<ge> 0 \<Longrightarrow> receiver_inv (take_one x r)"
    and "\<And>x r. ir_fd (take_one x r) = ir_fd r"
    and "receiver_inv r" "ir_fd r \<ge> 0"
  shows "receiver_inv (snd (drain take_one rs r))"
proof -
  have folded: "receiver_inv (fold take_one (data_of rs) r)" by (rule fold_inv [OF assms])
  show ?thesis
  proof (cases "reads_well rs")
    case True
    then show ?thesis using folded by (simp add: drain_well)
  next
    case False
    have told: "packet_agrees ((ir_shown (fold take_one (data_of rs) r))\<lparr>rs_message := m\<rparr>)" for m
      using folded by (simp add: receiver_inv_def packet_agrees_def)
    from drain_ill [OF False, of take_one r] obtain failure where "snd (drain take_one rs r) =
        stop_receiver (let r1 = fold take_one (data_of rs) r in
          r1\<lparr>ir_shown := (ir_shown r1)\<lparr>rs_message := ''Receive failed: '' @ failure\<rparr>\<rparr>)"
      by (metis snd_conv)
    then show ?thesis using told by (simp only: Let_def) (intro stop_inv disjI2, simp)
  qed
qed

lemma pop_inv: "receiver_inv r \<Longrightarrow> receiver_inv (pop_pending r)"
  by (auto simp: receiver_inv_def pop_pending_def split: list.splits)

lemma poll_inv: "receiver_inv r \<Longrightarrow> receiver_inv (poll_receiver_session h words codes r)"
proof -
  assume inv: "receiver_inv r"
  let ?r1 = "r\<lparr>ir_shown := (ir_shown r)\<lparr>rs_data_changed := False\<rparr>\<rparr>"
  have r1: "receiver_inv ?r1" using inv by (simp add: receiver_inv_def unchanged_agrees)
  have "receiver_inv (snd (drain take_scancode codes ?r1))" if "ir_fd r \<ge> 0"
    using that r1 by (intro drain_inv) (auto intro: take_scancode_inv simp: scancode_mode.mode_kept)
  moreover have "receiver_inv (snd (drain (take_word h) words ?r1))" if "ir_fd r \<ge> 0"
    using that r1 by (intro drain_inv) (auto intro: take_word_inv simp: raw_mode.mode_kept)
  ultimately show ?thesis using r1
    by (auto simp: poll_receiver_session_def Let_def case_prod_unfold intro!: pop_inv)
qed

lemma start_inv: "receiver_inv r \<Longrightarrow> receiver_inv (snd (start_receiver h v info expected filter_address r))"
  by (auto simp: start_receiver_def open_receiver_def receiver_inv_def packet_agrees_def empty_snapshot_def
      stop_receiver_def Let_def split: sum.splits option.splits)

text \<open>C28: after any calls with any answers of the kernel a closed session has nothing buffered or
  pending, an open one buffers at most 160 durations, everything pending is a change, and the
  bytes shown, pending or last received are those of the address and command beside them.\<close>

theorem receiver_consistent:
  "receiver_inv (fold (call_receiver h) calls initial_receiver)"
proof -
  have "receiver_inv (fold (call_receiver h) calls r)" if "receiver_inv r" for r
    using that
  proof (induction calls arbitrary: r)
    case (Cons c calls)
    have "receiver_inv (call_receiver h c r)"
      using Cons.prems by (cases c) (auto intro: start_inv stop_inv poll_inv)
    then show ?case using Cons.IH by simp
  qed simp
  moreover have "receiver_inv initial_receiver"
    by (simp add: receiver_inv_def initial_receiver_def packet_agrees_def empty_snapshot_def)
  ultimately show ?thesis by blast
qed

subsection \<open>What the session does not show\<close>

text \<open>
  The state that is queued was copied before the session was marked as open and before a later
  \<open>start\<close> changed the address, so the first packet shows an open session as closed; and a poll
  that receives a signal without a packet shows nothing of it.
\<close>

lemma shown_as_closed:
  "let r = snd (run_polls linux_lirc_header [([ReadData (hd reply_trains)], [])] raw_session) in
   ir_fd r \<ge> 0 \<and> rs_opened (ir_shown raw_session) \<and> \<not> rs_opened (ir_shown r)"
proof -
  have len: "length (fixture_reply 0) = packet_bytes"
    by (simp add: fixture_reply_def make_nec_bytes_def packet_bytes_def)
  have hd: "hd reply_trains = mark_train (encode_nec_packet (fixture_reply 0))"
    by (simp add: reply_trains_def upt_conv_Cons)
  have raw: "raw_session\<lparr>ir_shown := s\<rparr> = raw_session\<lparr>ir_shown := s\<rparr>" for s ..
  have facts: "ir_mode2 raw_session" "ir_pulse_space_buffer raw_session = []" "ir_fd raw_session = 5"
      "\<not> ir_scancode_mode raw_session" "ir_pending_receives raw_session = []"
      "rs_data (ir_receive_state raw_session) = []" "\<not> rs_opened (ir_receive_state raw_session)"
      "rs_opened (ir_shown raw_session)"
    by (simp_all add: raw_session_def start_receiver_def open_receiver_def raw_info_def raw_env_def
        linux_lirc_header_def initial_receiver_def empty_snapshot_def Let_def)
  let ?r1 = "raw_session\<lparr>ir_shown := (ir_shown raw_session)\<lparr>rs_data_changed := False\<rparr>\<rparr>"
  let ?ds = "map (lh_value linux_lirc_header) (mark_train (encode_nec_packet (fixture_reply 0)))"
  let ?s = "finalize_receive ?ds ((ir_receive_state raw_session)\<lparr>rs_data_changed := False\<rparr>)"
  have c: "carries ?ds 0 (fixture_reply 0)"
    using encoded_packet_words [OF len] by (simp add: packet_words_def)
  have opened: "rs_opened (finalize_receive ds s) = rs_opened s" for ds s
    by (auto simp: finalize_receive_def received_packet_def Let_def split: option.splits)
  have "rs_data_changed ?s"
    using finalize_packet(4) [OF c, of "(ir_receive_state raw_session)\<lparr>rs_data_changed := False\<rparr>"] facts(6)
    by (simp add: fixture_reply_def make_nec_bytes_def)
  moreover have "fold (take_word linux_lirc_header) (hd reply_trains) ?r1 =
      end_frame (?r1\<lparr>ir_pulse_space_buffer := ?ds\<rparr>)"
    unfolding hd using facts by (intro packet_taken [OF _ _ encoded_packet_words [OF len]]) simp_all
  ultimately show ?thesis
    using facts opened [of ?ds "(ir_receive_state raw_session)\<lparr>rs_data_changed := False\<rparr>"]
    by (simp add: poll_raw raw_mode.poll_samples_def end_frame_def push_change_def pop_pending_def Let_def
        del: hd_conv_nth)
qed

lemma signal_not_shown:
  assumes "ir_fd r \<ge> 0" "\<not> ir_scancode_mode r" "reads_well words"
    and "ir_pending_receives (fold (take_word h) (data_of words) (r\<lparr>ir_pending_receives := []\<rparr>)) = []"
    and "ir_pending_receives r = []"
  shows "ir_shown (poll_receiver_session h words codes r) = (ir_shown r)\<lparr>rs_data_changed := False\<rparr>"
proof -
  let ?r1 = "r\<lparr>ir_shown := (ir_shown r)\<lparr>rs_data_changed := False\<rparr>\<rparr>"
  have "fold (take_word h) (data_of words) (r\<lparr>ir_pending_receives := [], ir_shown := (ir_shown r)\<lparr>rs_data_changed := False\<rparr>\<rparr>) =
      (let r' = fold (take_word h) (data_of words) (r\<lparr>ir_pending_receives := []\<rparr>) in
       r'\<lparr>ir_pending_receives := [] @ ir_pending_receives r', ir_shown := (ir_shown r)\<lparr>rs_data_changed := False\<rparr>\<rparr>)"
    by (rule raw_mode.fold_queue_only)
  moreover have "r\<lparr>ir_pending_receives := [], ir_shown := (ir_shown r)\<lparr>rs_data_changed := False\<rparr>\<rparr> = ?r1"
    using assms(5) by simp
  ultimately show ?thesis
    using assms(4) by (simp add: poll_raw [OF assms(1-3)] raw_mode.poll_samples_def pop_pending_def Let_def)
qed

lemma retarget_ignored:
  "ir_fd r \<ge> 0 \<Longrightarrow> ir_receive_state (snd (start_receiver h v info expected filter_address r)) = ir_receive_state r"
  by (simp add: start_receiver_def)

subsection \<open>Discovery\<close>

lemma probe_first:
  "(case probe_candidates h e sender cs first_error of
      Inl info \<Rightarrow> di_available info \<and> (\<exists>(rc, path)\<in>set cs. info = make_device_info h e rc path sender)
    | Inr other \<Rightarrow> (\<forall>(rc, path)\<in>set cs. \<not> di_available (make_device_info h e rc path sender)) \<and>
        (other = first_error \<or> (\<exists>(rc, path)\<in>set cs. other = Some (make_device_info h e rc path sender))))"
proof (induction cs arbitrary: first_error)
  case (Cons c cs)
  obtain rc path where c: "c = (rc, path)" by fastforce
  show ?case
    using Cons.IH [of first_error] Cons.IH [of "Some (make_device_info h e rc path sender)"]
    by (auto simp: c Let_def split: sum.splits)
qed simp

lemma device_found:
  "di_available (find_ir_device h e sender) \<longleftrightarrow>
     (\<exists>(rc, path)\<in>set (ir_candidates e). di_available (make_device_info h e rc path sender))"
  using probe_first [where h = h and e = e and sender = sender and cs = "ir_candidates e" and first_error = None]
  by (force simp: find_ir_device_def split: sum.splits option.splits)

end
