(* ===== verification/CapRadio.thy ===== *)
theory CapRadio
  imports Texts Actions "HOL-Library.Word"
begin

section \<open>CapRadio: what the two radio CAP tests share\<close>

text \<open>
  The tests of the CAP LoRa-1262 and the CAP-CC1101 (src/src/model/cap_lora_1262_test_model.cpp
  and cap_cc1101_test_model.cpp) have one worker each, which switches the external 5 V supply
  on, drives the chips over SPI, GPIO and a UART through the services of src/src/platform, and
  switches the supply off when it leaves. The members, the clock and the calls made are the
  record \<open>radio\<close>, with the snapshot as a type parameter. Every call into a service and every
  look at the clock or the cancel flag is one numbered interaction answered by \<open>radio_env\<close>; a
  request to cancel may come before each. Log output is not modelled.
\<close>

unbundle bit_operations_syntax

subsection \<open>The world of a worker\<close>

record radio_env =
  ra_cancel :: "nat \<Rightarrow> bool"
  ra_lapse :: "nat \<Rightarrow> nat" \<comment> \<open>nanoseconds\<close>
  ra_error :: "nat \<Rightarrow> string option" \<comment> \<open>the error message of a call that fails\<close>
  ra_byte :: "nat \<Rightarrow> nat \<Rightarrow> 8 word" \<comment> \<open>the bytes a transfer receives\<close>
  ra_level :: "nat \<Rightarrow> bool" \<comment> \<open>the level of an input line\<close>
  ra_text :: "nat \<Rightarrow> string" \<comment> \<open>what a UART has received\<close>

datatype radio_event =
    PowerWrite bool bool \<comment> \<open>the requested level, success\<close>
  | SpiOpen string bool
  | SpiTransfer "8 word list" bool
  | LineSet string bool bool
  | UartOpen string bool
  | UartWrite string bool

record 's radio =
  rd_snapshot :: 's
  rd_cancel_requested :: bool
  rd_now :: nat
  rd_steps :: nat
  rd_trace :: "radio_event list"

type_synonym ('s, 'a) radio_act = "('s radio, 'a) state"

definition radio_interact :: "radio_env \<Rightarrow> ('s, nat) radio_act" where
  "radio_interact e = State (\<lambda>w.
     (rd_steps w,
      w\<lparr>rd_steps := Suc (rd_steps w), rd_now := rd_now w + ra_lapse e (rd_steps w),
        rd_cancel_requested := rd_cancel_requested w \<or> ra_cancel e (rd_steps w)\<rparr>))"

definition radio_canceled :: "radio_env \<Rightarrow> ('s, bool) radio_act" where
  "radio_canceled e = do { radio_interact e; ask rd_cancel_requested }"

definition radio_now :: "radio_env \<Rightarrow> ('s, nat) radio_act" where
  "radio_now e = do { radio_interact e; ask rd_now }"

definition radio_sleep :: "nat \<Rightarrow> ('s, unit) radio_act" where
  "radio_sleep milliseconds = upd (\<lambda>w. w\<lparr>rd_now := rd_now w + milliseconds * 1000000\<rparr>)"

definition radio_record :: "radio_event \<Rightarrow> ('s, unit) radio_act" where
  "radio_record ev = upd (\<lambda>w. w\<lparr>rd_trace := rd_trace w @ [ev]\<rparr>)"

text \<open>A call that may fail, with the event it leaves: the error or nothing.\<close>

definition radio_call :: "radio_env \<Rightarrow> (bool \<Rightarrow> radio_event) \<Rightarrow> ('s, string option) radio_act" where
  "radio_call e ev = do {
     k \<leftarrow> radio_interact e;
     radio_record (ev (ra_error e k = None));
     ret (ra_error e k) }"

definition power_write :: "radio_env \<Rightarrow> bool \<Rightarrow> ('s, string option) radio_act" where
  "power_write e on = radio_call e (PowerWrite on)"

definition spi_open :: "radio_env \<Rightarrow> string \<Rightarrow> ('s, string option) radio_act" where
  "spi_open e path = radio_call e (SpiOpen path)"

definition line_set :: "radio_env \<Rightarrow> string \<Rightarrow> bool \<Rightarrow> ('s, string option) radio_act" where
  "line_set e name level = radio_call e (LineSet name level)"

text \<open>A transfer receives as many bytes as it sends.\<close>

definition spi_transfer :: "radio_env \<Rightarrow> 8 word list \<Rightarrow> ('s, string + 8 word list) radio_act" where
  "spi_transfer e tx = do {
     k \<leftarrow> radio_interact e;
     radio_record (SpiTransfer tx (ra_error e k = None));
     ret (case ra_error e k of Some failure \<Rightarrow> Inl failure
          | None \<Rightarrow> Inr (map (ra_byte e k) [0..<length tx])) }"

definition radio_hex_text :: "8 word \<Rightarrow> string" where
  "radio_hex_text v = map (\<lambda>i. hex_char (unat (drop_bit (4 * i) v) mod 16)) [1, 0]"

definition radio_hex_byte :: "8 word \<Rightarrow> string" where
  "radio_hex_byte v = ''0x'' @ radio_hex_text v"

subsection \<open>The supply\<close>

definition ext_5v_settle_ms :: nat where "ext_5v_settle_ms = 300"

text \<open>
  The frame of both workers: where the supply cannot be switched on it is switched off again and
  the failure is published; otherwise the body runs and, however it returns, the destructor of
  \<open>PowerCleanup\<close> switches the supply off.
\<close>

definition with_ext_5v ::
  "radio_env \<Rightarrow> (string \<Rightarrow> ('s, unit) radio_act) \<Rightarrow> ('s, unit) radio_act \<Rightarrow> ('s, unit) radio_act" where
  "with_ext_5v e publish_failure body = do {
     enable \<leftarrow> power_write e True;
     (case enable of
        Some power_error \<Rightarrow> do {
          power_write e False;
          publish_failure (''EXT 5V enable failed: '' @ power_error) }
      | None \<Rightarrow> do {
          radio_sleep ext_5v_settle_ms;
          body;
          power_write e False;
          ret () }) }"

definition joined_error :: "string \<Rightarrow> string \<Rightarrow> string" where
  "joined_error before after = (if before = [] then after else before @ '' | '' @ after)"

subsection \<open>Rules\<close>

lemmas radio_act_defs = radio_interact_def radio_canceled_def radio_now_def radio_sleep_def
  radio_record_def radio_call_def power_write_def spi_open_def line_set_def spi_transfer_def
  ret_def ask_def upd_def

text \<open>
  Actions that never take back a request to cancel, never set back the clock and do not touch the
  supply: everything between the power switches.
\<close>

definition no_power :: "radio_event list \<Rightarrow> bool" where
  "no_power evs \<longleftrightarrow> (\<forall>ev\<in>set evs. case ev of PowerWrite on ok \<Rightarrow> False | _ \<Rightarrow> True)"

definition modest :: "('s, 'a) radio_act \<Rightarrow> bool" where
  "modest m \<longleftrightarrow> (\<forall>w. let w' = snd (run_state m w) in
     (rd_cancel_requested w \<longrightarrow> rd_cancel_requested w') \<and>
     rd_now w \<le> rd_now w' \<and> (\<exists>evs. rd_trace w' = rd_trace w @ evs \<and> no_power evs))"

named_theorems modest_intros \<open>actions that do not touch the supply\<close>

lemma no_power_append [simp]: "no_power (a @ b) \<longleftrightarrow> no_power a \<and> no_power b"
  by (auto simp: no_power_def)

lemma no_power_Nil [simp]: "no_power []"
  by (simp add: no_power_def)

lemma modest_ret [modest_intros]: "modest (ret x)"
  by (simp add: modest_def ret_def)

lemma modest_ask [modest_intros]: "modest (ask f)"
  by (simp add: modest_def ask_def)

lemma modest_bind [modest_intros]:
  assumes "modest m" "\<And>x. modest (f x)"
  shows "modest (m \<bind> f)"
  unfolding modest_def
proof
  fix w
  obtain x w1 where m: "run_state m w = (x, w1)" by fastforce
  obtain y w2 where f: "run_state (f x) w1 = (y, w2)" by fastforce
  have "(rd_cancel_requested w \<longrightarrow> rd_cancel_requested w1) \<and> rd_now w \<le> rd_now w1 \<and>
      (\<exists>evs. rd_trace w1 = rd_trace w @ evs \<and> no_power evs)"
    using assms(1) m unfolding modest_def Let_def by (metis snd_conv)
  moreover have "(rd_cancel_requested w1 \<longrightarrow> rd_cancel_requested w2) \<and> rd_now w1 \<le> rd_now w2 \<and>
      (\<exists>evs. rd_trace w2 = rd_trace w1 @ evs \<and> no_power evs)"
    using assms(2) f unfolding modest_def Let_def by (metis snd_conv)
  ultimately show "let w' = snd (run_state (m \<bind> f) w) in (rd_cancel_requested w \<longrightarrow> rd_cancel_requested w') \<and>
      rd_now w \<le> rd_now w' \<and> (\<exists>evs. rd_trace w' = rd_trace w @ evs \<and> no_power evs)"
    using m f by auto
qed

lemma modest_if [modest_intros]: "modest m \<Longrightarrow> modest n \<Longrightarrow> modest (if b then m else n)"
  by simp

lemma modest_option [modest_intros]:
  "modest m \<Longrightarrow> (\<And>y. modest (f y)) \<Longrightarrow> modest (case x of None \<Rightarrow> m | Some y \<Rightarrow> f y)"
  by (cases x) simp_all

lemma modest_sum [modest_intros]:
  "(\<And>y. modest (f y)) \<Longrightarrow> (\<And>y. modest (g y)) \<Longrightarrow> modest (case x of Inl y \<Rightarrow> f y | Inr y \<Rightarrow> g y)"
  by (cases x) simp_all

lemma modest_pair [modest_intros]: "(\<And>a b. modest (f a b)) \<Longrightarrow> modest (case x of (a, b) \<Rightarrow> f a b)"
  by (cases x) simp

lemma modest_calls [modest_intros]:
  "modest (radio_interact e)" "modest (radio_canceled e)" "modest (radio_now e)" "modest (radio_sleep n)"
  "modest (spi_open e path)" "modest (line_set e name level)" "modest (spi_transfer e tx)"
  by (auto simp: modest_def radio_act_defs no_power_def)

lemma modest_snapshot: "modest (upd (\<lambda>w. w\<lparr>rd_snapshot := f (rd_snapshot w)\<rparr>))"
  by (simp add: modest_def upd_def)

end
