(* ===== verification/Cc1101.thy ===== *)
theory Cc1101
  imports CapRadio
begin

section \<open>Cc1101: the CAP-CC1101 test\<close>

text \<open>
  The service src/src/platform/cap_cc1101_service.cpp, which identifies the CC1101 and the
  ST25R3916 by their registers, and the class \<open>CapCc1101TestModel\<close> of
  src/src/model/cap_cc1101_test_model.cpp over it. A function that returns false with an error
  text is an action with a result \<open>Inl\<close>; the fields of a result it has already filled are kept.
\<close>

subsection \<open>Data\<close>

record cc1101_result =
  cc_detected :: bool
  cc_initialized :: bool
  cc_part_number :: "8 word"
  cc_version :: "8 word"
  cc_chip_status :: "8 word"
  cc_marc_state :: "8 word"
  cc_packet_status :: "8 word"
  cc_error_message :: string

record st25r3916_result =
  st_detected :: bool
  st_communication_verified :: bool
  st_identity :: "8 word"
  st_identity_readback :: "8 word"
  st_operation_control :: "8 word"
  st_fifo_status1 :: "8 word"
  st_fifo_status2 :: "8 word"
  st_error_message :: string

datatype cc_run_state = CR_WAITING_FOR_CAP | CR_RUNNING | CR_PASSED | CR_FAILED | CR_CANCELED
datatype cc_item_state = CI_PENDING | CI_RUNNING | CI_PASSED | CI_FAILED

record cc_item =
  ci_name :: string
  ci_state :: cc_item_state
  ci_detail :: string

record cc_snapshot =
  cs_state :: cc_run_state
  cs_items :: "cc_item list" \<comment> \<open>std::array of two\<close>
  cs_headline :: string
  cs_error_message :: string
  cs_revision :: "32 word"

type_synonym 'a cc_act = "(cc_snapshot, 'a) radio_act"

definition cc_sres :: "8 word" where "cc_sres = 0x30"
definition cc_sidle :: "8 word" where "cc_sidle = 0x36"
definition cc_partnum :: "8 word" where "cc_partnum = 0x30"
definition cc_version_reg :: "8 word" where "cc_version_reg = 0x31"
definition cc_marcstate :: "8 word" where "cc_marcstate = 0x35"
definition cc_pktstatus :: "8 word" where "cc_pktstatus = 0x38"
definition cc_status_read :: "8 word" where "cc_status_read = 0xC0"
definition cc_idle_state :: "8 word" where "cc_idle_state = 0x01"
definition st_operation_control_reg :: "8 word" where "st_operation_control_reg = 0x02"
definition st_fifo_status1_reg :: "8 word" where "st_fifo_status1_reg = 0x1E"
definition st_fifo_status2_reg :: "8 word" where "st_fifo_status2_reg = 0x1F"
definition st_identity_reg :: "8 word" where "st_identity_reg = 0x3F"
definition st_register_read :: "8 word" where "st_register_read = 0x40"

subsection \<open>Publishing\<close>

definition cc_publish :: "(cc_snapshot \<Rightarrow> cc_snapshot) \<Rightarrow> unit cc_act" where
  "cc_publish f = upd (\<lambda>w. w\<lparr>rd_snapshot :=
     (f (rd_snapshot w))\<lparr>cs_revision := cs_revision (f (rd_snapshot w)) + 1\<rparr>\<rparr>)"

definition cc_set_item :: "nat \<Rightarrow> (cc_item \<Rightarrow> cc_item) \<Rightarrow> cc_snapshot \<Rightarrow> cc_snapshot" where
  "cc_set_item i f s = s\<lparr>cs_items := (cs_items s)[i := f (cs_items s ! i)]\<rparr>"

definition cc_detail :: "nat \<Rightarrow> string \<Rightarrow> unit cc_act" where
  "cc_detail i detail = cc_publish (cc_set_item i (\<lambda>it. it\<lparr>ci_detail := detail\<rparr>))"

subsection \<open>The CC1101 over SPI\<close>

definition cc_strobe :: "radio_env \<Rightarrow> 8 word \<Rightarrow> (string + 8 word) cc_act" where
  "cc_strobe e command = do {
     answer \<leftarrow> spi_transfer e [command];
     ret (case answer of
            Inl failure \<Rightarrow> Inl failure
          | Inr rx \<Rightarrow> if rx = [] then Inl (''empty SPI response to strobe '' @ radio_hex_byte command)
                      else Inr (rx ! 0)) }"

definition cc_read_status :: "radio_env \<Rightarrow> 8 word \<Rightarrow> (string + 8 word) cc_act" where
  "cc_read_status e reg = do {
     answer \<leftarrow> spi_transfer e [reg OR cc_status_read, 0x00];
     ret (case answer of
            Inl failure \<Rightarrow> Inl failure
          | Inr rx \<Rightarrow> if length rx < 2 then Inl (''short SPI response from status register '' @ radio_hex_byte reg)
                      else Inr (rx ! 1)) }"

text \<open>A chain \<open>!a || !b || ...\<close> of reads into fields of a result, which ends at the first error.\<close>

fun read_fields :: "((string + 8 word) cc_act \<times> (8 word \<Rightarrow> 'r \<Rightarrow> 'r)) list \<Rightarrow> 'r \<Rightarrow> (string option \<times> 'r) cc_act" where
  "read_fields [] r = ret (None, r)"
| "read_fields ((act, store) # rest) r = do {
     answer \<leftarrow> act;
     (case answer of
        Inl failure \<Rightarrow> ret (Some failure, r)
      | Inr v \<Rightarrow> read_fields rest (store v r)) }"

definition empty_cc1101 :: cc1101_result where
  "empty_cc1101 = \<lparr>cc_detected = False, cc_initialized = False, cc_part_number = 0, cc_version = 0,
     cc_chip_status = 0, cc_marc_state = 0, cc_packet_status = 0, cc_error_message = []\<rparr>"

definition cc_fields :: "radio_env \<Rightarrow> ((string + 8 word) cc_act \<times> (8 word \<Rightarrow> cc1101_result \<Rightarrow> cc1101_result)) list" where
  "cc_fields e =
     [(cc_strobe e cc_sidle, \<lambda>v r. r\<lparr>cc_chip_status := v\<rparr>),
      (cc_read_status e cc_partnum, \<lambda>v r. r\<lparr>cc_part_number := v\<rparr>),
      (cc_read_status e cc_version_reg, \<lambda>v r. r\<lparr>cc_version := v\<rparr>),
      (cc_read_status e cc_marcstate, \<lambda>v r. r\<lparr>cc_marc_state := v\<rparr>),
      (cc_read_status e cc_pktstatus, \<lambda>v r. r\<lparr>cc_packet_status := v\<rparr>)]"

text \<open>The judgement at the end of \<open>probe_cc1101\<close>.\<close>

definition judge_cc1101 :: "cc1101_result \<Rightarrow> cc1101_result" where
  "judge_cc1101 r =
     (let detected = cc_part_number r = 0x00 \<and> cc_version r \<in> {0x04, 0x14, 0x17};
          r1 = r\<lparr>cc_detected := detected\<rparr>
      in if \<not> detected
         then r1\<lparr>cc_error_message := ''unexpected PARTNUM='' @ radio_hex_byte (cc_part_number r) @
           '' VERSION='' @ radio_hex_byte (cc_version r)\<rparr>
      else if cc_chip_status r AND 0x80 \<noteq> 0 \<or> cc_marc_state r AND 0x1F \<noteq> cc_idle_state
         then r1\<lparr>cc_error_message := ''unexpected status='' @ radio_hex_byte (cc_chip_status r) @
           '' MARCSTATE='' @ radio_hex_byte (cc_marc_state r)\<rparr>
      else r1\<lparr>cc_initialized := True\<rparr>)"

definition run_cc1101_test :: "radio_env \<Rightarrow> cc1101_result cc_act" where
  "run_cc1101_test e = do {
     opened \<leftarrow> spi_open e ''/dev/spidev0.1'';
     (case opened of
        Some failure \<Rightarrow> ret (empty_cc1101\<lparr>cc_error_message := failure\<rparr>)
      | None \<Rightarrow> do {
          cc_detail 0 ''Resetting CC1101 and reading identity/status'';
          reset \<leftarrow> cc_strobe e cc_sres;
          (case reset of
             Inl failure \<Rightarrow> ret (empty_cc1101\<lparr>cc_error_message := failure\<rparr>)
           | Inr status \<Rightarrow> do {
               radio_sleep 150;
               canceled \<leftarrow> radio_canceled e;
               if canceled then ret (empty_cc1101\<lparr>cc_error_message := ''test canceled''\<rparr>)
               else do {
                 (failed, r) \<leftarrow> read_fields (cc_fields e) empty_cc1101;
                 ret (case failed of
                        Some failure \<Rightarrow> r\<lparr>cc_error_message := failure\<rparr>
                      | None \<Rightarrow> judge_cc1101 r) } }) }) }"

subsection \<open>The ST25R3916 with its chip select on a GPIO line\<close>

definition st_chip_select :: string where "st_chip_select = ''GPIO22''"

definition transfer_with_software_cs :: "radio_env \<Rightarrow> 8 word list \<Rightarrow> (string + 8 word list) cc_act" where
  "transfer_with_software_cs e tx = do {
     asserted \<leftarrow> line_set e st_chip_select False;
     (case asserted of
        Some failure \<Rightarrow> ret (Inl (''assert software CS: '' @ failure))
      | None \<Rightarrow> do {
          answer \<leftarrow> spi_transfer e tx;
          deasserted \<leftarrow> line_set e st_chip_select True;
          ret (case deasserted of
                 Some failure \<Rightarrow> Inl (joined_error (case answer of Inl before \<Rightarrow> before | Inr rx \<Rightarrow> [])
                   (''deassert software CS: '' @ failure))
               | None \<Rightarrow> answer) }) }"

definition read_st_register :: "radio_env \<Rightarrow> 8 word \<Rightarrow> (string + 8 word) cc_act" where
  "read_st_register e reg = do {
     answer \<leftarrow> transfer_with_software_cs e [st_register_read OR reg, 0x00];
     ret (case answer of
            Inl failure \<Rightarrow> Inl failure
          | Inr rx \<Rightarrow> if length rx < 2 then Inl (''short SPI response from register '' @ radio_hex_byte reg)
                      else Inr (rx ! 1)) }"

definition empty_st25r3916 :: st25r3916_result where
  "empty_st25r3916 = \<lparr>st_detected = False, st_communication_verified = False, st_identity = 0,
     st_identity_readback = 0, st_operation_control = 0, st_fifo_status1 = 0, st_fifo_status2 = 0,
     st_error_message = []\<rparr>"

definition st_fields :: "radio_env \<Rightarrow> ((string + 8 word) cc_act \<times> (8 word \<Rightarrow> st25r3916_result \<Rightarrow> st25r3916_result)) list" where
  "st_fields e =
     [(read_st_register e st_identity_reg, \<lambda>v r. r\<lparr>st_identity := v\<rparr>),
      (read_st_register e st_operation_control_reg, \<lambda>v r. r\<lparr>st_operation_control := v\<rparr>),
      (read_st_register e st_fifo_status1_reg, \<lambda>v r. r\<lparr>st_fifo_status1 := v\<rparr>),
      (read_st_register e st_fifo_status2_reg, \<lambda>v r. r\<lparr>st_fifo_status2 := v\<rparr>),
      (read_st_register e st_identity_reg, \<lambda>v r. r\<lparr>st_identity_readback := v\<rparr>)]"

definition judge_st25r3916 :: "st25r3916_result \<Rightarrow> st25r3916_result" where
  "judge_st25r3916 r =
     (let detected = drop_bit 3 (st_identity r) = 0x05;
          verified = detected \<and> st_identity_readback r = st_identity r;
          r1 = r\<lparr>st_detected := detected, st_communication_verified := verified\<rparr>
      in if \<not> verified
         then r1\<lparr>st_error_message :=
           (if detected then ''identity readback mismatch: '' @ radio_hex_byte (st_identity_readback r)
            else ''unexpected IC identity '' @ radio_hex_byte (st_identity r))\<rparr>
      else r1)"

definition run_st25r3916_test :: "radio_env \<Rightarrow> st25r3916_result cc_act" where
  "run_st25r3916_test e = do {
     idle \<leftarrow> line_set e st_chip_select True;
     (case idle of
        Some failure \<Rightarrow> ret (empty_st25r3916\<lparr>st_error_message := ''initialize GPIO22 software CS: '' @ failure\<rparr>)
      | None \<Rightarrow> do {
          opened \<leftarrow> spi_open e ''/dev/spidev0.1'';
          (case opened of
             Some failure \<Rightarrow> ret (empty_st25r3916\<lparr>st_error_message := failure\<rparr>)
           | None \<Rightarrow> do {
               cc_detail 1 ''Reading ST25R3916 identity/status registers'';
               (failed, r) \<leftarrow> read_fields (st_fields e) empty_st25r3916;
               (case failed of
                  Some failure \<Rightarrow> ret (r\<lparr>st_error_message := failure\<rparr>)
                | None \<Rightarrow> do {
                    canceled \<leftarrow> radio_canceled e;
                    ret (if canceled then r\<lparr>st_error_message := ''test canceled''\<rparr>
                         else judge_st25r3916 r) }) }) }) }"

subsection \<open>The model (cap_cc1101_test_model.cpp)\<close>

definition initial_cc :: "cc_snapshot radio" where
  "initial_cc = \<lparr>rd_snapshot = \<lparr>cs_state = CR_WAITING_FOR_CAP,
       cs_items = [\<lparr>ci_name = ''CC1101'', ci_state = CI_PENDING, ci_detail = ''Waiting''\<rparr>,
                   \<lparr>ci_name = ''ST25R'', ci_state = CI_PENDING, ci_detail = ''Waiting''\<rparr>],
       cs_headline = ''Install CAP-CC1101, then press Enter'', cs_error_message = [], cs_revision = 0\<rparr>,
     rd_cancel_requested = False, rd_now = 0, rd_steps = 0, rd_trace = []\<rparr>"

definition cc_publish_canceled :: "unit cc_act" where
  "cc_publish_canceled = cc_publish (\<lambda>s. s\<lparr>cs_state := CR_CANCELED, cs_headline := ''Test canceled''\<rparr>)"

definition cc_publish_power_failure :: "string \<Rightarrow> unit cc_act" where
  "cc_publish_power_failure message = cc_publish (\<lambda>s.
     (cc_set_item 0 (\<lambda>it. it\<lparr>ci_state := CI_FAILED, ci_detail := message\<rparr>) s)
       \<lparr>cs_state := CR_FAILED, cs_headline := ''CAP-CC1101 test failed'', cs_error_message := message\<rparr>)"

definition cc_ok :: "cc1101_result \<Rightarrow> bool" where
  "cc_ok cc \<longleftrightarrow> cc_detected cc \<and> cc_initialized cc"

definition st_ok :: "st25r3916_result \<Rightarrow> bool" where
  "st_ok st \<longleftrightarrow> st_detected st \<and> st_communication_verified st"

definition cc_publish_first :: "cc1101_result \<Rightarrow> unit cc_act" where
  "cc_publish_first cc = cc_publish (\<lambda>s.
     (cc_set_item 1 (\<lambda>it. it\<lparr>ci_state := CI_RUNNING, ci_detail := ''SPI bus via spidev0.1, software CS on GPIO22''\<rparr>)
       (cc_set_item 0 (\<lambda>it. it\<lparr>ci_state := (if cc_ok cc then CI_PASSED else CI_FAILED),
          ci_detail := (if cc_ok cc
            then ''PART '' @ radio_hex_byte (cc_part_number cc) @ '' VER '' @ radio_hex_byte (cc_version cc) @ '' ST '' @
              radio_hex_byte (cc_chip_status cc) @ '' MARC '' @ radio_hex_byte (cc_marc_state cc)
            else cc_error_message cc)\<rparr>) s))
       \<lparr>cs_headline := ''Testing ST25R3916 over SPI''\<rparr>)"

definition cc_publish_verdict :: "cc1101_result \<Rightarrow> st25r3916_result \<Rightarrow> unit cc_act" where
  "cc_publish_verdict cc st = cc_publish (\<lambda>s.
     (let passed = cc_ok cc \<and> st_ok st;
          first_error = (if cc_ok cc then cs_error_message s else cc_error_message cc)
      in (cc_set_item 1 (\<lambda>it. it\<lparr>ci_state := (if st_ok st then CI_PASSED else CI_FAILED),
          ci_detail := (if st_ok st
            then ''ID '' @ radio_hex_byte (st_identity st) @ '' OP '' @ radio_hex_byte (st_operation_control st) @
              '' FIFO '' @ radio_hex_byte (st_fifo_status1 st) @ ''/'' @ radio_hex_byte (st_fifo_status2 st)
            else st_error_message st)\<rparr>) s)
       \<lparr>cs_state := (if passed then CR_PASSED else CR_FAILED),
        cs_headline := (if passed then ''CAP-CC1101 test passed'' else ''CAP-CC1101 test failed''),
        cs_error_message := (if st_ok st then first_error else joined_error first_error (st_error_message st))\<rparr>))"

definition cc_tests :: "radio_env \<Rightarrow> unit cc_act" where
  "cc_tests e = do {
     cc \<leftarrow> run_cc1101_test e;
     canceled \<leftarrow> radio_canceled e;
     if canceled then cc_publish_canceled
     else do {
       cc_publish_first cc;
       st \<leftarrow> run_st25r3916_test e;
       canceled \<leftarrow> radio_canceled e;
       if canceled then cc_publish_canceled else cc_publish_verdict cc st } }"

definition run_cc :: "radio_env \<Rightarrow> unit cc_act" where
  "run_cc e = with_ext_5v e cc_publish_power_failure (cc_tests e)"

definition cancel_cc :: "cc_snapshot radio \<Rightarrow> cc_snapshot radio" where
  "cancel_cc w = w\<lparr>rd_cancel_requested := True\<rparr>"

definition reset_cc :: "cc_snapshot radio \<Rightarrow> cc_snapshot radio" where
  "reset_cc w = snd (run_state (cc_publish (\<lambda>s.
     s\<lparr>cs_state := CR_RUNNING, cs_headline := ''Testing CC1101 over SPI'', cs_error_message := [],
       cs_items := [\<lparr>ci_name = ''CC1101'', ci_state = CI_RUNNING, ci_detail = ''Opening /dev/spidev0.1''\<rparr>,
                    \<lparr>ci_name = ''ST25R'', ci_state = CI_PENDING, ci_detail = ''Waiting''\<rparr>]\<rparr>))
     (w\<lparr>rd_cancel_requested := False\<rparr>))"

text \<open>\<open>start ()\<close> waits for the previous worker, resets the snapshot and runs the next.\<close>

definition start_cc :: "radio_env \<Rightarrow> cc_snapshot radio \<Rightarrow> cc_snapshot radio" where
  "start_cc e w = snd (run_state (run_cc e) (reset_cc (cancel_cc w)))"

definition cc_item_state_text :: "cc_item_state \<Rightarrow> string" where
  "cc_item_state_text s = (case s of
     CI_RUNNING \<Rightarrow> ''RUN'' | CI_PASSED \<Rightarrow> ''PASS'' | CI_FAILED \<Rightarrow> ''FAIL'' | CI_PENDING \<Rightarrow> ''WAIT'')"

end
