(* ===== verification/Nmea.thy ===== *)
theory Nmea
  imports Texts "HOL-Library.Word"
begin

section \<open>Nmea: the lines of the GPS receiver\<close>

text \<open>
  The part of src/src/platform/cap_lora_1262_service.cpp that takes the text of the UART apart:
  lines, the line with the information about the IC, and navigation sentences with their
  checksum. The lemmas say which sentences are accepted and that a sentence in which one
  character was changed is not.
\<close>

unbundle bit_operations_syntax

record gps_result =
  gr_nmea_detected :: bool
  gr_valid_sentence_count :: "32 word"
  gr_last_sentence_type :: string
  gr_ic_info :: string
  gr_error_message :: string

definition empty_gps :: gps_result where
  "empty_gps = \<lparr>gr_nmea_detected = False, gr_valid_sentence_count = 0, gr_last_sentence_type = [],
     gr_ic_info = [], gr_error_message = []\<rparr>"

definition hex_nibble :: "char \<Rightarrow> nat option" where
  "hex_nibble c =
     (let n = of_char c :: nat; u = of_char (to_upper c) :: nat in
      if 48 \<le> n \<and> n \<le> 57 then Some (n - 48)
      else if 65 \<le> u \<and> u \<le> 70 then Some (u - 65 + 10) else None)"

definition byte_of :: "char \<Rightarrow> 8 word" where
  "byte_of c = word_of_nat (of_char c)"

definition xor_checksum :: "string \<Rightarrow> 8 word" where
  "xor_checksum s = foldl (\<lambda>sum c. sum XOR byte_of c) 0 s"

definition navigation_types :: "string list" where
  "navigation_types = [''GGA'', ''GLL'', ''GSA'', ''GSV'', ''RMC'', ''VTG'', ''ZDA'', ''GST'']"

text \<open>The type of the sentence in a line, where the line is a navigation sentence that checks.\<close>

definition navigation_type :: "string \<Rightarrow> string option" where
  "navigation_type line =
     (if length line < 7 \<or> line ! 0 \<noteq> CHR ''$'' then None
      else case (find_char (\<lambda>c. c = CHR '','') line, find_char (\<lambda>c. c = CHR ''*'') line) of
        (Some comma, Some star) \<Rightarrow>
          (if comma < 3 \<or> star + 2 \<ge> length line then None
           else case (hex_nibble (line ! (star + 1)), hex_nibble (line ! (star + 2))) of
             (Some high, Some low) \<Rightarrow>
               (if xor_checksum (take (star - 1) (drop 1 line)) \<noteq> word_of_nat (16 * high + low) then None
                else (let sentence_id = take (comma - 1) (drop 1 line) in
                  if length sentence_id < 3 then None
                  else (let typ = drop (length sentence_id - 3) sentence_id in
                    if typ \<in> set navigation_types then Some typ else None)))
           | _ \<Rightarrow> None)
      | _ \<Rightarrow> None)"

definition inspect_navigation_nmea_line :: "string \<Rightarrow> gps_result \<Rightarrow> gps_result" where
  "inspect_navigation_nmea_line line r = (case navigation_type line of
     None \<Rightarrow> r
   | Some typ \<Rightarrow> r\<lparr>gr_nmea_detected := True, gr_valid_sentence_count := gr_valid_sentence_count r + 1,
       gr_last_sentence_type := typ\<rparr>)"

definition inspect_uart_ic_line :: "string \<Rightarrow> gps_result \<Rightarrow> gps_result" where
  "inspect_uart_ic_line raw_line r =
     (let line = trim_text raw_line; normalized = map to_upper line in
      if line = [] then r
      else if contains normalized ''IC='' \<or> contains normalized ''IC:'' then r\<lparr>gr_ic_info := line\<rparr>
      else r)"

subsection \<open>Lines\<close>

definition is_line_end :: "char \<Rightarrow> bool" where
  "is_line_end c \<longleftrightarrow> c = CHR 0x0D \<or> c = CHR 0x0A"

text \<open>
  The inner loop: the lines that are complete, and what is left. After a line every further line
  end is dropped, so no line but the first is empty.
\<close>

function take_lines :: "string \<Rightarrow> string list \<times> string" where
  "take_lines pending = (case find_char is_line_end pending of
     None \<Rightarrow> ([], pending)
   | Some newline \<Rightarrow>
       (let (lines, rest) = take_lines (dropWhile is_line_end (drop (newline + 1) pending)) in
        (take newline pending # lines, rest)))"
  by auto
termination
proof (relation "measure length", goal_cases)
  case (2 pending newline)
  then have "newline < length pending" by (simp add: find_char_Some)
  moreover have "length (dropWhile is_line_end (drop (newline + 1) pending)) \<le> length pending - (newline + 1)"
    using length_dropWhile_le [of is_line_end "drop (newline + 1) pending"] by (simp del: add_Suc_right)
  ultimately show ?case by simp
qed simp

declare take_lines.simps [simp del]

text \<open>A pending line that grows beyond 2048 characters loses all but its last 1024.\<close>

definition shorten_pending :: "string \<Rightarrow> string" where
  "shorten_pending pending =
     (if length pending > 2048 then drop (length pending - 1024) pending else pending)"

subsection \<open>Which sentences are accepted\<close>

definition hex_digit_of :: "nat \<Rightarrow> char" where
  "hex_digit_of n = (if n < 10 then char_of (48 + n) else char_of (55 + n))"

text \<open>A sentence as a receiver builds it.\<close>

definition nmea_sentence :: "string \<Rightarrow> string \<Rightarrow> string \<Rightarrow> string" where
  "nmea_sentence talker typ values =
     (let body = talker @ typ @ '','' @ values; total = unat (xor_checksum body) in
      ''$'' @ body @ ''*'' @ [hex_digit_of (total div 16), hex_digit_of (total mod 16)])"

lemma hex_nibble_digit: "n < 16 \<Longrightarrow> hex_nibble (hex_digit_of n) = Some n"
proof -
  assume "n < 16"
  then consider "n < 10" | "10 \<le> n" "n < 16" by linarith
  then show ?thesis
  proof cases
    case 1
    then show ?thesis by (simp add: hex_nibble_def hex_digit_of_def Let_def)
  next
    case 2
    then show ?thesis by (auto simp: hex_nibble_def hex_digit_of_def to_upper_def Let_def)
  qed
qed

lemma byte_of_eq: "byte_of c = byte_of d \<longleftrightarrow> c = d"
proof
  assume "byte_of c = byte_of d"
  then have "unat (byte_of c) = unat (byte_of d)" by simp
  moreover have "unat (byte_of x) = of_char x" for x
    by (simp add: byte_of_def unat_of_nat take_bit_nat_eq_self)
  ultimately show "c = d" by simp
qed simp

lemma foldl_xor: "foldl (\<lambda>sum c. sum XOR byte_of c) v s = v XOR xor_checksum s"
proof (induction s arbitrary: v)
  case (Cons c s)
  have "foldl (\<lambda>sum c. sum XOR byte_of c) v (c # s) = (v XOR byte_of c) XOR xor_checksum s"
    using Cons.IH by simp
  moreover have "xor_checksum (c # s) = byte_of c XOR xor_checksum s"
    using Cons.IH [of "byte_of c"] by (simp add: xor_checksum_def)
  ultimately show ?case by (simp add: xor.assoc)
qed (simp add: xor_checksum_def)

lemma xor_checksum_append: "xor_checksum (a @ b) = xor_checksum a XOR xor_checksum b"
  using foldl_xor [of "xor_checksum a" b] by (simp add: xor_checksum_def)

lemma xor_checksum_Cons: "xor_checksum (c # s) = byte_of c XOR xor_checksum s"
  using xor_checksum_append [of "[c]" s] by (simp add: xor_checksum_def)

lemma xor_cancel_byte: "(x :: 8 word) XOR y = x XOR z \<longleftrightarrow> y = z"
  by (auto simp: bit_eq_iff bit_xor_iff)

lemma xor_checksum_change:
  "c \<noteq> d \<Longrightarrow> xor_checksum (a @ c # b) \<noteq> xor_checksum (a @ d # b)"
proof
  assume "c \<noteq> d" "xor_checksum (a @ c # b) = xor_checksum (a @ d # b)"
  then have "xor_checksum a XOR (byte_of c XOR xor_checksum b) = xor_checksum a XOR (byte_of d XOR xor_checksum b)"
    by (simp add: xor_checksum_append xor_checksum_Cons)
  then have "byte_of c = byte_of d"
    using xor_cancel_byte xor.commute by metis
  then show False using \<open>c \<noteq> d\<close> by (simp add: byte_of_eq)
qed

text \<open>The checksum is read back from its two digits.\<close>

lemma checksum_digits:
  "hex_nibble (hex_digit_of (unat (v :: 8 word) div 16)) = Some (unat v div 16)"
  "hex_nibble (hex_digit_of (unat v mod 16)) = Some (unat v mod 16)"
  "word_of_nat (16 * (unat v div 16) + unat v mod 16) = v"
proof -
  have "unat v < 2 ^ LENGTH(8)" by (rule unsigned_less)
  then have "unat v < 256" by simp
  then show "hex_nibble (hex_digit_of (unat v div 16)) = Some (unat v div 16)"
    by (intro hex_nibble_digit) linarith
  show "hex_nibble (hex_digit_of (unat v mod 16)) = Some (unat v mod 16)"
    by (rule hex_nibble_digit) simp
  show "word_of_nat (16 * (unat v div 16) + unat v mod 16) = v" by simp
qed

text \<open>A line of the form \<open>$body*hl...\<close>, seen by the code.\<close>

lemma navigation_type_form:
  assumes "CHR ''*'' \<notin> set body" "tail = high # low # rest"
  shows "navigation_type (CHR ''$'' # body @ CHR ''*'' # tail) =
    (case find_char (\<lambda>c. c = CHR '','') (CHR ''$'' # body @ CHR ''*'' # tail) of
       None \<Rightarrow> None
     | Some comma \<Rightarrow>
         if length body + 4 + length rest < 7 \<or> comma < 3 then None
         else (case (hex_nibble high, hex_nibble low) of
           (Some h, Some l) \<Rightarrow>
             if xor_checksum body \<noteq> word_of_nat (16 * h + l) then None
             else (let sentence_id = take (comma - 1) (body @ CHR ''*'' # tail) in
               if length sentence_id < 3 then None
               else (let typ = drop (length sentence_id - 3) sentence_id in
                 if typ \<in> set navigation_types then Some typ else None))
         | _ \<Rightarrow> None))"
proof -
  let ?line = "CHR ''$'' # body @ CHR ''*'' # tail"
  have star: "find_char (\<lambda>c. c = CHR ''*'') ?line = Some (Suc (length body))"
    using find_char_append [of "CHR ''$'' # body" "\<lambda>c. c = CHR ''*''" "CHR ''*''" tail] assms(1) by auto
  have digits: "?line ! (Suc (length body) + 1) = high" "?line ! (Suc (length body) + 2) = low"
    using assms(2) by (simp_all add: nth_append)
  have "take (Suc (length body) - 1) (drop 1 ?line) = body" "drop 1 ?line = body @ CHR ''*'' # tail"
    "?line ! 0 = CHR ''$''" "length ?line = length body + 4 + length rest"
    "\<not> Suc (length body) + 2 \<ge> length ?line"
    using assms(2) by simp_all
  then show ?thesis
    unfolding navigation_type_def star digits
    by (cases "find_char (\<lambda>c. c = CHR '','') ?line"; cases "hex_nibble high"; cases "hex_nibble low")
      (simp_all only: option.case prod.case digits if_False if_True simp_thms if_cancel
        if_bool_eq_disj cong: if_cong, auto)
qed

text \<open>
  What a checked navigation sentence is: a dollar sign, a name that ends with one of the types,
  a comma; and the two hexadecimal digits after the first star are the checksum of everything
  between the dollar sign and that star.
\<close>

definition checked_sentence :: "string \<Rightarrow> string \<Rightarrow> bool" where
  "checked_sentence typ line \<longleftrightarrow> typ \<in> set navigation_types \<and>
     (\<exists>talker values. line = ''$'' @ talker @ typ @ '','' @ values \<and> CHR '','' \<notin> set talker) \<and>
     (\<exists>body high low rest h l. line = ''$'' @ body @ ''*'' @ high # low # rest \<and> CHR ''*'' \<notin> set body \<and>
        hex_nibble high = Some h \<and> hex_nibble low = Some l \<and> xor_checksum body = word_of_nat (16 * h + l))"

lemma type_letters:
  assumes "typ \<in> set navigation_types"
  shows "length typ = 3" "CHR '','' \<notin> set typ" "CHR ''*'' \<notin> set typ" "hex_nibble (typ ! 0) = None"
  using assms by (auto simp: navigation_types_def hex_nibble_def to_upper_def Let_def)

lemma first_star:
  "x \<notin> set a \<Longrightarrow> x \<notin> set b \<Longrightarrow> a @ x # c = b @ x # d \<longleftrightarrow> a = b \<and> c = d"
  by (auto simp: append_eq_append_conv2 append_eq_Cons_conv Cons_eq_append_conv)

lemma line_star:
  assumes "line ! 0 = CHR ''$''" "find_char (\<lambda>c. c = CHR ''*'') line = Some star"
  shows "line = CHR ''$'' # take (star - 1) (drop 1 line) @ CHR ''*'' # drop (Suc star) line"
    "CHR ''*'' \<notin> set (take (star - 1) (drop 1 line))"
proof -
  obtain n where n: "star = Suc n" using assms by (cases star) (auto simp: find_char_Some)
  obtain c cs where line: "line = c # cs" using assms by (cases line) auto
  have c: "c = CHR ''$''" using assms(1) line by simp
  show "line = CHR ''$'' # take (star - 1) (drop 1 line) @ CHR ''*'' # drop (Suc star) line"
    using find_char_split [OF assms(2)] assms(2) by (simp add: line n c find_char_Some)
  show "CHR ''*'' \<notin> set (take (star - 1) (drop 1 line))"
    using find_char_Some [THEN iffD1, OF assms(2)] by (auto simp: line n c simp del: find_char.simps)
qed

lemma accepted_checked:
  assumes "navigation_type line = Some typ"
  shows "checked_sentence typ line"
proof -
  have l: "line ! 0 = CHR ''$''" "\<not> length line < 7"
    using assms by (auto simp: navigation_type_def split: if_splits)
  obtain comma where comma: "find_char (\<lambda>c. c = CHR '','') line = Some comma"
    using assms by (cases "find_char (\<lambda>c. c = CHR '','') line") (auto simp: navigation_type_def split: if_splits)
  obtain star where star: "find_char (\<lambda>c. c = CHR ''*'') line = Some star"
    using assms by (cases "find_char (\<lambda>c. c = CHR ''*'') line") (auto simp: navigation_type_def comma split: if_splits)
  have b: "\<not> comma < 3" "\<not> star + 2 \<ge> length line"
    using assms by (auto simp: navigation_type_def comma star split: if_splits)
  obtain h where h: "hex_nibble (line ! (star + 1)) = Some h"
    using assms b by (cases "hex_nibble (line ! (star + 1))") (auto simp: navigation_type_def comma star split: if_splits)
  obtain m where m: "hex_nibble (line ! (star + 2)) = Some m"
    using assms b h by (cases "hex_nibble (line ! (star + 2))") (auto simp: navigation_type_def comma star split: if_splits)
  let ?name = "take (comma - 1) (drop 1 line)"
  have t: "xor_checksum (take (star - 1) (drop 1 line)) = word_of_nat (16 * h + m)" "\<not> length ?name < 3"
    "typ = drop (length ?name - 3) ?name" "typ \<in> set navigation_types"
    using assms b h m l by (auto simp: navigation_type_def comma star Let_def split: if_splits)
  have "drop (Suc star) line = line ! (star + 1) # line ! (star + 2) # drop (star + 3) line"
    using b(2) by (simp add: Cons_nth_drop_Suc numeral_3_eq_3)
  then have two: "\<exists>body high low rest h l. line = ''$'' @ body @ ''*'' @ high # low # rest \<and> CHR ''*'' \<notin> set body \<and>
      hex_nibble high = Some h \<and> hex_nibble low = Some l \<and> xor_checksum body = word_of_nat (16 * h + l)"
    using line_star [OF l(1) star] h m t(1) by (metis append_Cons append_Nil)
  obtain n where n: "comma = Suc n" using b(1) by (cases comma) auto
  obtain cs where line: "line = CHR ''$'' # cs" using l by (cases line) auto
  have cs: "cs = take n cs @ CHR '','' # drop (Suc n) cs" "CHR '','' \<notin> set (take n cs)"
    using comma find_char_split [OF comma] by (auto simp: line n find_char_Some)
  have name: "?name = take n cs" by (simp add: line n)
  have "take n cs = take (length (take n cs) - 3) (take n cs) @ typ"
    using t(3) unfolding name by (simp only: append_take_drop_id)
  then have "line = ''$'' @ take (length (take n cs) - 3) (take n cs) @ typ @ '','' @ drop (Suc n) cs"
    using cs(1) line by (metis append.assoc append_Cons append_Nil)
  moreover have "CHR '','' \<notin> set (take (length (take n cs) - 3) (take n cs))"
    using cs(2) by (meson in_set_takeD)
  ultimately show ?thesis using two t(4) unfolding checked_sentence_def by blast
qed

lemma checked_accepted:
  assumes "checked_sentence typ line"
  shows "navigation_type line = Some typ"
proof -
  obtain talker "values" where a: "line = CHR ''$'' # talker @ typ @ '','' @ values" "CHR '','' \<notin> set talker"
    using assms by (auto simp: checked_sentence_def)
  obtain body high low rest h l where b: "line = CHR ''$'' # body @ CHR ''*'' # high # low # rest"
    "CHR ''*'' \<notin> set body" "hex_nibble high = Some h" "hex_nibble low = Some l"
    "xor_checksum body = word_of_nat (16 * h + l)"
    using assms by (auto simp: checked_sentence_def)
  have known: "typ \<in> set navigation_types" using assms by (simp add: checked_sentence_def)
  note letters = type_letters [OF known]
  have "find_char (\<lambda>c. c = CHR '','') ((CHR ''$'' # talker @ typ) @ CHR '','' # values) = Some (length (CHR ''$'' # talker @ typ))"
    using a(2) letters by (intro find_char_append) auto
  then have comma: "find_char (\<lambda>c. c = CHR '','') line = Some (length talker + 4)"
    using letters by (simp add: a(1))
  have same: "body @ CHR ''*'' # high # low # rest = talker @ typ @ '','' @ values" using a(1) b(1) by simp
  have len: "\<not> length body + 4 + length rest < 7"
  proof
    assume short: "length body + 4 + length rest < 7"
    have "length body + 3 + length rest = length talker + 4 + length values"
      using arg_cong [OF same, of length] letters(1) by simp
    then have "length talker + length values \<le> 1" using short by linarith
    moreover obtain t0 t1 t2 where t: "typ = [t0, t1, t2]"
      using letters(1) by (auto simp: numeral_3_eq_3 length_Suc_conv)
    ultimately show False
      using same letters b(2,3) by (cases talker; cases body; cases "values")
        (auto simp: Cons_eq_append_conv append_eq_Cons_conv)
  qed
  show ?thesis
    unfolding b(1) navigation_type_form [OF b(2) refl] comma [unfolded b(1)]
    using b(3-5) letters known len by (simp add: same Let_def)
qed

text \<open>C32: a line is accepted as a navigation sentence of a type exactly if it is a checked sentence
  of that type, for every line; and an accepted sentence in which one character between the
  dollar sign and the first star is replaced by any other (but a star, which would end the
  checked part there) is rejected.\<close>

theorem nmea_checked:
  "(navigation_type line = Some typ \<longleftrightarrow> checked_sentence typ line) \<and>
   (\<forall>a c b d rest. line = ''$'' @ a @ c # b @ ''*'' @ rest \<and> CHR ''*'' \<notin> set (a @ c # b) \<and>
      navigation_type line \<noteq> None \<and> d \<noteq> c \<and> d \<noteq> CHR ''*'' \<longrightarrow>
      navigation_type (''$'' @ a @ d # b @ ''*'' @ rest) = None)"
proof (intro conjI allI impI)
  show "navigation_type line = Some typ \<longleftrightarrow> checked_sentence typ line"
    using accepted_checked checked_accepted by blast
next
  fix a c b d rest
  assume change: "line = ''$'' @ a @ c # b @ ''*'' @ rest \<and> CHR ''*'' \<notin> set (a @ c # b) \<and>
      navigation_type line \<noteq> None \<and> d \<noteq> c \<and> d \<noteq> CHR ''*''"
  then obtain t where "checked_sentence t line" using accepted_checked by blast
  then obtain body high low tail h l where b: "line = CHR ''$'' # body @ CHR ''*'' # high # low # tail"
    "CHR ''*'' \<notin> set body" "hex_nibble high = Some h" "hex_nibble low = Some l"
    "xor_checksum body = word_of_nat (16 * h + l)"
    by (auto simp: checked_sentence_def)
  have star: "CHR ''*'' \<notin> set (a @ c # b)" using change by blast
  have "(a @ c # b) @ CHR ''*'' # rest = body @ CHR ''*'' # high # low # tail" using change b(1) by simp
  then have body: "a @ c # b = body" "rest = high # low # tail"
    using first_star [OF star b(2)] by blast+
  have star': "CHR ''*'' \<notin> set (a @ d # b)" using change by auto
  have "xor_checksum (a @ d # b) \<noteq> word_of_nat (16 * h + l)"
    using change xor_checksum_change [of c d a b] b(5) body(1) by metis
  moreover have "''$'' @ a @ d # b @ ''*'' @ rest = CHR ''$'' # (a @ d # b) @ CHR ''*'' # high # low # tail"
    by (simp add: body(2))
  ultimately show "navigation_type (''$'' @ a @ d # b @ ''*'' @ rest) = None"
    using b(3,4) by (simp only: navigation_type_form [OF star' refl]) (auto split: option.splits)
qed

text \<open>What a receiver builds is such a sentence, so it is accepted.\<close>

lemma built_checked:
  assumes "typ \<in> set navigation_types" "set talker \<inter> {CHR '','', CHR ''*''} = {}" "CHR ''*'' \<notin> set values"
  shows "checked_sentence typ (nmea_sentence talker typ values)"
proof -
  let ?body = "talker @ typ @ '','' @ values"
  have "CHR ''*'' \<notin> set ?body" using assms type_letters [OF assms(1)] by auto
  moreover have "nmea_sentence talker typ values = ''$'' @ ?body @ ''*'' @
      hex_digit_of (unat (xor_checksum ?body) div 16) # hex_digit_of (unat (xor_checksum ?body) mod 16) # []"
    by (simp add: nmea_sentence_def Let_def)
  ultimately show ?thesis
    using assms checksum_digits [of "xor_checksum ?body"] unfolding checked_sentence_def
    by (intro conjI) (assumption, fastforce simp: nmea_sentence_def Let_def, metis)
qed

lemma nmea_checked_witness:
  "navigation_type (nmea_sentence ''GN'' ''RMC'' ''083559.00,A'') = Some ''RMC'' \<and>
   navigation_type (''$GNRMC,083559.00,V*'' @ drop 19 (nmea_sentence ''GN'' ''RMC'' ''083559.00,A'')) = None"
proof -
  let ?line = "nmea_sentence ''GN'' ''RMC'' ''083559.00,A''"
  have "checked_sentence ''RMC'' ?line" by (rule built_checked) (simp_all add: navigation_types_def)
  then have ok: "navigation_type ?line = Some ''RMC''" using nmea_checked [of ?line "''RMC''"] by blast
  obtain x y where xy: "?line = ''$'' @ ''GNRMC,083559.00,'' @ CHR ''A'' # [] @ ''*'' @ [x, y]"
    by (simp add: nmea_sentence_def Let_def)
  have "navigation_type (''$'' @ ''GNRMC,083559.00,'' @ CHR ''V'' # [] @ ''*'' @ [x, y]) = None"
    by (rule nmea_checked [THEN conjunct2, rule_format, of ?line "''GNRMC,083559.00,''" "CHR ''A''" "[]"])
      (intro conjI, rule xy, simp, simp add: ok, simp, simp)
  then show ?thesis using ok by (simp add: xy)
qed

end
