(* ===== verification/Lora1262.thy ===== *)
theory Lora1262
  imports CapRadio Nmea
begin

section \<open>Lora1262: the CAP LoRa-1262 test\<close>

text \<open>
  The service src/src/platform/cap_lora_1262_service.cpp, which asks the SX1262 for its status
  over SPI and listens to the GPS receiver, and the class \<open>CapLora1262TestModel\<close> of
  src/src/model/cap_lora_1262_test_model.cpp over it. The loops that wait have a deadline; each
  round of theirs sleeps, so the distance to the deadline is their measure.
\<close>

subsection \<open>Data\<close>

record radio_test_result =
  rt_detected :: bool
  rt_status :: "8 word"
  rt_spi_path :: string
  rt_error_message :: string

record optional_gpio =
  og_configured :: bool
  og_active_high :: bool

record radio_config =
  rc_spi_path :: string
  rc_reset :: optional_gpio
  rc_busy :: optional_gpio
  rc_power_configured :: bool
  rc_power_path :: string
  rc_settle_ms :: nat

definition default_radio_config :: radio_config where
  "default_radio_config = \<lparr>rc_spi_path = ''/dev/spidev0.1'',
     rc_reset = \<lparr>og_configured = True, og_active_high = False\<rparr>,
     rc_busy = \<lparr>og_configured = True, og_active_high = True\<rparr>, rc_power_configured = True,
     rc_power_path = ''/sys/class/leds/ext_5v_out/brightness'', rc_settle_ms = 150\<rparr>"

datatype lora_run_state = LR_WAITING_FOR_CAP | LR_RUNNING_LORA | LR_RUNNING_GPS | LR_PASSED | LR_FAILED | LR_CANCELED
datatype lora_item_state = LI_PENDING | LI_RUNNING | LI_PASSED | LI_FAILED

record lora_item =
  li_name :: string
  li_state :: lora_item_state
  li_detail :: string

record lora_snapshot =
  ls_state :: lora_run_state
  ls_items :: "lora_item list" \<comment> \<open>std::array of two\<close>
  ls_headline :: string
  ls_error_message :: string
  ls_revision :: "32 word"

type_synonym 'a lora_act = "(lora_snapshot, 'a) radio_act"

definition get_status_command :: "8 word" where "get_status_command = 0xC0"
definition query_gps_ic :: string where
  "query_gps_ic = ''$PCAS06,6*1D'' @ [CHR 0x0D, CHR 0x0A]"

definition lora_publish :: "(lora_snapshot \<Rightarrow> lora_snapshot) \<Rightarrow> unit lora_act" where
  "lora_publish f = upd (\<lambda>w. w\<lparr>rd_snapshot :=
     (f (rd_snapshot w))\<lparr>ls_revision := ls_revision (f (rd_snapshot w)) + 1\<rparr>\<rparr>)"

definition lora_set_item :: "nat \<Rightarrow> (lora_item \<Rightarrow> lora_item) \<Rightarrow> lora_snapshot \<Rightarrow> lora_snapshot" where
  "lora_set_item i f s = s\<lparr>ls_items := (ls_items s)[i := f (ls_items s ! i)]\<rparr>"

definition lora_detail :: "nat \<Rightarrow> string \<Rightarrow> unit lora_act" where
  "lora_detail i detail = lora_publish (lora_set_item i (\<lambda>it. it\<lparr>li_detail := detail\<rparr>))"

subsection \<open>Sx1262StatusProbe\<close>

definition ensure_hat_power_enabled :: "radio_env \<Rightarrow> radio_config \<Rightarrow> string option lora_act" where
  "ensure_hat_power_enabled e config =
     (if \<not> rc_power_configured config then ret None
      else if rc_power_path config = [] then ret (Some ''EXT 5V brightness path is empty'')
      else do {
        failed \<leftarrow> power_write e True;
        (case failed of
           Some failure \<Rightarrow> ret (Some failure)
         | None \<Rightarrow> do { radio_sleep (rc_settle_ms config); ret None }) })"

text \<open>The waveform high, low, high with its delays; the first error ends it.\<close>

fun drive_line :: "radio_env \<Rightarrow> string \<Rightarrow> (bool \<times> nat) list \<Rightarrow> string option lora_act" where
  "drive_line e name [] = ret None"
| "drive_line e name ((level, milliseconds) # rest) = do {
     failed \<leftarrow> line_set e name level;
     (case failed of
        Some failure \<Rightarrow> ret (Some failure)
      | None \<Rightarrow> do { radio_sleep milliseconds; drive_line e name rest }) }"

definition pulse_reset :: "radio_env \<Rightarrow> radio_config \<Rightarrow> string option lora_act" where
  "pulse_reset e config =
     (if \<not> og_configured (rc_reset config) then do { radio_sleep 20; ret None }
      else drive_line e ''RESET'' [(True, 1), (False, 10), (True, 10)])"

text \<open>\<open>get_input_value\<close>: the error or the level.\<close>

definition line_get :: "radio_env \<Rightarrow> (string + bool) lora_act" where
  "line_get e = do {
     k \<leftarrow> radio_interact e;
     ret (case ra_error e k of Some failure \<Rightarrow> Inl failure | None \<Rightarrow> Inr (ra_level e k)) }"

lemma run_radio_now: "run_state (radio_now e) w =
    (let w1 = snd (run_state (radio_interact e) w) in (rd_now w1, w1))"
  by (simp add: radio_act_defs)

lemma interact_clock: "rd_now w \<le> rd_now (snd (run_state (radio_interact e) w))"
  by (simp add: radio_act_defs)

lemma line_get_clock: "rd_now w \<le> rd_now (snd (run_state (line_get e) w))"
  by (simp add: line_get_def radio_act_defs)

function await_ready :: "radio_env \<Rightarrow> bool \<Rightarrow> nat \<Rightarrow> lora_snapshot radio \<Rightarrow> string option \<times> lora_snapshot radio" where
  "await_ready e active_high deadline w =
     (let (now, w1) = run_state (radio_now e) w in
      if deadline \<le> now then (Some ''SX1262 BUSY timeout'', w1)
      else let (answer, w2) = run_state (line_get e) w1 in
      case answer of
        Inl failure \<Rightarrow> (Some failure, w2)
      | Inr level \<Rightarrow>
          (let busy = (if active_high then level else \<not> level) in
           if \<not> busy then (None, w2)
           else await_ready e active_high deadline (snd (run_state (radio_sleep 2) w2))))"
  by auto
termination
proof (relation "measure (\<lambda>(e, active_high, deadline, w). deadline - rd_now w)", goal_cases)
  case (2 e active_high deadline w p now w1 q answer w2 level busy)
  have "rd_now w \<le> rd_now w1" "now = rd_now w1"
    using 2 interact_clock [of w e] by (auto simp: run_radio_now Let_def)
  moreover have "rd_now w1 \<le> rd_now w2" using 2 line_get_clock by (metis snd_conv)
  moreover have "rd_now (snd (run_state (radio_sleep 2) w2)) = rd_now w2 + 2000000"
    by (simp add: radio_act_defs)
  ultimately show ?case using 2 by auto
qed auto

declare await_ready.simps [simp del]

definition wait_ready :: "radio_env \<Rightarrow> radio_config \<Rightarrow> string option lora_act" where
  "wait_ready e config =
     (if \<not> og_configured (rc_busy config) then do { radio_sleep 2; ret None }
      else do {
        now \<leftarrow> radio_now e;
        State (await_ready e (og_active_high (rc_busy config)) (now + 1000 * 1000000)) })"

definition spi_candidates :: "radio_config \<Rightarrow> string list" where
  "spi_candidates config =
     fold (\<lambda>path candidates. if path \<noteq> [] \<and> path \<notin> set candidates then candidates @ [path] else candidates)
       [rc_spi_path config, ''/dev/spidev0.1'', ''/dev/spidev0.0''] []"

text \<open>The loop over the candidates: the error, or what was detected.\<close>

fun probe_spi_candidates ::
  "radio_env \<Rightarrow> radio_config \<Rightarrow> string list \<Rightarrow> string \<Rightarrow> (string + 8 word \<times> string) lora_act" where
  "probe_spi_candidates e config [] last_error =
     ret (Inl (''no valid SX1262 GetStatus response'' @ (if last_error = [] then [] else '': '' @ last_error)))"
| "probe_spi_candidates e config (path # rest) last_error = do {
     opened \<leftarrow> spi_open e path;
     (case opened of
        Some failure \<Rightarrow> probe_spi_candidates e config rest failure
      | None \<Rightarrow> do {
          reset \<leftarrow> pulse_reset e config;
          (case reset of
             Some failure \<Rightarrow> ret (Inl (''RESET failed while probing '' @ path @ '': '' @ failure))
           | None \<Rightarrow> do {
               ready \<leftarrow> wait_ready e config;
               (case ready of
                  Some failure \<Rightarrow> probe_spi_candidates e config rest failure
                | None \<Rightarrow> do {
                    answer \<leftarrow> spi_transfer e [get_status_command, 0x00];
                    (case answer of
                       Inl failure \<Rightarrow> probe_spi_candidates e config rest failure
                     | Inr rx \<Rightarrow>
                         (let status = (if length rx \<ge> 2 then rx ! 1 else 0x00) in
                          if status = 0x00 \<or> status = 0xFF
                          then probe_spi_candidates e config rest
                            (''invalid SX1262 status 0x'' @ radio_hex_text status @ '' on '' @ path)
                          else ret (Inr (status, path)))) }) }) }) }"

definition run_radio_test :: "radio_env \<Rightarrow> radio_config \<Rightarrow> radio_test_result lora_act" where
  "run_radio_test e config = do {
     canceled \<leftarrow> radio_canceled e;
     (let result = \<lparr>rt_detected = False, rt_status = 0, rt_spi_path = [], rt_error_message = []\<rparr> in
      if canceled then ret (result\<lparr>rt_error_message := ''SX1262 test canceled''\<rparr>)
      else do {
        lora_detail 0 ''Reading SX1262 status at 1 MHz'';
        powered \<leftarrow> ensure_hat_power_enabled e config;
        (case powered of
           Some failure \<Rightarrow> ret (result\<lparr>rt_error_message := failure\<rparr>)
         | None \<Rightarrow> do {
             probed \<leftarrow> probe_spi_candidates e config (spi_candidates config) [];
             (case probed of
                Inl failure \<Rightarrow> ret (result\<lparr>rt_error_message := failure\<rparr>)
              | Inr (status, path) \<Rightarrow> do {
                  lora_detail 0 (''Status 0x'' @ radio_hex_text status @ '' on '' @ path);
                  ret (result\<lparr>rt_detected := True, rt_status := status, rt_spi_path := path\<rparr>) }) }) }) }"

subsection \<open>run_gps_test\<close>

definition gps_detail :: "gps_result \<Rightarrow> string" where
  "gps_detail r =
     (let ic = gr_ic_info r;
          detail = (if gr_nmea_detected r
            then (if ic = [] then [] else ic @ '' | '') @ ''NMEA '' @ gr_last_sentence_type r @
              '' ('' @ nat_text (unat (gr_valid_sentence_count r)) @ '')''
            else ic)
      in if detail = [] then (if gr_error_message r = [] then ''Waiting for IC/NMEA'' else gr_error_message r)
         else detail)"

text \<open>One line: the new result, and the progress shown when it changed.\<close>

definition gps_line :: "string \<Rightarrow> gps_result \<Rightarrow> gps_result lora_act" where
  "gps_line line r =
     (let r1 = inspect_navigation_nmea_line (trim_text line) (inspect_uart_ic_line line r) in
      if gr_ic_info r1 \<noteq> gr_ic_info r \<or> gr_valid_sentence_count r1 \<noteq> gr_valid_sentence_count r
      then do { lora_detail 1 (gps_detail r1); ret r1 }
      else ret r1)"

fun gps_lines :: "string list \<Rightarrow> gps_result \<Rightarrow> gps_result lora_act" where
  "gps_lines [] r = ret r"
| "gps_lines (line # lines) r = do { r1 \<leftarrow> gps_line line r; gps_lines lines r1 }"

definition gps_complete :: "gps_result \<Rightarrow> bool" where
  "gps_complete r \<longleftrightarrow> gr_ic_info r \<noteq> [] \<and> gr_nmea_detected r"

text \<open>\<open>read_available\<close>: the error, if there is one, and the text.\<close>

definition uart_read :: "radio_env \<Rightarrow> (string \<times> string) lora_act" where
  "uart_read e = do {
     k \<leftarrow> radio_interact e;
     ret (case ra_error e k of None \<Rightarrow> [] | Some failure \<Rightarrow> failure, ra_text e k) }"

lemma modest_gps_lines: "modest (gps_lines lines r)"
proof (induction lines arbitrary: r)
  case Nil
  then show ?case by (simp add: modest_ret)
next
  case (Cons line lines)
  have "modest (lora_detail i d)" for i d
    unfolding lora_detail_def lora_publish_def by (simp add: modest_def upd_def)
  then have "modest (gps_line line r)"
    unfolding gps_line_def Let_def by (intro modest_intros)
  then show ?case unfolding gps_lines.simps by (intro modest_bind Cons.IH)
qed

lemma modest_clock: "modest m \<Longrightarrow> rd_now w \<le> rd_now (snd (run_state m w))"
  by (simp add: modest_def Let_def)

lemma modest_uart_read: "modest (uart_read e)"
  unfolding uart_read_def by (intro modest_intros)

text \<open>\<open>Inl\<close> where a read failed and the function returned, \<open>Inr\<close> where the loop ended.\<close>

function gps_loop ::
  "radio_env \<Rightarrow> nat \<Rightarrow> string \<Rightarrow> gps_result \<Rightarrow> lora_snapshot radio \<Rightarrow>
     (gps_result + gps_result) \<times> lora_snapshot radio" where
  "gps_loop e deadline pending r w =
     (let (now, w1) = run_state (radio_now e) w in
      if deadline \<le> now then (Inr r, w1)
      else let (canceled, w2) = run_state (radio_canceled e) w1 in
      if canceled then (Inr r, w2)
      else let (reply, w3) = run_state (uart_read e) w2; (read_error, chunk) = reply in
      if read_error \<noteq> [] then (Inl (r\<lparr>gr_error_message := read_error\<rparr>), w3)
      else let (lines, rest) = take_lines (pending @ chunk);
               (r1, w4) = run_state (gps_lines lines r) w3 in
      if gps_complete r1 then (Inr r1, w4)
      else gps_loop e deadline (shorten_pending rest) r1 (snd (run_state (radio_sleep 25) w4)))"
  by auto
termination
proof (relation "measure (\<lambda>(e, deadline, pending, r, w). deadline - rd_now w)", goal_cases)
  case (2 e deadline pending r w a now w1 b canceled w2 c reply w3 g read_error chunk d lines rest f r1 w4)
  have "rd_now w \<le> rd_now w1" "now = rd_now w1"
    using 2 interact_clock [of w e] by (auto simp: run_radio_now Let_def)
  moreover have "rd_now w1 \<le> rd_now w2"
    using 2 modest_clock [OF modest_calls(2), of w1 e] by (metis snd_conv)
  moreover have "rd_now w2 \<le> rd_now w3"
    using 2 modest_clock [OF modest_uart_read, of w2 e] by (metis snd_conv)
  moreover have "rd_now w3 \<le> rd_now w4"
    using 2 modest_clock [OF modest_gps_lines, of w3 lines r] by (metis snd_conv)
  moreover have "rd_now (snd (run_state (radio_sleep 25) w4)) = rd_now w4 + 25000000"
    by (simp add: radio_act_defs)
  ultimately show ?case using 2 by auto
qed auto

declare gps_loop.simps [simp del]

definition run_gps_test :: "radio_env \<Rightarrow> string \<Rightarrow> nat \<Rightarrow> gps_result lora_act" where
  "run_gps_test e uart_path timeout_ms = do {
     opened \<leftarrow> radio_call e (UartOpen uart_path);
     (case opened of
        Some failure \<Rightarrow> ret (empty_gps\<lparr>gr_error_message := failure\<rparr>)
      | None \<Rightarrow> do {
          written \<leftarrow> radio_call e (UartWrite query_gps_ic);
          (case written of
             Some failure \<Rightarrow> ret (empty_gps\<lparr>gr_error_message := ''GPS IC query failed: '' @ failure\<rparr>)
           | None \<Rightarrow> do {
               now \<leftarrow> radio_now e;
               listened \<leftarrow> State (gps_loop e (now + timeout_ms * 1000000) [] empty_gps);
               (case listened of
                  Inl r \<Rightarrow> ret r
                | Inr r \<Rightarrow> do {
                    canceled \<leftarrow> radio_canceled e;
                    ret (if canceled then r\<lparr>gr_error_message := ''UART test canceled''\<rparr>
                      else if gr_ic_info r = []
                        then r\<lparr>gr_error_message := ''No GPS IC information received from '' @ uart_path\<rparr>
                      else if \<not> gr_nmea_detected r
                        then r\<lparr>gr_error_message := ''No valid navigation NMEA received from '' @ uart_path\<rparr>
                      else r) }) }) }) }"

subsection \<open>The model (cap_lora_1262_test_model.cpp)\<close>

definition initial_lora :: "lora_snapshot radio" where
  "initial_lora = \<lparr>rd_snapshot = \<lparr>ls_state = LR_WAITING_FOR_CAP,
       ls_items = [\<lparr>li_name = ''SX1262'', li_state = LI_PENDING, li_detail = ''Waiting''\<rparr>,
                   \<lparr>li_name = ''GPS'', li_state = LI_PENDING, li_detail = ''Waiting''\<rparr>],
       ls_headline = ''Install CAP LoRa-1262, then press Enter'', ls_error_message = [], ls_revision = 0\<rparr>,
     rd_cancel_requested = False, rd_now = 0, rd_steps = 0, rd_trace = []\<rparr>"

definition lora_publish_power_failure :: "string \<Rightarrow> unit lora_act" where
  "lora_publish_power_failure message = lora_publish (\<lambda>s.
     (lora_set_item 0 (\<lambda>it. it\<lparr>li_state := LI_FAILED, li_detail := message\<rparr>) s)
       \<lparr>ls_state := LR_FAILED, ls_headline := ''CAP LoRa-1262 test failed'', ls_error_message := message\<rparr>)"

definition lora_publish_canceled :: "unit lora_act" where
  "lora_publish_canceled = lora_publish (\<lambda>s. s\<lparr>ls_state := LR_CANCELED, ls_headline := ''Test canceled''\<rparr>)"

text \<open>The detail goes through \<open>snprintf\<close> into 96 characters.\<close>

definition lora_publish_radio :: "radio_test_result \<Rightarrow> unit lora_act" where
  "lora_publish_radio radio = lora_publish (\<lambda>s.
     (lora_set_item 1 (\<lambda>it. it\<lparr>li_state := LI_RUNNING, li_detail := ''Listening on /dev/ttyS0''\<rparr>)
       (lora_set_item 0 (\<lambda>it. it\<lparr>li_state := (if rt_detected radio then LI_PASSED else LI_FAILED),
          li_detail := (if rt_detected radio
            then take 95 (''GetStatus 0x'' @ radio_hex_text (rt_status radio) @ '' | '' @ c_str (rt_spi_path radio))
            else if rt_error_message radio = [] then ''LoRa test failed'' else rt_error_message radio)\<rparr>) s))
       \<lparr>ls_state := LR_RUNNING_GPS, ls_headline := ''Reading GPS IC information''\<rparr>)"

definition lora_publish_verdict :: "radio_test_result \<Rightarrow> gps_result \<Rightarrow> unit lora_act" where
  "lora_publish_verdict radio gps = lora_publish (\<lambda>s.
     (let passed = rt_detected radio \<and> gps_complete gps;
          first_error = (if rt_detected radio then ls_error_message s else rt_error_message radio)
      in (lora_set_item 1 (\<lambda>it. it\<lparr>li_state := (if gps_complete gps then LI_PASSED else LI_FAILED),
            li_detail := gps_detail gps\<rparr>) s)
         \<lparr>ls_state := (if passed then LR_PASSED else LR_FAILED),
          ls_headline := (if passed then ''CAP LoRa-1262 test passed'' else ''CAP LoRa-1262 test failed''),
          ls_error_message := (if gps_complete gps then first_error
            else joined_error first_error (gr_error_message gps))\<rparr>))"

definition lora_tests :: "radio_env \<Rightarrow> unit lora_act" where
  "lora_tests e = do {
     radio \<leftarrow> run_radio_test e (default_radio_config\<lparr>rc_power_configured := False\<rparr>);
     lora_publish_radio radio;
     canceled \<leftarrow> radio_canceled e;
     if canceled then lora_publish_canceled
     else do {
       gps \<leftarrow> run_gps_test e ''/dev/ttyS0'' 10000;
       canceled \<leftarrow> radio_canceled e;
       if canceled then lora_publish_canceled else lora_publish_verdict radio gps } }"

definition run_lora :: "radio_env \<Rightarrow> unit lora_act" where
  "run_lora e = with_ext_5v e lora_publish_power_failure (lora_tests e)"

definition cancel_lora :: "lora_snapshot radio \<Rightarrow> lora_snapshot radio" where
  "cancel_lora w = w\<lparr>rd_cancel_requested := True\<rparr>"

definition reset_lora :: "lora_snapshot radio \<Rightarrow> lora_snapshot radio" where
  "reset_lora w = snd (run_state (lora_publish (\<lambda>s.
     (lora_set_item 1 (\<lambda>it. it\<lparr>li_state := LI_PENDING, li_detail := ''Waiting''\<rparr>)
       (lora_set_item 0 (\<lambda>it. it\<lparr>li_state := LI_RUNNING, li_detail := ''Opening /dev/spidev0.1''\<rparr>) s))
     \<lparr>ls_state := LR_RUNNING_LORA, ls_headline := ''Testing SX1262 communication'', ls_error_message := []\<rparr>))
     (w\<lparr>rd_cancel_requested := False\<rparr>))"

definition start_lora :: "radio_env \<Rightarrow> lora_snapshot radio \<Rightarrow> lora_snapshot radio" where
  "start_lora e w = snd (run_state (run_lora e) (reset_lora (cancel_lora w)))"

definition lora_item_state_text :: "lora_item_state \<Rightarrow> string" where
  "lora_item_state_text s = (case s of
     LI_RUNNING \<Rightarrow> ''RUN'' | LI_PASSED \<Rightarrow> ''PASS'' | LI_FAILED \<Rightarrow> ''FAIL'' | LI_PENDING \<Rightarrow> ''WAIT'')"

end
