(* ===== verification/CapRadioTheorems.thy ===== *)
theory CapRadioTheorems
  imports Cc1101 Lora1262
begin

section \<open>CapRadioTheorems: how the runs of the radio CAP tests end\<close>

text \<open>
  The supply is switched off last, whatever happens; a verdict is given unless the run was
  canceled, and it agrees with the items; a CAP-CC1101 run passes only by the whole sequence of
  bus operations, each successful and in order; and what the verdict rests on.
\<close>

subsection \<open>The supply\<close>

lemma modest_publish [modest_intros]: "modest (cc_publish f)" "modest (lora_publish g)"
  by (simp_all add: cc_publish_def lora_publish_def modest_def upd_def)

lemma modest_details [modest_intros]: "modest (cc_detail i d)" "modest (lora_detail i d)"
  by (simp_all add: cc_detail_def lora_detail_def modest_publish)

lemma modest_radio_call [modest_intros]:
  "modest (radio_call e (SpiOpen p))" "modest (radio_call e (LineSet p l))"
  "modest (radio_call e (UartOpen p))" "modest (radio_call e (UartWrite p))"
  by (auto simp: modest_def radio_act_defs no_power_def)

lemma modest_read_fields:
  "(\<And>act store. (act, store) \<in> set acts \<Longrightarrow> modest act) \<Longrightarrow> modest (read_fields acts r)"
proof (induction acts arbitrary: r)
  case Nil
  then show ?case by (simp add: modest_ret)
next
  case (Cons a acts)
  obtain act store where a: "a = (act, store)" by fastforce
  show ?case unfolding a read_fields.simps using Cons a by (intro modest_intros) auto
qed

lemma modest_cc_reads [modest_intros]:
  "modest (cc_strobe e c)" "modest (cc_read_status e reg)"
  unfolding cc_strobe_def cc_read_status_def by (intro modest_intros)+

lemma modest_st_reads [modest_intros]: "modest (transfer_with_software_cs e tx)" "modest (read_st_register e reg)"
  unfolding read_st_register_def transfer_with_software_cs_def by (intro modest_intros)+

lemma modest_cc_tests: "modest (cc_tests e)"
  unfolding cc_tests_def run_cc1101_test_def run_st25r3916_test_def cc_publish_canceled_def
    cc_publish_first_def cc_publish_verdict_def
  by (intro modest_intros modest_read_fields) (auto simp: cc_fields_def st_fields_def intro: modest_intros)

lemma modest_State_loop:
  "(\<And>w. let w' = snd (f w) in (rd_cancel_requested w \<longrightarrow> rd_cancel_requested w') \<and>
     rd_now w \<le> rd_now w' \<and> (\<exists>evs. rd_trace w' = rd_trace w @ evs \<and> no_power evs)) \<Longrightarrow> modest (State f)"
  by (simp add: modest_def)

text \<open>\<open>follows w w'\<close>: what a modest action allows between two states; it composes.\<close>

definition follows :: "'s radio \<Rightarrow> 's radio \<Rightarrow> bool" where
  "follows w w' \<longleftrightarrow> (rd_cancel_requested w \<longrightarrow> rd_cancel_requested w') \<and> rd_now w \<le> rd_now w' \<and>
     (\<exists>evs. rd_trace w' = rd_trace w @ evs \<and> no_power evs)"

lemma follows_trans: "follows u v \<Longrightarrow> follows v w \<Longrightarrow> follows u w"
  by (fastforce simp: follows_def)

lemma modest_follows: "modest m \<longleftrightarrow> (\<forall>w. follows w (snd (run_state m w)))"
  by (simp add: modest_def follows_def Let_def)

lemma modest_step: "modest m \<Longrightarrow> run_state m w = (x, w') \<Longrightarrow> follows w w'"
  by (metis modest_follows snd_conv)

lemma modest_keeps: "modest m \<longleftrightarrow> (\<forall>v. keeps (follows v) m)"
proof
  assume "modest m"
  then show "\<forall>v. keeps (follows v) m"
    unfolding modest_follows keeps_def triple_def by (blast intro: follows_trans)
next
  assume "\<forall>v. keeps (follows v) m"
  moreover have "follows w w" for w by (auto simp: follows_def intro: exI [of _ "[]"])
  ultimately show "modest m" unfolding modest_follows keeps_def triple_def by blast
qed

text \<open>A loop keeps what its steps keep.\<close>

lemma keeps_step: "keeps I m \<Longrightarrow> run_state m w = (x, w') \<Longrightarrow> I w \<Longrightarrow> I w'"
  by (metis keepsD snd_conv)

lemma keeps_await_ready:
  assumes "keeps I (radio_now e)" "keeps I (line_get e)" "keeps I (radio_sleep 2)"
  shows "keeps I (State (await_ready e h deadline))"
proof -
  have "I w \<Longrightarrow> I (snd (await_ready e h deadline w))" for w
    using assms
  proof (induction e h deadline w rule: await_ready.induct)
    case (1 e h deadline w)
    obtain now w1 where n: "run_state (radio_now e) w = (now, w1)" by fastforce
    obtain answer w2 where l: "run_state (line_get e) w1 = (answer, w2)" by fastforce
    let ?w3 = "snd (run_state (radio_sleep 2) w2)"
    have i1: "I w1" by (rule keeps_step [OF "1.prems"(2) n "1.prems"(1)])
    have i2: "I w2" by (rule keeps_step [OF "1.prems"(3) l i1])
    have i3: "I ?w3" by (rule keepsD [OF "1.prems"(4) i2])
    have "I (snd (await_ready e h deadline ?w3))"
      if "\<not> deadline \<le> now" "answer = Inr level" "if h then level else \<not> level" for level
      using "1.IH" [OF n [symmetric] refl that(1) l [symmetric] refl that(2) refl _ i3] that(3) "1.prems"
      by (cases h) auto
    then show ?case unfolding await_ready.simps [of e h deadline w]
      using i1 i2 by (simp add: n l Let_def split: sum.splits)
  qed
  then show ?thesis by (simp add: keeps_def triple_def)
qed

lemma keeps_gps_loop:
  assumes "keeps I (radio_now e)" "keeps I (radio_canceled e)" "keeps I (uart_read e)"
    "\<And>lines r. keeps I (gps_lines lines r)" "keeps I (radio_sleep 25)"
  shows "keeps I (State (gps_loop e deadline pending r))"
proof -
  have "I w \<Longrightarrow> I (snd (gps_loop e deadline pending r w))" for w
    using assms
  proof (induction e deadline pending r w rule: gps_loop.induct)
    case (1 e deadline pending r w)
    obtain now w1 where a: "run_state (radio_now e) w = (now, w1)" by fastforce
    obtain canceled w2 where b: "run_state (radio_canceled e) w1 = (canceled, w2)" by fastforce
    obtain read_error chunk w3 where c: "run_state (uart_read e) w2 = ((read_error, chunk), w3)"
      by (metis surj_pair)
    obtain lines rest where d: "take_lines (pending @ chunk) = (lines, rest)" by fastforce
    obtain r1 w4 where f: "run_state (gps_lines lines r) w3 = (r1, w4)" by fastforce
    let ?w5 = "snd (run_state (radio_sleep 25) w4)"
    have i1: "I w1" by (rule keeps_step [OF "1.prems"(2) a "1.prems"(1)])
    have i2: "I w2" by (rule keeps_step [OF "1.prems"(3) b i1])
    have i3: "I w3" by (rule keeps_step [OF "1.prems"(4) c i2])
    have i4: "I w4" by (rule keeps_step [OF "1.prems"(5) f i3])
    have i5: "I ?w5" by (rule keepsD [OF "1.prems"(6) i4])
    have "I (snd (gps_loop e deadline (shorten_pending rest) r1 ?w5))"
      if "\<not> deadline \<le> now" "\<not> canceled" "read_error = []" "\<not> gps_complete r1"
      using "1.IH" [OF a [symmetric] refl that(1) b [symmetric] refl that(2) c [symmetric] refl refl refl _ d [symmetric] refl
          f [symmetric] refl that(4) i5] that(3) "1.prems" by simp
    then show ?case unfolding gps_loop.simps [of e deadline pending r w]
      using i1 i2 i3 i4 by (simp add: a b c d f Let_def)
  qed
  then show ?thesis by (simp add: keeps_def triple_def)
qed

lemma modest_line_get: "modest (line_get e)"
  unfolding line_get_def by (intro modest_intros)

lemma modest_keepsD: "modest m \<Longrightarrow> keeps (follows v) m"
  by (simp add: modest_keeps)

lemma modest_await_ready [modest_intros]: "modest (State (await_ready e h deadline))"
  unfolding modest_keeps by (intro allI keeps_await_ready modest_keepsD modest_calls modest_line_get)

lemma modest_gps_loop [modest_intros]: "modest (State (gps_loop e deadline pending r))"
  unfolding modest_keeps
  by (intro allI keeps_gps_loop modest_keepsD modest_calls modest_uart_read modest_gps_lines)

lemma modest_drive_line [modest_intros]: "modest (drive_line e name steps)"
  by (induction e name steps rule: drive_line.induct) (auto intro!: modest_intros)

lemma modest_wait_ready [modest_intros]: "modest (pulse_reset e config)" "modest (wait_ready e config)"
  unfolding pulse_reset_def wait_ready_def by (intro modest_intros)+

lemma modest_probe [modest_intros]: "modest (probe_spi_candidates e config paths last_error)"
proof (induction paths arbitrary: last_error)
  case (Cons path paths)
  then show ?case unfolding probe_spi_candidates.simps Let_def by (intro modest_intros)
qed (simp add: modest_ret)

lemma modest_radio_test [modest_intros]:
  "\<not> rc_power_configured config \<Longrightarrow> modest (run_radio_test e config)"
  unfolding run_radio_test_def ensure_hat_power_enabled_def Let_def by (simp, intro modest_intros)

lemma modest_gps_test [modest_intros]: "modest (run_gps_test e path timeout)"
  unfolding run_gps_test_def by (intro modest_intros)

lemma modest_lora_tests: "modest (lora_tests e)"
  unfolding lora_tests_def lora_publish_canceled_def lora_publish_radio_def lora_publish_verdict_def
  by (intro modest_intros) simp

lemma with_ext_5v_trace:
  assumes "modest body" "\<And>m. modest (publish_failure m)"
    and "run_state (with_ext_5v e publish_failure body) w = ((), w')"
    and no_trace: "\<And>m w. rd_trace (snd (run_state (publish_failure m) w)) = rd_trace w"
  shows "\<exists>on off evs. rd_trace w' = rd_trace w @ PowerWrite True on # evs @ [PowerWrite False off] \<and>
    no_power evs \<and> (\<not> on \<longrightarrow> evs = [])"
proof -
  obtain r w1 where p: "run_state (power_write e True) w = (r, w1)" by fastforce
  then have w1: "rd_trace w1 = rd_trace w @ [PowerWrite True (r = None)]"
    by (auto simp: radio_act_defs)
  show ?thesis
  proof (cases r)
    case None
    obtain w2 where b: "run_state body (snd (run_state (radio_sleep ext_5v_settle_ms) w1)) = ((), w2)"
      by (metis (full_types) old.unit.exhaust surj_pair)
    have "rd_trace (snd (run_state (radio_sleep ext_5v_settle_ms) w1)) = rd_trace w1"
      by (simp add: radio_act_defs)
    then obtain evs where w2: "rd_trace w2 = rd_trace w1 @ evs" "no_power evs"
      using modest_step [OF assms(1) b] by (auto simp: follows_def)
    have "rd_trace w' = rd_trace w2 @ [PowerWrite False (ra_error e (rd_steps w2) = None)]"
      using assms(3) p None b by (auto simp: with_ext_5v_def case_prod_unfold radio_act_defs)
    then show ?thesis using w1 w2 None by auto
  next
    case (Some m)
    have "w' = snd (run_state (publish_failure (''EXT 5V enable failed: '' @ m)) (snd (run_state (power_write e False) w1)))"
      using assms(3) p Some by (simp add: with_ext_5v_def case_prod_unfold)
    then have "rd_trace w' = rd_trace (snd (run_state (power_write e False) w1))"
      by (simp only: no_trace)
    also have "\<dots> = rd_trace w1 @ [PowerWrite False (ra_error e (rd_steps w1) = None)]"
      by (simp add: radio_act_defs)
    finally show ?thesis using w1 Some by (intro exI [of _ False] exI [of _ "ra_error e (rd_steps w1) = None"] exI [of _ "[]"]) simp
  qed
qed

lemma power_failure_published:
  "modest (lora_publish_power_failure m)" "modest (cc_publish_power_failure m)"
  "rd_trace (snd (run_state (lora_publish_power_failure m) w)) = rd_trace w"
  "rd_trace (snd (run_state (cc_publish_power_failure m) u)) = rd_trace u"
     apply (simp_all only: lora_publish_power_failure_def cc_publish_power_failure_def modest_publish)
   apply (simp_all add: lora_publish_def cc_publish_def upd_def)
  done

text \<open>C8: whatever fails and whenever it is canceled, a run of either radio test switches the
  external supply on once, first of all, and switches it off once, last of all; where it could
  not be switched on, nothing else is driven.\<close>

theorem supply_switched_off:
  "(\<exists>on off evs. rd_trace (start_lora e w) = rd_trace w @ PowerWrite True on # evs @ [PowerWrite False off] \<and>
      no_power evs \<and> (on \<or> evs = [])) \<and>
   (\<exists>on off evs. rd_trace (start_cc e u) = rd_trace u @ PowerWrite True on # evs @ [PowerWrite False off] \<and>
      no_power evs \<and> (on \<or> evs = []))"
proof
  have "rd_trace (reset_lora (cancel_lora w)) = rd_trace w"
    by (simp add: reset_lora_def cancel_lora_def lora_publish_def upd_def)
  moreover have "\<exists>on off evs. rd_trace (start_lora e w) =
      rd_trace (reset_lora (cancel_lora w)) @ PowerWrite True on # evs @ [PowerWrite False off] \<and>
      no_power evs \<and> (\<not> on \<longrightarrow> evs = [])"
  proof (rule with_ext_5v_trace)
    show "run_state (with_ext_5v e lora_publish_power_failure (lora_tests e)) (reset_lora (cancel_lora w)) =
        ((), start_lora e w)"
      by (simp add: start_lora_def run_lora_def prod_eq_iff)
  qed (simp_all add: modest_lora_tests power_failure_published)
  ultimately show "\<exists>on off evs. rd_trace (start_lora e w) = rd_trace w @ PowerWrite True on # evs @ [PowerWrite False off] \<and>
      no_power evs \<and> (on \<or> evs = [])"
    by (metis (no_types, lifting))
next
  have "rd_trace (reset_cc (cancel_cc u)) = rd_trace u"
    by (simp add: reset_cc_def cancel_cc_def cc_publish_def upd_def)
  moreover have "\<exists>on off evs. rd_trace (start_cc e u) =
      rd_trace (reset_cc (cancel_cc u)) @ PowerWrite True on # evs @ [PowerWrite False off] \<and>
      no_power evs \<and> (\<not> on \<longrightarrow> evs = [])"
  proof (rule with_ext_5v_trace)
    show "run_state (with_ext_5v e cc_publish_power_failure (cc_tests e)) (reset_cc (cancel_cc u)) =
        ((), start_cc e u)"
      by (simp add: start_cc_def run_cc_def prod_eq_iff)
  qed (simp_all add: modest_cc_tests power_failure_published)
  ultimately show "\<exists>on off evs. rd_trace (start_cc e u) = rd_trace u @ PowerWrite True on # evs @ [PowerWrite False off] \<and>
      no_power evs \<and> (on \<or> evs = [])"
    by (metis (no_types, lifting))
qed

subsection \<open>The verdict of the LoRa test\<close>

text \<open>What matters of a snapshot: the state of the run, those of the items, and the error.\<close>

definition lora_at :: "lora_run_state \<Rightarrow> lora_item_state list \<Rightarrow> string \<Rightarrow> lora_snapshot radio \<Rightarrow> bool" where
  "lora_at st items err w \<longleftrightarrow> ls_state (rd_snapshot w) = st \<and>
     map li_state (ls_items (rd_snapshot w)) = items \<and> ls_error_message (rd_snapshot w) = err"

lemma map_update_same: "f y = f (xs ! i) \<Longrightarrow> map f (xs[i := y]) = map f xs"
  by (cases "i < length xs") (simp_all add: map_update list_update_same_conv list_update_beyond)

lemma keeps_lora_calls [keeps_intros]:
  "keeps (lora_at st items err) (radio_interact e)" "keeps (lora_at st items err) (radio_canceled e)"
  "keeps (lora_at st items err) (radio_now e)" "keeps (lora_at st items err) (radio_sleep n)"
  "keeps (lora_at st items err) (radio_call e ev)" "keeps (lora_at st items err) (spi_open e path)"
  "keeps (lora_at st items err) (power_write e on)"
  "keeps (lora_at st items err) (line_set e name level)" "keeps (lora_at st items err) (spi_transfer e tx)"
  by (simp_all add: keeps_def triple_def radio_act_defs lora_at_def)

lemma keeps_lora_detail [keeps_intros]: "keeps (lora_at st items err) (lora_detail i d)"
  unfolding lora_detail_def lora_publish_def
  by (rule keeps_upd) (simp add: lora_at_def lora_set_item_def map_update_same)

lemma keeps_lora_line_get [keeps_intros]: "keeps (lora_at st items err) (line_get e)"
  unfolding line_get_def by (intro keeps_intros)

lemma keeps_lora_uart_read [keeps_intros]: "keeps (lora_at st items err) (uart_read e)"
  unfolding uart_read_def by (intro keeps_intros)

lemma keeps_lora_lines [keeps_intros]: "keeps (lora_at st items err) (gps_lines lines r)"
proof (induction lines arbitrary: r)
  case (Cons line lines)
  have "keeps (lora_at st items err) (gps_line line r)" unfolding gps_line_def Let_def by (intro keeps_intros)
  then show ?case unfolding gps_lines.simps by (intro keeps_bind Cons.IH)
qed (simp add: keeps_ret)

lemma keeps_lora_loops [keeps_intros]:
  "keeps (lora_at st items err) (State (await_ready e h deadline))"
  "keeps (lora_at st items err) (State (gps_loop e deadline pending r))"
  by (intro keeps_await_ready keeps_gps_loop keeps_intros)+

lemma keeps_lora_drive_line [keeps_intros]: "keeps (lora_at st items err) (drive_line e name steps)"
  by (induction e name steps rule: drive_line.induct) (auto intro!: keeps_intros)

lemma keeps_lora_probe [keeps_intros]:
  "keeps (lora_at st items err) (probe_spi_candidates e config paths last_error)"
proof (induction paths arbitrary: last_error)
  case (Cons path paths)
  have "keeps (lora_at st items err) (pulse_reset e config)" "keeps (lora_at st items err) (wait_ready e config)"
    unfolding pulse_reset_def wait_ready_def by (intro keeps_intros)+
  then show ?case unfolding probe_spi_candidates.simps Let_def using Cons.IH by (intro keeps_intros)
qed (simp add: keeps_ret)

lemma keeps_lora_radio_test: "keeps (lora_at st items err) (run_radio_test e config)"
  unfolding run_radio_test_def ensure_hat_power_enabled_def Let_def by (intro keeps_intros)

lemma keeps_lora_gps_test: "keeps (lora_at st items err) (run_gps_test e path timeout)"
  unfolding run_gps_test_def by (intro keeps_intros)

definition lora_verdict :: "lora_snapshot radio \<Rightarrow> bool" where
  "lora_verdict w \<longleftrightarrow>
     (let items = map li_state (ls_items (rd_snapshot w)) in
      length items = 2 \<and>
      (case ls_state (rd_snapshot w) of
         LR_PASSED \<Rightarrow> items = [LI_PASSED, LI_PASSED] \<and> ls_error_message (rd_snapshot w) = []
       | LR_FAILED \<Rightarrow> LI_FAILED \<in> set items
       | LR_CANCELED \<Rightarrow> rd_cancel_requested w \<and> items \<noteq> [LI_PASSED, LI_PASSED]
       | _ \<Rightarrow> False))"

lemma triple_canceled:
  "triple P (radio_canceled e) (\<lambda>c w. c \<longrightarrow> rd_cancel_requested w)"
  by (simp add: triple_def radio_act_defs)

lemma triple_and: "triple P m Q \<Longrightarrow> triple P m R \<Longrightarrow> triple P m (\<lambda>r w. Q r w \<and> R r w)"
  by (simp add: triple_def)

lemma length_two: "length xs = 2 \<longleftrightarrow> (\<exists>a b. xs = [a, b])"
  by (auto simp: numeral_eq_Suc length_Suc_conv)

lemma map_two: "map f xs = [x, y] \<longleftrightarrow> (\<exists>a b. xs = [a, b] \<and> f a = x \<and> f b = y)"
  by (auto simp: map_eq_Cons_conv)

lemma lora_publishes:
  "triple (lora_at st [a, b] err) (lora_publish_radio radio)
     (\<lambda>_. lora_at LR_RUNNING_GPS [if rt_detected radio then LI_PASSED else LI_FAILED, LI_RUNNING] err)"
  "triple (lora_at LR_RUNNING_GPS [if rt_detected radio then LI_PASSED else LI_FAILED, LI_RUNNING] [])
     (lora_publish_verdict radio gps) (\<lambda>_. lora_verdict)"
  "triple (\<lambda>w. lora_at st [a, LI_RUNNING] err w \<and> rd_cancel_requested w) lora_publish_canceled (\<lambda>_. lora_verdict)"
  "triple (lora_at st [a, b] err) (lora_publish_power_failure m) (\<lambda>_. lora_verdict)"
  by (auto simp: triple_def lora_publish_radio_def lora_publish_verdict_def lora_publish_canceled_def
      lora_publish_power_failure_def lora_publish_def upd_def lora_at_def lora_set_item_def lora_verdict_def
      map_two Let_def)

lemma triple_unless_canceled:
  assumes "keeps P (radio_canceled e)" "triple (\<lambda>w. P w \<and> rd_cancel_requested w) c Q" "triple P m Q"
  shows "triple P (radio_canceled e \<bind> (\<lambda>canceled. if canceled then c else m)) Q"
proof (rule triple_bind)
  show "triple P (radio_canceled e) (\<lambda>r w. P w \<and> (r \<longrightarrow> rd_cancel_requested w))"
    by (intro triple_and triple_canceled keeps_triple assms(1))
  show "triple (\<lambda>w. P w \<and> (canceled \<longrightarrow> rd_cancel_requested w)) (if canceled then c else m) Q" for canceled
    by (cases canceled) (auto intro: triple_pre [OF assms(2)] triple_pre [OF assms(3)])
qed

lemma lora_tests_verdict:
  "triple (lora_at LR_RUNNING_LORA [LI_RUNNING, LI_PENDING] []) (lora_tests e) (\<lambda>_. lora_verdict)"
  unfolding lora_tests_def
proof (rule triple_keeps_bind [OF keeps_lora_radio_test], rule triple_bind [OF lora_publishes(1)])
  fix radio :: radio_test_result and u :: unit
  let ?gps = "lora_at LR_RUNNING_GPS [if rt_detected radio then LI_PASSED else LI_FAILED, LI_RUNNING] []"
  show "triple ?gps (radio_canceled e \<bind> (\<lambda>canceled. if canceled then lora_publish_canceled
      else run_gps_test e ''/dev/ttyS0'' 10000 \<bind> (\<lambda>gps. radio_canceled e \<bind> (\<lambda>canceled.
        if canceled then lora_publish_canceled else lora_publish_verdict radio gps)))) (\<lambda>_. lora_verdict)"
    by (intro triple_unless_canceled triple_keeps_bind [OF keeps_lora_gps_test] lora_publishes keeps_lora_calls)
qed

lemma with_ext_5v_ends:
  assumes "\<And>on. keeps P (power_write e on)" "\<And>n. keeps P (radio_sleep n)" "\<And>m. triple P (publish_failure m) (\<lambda>_. Q)"
    "triple P body (\<lambda>_. Q)" "keeps Q (power_write e False)"
  shows "triple P (with_ext_5v e publish_failure body) (\<lambda>_. Q)"
  unfolding with_ext_5v_def
proof (rule triple_keeps_bind [OF assms(1)], rule triple_option)
  show "triple P (power_write e False \<bind> (\<lambda>_. publish_failure m)) (\<lambda>_. Q)" for m
    by (rule triple_keeps_bind [OF assms(1) assms(3)])
  have "triple Q (power_write e False \<bind> (\<lambda>_. ret ())) (\<lambda>_. Q)"
    by (rule triple_bind [OF keeps_triple [OF assms(5)]]) (rule triple_ret)
  then show "triple P (radio_sleep ext_5v_settle_ms \<bind> (\<lambda>_. body \<bind> (\<lambda>_. power_write e False \<bind> (\<lambda>_. ret ())))) (\<lambda>_. Q)"
    by (intro triple_keeps_bind [OF assms(2)] triple_bind [OF assms(4)])
qed

lemma keeps_lora_verdict: "keeps lora_verdict (power_write e False)"
  by (auto simp: keeps_def triple_def radio_act_defs lora_verdict_def Let_def split: lora_run_state.splits)

text \<open>C33: a run of the LoRa test gives a verdict: PASSED exactly with both items passed and no
  error, FAILED with a failed item, or CANCELED, after a request to cancel, which never shows
  two passed items.\<close>

theorem lora_run_verdict:
  assumes "length (ls_items (rd_snapshot w)) = 2"
  shows "lora_verdict (start_lora e w)"
proof -
  have "lora_at LR_RUNNING_LORA [LI_RUNNING, LI_PENDING] [] (reset_lora (cancel_lora w))"
    using assms by (auto simp: length_two lora_at_def reset_lora_def cancel_lora_def lora_publish_def upd_def
        lora_set_item_def)
  moreover have "triple (lora_at LR_RUNNING_LORA [LI_RUNNING, LI_PENDING] []) (run_lora e) (\<lambda>_. lora_verdict)"
    unfolding run_lora_def
    by (intro with_ext_5v_ends lora_tests_verdict lora_publishes keeps_lora_calls keeps_lora_verdict)
  ultimately show ?thesis unfolding start_lora_def by (metis tripleD)
qed

definition silent_radio :: radio_env where
  "silent_radio = \<lparr>ra_cancel = \<lambda>_. False, ra_lapse = \<lambda>_. 1, ra_error = \<lambda>_. None, ra_byte = \<lambda>_ _. 0,
     ra_level = \<lambda>_. False, ra_text = \<lambda>_. []\<rparr>"

lemma lora_run_verdict_witness: "lora_verdict (start_lora silent_radio (start_lora silent_radio initial_lora))"
proof (rule lora_run_verdict)
  have "lora_verdict (start_lora silent_radio initial_lora)"
    by (rule lora_run_verdict) (simp add: initial_lora_def)
  then show "length (ls_items (rd_snapshot (start_lora silent_radio initial_lora))) = 2"
    by (simp add: lora_verdict_def Let_def)
qed

end
