(* ===== verification/Cc1101Theorems.thy ===== *)
theory Cc1101Theorems
  imports CapRadioTheorems
begin

section \<open>Cc1101Theorems: what a verdict of the CAP-CC1101 test rests on\<close>

text \<open>
  Every run gives a verdict that agrees with its items, and a run passes only by one sequence of
  bus operations, all of them successful and in the order of the code: \<open>cc1101_bus\<close> for the
  CC1101 and then \<open>st25r3916_bus\<close> for the ST25R3916, each of whose transfers is framed by its
  chip select.
\<close>

subsection \<open>The verdict\<close>

definition cc_at :: "cc_run_state \<Rightarrow> cc_item_state list \<Rightarrow> string \<Rightarrow> cc_snapshot radio \<Rightarrow> bool" where
  "cc_at st items err w \<longleftrightarrow> cs_state (rd_snapshot w) = st \<and>
     map ci_state (cs_items (rd_snapshot w)) = items \<and> cs_error_message (rd_snapshot w) = err"

lemma keeps_cc_calls [keeps_intros]:
  "keeps (cc_at st items err) (radio_interact e)" "keeps (cc_at st items err) (radio_canceled e)"
  "keeps (cc_at st items err) (radio_now e)" "keeps (cc_at st items err) (radio_sleep n)"
  "keeps (cc_at st items err) (radio_call e ev)" "keeps (cc_at st items err) (spi_open e path)"
  "keeps (cc_at st items err) (power_write e on)"
  "keeps (cc_at st items err) (line_set e name level)" "keeps (cc_at st items err) (spi_transfer e tx)"
  by (simp_all add: keeps_def triple_def radio_act_defs cc_at_def)

lemma keeps_cc_detail [keeps_intros]: "keeps (cc_at st items err) (cc_detail i d)"
  unfolding cc_detail_def cc_publish_def
  by (rule keeps_upd) (simp add: cc_at_def cc_set_item_def map_update_same)

lemma keeps_read_fields:
  "(\<And>act store. (act, store) \<in> set acts \<Longrightarrow> keeps I act) \<Longrightarrow> keeps I (read_fields acts r)"
proof (induction acts arbitrary: r)
  case Nil
  then show ?case by (simp add: keeps_ret)
next
  case (Cons a acts)
  obtain act store where a: "a = (act, store)" by fastforce
  show ?case unfolding a read_fields.simps using Cons a by (intro keeps_intros) auto
qed

lemma keeps_cc_reads [keeps_intros]:
  "keeps (cc_at st items err) (cc_strobe e c)" "keeps (cc_at st items err) (cc_read_status e reg)"
  "keeps (cc_at st items err) (transfer_with_software_cs e tx)"
  unfolding cc_strobe_def cc_read_status_def transfer_with_software_cs_def by (intro keeps_intros)+

lemma keeps_cc_chips:
  "keeps (cc_at st items err) (run_cc1101_test e)" "keeps (cc_at st items err) (run_st25r3916_test e)"
  unfolding run_cc1101_test_def run_st25r3916_test_def
  by (intro keeps_intros keeps_read_fields; auto simp: cc_fields_def st_fields_def read_st_register_def
      intro: keeps_intros)+

definition cc_verdict :: "cc_snapshot radio \<Rightarrow> bool" where
  "cc_verdict w \<longleftrightarrow>
     (let items = map ci_state (cs_items (rd_snapshot w)) in
      case cs_state (rd_snapshot w) of
        CR_PASSED \<Rightarrow> items = [CI_PASSED, CI_PASSED] \<and> cs_error_message (rd_snapshot w) = []
      | CR_FAILED \<Rightarrow> CI_FAILED \<in> set items
      | CR_CANCELED \<Rightarrow> rd_cancel_requested w \<and> items \<noteq> [CI_PASSED, CI_PASSED]
      | _ \<Rightarrow> False)"

lemma cc_publishes:
  "triple (cc_at st [a, b] err) (cc_publish_first cc)
     (\<lambda>_. cc_at st [if cc_ok cc then CI_PASSED else CI_FAILED, CI_RUNNING] err)"
  "triple (cc_at st [if cc_ok cc then CI_PASSED else CI_FAILED, CI_RUNNING] [])
     (cc_publish_verdict cc s) (\<lambda>_. cc_verdict)"
  "triple (\<lambda>w. cc_at st [CI_RUNNING, b] err w \<and> rd_cancel_requested w) cc_publish_canceled (\<lambda>_. cc_verdict)"
  "triple (\<lambda>w. cc_at st [a, CI_RUNNING] err w \<and> rd_cancel_requested w) cc_publish_canceled (\<lambda>_. cc_verdict)"
  "triple (cc_at st [a, b] err) (cc_publish_power_failure m) (\<lambda>_. cc_verdict)"
  by (auto simp: triple_def cc_publish_first_def cc_publish_verdict_def cc_publish_canceled_def
      cc_publish_power_failure_def cc_publish_def upd_def cc_at_def cc_set_item_def cc_verdict_def
      map_two Let_def)

lemma cc_tests_verdict:
  "triple (cc_at CR_RUNNING [CI_RUNNING, CI_PENDING] []) (cc_tests e) (\<lambda>_. cc_verdict)"
  unfolding cc_tests_def
proof (rule triple_keeps_bind [OF keeps_cc_chips(1)], rule triple_unless_canceled)
  fix cc
  show "triple (cc_at CR_RUNNING [CI_RUNNING, CI_PENDING] [])
      (cc_publish_first cc \<bind> (\<lambda>_. run_st25r3916_test e \<bind> (\<lambda>st. radio_canceled e \<bind> (\<lambda>canceled.
        if canceled then cc_publish_canceled else cc_publish_verdict cc st)))) (\<lambda>_. cc_verdict)"
    by (rule triple_bind [OF cc_publishes(1)])
      (intro triple_keeps_bind [OF keeps_cc_chips(2)] triple_unless_canceled cc_publishes keeps_cc_calls)
qed (intro cc_publishes keeps_cc_calls)+

lemma keeps_cc_verdict: "keeps cc_verdict (power_write e False)"
  by (auto simp: keeps_def triple_def radio_act_defs cc_verdict_def Let_def split: cc_run_state.splits)

lemma cc_run_has_verdict: "cc_verdict (start_cc e w)"
proof -
  have "cc_at CR_RUNNING [CI_RUNNING, CI_PENDING] [] (reset_cc (cancel_cc w))"
    by (simp add: cc_at_def reset_cc_def cancel_cc_def cc_publish_def upd_def)
  moreover have "triple (cc_at CR_RUNNING [CI_RUNNING, CI_PENDING] []) (run_cc e) (\<lambda>_. cc_verdict)"
    unfolding run_cc_def
    by (intro with_ext_5v_ends cc_tests_verdict cc_publishes keeps_cc_calls keeps_cc_verdict)
  ultimately show ?thesis unfolding start_cc_def by (metis tripleD)
qed

subsection \<open>The bus operations of a passed run\<close>

text \<open>\<open>logs ok evs m\<close>: when \<open>m\<close> ends with an \<open>ok\<close> result it has made exactly the calls \<open>evs\<close>.\<close>

definition logs :: "('a \<Rightarrow> bool) \<Rightarrow> radio_event list \<Rightarrow> ('s, 'a) radio_act \<Rightarrow> bool" where
  "logs ok evs m \<longleftrightarrow> (\<forall>t. triple (\<lambda>w. rd_trace w = t) m (\<lambda>r w. ok r \<longrightarrow> rd_trace w = t @ evs))"

definition fails :: "('a \<Rightarrow> bool) \<Rightarrow> ('s, 'a) radio_act \<Rightarrow> bool" where
  "fails ok m \<longleftrightarrow> triple (\<lambda>_. True) m (\<lambda>r _. \<not> ok r)"

lemma fails_ret [simp]: "fails ok (ret x) \<longleftrightarrow> \<not> ok x"
  by (simp add: fails_def triple_def ret_def)

lemma logs_fails: "fails ok m \<Longrightarrow> logs ok evs m"
  by (simp add: fails_def logs_def triple_def)

lemma logs_ret: "(ok x \<Longrightarrow> evs = []) \<Longrightarrow> logs ok evs (ret x)"
  by (simp add: logs_def triple_def ret_def)

lemma logs_bind:
  assumes "logs okm a m" "\<And>x. okm x \<Longrightarrow> logs ok b (f x)" "\<And>x. \<not> okm x \<Longrightarrow> fails ok (f x)"
  shows "logs ok (a @ b) (m \<bind> f)"
  unfolding logs_def
proof (intro allI triple_bind)
  fix t x
  show "triple (\<lambda>w. rd_trace w = t) m (\<lambda>r w. okm r \<longrightarrow> rd_trace w = t @ a)"
    using assms(1) by (simp add: logs_def)
  show "triple (\<lambda>w. okm x \<longrightarrow> rd_trace w = t @ a) (f x) (\<lambda>r w. ok r \<longrightarrow> rd_trace w = t @ a @ b)"
    using assms(2,3) [of x] by (cases "okm x") (auto simp: logs_def fails_def triple_def)
qed

lemma logs_silent_bind:
  assumes "logs (\<lambda>_. True) [] m" "\<And>x. logs ok b (f x)"
  shows "logs ok b (m \<bind> f)"
  using logs_bind [OF assms(1), of ok b f] assms(2) by simp

lemma logs_silent:
  "logs (\<lambda>_. True) [] (radio_sleep n)" "logs (\<lambda>_. True) [] (radio_canceled e)"
  "logs (\<lambda>_. True) [] (cc_publish g)" "logs (\<lambda>_. True) [] (cc_detail i d)"
  by (simp_all add: logs_def triple_def radio_act_defs cc_publish_def cc_detail_def)

lemma logs_calls:
  "logs (\<lambda>r. r = None) [SpiOpen p True] (spi_open e p)"
  "logs (\<lambda>r. r = None) [LineSet n l True] (line_set e n l)"
  "logs (\<lambda>r. \<not> isl r) [SpiTransfer tx True] (spi_transfer e tx)"
  by (auto simp: logs_def triple_def radio_act_defs split: option.splits)

text \<open>What an action always returns helps to tell when its last step is ok.\<close>

definition returns :: "('a \<Rightarrow> bool) \<Rightarrow> ('s, 'a) radio_act \<Rightarrow> bool" where
  "returns I m \<longleftrightarrow> triple (\<lambda>_. True) m (\<lambda>r _. I r)"

lemma logs_end:
  assumes "logs okm evs m" "returns I m" "\<And>x. I x \<Longrightarrow> ok (f x) \<Longrightarrow> okm x"
  shows "logs ok evs (m \<bind> (\<lambda>x. ret (f x)))"
  using assms by (auto simp: logs_def returns_def triple_def ret_def case_prod_unfold)

lemma logs_returns_bind:
  assumes "logs okm a m" "returns I m" "\<And>x. I x \<Longrightarrow> okm x \<Longrightarrow> logs ok b (f x)"
    "\<And>x. I x \<Longrightarrow> \<not> okm x \<Longrightarrow> fails ok (f x)"
  shows "logs ok (a @ b) (m \<bind> f)"
  unfolding logs_def
proof (intro allI triple_bind)
  fix t x
  show "triple (\<lambda>w. rd_trace w = t) m (\<lambda>r w. I r \<and> (okm r \<longrightarrow> rd_trace w = t @ a))"
    using assms(1,2) by (simp add: logs_def returns_def triple_def)
  show "triple (\<lambda>w. I x \<and> (okm x \<longrightarrow> rd_trace w = t @ a)) (f x) (\<lambda>r w. ok r \<longrightarrow> rd_trace w = t @ a @ b)"
    using assms(3,4) [of x] by (cases "I x"; cases "okm x") (auto simp: logs_def fails_def triple_def)
qed

lemma returns_any: "returns (\<lambda>_. True) m"
  by (simp add: returns_def triple_def)

lemma logs_answer:
  assumes "logs (\<lambda>r. \<not> isl r) evs m" "\<And>failure. isl (f (Inl failure))"
  shows "logs (\<lambda>r. \<not> isl r) evs (m \<bind> (\<lambda>answer. ret (f answer)))"
proof (rule logs_end [OF assms(1) returns_any])
  show "\<not> isl x" if "\<not> isl (f x)" for x
    using that assms(2) by (cases x) auto
qed

lemma logs_cc_reads:
  "logs (\<lambda>r. \<not> isl r) [SpiTransfer [c] True] (cc_strobe e c)"
  "logs (\<lambda>r. \<not> isl r) [SpiTransfer [reg OR cc_status_read, 0x00] True] (cc_read_status e reg)"
  unfolding cc_strobe_def cc_read_status_def by (intro logs_answer logs_calls; simp)+

definition framed :: "8 word list \<Rightarrow> radio_event list" where
  "framed tx = [LineSet st_chip_select False True, SpiTransfer tx True, LineSet st_chip_select True True]"

lemma logs_software_cs: "logs (\<lambda>r. \<not> isl r) (framed tx) (transfer_with_software_cs e tx)"
proof -
  have last: "logs (\<lambda>r. \<not> isl r) [LineSet st_chip_select True True]
      (line_set e st_chip_select True \<bind> (\<lambda>deasserted.
        ret (case deasserted of Some failure \<Rightarrow> Inl (g failure) | None \<Rightarrow> Inr rx)))" for rx :: "8 word list" and g
    by (rule logs_end [OF logs_calls(2) returns_any]) (auto split: option.splits)
  have after: "fails (\<lambda>r. \<not> isl r) (line_set e st_chip_select True \<bind> (\<lambda>deasserted.
      ret (case deasserted of Some failure \<Rightarrow> Inl (g failure) | None \<Rightarrow> Inl before)))"
    for before :: string and g
    by (auto simp: fails_def triple_def radio_act_defs split: option.splits)
  have inner: "logs (\<lambda>r. \<not> isl r) ([SpiTransfer tx True] @ [LineSet st_chip_select True True])
      (spi_transfer e tx \<bind> (\<lambda>answer. line_set e st_chip_select True \<bind> (\<lambda>deasserted.
        ret (case deasserted of
               Some failure \<Rightarrow> Inl (joined_error (case answer of Inl before \<Rightarrow> before | Inr rx \<Rightarrow> [])
                 (''deassert software CS: '' @ failure))
             | None \<Rightarrow> answer))))"
  proof (rule logs_bind [OF logs_calls(3)], goal_cases)
    case (1 x)
    then show ?case using last by (cases x) auto
  next
    case (2 x)
    then show ?case using after by (cases x) auto
  qed
  have "logs (\<lambda>r. \<not> isl r) ([LineSet st_chip_select False True] @ ([SpiTransfer tx True] @ [LineSet st_chip_select True True]))
      (transfer_with_software_cs e tx)"
    unfolding transfer_with_software_cs_def
  proof (rule logs_bind [OF logs_calls(2)], goal_cases)
    case (1 x)
    then show ?case using inner by simp
  qed auto
  then show ?thesis by (simp add: framed_def)
qed

lemma logs_st_register: "logs (\<lambda>r. \<not> isl r) (framed [st_register_read OR reg, 0x00]) (read_st_register e reg)"
  unfolding read_st_register_def by (intro logs_answer logs_software_cs) simp

lemma logs_read_fields:
  "list_all2 (\<lambda>field evs. logs (\<lambda>r. \<not> isl r) evs (fst field)) acts evss \<Longrightarrow>
     logs (\<lambda>r. fst r = None) (concat evss) (read_fields acts r)"
proof (induction acts evss arbitrary: r rule: list_all2_induct)
  case Nil
  then show ?case by (simp add: logs_ret)
next
  case (Cons field acts evs evss)
  obtain act store where field: "field = (act, store)" by fastforce
  have "logs (\<lambda>r. fst r = None) (evs @ concat evss) (read_fields ((act, store) # acts) r)"
    unfolding read_fields.simps
  proof (rule logs_bind)
    show "logs (\<lambda>r. \<not> isl r) evs act" using Cons field by simp
  next
    show "logs (\<lambda>r. fst r = None) (concat evss) (case x of Inl failure \<Rightarrow> ret (Some failure, r)
        | Inr v \<Rightarrow> read_fields acts (store v r))" if "\<not> isl x" for x
      using Cons.IH that by (cases x) auto
  qed (auto split: sum.splits)
  then show ?case by (simp add: field)
qed

definition cc1101_bus :: "radio_event list" where
  "cc1101_bus = [SpiOpen ''/dev/spidev0.1'' True, SpiTransfer [0x30] True, SpiTransfer [0x36] True,
     SpiTransfer [0xF0, 0] True, SpiTransfer [0xF1, 0] True, SpiTransfer [0xF5, 0] True, SpiTransfer [0xF8, 0] True]"

definition st25r3916_bus :: "radio_event list" where
  "st25r3916_bus = [LineSet st_chip_select True True, SpiOpen ''/dev/spidev0.1'' True] @
     framed [0x7F, 0] @ framed [0x42, 0] @ framed [0x5E, 0] @ framed [0x5F, 0] @ framed [0x7F, 0]"

lemmas register_defs = cc_sres_def cc_sidle_def cc_partnum_def cc_version_reg_def cc_marcstate_def
  cc_pktstatus_def cc_status_read_def st_operation_control_reg_def st_fifo_status1_reg_def
  st_fifo_status2_reg_def st_identity_reg_def st_register_read_def

lemma logs_fields:
  "logs (\<lambda>r. fst r = None) (concat [[SpiTransfer [0x36] True], [SpiTransfer [0xF0, 0] True],
     [SpiTransfer [0xF1, 0] True], [SpiTransfer [0xF5, 0] True], [SpiTransfer [0xF8, 0] True]])
     (read_fields (cc_fields e) r)"
  "logs (\<lambda>r. fst r = None) (concat [framed [0x7F, 0], framed [0x42, 0], framed [0x5E, 0],
     framed [0x5F, 0], framed [0x7F, 0]]) (read_fields (st_fields e) r')"
proof -
  have words: "cc_partnum OR cc_status_read = 0xF0" "cc_version_reg OR cc_status_read = 0xF1"
    "cc_marcstate OR cc_status_read = 0xF5" "cc_pktstatus OR cc_status_read = 0xF8"
    "st_register_read OR st_identity_reg = 0x7F" "st_register_read OR st_operation_control_reg = 0x42"
    "st_register_read OR st_fifo_status1_reg = 0x5E" "st_register_read OR st_fifo_status2_reg = 0x5F"
    by (simp_all add: register_defs)
  show "logs (\<lambda>r. fst r = None) (concat [[SpiTransfer [0x36] True], [SpiTransfer [0xF0, 0] True],
     [SpiTransfer [0xF1, 0] True], [SpiTransfer [0xF5, 0] True], [SpiTransfer [0xF8, 0] True]])
     (read_fields (cc_fields e) r)"
    using logs_cc_reads(1) [of cc_sidle e] logs_cc_reads(2) [of cc_partnum e] logs_cc_reads(2) [of cc_version_reg e]
      logs_cc_reads(2) [of cc_marcstate e] logs_cc_reads(2) [of cc_pktstatus e]
    by (intro logs_read_fields) (simp add: cc_fields_def words, simp add: cc_sidle_def)
  show "logs (\<lambda>r. fst r = None) (concat [framed [0x7F, 0], framed [0x42, 0], framed [0x5E, 0],
     framed [0x5F, 0], framed [0x7F, 0]]) (read_fields (st_fields e) r')"
    using logs_st_register [of st_identity_reg e] logs_st_register [of st_operation_control_reg e]
      logs_st_register [of st_fifo_status1_reg e] logs_st_register [of st_fifo_status2_reg e]
    by (intro logs_read_fields) (simp add: st_fields_def words)
qed


lemma returns_read_fields:
  "(\<And>act store v r. (act, store) \<in> set acts \<Longrightarrow> f (store v r) = f r) \<Longrightarrow>
     returns (\<lambda>x. f (snd x) = f r) (read_fields acts r)"
proof (induction acts arbitrary: r)
  case Nil
  then show ?case by (simp add: returns_def triple_def ret_def)
next
  case (Cons a acts)
  obtain act store where a: "a = (act, store)" by fastforce
  have "returns (\<lambda>x. f (snd x) = f r) (read_fields acts (store v r))" for v
    using Cons.IH [of "store v r"] Cons.prems [of act store v r] Cons.prems a by (auto simp: returns_def)
  then show ?case unfolding a read_fields.simps returns_def
    by (intro triple_bind [where R = "\<lambda>_ _. True"]) (auto simp: triple_def ret_def split: sum.splits)
qed

text \<open>The shapes of the code: a call that ends the test where it fails, and a look at the cancel flag.\<close>

lemma logs_try_option:
  assumes "logs (\<lambda>r. r = None) a m" "logs ok b n" "\<And>y. fails ok (f y)"
  shows "logs ok (a @ b) (m \<bind> (\<lambda>x. case x of Some y \<Rightarrow> f y | None \<Rightarrow> n))"
  using assms(2,3) by (intro logs_bind [OF assms(1)]) auto

lemma logs_try_sum:
  assumes "logs (\<lambda>r. \<not> isl r) a m" "\<And>v. logs ok b (g v)" "\<And>y. fails ok (f y)"
  shows "logs ok (a @ b) (m \<bind> (\<lambda>x. case x of Inl y \<Rightarrow> f y | Inr v \<Rightarrow> g v))"
  using assms(2,3) by (intro logs_bind [OF assms(1)]) (auto split: sum.splits)

lemma logs_unless_canceled:
  "logs ok b n \<Longrightarrow> fails ok m \<Longrightarrow> logs ok b (radio_canceled e \<bind> (\<lambda>canceled. if canceled then m else n))"
  by (rule logs_silent_bind [OF logs_silent(2)]) (auto intro: logs_fails)

lemma read_fields_detected:
  "returns (\<lambda>x. cc_detected (snd x) = cc_detected r) (read_fields (cc_fields e) r)"
  "returns (\<lambda>x. st_detected (snd x) = st_detected s) (read_fields (st_fields e) s)"
   by (rule returns_read_fields; auto simp: cc_fields_def)
     (rule returns_read_fields; auto simp: st_fields_def)

lemma not_ok: "\<not> cc_ok (empty_cc1101\<lparr>cc_error_message := m\<rparr>)" "\<not> st_ok (empty_st25r3916\<lparr>st_error_message := m\<rparr>)"
  by (simp_all add: cc_ok_def st_ok_def empty_cc1101_def empty_st25r3916_def)

lemma logs_end_pair:
  assumes "logs okm evs m" "returns I m" "\<And>a b. I (a, b) \<Longrightarrow> ok (f a b) \<Longrightarrow> okm (a, b)"
  shows "logs ok evs (m \<bind> (\<lambda>(a, b). ret (f a b)))"
  using logs_end [OF assms(1,2), of ok "\<lambda>x. f (fst x) (snd x)"] assms(3) by (auto simp: case_prod_unfold)

lemma run_cc1101_logs: "logs cc_ok cc1101_bus (run_cc1101_test e)"
proof -
  have bus: "cc1101_bus = [SpiOpen ''/dev/spidev0.1'' True] @ [SpiTransfer [cc_sres] True] @
      concat [[SpiTransfer [0x36] True], [SpiTransfer [0xF0, 0] True],
        [SpiTransfer [0xF1, 0] True], [SpiTransfer [0xF5, 0] True], [SpiTransfer [0xF8, 0] True]]"
    by (simp add: cc1101_bus_def cc_sres_def)
  show ?thesis
    unfolding run_cc1101_test_def bus
    by (intro logs_try_option logs_calls logs_silent_bind [OF logs_silent(4)] logs_try_sum logs_cc_reads
        logs_silent_bind [OF logs_silent(1)] logs_unless_canceled
        logs_end_pair [OF logs_fields(1) read_fields_detected(1)])
      (auto simp: not_ok cc_ok_def empty_cc1101_def split: option.splits)
qed

lemma run_st25r3916_logs: "logs st_ok st25r3916_bus (run_st25r3916_test e)"
proof -
  have reads: "concat [framed [0x7F, 0], framed [0x42, 0], framed [0x5E, 0], framed [0x5F, 0], framed [0x7F, 0]] @ [] =
      concat [framed [0x7F, 0], framed [0x42, 0], framed [0x5E, 0], framed [0x5F, 0], framed [0x7F, 0]]" by simp
  have bus: "st25r3916_bus = [LineSet st_chip_select True True] @ [SpiOpen ''/dev/spidev0.1'' True] @
      (concat [framed [0x7F, 0], framed [0x42, 0], framed [0x5E, 0], framed [0x5F, 0], framed [0x7F, 0]] @ [])"
    by (simp add: st25r3916_bus_def)
  have judged: "logs st_ok [] (radio_canceled e \<bind> (\<lambda>canceled.
      ret (if canceled then r\<lparr>st_error_message := m\<rparr> else judge_st25r3916 r)))" for r m
    by (rule logs_silent_bind [OF logs_silent(2)]) (simp add: logs_ret)
  have read: "logs st_ok (concat [framed [0x7F, 0], framed [0x42, 0], framed [0x5E, 0], framed [0x5F, 0], framed [0x7F, 0]] @ [])
      (read_fields (st_fields e) empty_st25r3916 \<bind> (\<lambda>(failed, r). case failed of
         Some failure \<Rightarrow> ret (r\<lparr>st_error_message := failure\<rparr>)
       | None \<Rightarrow> radio_canceled e \<bind> (\<lambda>canceled.
           ret (if canceled then r\<lparr>st_error_message := ''test canceled''\<rparr> else judge_st25r3916 r))))"
    by (rule logs_returns_bind [OF logs_fields(2) read_fields_detected(2)])
      (auto simp: empty_st25r3916_def st_ok_def intro: judged split: option.splits)
  show ?thesis
    unfolding run_st25r3916_test_def bus
    by (intro logs_try_option logs_calls logs_silent_bind [OF logs_silent(4)] read) (simp_all add: not_ok)
qed

lemma cc_tests_log:
  "triple (\<lambda>w. rd_trace w = t) (cc_tests e)
     (\<lambda>_ w. cs_state (rd_snapshot w) = CR_PASSED \<longrightarrow> rd_trace w = t @ cc1101_bus @ st25r3916_bus)"
proof -
  let ?done_right = "\<lambda>_ w. cs_state (rd_snapshot w) = CR_PASSED \<longrightarrow> rd_trace w = t @ cc1101_bus @ st25r3916_bus"
  have canceled: "triple P cc_publish_canceled ?done_right" for P
    by (simp add: triple_def cc_publish_canceled_def cc_publish_def upd_def)
  have silent: "triple (\<lambda>w. b \<longrightarrow> rd_trace w = u) (radio_canceled e) (\<lambda>_ w. b \<longrightarrow> rd_trace w = u)"
    "triple (\<lambda>w. b \<longrightarrow> rd_trace w = u) (cc_publish_first cc) (\<lambda>_ w. b \<longrightarrow> rd_trace w = u)" for b u cc
    by (simp_all add: triple_def radio_act_defs cc_publish_first_def cc_publish_def)
  have st: "triple (\<lambda>w. cc_ok cc \<longrightarrow> rd_trace w = t @ cc1101_bus) (run_st25r3916_test e)
      (\<lambda>s w. cc_ok cc \<and> st_ok s \<longrightarrow> rd_trace w = t @ cc1101_bus @ st25r3916_bus)" for cc
    using run_st25r3916_logs [of e] by (cases "cc_ok cc") (auto simp: logs_def triple_def)
  have verdict: "triple (\<lambda>w. cc_ok cc \<and> st_ok s \<longrightarrow> rd_trace w = t @ cc1101_bus @ st25r3916_bus)
      (cc_publish_verdict cc s) ?done_right" for cc s
    by (auto simp: triple_def cc_publish_verdict_def cc_publish_def upd_def cc_set_item_def Let_def)
  have cc: "triple (\<lambda>w. rd_trace w = t) (run_cc1101_test e) (\<lambda>cc w. cc_ok cc \<longrightarrow> rd_trace w = t @ cc1101_bus)"
    using run_cc1101_logs [of e] by (simp add: logs_def)
  show ?thesis unfolding cc_tests_def
    by (intro triple_bind [OF cc] triple_bind [OF silent(1)] triple_if canceled triple_bind [OF silent(2)]
        triple_bind [OF st] verdict)
qed

lemma cc_passed_log:
  assumes "cs_state (rd_snapshot (start_cc e w)) = CR_PASSED"
  shows "\<exists>off. rd_trace (start_cc e w) =
    rd_trace w @ PowerWrite True True # cc1101_bus @ st25r3916_bus @ [PowerWrite False off]"
proof -
  let ?w0 = "reset_cc (cancel_cc w)"
  obtain r w1 where p: "run_state (power_write e True) ?w0 = (r, w1)" by fastforce
  have w1: "rd_trace w1 = rd_trace w @ [PowerWrite True (r = None)]"
    using p by (auto simp: radio_act_defs reset_cc_def cancel_cc_def cc_publish_def)
  have start: "start_cc e w = snd (run_state (with_ext_5v e cc_publish_power_failure (cc_tests e)) ?w0)"
    by (simp add: start_cc_def run_cc_def)
  show ?thesis
  proof (cases r)
    case None
    let ?w2 = "snd (run_state (radio_sleep ext_5v_settle_ms) w1)"
    let ?w3 = "snd (run_state (cc_tests e) ?w2)"
    have "start_cc e w = snd (run_state (power_write e False) ?w3)"
      using p None by (simp add: start with_ext_5v_def case_prod_unfold ret_def)
    moreover have "rd_trace ?w2 = rd_trace w1" by (simp add: radio_act_defs)
    moreover have "cs_state (rd_snapshot ?w3) = CR_PASSED"
      using assms calculation(1) by (simp add: radio_act_defs)
    ultimately show ?thesis
      using tripleD [OF cc_tests_log, of ?w2 "rd_trace w1" e] w1 None by (simp add: radio_act_defs)
  next
    case (Some m)
    then have "cs_state (rd_snapshot (start_cc e w)) = CR_FAILED"
      using p by (simp add: start with_ext_5v_def case_prod_unfold cc_publish_power_failure_def cc_publish_def upd_def)
    then show ?thesis using assms by simp
  qed
qed

text \<open>C6: a run of the CAP-CC1101 test gives a verdict that agrees with its items, and it passes
  only by making every bus operation of the two chips successfully, in the order of the code and
  none besides, between the two switches of the supply.\<close>

theorem cc_run_verdict:
  "case cs_state (rd_snapshot (start_cc e w)) of
     CR_PASSED \<Rightarrow> map ci_state (cs_items (rd_snapshot (start_cc e w))) = [CI_PASSED, CI_PASSED] \<and>
       cs_error_message (rd_snapshot (start_cc e w)) = [] \<and>
       (\<exists>off. rd_trace (start_cc e w) =
          rd_trace w @ PowerWrite True True # cc1101_bus @ st25r3916_bus @ [PowerWrite False off])
   | CR_FAILED \<Rightarrow> CI_FAILED \<in> set (map ci_state (cs_items (rd_snapshot (start_cc e w))))
   | CR_CANCELED \<Rightarrow> rd_cancel_requested (start_cc e w) \<and>
       map ci_state (cs_items (rd_snapshot (start_cc e w))) \<noteq> [CI_PASSED, CI_PASSED]
   | _ \<Rightarrow> False"
  using cc_run_has_verdict [of e w] cc_passed_log [of e w]
  by (cases "cs_state (rd_snapshot (start_cc e w))") (simp_all add: cc_verdict_def Let_def)

end
