(* ===== verification/Menus.thy ===== *)
theory Menus
  imports AppFlow
begin

section \<open>Menus: the start menu, the menus of single tests and the display test\<close>

text \<open>
  The classes \<open>StartMenuModel\<close>, \<open>ConnectivityTestModel\<close>, \<open>PerfTestModel\<close>, \<open>LcdTestModel\<close>
  (src/src/model) and their view models (src/src/viewmodel), which pass the calls on and set the
  subjects. A record of a view model holds the members of its model, its own flags and the last
  values of its subjects; the titles of table are kept, their icons (glyphs of a font) are not.
  The two models with sub-pages are one definition over the table of items and the page that is
  the menu, where their code agrees.
\<close>

subsection \<open>The start menu (start_menu_model.cpp)\<close>

datatype menu_category = MC_AUTO | MC_PERIPH | MC_COMMS

record start_menu_item =
  mi_title :: string
  mi_category :: menu_category
  mi_target_page :: app_page
  mi_starts_sequence :: bool

definition menu_item :: "menu_category \<Rightarrow> string \<times> app_page \<Rightarrow> start_menu_item" where
  "menu_item c tp = \<lparr>mi_title = fst tp, mi_category = c, mi_target_page = snd tp, mi_starts_sequence = False\<rparr>"

definition start_menu_items :: "bool \<Rightarrow> start_menu_item list" where
  "start_menu_items product_mode =
     \<lparr>mi_title = ''Start Full Test'', mi_category = MC_AUTO, mi_target_page = KEYBOARD_TEST,
      mi_starts_sequence = True\<rparr> #
     map (menu_item MC_AUTO)
       ([(''Fire in the Pi'', FIRE_IN_THE_PI), (''Language'', START), (''Sound'', START),
         (''Device Information'', DEVICE_INFO)] @
        (if product_mode then [(''IOE1 Upgrade'', PY32_UPGRADE)] else []) @
        [(''Power Information'', POWER_INFO), (''CPU Benchmark'', CPU_BENCHMARK),
         (''Mem Stress Test'', MEM_STRESS_TEST), (''SD Card Test'', SD_CARD_TEST),
         (''Poweroff'', START), (''Reboot'', START)]) @
     map (menu_item MC_PERIPH)
       [(''Input Test'', KEYBOARD_TEST), (''Display Test'', LCD_TEST), (''Audio Test'', AUDIO_TEST),
        (''Camera Test'', CAMERA_TEST), (''IR Sender'', IR_SEND_TEST), (''IR Receiver'', IR_RECEIVE_TEST),
        (''IMU Test'', IMU_TEST)] @
     map (menu_item MC_COMMS)
       [(''Wi-Fi'', WIFI_TEST), (''Bluetooth'', BT_TEST), (''Ethernet'', ETH_TEST), (''USB'', USB_TEST),
        (''HDMI'', HDMI_TEST), (''I2C'', I2C_TEST), (''SPI'', SPI_TEST), (''UART'', UART_TEST),
        (''EXT.IO'', EXT_IO_TEST), (''Link Test'', LINK_TEST), (''CAP LoRa-1262'', CAP_LORA_1262_TEST),
        (''CAP-CC1101'', CAP_CC1101_TEST)]"

definition start_item_count :: "bool \<Rightarrow> nat" where
  "start_item_count product_mode = 30 + (if product_mode then 1 else 0)"

record start_menu =
  mn_category :: menu_category
  mn_indices :: "nat list" \<comment> \<open>std::array of three\<close>
  mn_drawer_hidden :: bool
  mn_index_subject :: int
  mn_category_subject :: int

fun category_to_index :: "menu_category \<Rightarrow> nat" where
  "category_to_index MC_AUTO = 0"
| "category_to_index MC_PERIPH = 1"
| "category_to_index MC_COMMS = 2"

definition category_of_index :: "nat \<Rightarrow> menu_category" where
  "category_of_index i = (if i = 0 then MC_AUTO else if i = 1 then MC_PERIPH else MC_COMMS)"

definition category_count :: nat where "category_count = 3"

definition item_count_for_category :: "start_menu_item list \<Rightarrow> menu_category \<Rightarrow> nat" where
  "item_count_for_category table c = foldl (\<lambda>count it. if mi_category it = c then count + 1 else count) 0 table"

text \<open>The loop of \<open>absolute_index_for_category_\<close> from item \<open>i\<close> on; \<open>None\<close> is the code's
  \<open>K_ITEM_COUNT\<close>.\<close>

fun absolute_index_from :: "start_menu_item list \<Rightarrow> menu_category \<Rightarrow> nat \<Rightarrow> nat \<Rightarrow> nat \<Rightarrow> nat option" where
  "absolute_index_from [] c index i category_index = None"
| "absolute_index_from (it # table) c index i category_index =
     (if mi_category it \<noteq> c then absolute_index_from table c index (i + 1) category_index
      else if category_index = index then Some i
      else absolute_index_from table c index (i + 1) (category_index + 1))"

definition absolute_index_for_category :: "start_menu_item list \<Rightarrow> menu_category \<Rightarrow> nat \<Rightarrow> nat option" where
  "absolute_index_for_category table c index = absolute_index_from table c index 0 0"

definition item_for_category :: "start_menu_item list \<Rightarrow> menu_category \<Rightarrow> nat \<Rightarrow> start_menu_item option" where
  "item_for_category table c index = map_option ((!) table) (absolute_index_for_category table c index)"

definition start_selected_index :: "start_menu \<Rightarrow> nat" where
  "start_selected_index s = mn_indices s ! category_to_index (mn_category s)"

text \<open>\<open>selected_item ()\<close> reads the table without a test of the index: \<open>None\<close> would be a read past
  its end.\<close>

definition start_selected_item :: "start_menu_item list \<Rightarrow> start_menu \<Rightarrow> start_menu_item option" where
  "start_selected_item table s = item_for_category table (mn_category s) (start_selected_index s)"

definition set_category_index :: "nat \<Rightarrow> start_menu \<Rightarrow> start_menu" where
  "set_category_index index s = s\<lparr>mn_indices := (mn_indices s)[category_to_index (mn_category s) := index]\<rparr>"

definition start_select_previous :: "start_menu \<Rightarrow> start_menu" where
  "start_select_previous s =
     (if start_selected_index s > 0 then set_category_index (start_selected_index s - 1) s else s)"

definition start_select_next :: "start_menu_item list \<Rightarrow> start_menu \<Rightarrow> start_menu" where
  "start_select_next table s =
     (if start_selected_index s + 1 < item_count_for_category table (mn_category s)
      then set_category_index (start_selected_index s + 1) s else s)"

definition start_set_selected_index :: "start_menu_item list \<Rightarrow> nat \<Rightarrow> start_menu \<Rightarrow> start_menu" where
  "start_set_selected_index table index s =
     (if index < item_count_for_category table (mn_category s) then set_category_index index s else s)"

definition start_set_category :: "start_menu_item list \<Rightarrow> menu_category \<Rightarrow> start_menu \<Rightarrow> start_menu" where
  "start_set_category table c s =
     (let s1 = s\<lparr>mn_category := c\<rparr>; count = item_count_for_category table c
      in set_category_index (if count = 0 then 0 else min (start_selected_index s1) (count - 1)) s1)"

definition start_previous_category :: "start_menu_item list \<Rightarrow> start_menu \<Rightarrow> start_menu" where
  "start_previous_category table s =
     (if category_to_index (mn_category s) > 0
      then start_set_category table (category_of_index (category_to_index (mn_category s) - 1)) s else s)"

definition start_next_category :: "start_menu_item list \<Rightarrow> start_menu \<Rightarrow> start_menu" where
  "start_next_category table s =
     (if category_to_index (mn_category s) + 1 < category_count
      then start_set_category table (category_of_index (category_to_index (mn_category s) + 1)) s else s)"

text \<open>The view model (start_menu_viewmodel.cpp): each call is passed on and published.\<close>

definition start_publish :: "start_menu \<Rightarrow> start_menu" where
  "start_publish s = s\<lparr>mn_index_subject := int (start_selected_index s),
     mn_category_subject := int (category_to_index (mn_category s))\<rparr>"

definition initial_start_menu :: start_menu where
  "initial_start_menu = \<lparr>mn_category = MC_AUTO, mn_indices = [0, 0, 0], mn_drawer_hidden = False,
     mn_index_subject = 0, mn_category_subject = 0\<rparr>"

datatype start_call =
    StartPrevious | StartNext | StartSetIndex nat | StartPreviousCategory | StartNextCategory
  | StartSetCategory menu_category | StartSetDrawer bool

fun start_menu_call :: "start_menu_item list \<Rightarrow> start_call \<Rightarrow> start_menu \<Rightarrow> start_menu" where
  "start_menu_call table StartPrevious s = start_publish (start_select_previous s)"
| "start_menu_call table StartNext s = start_publish (start_select_next table s)"
| "start_menu_call table (StartSetIndex i) s = start_publish (start_set_selected_index table i s)"
| "start_menu_call table StartPreviousCategory s = start_publish (start_previous_category table s)"
| "start_menu_call table StartNextCategory s = start_publish (start_next_category table s)"
| "start_menu_call table (StartSetCategory c) s = start_publish (start_set_category table c s)"
| "start_menu_call table (StartSetDrawer hidden) s = s\<lparr>mn_drawer_hidden := hidden\<rparr>"

subsection \<open>Menus with sub-pages (connectivity_test_model.cpp, perf_test_model.cpp)\<close>

datatype sub_page =
  SP_MENU | SP_WIFI | SP_BLUETOOTH | SP_ETHERNET | SP_USB | SP_HDMI | SP_I2C | SP_SPI | SP_UART |
  SP_EXT_IO | SP_LINK_TEST

datatype perf_page = PP_MENU | PP_CPU | PP_MEM | PP_SD

definition connectivity_items :: "(string \<times> sub_page) list" where
  "connectivity_items =
     [(''Wi-Fi'', SP_WIFI), (''Bluetooth'', SP_BLUETOOTH), (''Ethernet'', SP_ETHERNET), (''USB'', SP_USB),
      (''HDMI'', SP_HDMI), (''I2C'', SP_I2C), (''SPI'', SP_SPI), (''UART'', SP_UART),
      (''EXT.IO'', SP_EXT_IO), (''Link Test'', SP_LINK_TEST)]"

definition perf_items :: "(string \<times> perf_page) list" where
  "perf_items = [(''CPU Benchmark'', PP_CPU), (''Memory Stress'', PP_MEM), (''SD Card Test'', PP_SD)]"

record 'p page_menu =
  pm_selected_index :: nat
  pm_active_page :: 'p
  pm_direct_subpage :: bool
  pm_index_subject :: int
  pm_page_subject :: 'p \<comment> \<open>its number in the code\<close>

definition initial_page_menu :: "'p \<Rightarrow> 'p page_menu" where
  "initial_page_menu home = \<lparr>pm_selected_index = 0, pm_active_page = home, pm_direct_subpage = False,
     pm_index_subject = 0, pm_page_subject = home\<rparr>"

definition select_previous :: "'p page_menu \<Rightarrow> 'p page_menu" where
  "select_previous m = (if pm_selected_index m > 0 then m\<lparr>pm_selected_index := pm_selected_index m - 1\<rparr> else m)"

definition select_next :: "(string \<times> 'p) list \<Rightarrow> 'p page_menu \<Rightarrow> 'p page_menu" where
  "select_next table m =
     (if pm_selected_index m + 1 < length table then m\<lparr>pm_selected_index := pm_selected_index m + 1\<rparr> else m)"

definition connectivity_set_index :: "nat \<Rightarrow> sub_page page_menu \<Rightarrow> sub_page page_menu" where
  "connectivity_set_index index m = m\<lparr>pm_selected_index := min index (length connectivity_items - 1)\<rparr>"

definition perf_set_index :: "nat \<Rightarrow> perf_page page_menu \<Rightarrow> perf_page page_menu" where
  "perf_set_index index m = (if index < length perf_items then m\<lparr>pm_selected_index := index\<rparr> else m)"

definition activate_selected :: "(string \<times> 'p) list \<Rightarrow> 'p page_menu \<Rightarrow> 'p page_menu" where
  "activate_selected table m = m\<lparr>pm_active_page := snd (table ! pm_selected_index m)\<rparr>"

text \<open>The search of \<open>show_subpage ()\<close> for the first item of the page.\<close>

fun find_page :: "(string \<times> 'p) list \<Rightarrow> 'p \<Rightarrow> nat \<Rightarrow> nat option" where
  "find_page [] p i = None"
| "find_page (it # table) p i = (if snd it = p then Some i else find_page table p (i + 1))"

definition show_menu_page :: "'p \<Rightarrow> 'p page_menu \<Rightarrow> 'p page_menu" where
  "show_menu_page home m = m\<lparr>pm_active_page := home\<rparr>"

definition show_subpage :: "(string \<times> 'p) list \<Rightarrow> 'p \<Rightarrow> 'p \<Rightarrow> 'p page_menu \<Rightarrow> 'p page_menu" where
  "show_subpage table home p m =
     (if p = home then show_menu_page home m
      else case find_page table p 0 of
        Some i \<Rightarrow> m\<lparr>pm_selected_index := i, pm_active_page := p\<rparr>
      | None \<Rightarrow> m)"

subsection \<open>Their view models (connectivity_test_viewmodel.cpp, perf_test_viewmodel.cpp)\<close>

definition menu_active :: "'p \<Rightarrow> 'p page_menu \<Rightarrow> bool" where
  "menu_active home m \<longleftrightarrow> pm_active_page m = home"

definition publish_menu :: "'p page_menu \<Rightarrow> 'p page_menu" where
  "publish_menu m = m\<lparr>pm_index_subject := int (pm_selected_index m), pm_page_subject := pm_active_page m\<rparr>"

definition vm_select_previous :: "'p \<Rightarrow> 'p page_menu \<Rightarrow> 'p page_menu" where
  "vm_select_previous home m = (if \<not> menu_active home m then m else publish_menu (select_previous m))"

definition vm_select_next :: "(string \<times> 'p) list \<Rightarrow> 'p \<Rightarrow> 'p page_menu \<Rightarrow> 'p page_menu" where
  "vm_select_next table home m = (if \<not> menu_active home m then m else publish_menu (select_next table m))"

definition vm_activate_selected :: "(string \<times> 'p) list \<Rightarrow> 'p \<Rightarrow> 'p page_menu \<Rightarrow> 'p page_menu" where
  "vm_activate_selected table home m =
     (if \<not> menu_active home m then m
      else publish_menu (activate_selected table (m\<lparr>pm_direct_subpage := False\<rparr>)))"

definition vm_show_subpage :: "(string \<times> 'p) list \<Rightarrow> 'p \<Rightarrow> 'p \<Rightarrow> bool \<Rightarrow> 'p page_menu \<Rightarrow> 'p page_menu" where
  "vm_show_subpage table home p direct m =
     publish_menu (show_subpage table home p (m\<lparr>pm_direct_subpage := direct \<and> p \<noteq> home\<rparr>))"

definition vm_show_menu :: "'p \<Rightarrow> 'p page_menu \<Rightarrow> 'p page_menu" where
  "vm_show_menu home m = publish_menu (show_menu_page home (m\<lparr>pm_direct_subpage := False\<rparr>))"

definition vm_clear_direct :: "'p page_menu \<Rightarrow> 'p page_menu" where
  "vm_clear_direct m = m\<lparr>pm_direct_subpage := False\<rparr>"

text \<open>\<open>request_back ()\<close>: whether the request was handled; if not, the caller leaves the page.\<close>

definition vm_request_back :: "'p \<Rightarrow> 'p page_menu \<Rightarrow> bool \<times> 'p page_menu" where
  "vm_request_back home m =
     (if menu_active home m then (False, m)
      else if pm_direct_subpage m then (False, m\<lparr>pm_direct_subpage := False\<rparr>)
      else (True, vm_show_menu home m))"

datatype 'p menu_call =
    MenuPrevious | MenuNext | MenuSetIndex nat | MenuActivate | MenuShowSubpage 'p bool | MenuShowMenu
  | MenuClearDirect | MenuBack

fun page_menu_call ::
  "(string \<times> 'p) list \<Rightarrow> 'p \<Rightarrow> (nat \<Rightarrow> 'p page_menu \<Rightarrow> 'p page_menu) \<Rightarrow> 'p menu_call \<Rightarrow> 'p page_menu \<Rightarrow> 'p page_menu" where
  "page_menu_call table home set_index MenuPrevious m = vm_select_previous home m"
| "page_menu_call table home set_index MenuNext m = vm_select_next table home m"
| "page_menu_call table home set_index (MenuSetIndex i) m = publish_menu (set_index i m)"
| "page_menu_call table home set_index MenuActivate m = vm_activate_selected table home m"
| "page_menu_call table home set_index (MenuShowSubpage p direct) m = vm_show_subpage table home p direct m"
| "page_menu_call table home set_index MenuShowMenu m = vm_show_menu home m"
| "page_menu_call table home set_index MenuClearDirect m = vm_clear_direct m"
| "page_menu_call table home set_index MenuBack m = snd (vm_request_back home m)"

definition connectivity_call :: "sub_page menu_call \<Rightarrow> sub_page page_menu \<Rightarrow> sub_page page_menu" where
  "connectivity_call = page_menu_call connectivity_items SP_MENU connectivity_set_index"

definition perf_call :: "perf_page menu_call \<Rightarrow> perf_page page_menu \<Rightarrow> perf_page page_menu" where
  "perf_call = page_menu_call perf_items PP_MENU perf_set_index"

subsection \<open>The display test (lcd_test_model.cpp, lcd_test_viewmodel.cpp)\<close>

record lcd_test =
  lt_color_index :: "32 word"
  lt_brightness_percent :: "32 word"
  lt_brightness_active :: bool
  lt_color_subject :: "32 word"
  lt_percent_subject :: "32 word"
  lt_active_subject :: bool

definition total_visual_steps :: "32 word" where "total_visual_steps = 11"
definition min_brightness_percent :: "32 word" where "min_brightness_percent = 1"
definition initial_brightness_percent :: "32 word" where "initial_brightness_percent = 80"
definition brightness_step_percent :: "32 word" where "brightness_step_percent = 5"

definition initial_lcd :: lcd_test where
  "initial_lcd = \<lparr>lt_color_index = 0, lt_brightness_percent = initial_brightness_percent,
     lt_brightness_active = False, lt_color_subject = 0, lt_percent_subject = initial_brightness_percent,
     lt_active_subject = False\<rparr>"

definition reset_lcd :: "lcd_test \<Rightarrow> lcd_test" where
  "reset_lcd m = m\<lparr>lt_color_index := 0, lt_brightness_percent := initial_brightness_percent,
     lt_brightness_active := False\<rparr>"

text \<open>\<open>std::clamp\<close>, \<open>std::min\<close> and \<open>std::max\<close> of signed integers.\<close>

definition set_brightness :: "32 word \<Rightarrow> lcd_test \<Rightarrow> lcd_test" where
  "set_brightness percent m = m\<lparr>lt_brightness_percent :=
     (if percent <s min_brightness_percent then min_brightness_percent
      else if 100 <s percent then 100 else percent)\<rparr>"

definition advance_color_index :: "lcd_test \<Rightarrow> lcd_test" where
  "advance_color_index m =
     (if lt_brightness_active m then m
      else if lt_color_index m <s total_visual_steps then m\<lparr>lt_color_index := lt_color_index m + 1\<rparr>
      else m\<lparr>lt_brightness_active := True\<rparr>)"

definition start_brightness :: "lcd_test \<Rightarrow> lcd_test" where
  "start_brightness m = m\<lparr>lt_brightness_active := True, lt_color_index := total_visual_steps + 1\<rparr>"

definition increase_brightness :: "lcd_test \<Rightarrow> lcd_test" where
  "increase_brightness m =
     (if \<not> lt_brightness_active m then m
      else m\<lparr>lt_brightness_percent :=
        (let raised = lt_brightness_percent m + brightness_step_percent in
         if raised <s 100 then raised else 100)\<rparr>)"

definition decrease_brightness :: "lcd_test \<Rightarrow> lcd_test" where
  "decrease_brightness m =
     (if \<not> lt_brightness_active m then m
      else m\<lparr>lt_brightness_percent :=
        (let lowered = lt_brightness_percent m - brightness_step_percent in
         if min_brightness_percent <s lowered then lowered else min_brightness_percent)\<rparr>)"

definition publish_lcd :: "lcd_test \<Rightarrow> lcd_test" where
  "publish_lcd m = m\<lparr>lt_color_subject := lt_color_index m, lt_percent_subject := lt_brightness_percent m,
     lt_active_subject := lt_brightness_active m\<rparr>"

datatype lcd_request =
  LcdReset | LcdSetBrightness "32 word" | LcdAdvance | LcdStartBrightness | LcdIncrease | LcdDecrease

fun lcd_call :: "lcd_request \<Rightarrow> lcd_test \<Rightarrow> lcd_test" where
  "lcd_call LcdReset m = publish_lcd (reset_lcd m)"
| "lcd_call (LcdSetBrightness percent) m = publish_lcd (set_brightness percent m)"
| "lcd_call LcdAdvance m = publish_lcd (advance_color_index m)"
| "lcd_call LcdStartBrightness m = publish_lcd (start_brightness m)"
| "lcd_call LcdIncrease m = publish_lcd (increase_brightness m)"
| "lcd_call LcdDecrease m = publish_lcd (decrease_brightness m)"

end
