(* ===== verification/MenusTheorems.thy ===== *)
theory MenusTheorems
  imports Menus
begin

section \<open>MenusTheorems: selections stay in range and the subjects in step\<close>

text \<open>
  The lookup by category is the list of the items of that category, so that the start menu never
  reads past its table; the two menus with sub-pages share the locale \<open>page_table\<close>; the display
  test keeps its brightness and color within their bounds, without overflow.
\<close>

subsection \<open>The start menu\<close>

abbreviation of_category :: "start_menu_item list \<Rightarrow> menu_category \<Rightarrow> start_menu_item list" where
  "of_category table c \<equiv> filter (\<lambda>it. mi_category it = c) table"

lemma item_count_filter: "item_count_for_category table c = length (of_category table c)"
proof -
  have "foldl (\<lambda>count it. if mi_category it = c then count + 1 else count) n table = n + length (of_category table c)" for n
    by (induction table arbitrary: n) auto
  then show ?thesis by (simp add: item_count_for_category_def)
qed

lemma absolute_from:
  "map_option ((!) (before @ table)) (absolute_index_from table c (k + index) (length before) k) =
     (if index < length (of_category table c) then Some (of_category table c ! index) else None)"
proof (induction table arbitrary: before k index)
  case (Cons it table)
  have step: "before @ it # table = (before @ [it]) @ table" "length before + 1 = length (before @ [it])"
    by simp_all
  show ?case
  proof (cases "mi_category it = c")
    case False
    then show ?thesis using Cons.IH [of "before @ [it]" k index] by simp
  next
    case True
    show ?thesis
    proof (cases index)
      case 0
      then show ?thesis using True by simp
    next
      case (Suc i)
      then show ?thesis using True Cons.IH [of "before @ [it]" "k + 1" i] by simp
    qed
  qed
qed simp

lemma item_for_category_nth:
  "item_for_category table c index =
     (if index < length (of_category table c) then Some (of_category table c ! index) else None)"
  using absolute_from [of "[]" table c 0 index]
  by (simp add: item_for_category_def absolute_index_for_category_def)

lemma category_index_inject: "category_to_index c = category_to_index d \<longleftrightarrow> c = d"
  by (cases c; cases d) simp_all

lemma category_index_bound: "category_to_index c < 3"
  by (cases c) simp_all

definition start_in_range :: "start_menu_item list \<Rightarrow> start_menu \<Rightarrow> bool" where
  "start_in_range table s \<longleftrightarrow> length (mn_indices s) = 3 \<and>
     (\<forall>c. mn_indices s ! category_to_index c < length (of_category table c)) \<and>
     mn_index_subject s = int (start_selected_index s) \<and>
     mn_category_subject s = int (category_to_index (mn_category s))"

definition indices_in_range :: "start_menu_item list \<Rightarrow> start_menu \<Rightarrow> bool" where
  "indices_in_range table s \<longleftrightarrow> length (mn_indices s) = 3 \<and>
     (\<forall>c. mn_indices s ! category_to_index c < length (of_category table c))"

lemma published_in_range: "indices_in_range table s \<Longrightarrow> start_in_range table (start_publish s)"
  by (simp add: indices_in_range_def start_in_range_def start_publish_def start_selected_index_def)

lemma start_in_range_indices: "start_in_range table s \<Longrightarrow> indices_in_range table s"
  by (simp add: indices_in_range_def start_in_range_def)

lemma set_category_index_range:
  assumes "indices_in_range table s" "index < length (of_category table (mn_category s))"
  shows "indices_in_range table (set_category_index index s)"
  using assms by (auto simp: indices_in_range_def set_category_index_def nth_list_update
      category_index_inject category_index_bound)

lemma min_last: "0 < n \<Longrightarrow> (if n = 0 then 0 else min x (n - 1)) < n" for n :: nat
  by (auto simp: min_def)

lemma start_moves_range:
  assumes "indices_in_range table s"
  shows "indices_in_range table (start_select_previous s)" "indices_in_range table (start_select_next table s)"
    "indices_in_range table (start_set_selected_index table i s)" "indices_in_range table (start_set_category table c s)"
proof -
  have sel: "start_selected_index s < length (of_category table (mn_category s))"
    using assms by (simp add: indices_in_range_def start_selected_index_def)
  show "indices_in_range table (start_select_previous s)"
    using set_category_index_range [OF assms] sel assms by (simp add: start_select_previous_def)
  show "indices_in_range table (start_select_next table s)"
    using set_category_index_range [OF assms] assms by (simp add: start_select_next_def item_count_filter)
  show "indices_in_range table (start_set_selected_index table i s)"
    using set_category_index_range [OF assms] assms by (simp add: start_set_selected_index_def item_count_filter)
  have s1: "indices_in_range table (s\<lparr>mn_category := c\<rparr>)" using assms by (simp add: indices_in_range_def)
  have pos: "0 < length (of_category table c)" using assms by (metis indices_in_range_def gr_zeroI not_less0)
  have least: "(if length (of_category table c) = 0 then 0 else min x (length (of_category table c) - 1)) <
      length (of_category table c)" for x
    by (rule min_last [OF pos])
  show "indices_in_range table (start_set_category table c s)"
    unfolding start_set_category_def Let_def item_count_filter
    by (rule set_category_index_range [OF s1]) (simp add: least del: length_greater_0_conv length_0_conv)
qed

lemma start_call_range:
  assumes "start_in_range table s"
  shows "start_in_range table (start_menu_call table call s)"
proof (cases call)
  case (StartSetDrawer hidden)
  then show ?thesis using assms by (simp add: start_in_range_def start_selected_index_def)
qed (use start_in_range_indices [OF assms] in
    \<open>auto simp: start_previous_category_def start_next_category_def intro!: published_in_range start_moves_range\<close>)

lemma start_table_counts:
  "length (of_category (start_menu_items p) MC_AUTO) = (if p then 12 else 11)"
  "length (of_category (start_menu_items p) MC_PERIPH) = 7"
  "length (of_category (start_menu_items p) MC_COMMS) = 12"
  by (simp_all add: start_menu_items_def menu_item_def)

lemma start_runs_range: "start_in_range (start_menu_items p) (fold (start_menu_call (start_menu_items p)) calls initial_start_menu)"
proof -
  have "start_in_range (start_menu_items p) (fold (start_menu_call (start_menu_items p)) calls s)"
    if "start_in_range (start_menu_items p) s" for s
    using that by (induction calls arbitrary: s) (auto intro: start_call_range)
  moreover have "mn_indices initial_start_menu ! category_to_index c < length (of_category (start_menu_items p) c)" for c
    by (cases c) (simp_all only: start_table_counts initial_start_menu_def, auto)
  then have "start_in_range (start_menu_items p) initial_start_menu"
    by (simp add: start_in_range_def) (simp add: initial_start_menu_def start_selected_index_def)
  ultimately show ?thesis by blast
qed

text \<open>C34: after any calls the start menu selects an item of its table, one of the selected category
  and the one at the selected place among these, never a place past the end, and the subjects show
  the selection.\<close>

theorem start_selection_exists:
  "let table = start_menu_items p; s = fold (start_menu_call table) calls initial_start_menu in
   case start_selected_item table s of
     None \<Rightarrow> False
   | Some it \<Rightarrow> it \<in> set table \<and> mi_category it = mn_category s \<and>
       it = filter (\<lambda>it. mi_category it = mn_category s) table ! start_selected_index s \<and>
       mn_index_subject s = int (start_selected_index s) \<and>
       mn_category_subject s = int (category_to_index (mn_category s))"
proof -
  let ?table = "start_menu_items p"
  define s where "s = fold (start_menu_call ?table) calls initial_start_menu"
  have inv: "start_in_range ?table s" unfolding s_def by (rule start_runs_range)
  then have "start_selected_index s < length (of_category ?table (mn_category s))"
    by (simp add: start_in_range_def start_selected_index_def)
  moreover from this have "of_category ?table (mn_category s) ! start_selected_index s \<in> set (of_category ?table (mn_category s))"
    by (rule nth_mem)
  ultimately show ?thesis
    using inv unfolding Let_def s_def [symmetric]
    by (simp add: start_selected_item_def item_for_category_nth start_in_range_def)
qed

subsection \<open>The menus with sub-pages\<close>

lemma find_page_nth: "find_page table p i = Some j \<Longrightarrow> i \<le> j \<and> j - i < length table \<and> snd (table ! (j - i)) = p"
proof (induction table p i rule: find_page.induct)
  case (2 it table p i)
  show ?case
  proof (cases "snd it = p")
    case False
    then have "Suc i \<le> j \<and> j - Suc i < length table \<and> snd (table ! (j - Suc i)) = p" using 2 by simp
    then show ?thesis by (auto simp: nth_Cons' Suc_le_eq)
  qed (use 2 in simp)
qed simp

lemma find_page_found: "p \<in> snd ` set table \<Longrightarrow> \<exists>j. find_page table p i = Some j"
  by (induction table p i rule: find_page.induct) auto

text \<open>What the menus promise: every page but the menu is in the table, the menu is not, and the
  code's way to set an index keeps it in range and does nothing else.\<close>

locale page_table =
  fixes table :: "(string \<times> 'p) list" and home :: 'p and set_index :: "nat \<Rightarrow> 'p page_menu \<Rightarrow> 'p page_menu"
  assumes pages: "p \<in> snd ` set table \<longleftrightarrow> p \<noteq> home"
    and nonempty: "table \<noteq> []"
    and set_index_range: "pm_selected_index m < length table \<Longrightarrow> pm_selected_index (set_index i m) < length table"
    and set_index_else: "\<exists>k. set_index i m = m\<lparr>pm_selected_index := k\<rparr>"
begin

definition in_step :: "'p page_menu \<Rightarrow> bool" where
  "in_step m \<longleftrightarrow> pm_selected_index m < length table \<and> pm_index_subject m = int (pm_selected_index m) \<and>
     pm_page_subject m = pm_active_page m \<and> (pm_direct_subpage m \<longrightarrow> pm_active_page m \<noteq> home)"

lemma selected_page: "pm_selected_index m < length table \<Longrightarrow> snd (table ! pm_selected_index m) \<noteq> home"
  using pages by (metis image_eqI nth_mem)

lemma published: "pm_selected_index m < length table \<Longrightarrow>
    (pm_direct_subpage m \<longrightarrow> pm_active_page m \<noteq> home) \<Longrightarrow> in_step (publish_menu m)"
  by (simp add: in_step_def publish_menu_def)

lemma shown: "pm_selected_index m < length table \<Longrightarrow> (pm_direct_subpage m \<longrightarrow> p \<noteq> home) \<Longrightarrow>
    in_step (publish_menu (show_subpage table home p m))"
  using find_page_nth [of table p 0] find_page_found [of p table 0] pages [of p]
  by (auto simp: show_subpage_def show_menu_page_def split: option.splits intro!: published)

lemma call_in_step:
  assumes "in_step m"
  shows "in_step (page_menu_call table home set_index call m)"
proof (cases call)
  case (MenuSetIndex i)
  obtain k where k: "set_index i m = m\<lparr>pm_selected_index := k\<rparr>" using set_index_else by blast
  then have "k < length table" using set_index_range [of m i] assms by (simp add: in_step_def)
  then show ?thesis using MenuSetIndex k assms by (simp add: in_step_def publish_menu_def)
next
  case (MenuShowSubpage p direct)
  then show ?thesis using assms shown by (simp add: vm_show_subpage_def in_step_def)
qed (use assms in \<open>auto simp: vm_select_previous_def vm_select_next_def select_previous_def select_next_def
      vm_activate_selected_def activate_selected_def vm_show_menu_def show_menu_page_def vm_clear_direct_def
      vm_request_back_def in_step_def publish_menu_def\<close>)

lemma runs_in_step: "in_step (fold (page_menu_call table home set_index) calls (initial_page_menu home))"
proof -
  have "in_step (fold (page_menu_call table home set_index) calls m)" if "in_step m" for m
    using that by (induction calls arbitrary: m) (auto intro: call_in_step)
  moreover have "in_step (initial_page_menu home)"
    using nonempty by (simp add: in_step_def initial_page_menu_def)
  ultimately show ?thesis by blast
qed

text \<open>Every page is left within two requests to go back, and what was shown first stays shown.\<close>

lemma back_leaves:
  assumes "in_step m"
  shows "case vm_request_back home m of (handled, m1) \<Rightarrow>
    (if handled then pm_active_page m \<noteq> home \<and> pm_page_subject m1 = home \<and> fst (vm_request_back home m1) = False
     else pm_active_page m1 = pm_active_page m \<and> \<not> pm_direct_subpage m1)"
  using assms by (auto simp: vm_request_back_def menu_active_def vm_show_menu_def show_menu_page_def publish_menu_def in_step_def)

end

interpretation connectivity: page_table connectivity_items SP_MENU connectivity_set_index
proof
  show "p \<in> snd ` set connectivity_items \<longleftrightarrow> p \<noteq> SP_MENU" for p
    by (cases p) (simp_all add: connectivity_items_def)
qed (auto simp: connectivity_set_index_def connectivity_items_def)

interpretation perf: page_table perf_items PP_MENU perf_set_index
proof
  show "p \<in> snd ` set perf_items \<longleftrightarrow> p \<noteq> PP_MENU" for p
    by (cases p) (simp_all add: perf_items_def)
  show "\<exists>k. perf_set_index i m = m\<lparr>pm_selected_index := k\<rparr>" for i m
    by (auto simp: perf_set_index_def intro: exI [of _ "pm_selected_index m"])
qed (auto simp: perf_set_index_def perf_items_def)

text \<open>After any calls both menus with sub-pages have a selection in their table, the subjects
  show it and the active page, a page opened directly is never the menu, and a request to go back
  is either handled, showing the menu, which the next request leaves, or leaves the page.\<close>

theorem menus_in_step:
  "(let m = fold connectivity_call calls (initial_page_menu SP_MENU); (handled, m1) = vm_request_back SP_MENU m in
     pm_selected_index m < length connectivity_items \<and> pm_index_subject m = int (pm_selected_index m) \<and>
     pm_page_subject m = pm_active_page m \<and> \<not> (pm_direct_subpage m \<and> pm_active_page m = SP_MENU) \<and>
     (if handled then pm_page_subject m1 = SP_MENU \<and> fst (vm_request_back SP_MENU m1) = False
      else pm_active_page m1 = pm_active_page m \<and> \<not> pm_direct_subpage m1)) \<and>
   (let m = fold perf_call calls' (initial_page_menu PP_MENU); (handled, m1) = vm_request_back PP_MENU m in
     pm_selected_index m < length perf_items \<and> pm_index_subject m = int (pm_selected_index m) \<and>
     pm_page_subject m = pm_active_page m \<and> \<not> (pm_direct_subpage m \<and> pm_active_page m = PP_MENU) \<and>
     (if handled then pm_page_subject m1 = PP_MENU \<and> fst (vm_request_back PP_MENU m1) = False
      else pm_active_page m1 = pm_active_page m \<and> \<not> pm_direct_subpage m1))"
  using connectivity.runs_in_step [of calls] connectivity.back_leaves [OF connectivity.runs_in_step [of calls]]
    perf.runs_in_step [of calls'] perf.back_leaves [OF perf.runs_in_step [of calls']]
  by (auto simp: connectivity_call_def perf_call_def connectivity.in_step_def perf.in_step_def Let_def)

subsection \<open>The display test\<close>

definition lcd_bounds :: "lcd_test \<Rightarrow> bool" where
  "lcd_bounds m \<longleftrightarrow> 1 \<le> sint (lt_brightness_percent m) \<and> sint (lt_brightness_percent m) \<le> 100 \<and>
     0 \<le> sint (lt_color_index m) \<and> sint (lt_color_index m) \<le> 12"

lemma small_plus:
  fixes a :: "32 word"
  assumes "-100 \<le> sint a" "sint a \<le> 200"
  shows "sint (a + 5) = sint a + 5" "sint (a - 5) = sint a - 5" "sint (a + 1) = sint a + 1"
  using assms by (simp_all add: sint_word_ariths signed_take_bit_int_eq_self)

lemmas lcd_numbers = min_brightness_percent_def brightness_step_percent_def initial_brightness_percent_def
  total_visual_steps_def word_sless_alt Let_def

lemma lcd_call_bounds:
  assumes "lcd_bounds m"
  shows "lcd_bounds (lcd_call call m)"
  using assms small_plus [of "lt_brightness_percent m"] small_plus [of "lt_color_index m"]
  by (cases call) (auto simp: lcd_bounds_def publish_lcd_def reset_lcd_def set_brightness_def
      advance_color_index_def start_brightness_def increase_brightness_def decrease_brightness_def lcd_numbers)

text \<open>After any calls with any arguments the brightness is within 1 to 100 percent and the color
  index within 0 to 12, so that no addition overflows, and the subjects show both; with the
  brightness test running the keys move the brightness by five, up to the bounds.\<close>

theorem lcd_bounded:
  "let m = fold lcd_call calls initial_lcd in
   1 \<le> sint (lt_brightness_percent m) \<and> sint (lt_brightness_percent m) \<le> 100 \<and>
   0 \<le> sint (lt_color_index m) \<and> sint (lt_color_index m) \<le> 12 \<and>
   lt_percent_subject m = lt_brightness_percent m \<and> lt_color_subject m = lt_color_index m \<and>
   sint (lt_brightness_percent (increase_brightness m)) =
     (if lt_brightness_active m then min 100 (sint (lt_brightness_percent m) + 5) else sint (lt_brightness_percent m)) \<and>
   sint (lt_brightness_percent (decrease_brightness m)) =
     (if lt_brightness_active m then max 1 (sint (lt_brightness_percent m) - 5) else sint (lt_brightness_percent m))"
proof -
  define m where "m = fold lcd_call calls initial_lcd"
  have "lcd_bounds n \<and> publish_lcd n = n \<Longrightarrow> lcd_bounds (fold lcd_call calls n) \<and> publish_lcd (fold lcd_call calls n) = fold lcd_call calls n" for n
  proof (induction calls arbitrary: n)
    case (Cons c calls)
    have "publish_lcd (lcd_call c n) = lcd_call c n" by (cases c) (simp_all add: publish_lcd_def)
    then show ?case using Cons lcd_call_bounds by simp
  qed simp
  moreover have "lcd_bounds initial_lcd" "publish_lcd initial_lcd = initial_lcd"
    by (simp_all add: lcd_bounds_def initial_lcd_def publish_lcd_def lcd_numbers)
  ultimately have m: "lcd_bounds m" "publish_lcd m = m" unfolding m_def by blast+
  have "lt_percent_subject m = lt_brightness_percent m" "lt_color_subject m = lt_color_index m"
    using arg_cong [OF m(2), of lt_percent_subject] arg_cong [OF m(2), of lt_color_subject]
    by (simp_all add: publish_lcd_def)
  then show ?thesis
    using m(1) small_plus [of "lt_brightness_percent m"] unfolding Let_def m_def [symmetric]
    by (auto simp: lcd_bounds_def increase_brightness_def decrease_brightness_def lcd_numbers)
qed

end
