(* ===== verification/Connectivity.thy ===== *)
theory Connectivity
  imports Menus Numbers
begin

section \<open>Connectivity: the pages that refresh themselves from a task\<close>

text \<open>
  The page models of src/src/model/connectivity_test_model.cpp and the view model
  \<open>ConnectivityTestViewModel\<close> over them. A page polls \<open>refresh ()\<close>: it takes over the result of
  its task (a \<open>std::future\<close> of a call into a service) when it is ready and starts the next one.
  What a call sees of the clock and of the task is its \<open>refresh_env\<close>; what the services read is
  the records of src/src/platform/connectivity_types.h. Six of the pages have the same code over
  their kind of item and their text for the first scan; I2C and the link test differ.
\<close>

subsection \<open>Data\<close>

record scan_item =
  si_name :: string
  si_detail :: string
  si_strength_percent :: int
  si_bssid :: string

record info_field =
  if_label :: string
  if_value :: string

datatype i2c_address_state = I2C_ABSENT | I2C_PRESENT | I2C_KERNEL_DRIVER

record i2c_address =
  ia_address :: "8 word"
  ia_state :: i2c_address_state

datatype link_status = LINK_IDLE | LINK_RUNNING | LINK_SUCCESS | LINK_FAILED

record link_metric =
  lm_status :: link_status
  lm_value :: dbl
  lm_detail :: string

record link_settings =
  ls_iperf_host :: string
  ls_iperf_port :: int

record link_snapshot =
  lk_internet :: link_metric
  lk_wifi_iperf :: link_metric
  lk_ethernet_iperf :: link_metric
  lk_settings :: link_settings
  lk_running :: bool

subsection \<open>What the services answer\<close>

record named_device =
  nd_name :: string
  nd_detail :: string \<comment> \<open>the path of an SPI device\<close>

record ethernet_page_info =
  ei_interface_name :: string
  ei_state :: string
  ei_hw_address :: string
  ei_ip4_address :: string
  ei_connection_name :: string

record hdmi_page_info =
  hi_connector_name :: string
  hi_status :: string
  hi_enabled :: string
  hi_resolution :: string

record link_internet_result =
  ln_success :: bool
  ln_latency_ms :: dbl
  ln_message :: string

record link_iperf_result =
  lp_success :: bool
  lp_megabits_per_second :: dbl
  lp_interface_name :: string
  lp_message :: string

record link_test_result =
  lr_internet :: link_internet_result
  lr_wifi :: link_iperf_result
  lr_ethernet :: link_iperf_result

text \<open>The results of the tasks: the items and the error message.\<close>

definition read_device_result :: "named_device list \<Rightarrow> string \<Rightarrow> scan_item list \<times> string" where
  "read_device_result devices err =
     (map (\<lambda>d. \<lparr>si_name = nd_name d, si_detail = nd_detail d, si_strength_percent = -1, si_bssid = []\<rparr>) devices, err)"

definition info_fields :: "(string \<times> string) list \<Rightarrow> info_field list" where
  "info_fields pairs = map (\<lambda>(l, v). \<lparr>if_label = l, if_value = v\<rparr>) (filter (\<lambda>(l, v). v \<noteq> []) pairs)"

definition info_result :: "string \<Rightarrow> info_field list \<Rightarrow> string \<Rightarrow> info_field list \<times> string" where
  "info_result missing shown err = (shown, if shown = [] \<and> err = [] then missing else err)"

definition read_ethernet_result :: "ethernet_page_info \<Rightarrow> string \<Rightarrow> info_field list \<times> string" where
  "read_ethernet_result info err = info_result ''No Ethernet information''
     (info_fields [(''Interface'', ei_interface_name info), (''State'', ei_state info),
        (''Connection'', ei_connection_name info), (''IPv4'', ei_ip4_address info), (''MAC'', ei_hw_address info)]) err"

definition read_hdmi_result :: "hdmi_page_info \<Rightarrow> string \<Rightarrow> info_field list \<times> string" where
  "read_hdmi_result info err = info_result ''No HDMI information''
     (info_fields [(''Connector'', hi_connector_name info), (''Status'', hi_status info),
        (''Resolution'', hi_resolution info), (''Enabled'', hi_enabled info)]) err"

definition internet_metric :: "link_internet_result \<Rightarrow> link_metric" where
  "internet_metric r = \<lparr>lm_status = (if ln_success r then LINK_SUCCESS else LINK_FAILED),
     lm_value = ln_latency_ms r, lm_detail = ln_message r\<rparr>"

definition iperf_metric :: "link_iperf_result \<Rightarrow> link_metric" where
  "iperf_metric r = \<lparr>lm_status = (if lp_success r then LINK_SUCCESS else LINK_FAILED),
     lm_value = lp_megabits_per_second r,
     lm_detail = (if lp_interface_name r \<noteq> []
       then lp_interface_name r @ (if lp_message r = [] then [] else '': '' @ lp_message r)
       else lp_message r)\<rparr>"

definition read_link_test_result :: "link_settings \<Rightarrow> link_test_result \<Rightarrow> link_snapshot" where
  "read_link_test_result settings r =
     \<lparr>lk_internet = internet_metric (lr_internet r), lk_wifi_iperf = iperf_metric (lr_wifi r),
      lk_ethernet_iperf = iperf_metric (lr_ethernet r), lk_settings = settings, lk_running = False\<rparr>"

subsection \<open>A page with a list\<close>

text \<open>\<open>rf_last_start\<close> in nanoseconds of the steady clock; 0 is the default time point.\<close>

record 'd refresh_page =
  rf_items :: "'d list"
  rf_error_message :: string
  rf_running :: bool \<comment> \<open>refresh_task_.valid ()\<close>
  rf_last_start :: nat

record 'd refresh_env =
  re_ready :: "('d list \<times> string) option" \<comment> \<open>the result of the task, when it is ready\<close>
  re_now :: nat \<comment> \<open>the clock when the interval is tested\<close>
  re_start :: nat \<comment> \<open>the clock when a task is started\<close>

definition refresh_interval :: nat where "refresh_interval = 5000 * 1000000"

definition refresh_interval_elapsed :: "nat \<Rightarrow> nat \<Rightarrow> bool" where
  "refresh_interval_elapsed now last_start \<longleftrightarrow> last_start = 0 \<or> now \<ge> last_start + refresh_interval"

definition initial_page :: "'d refresh_page" where
  "initial_page = \<lparr>rf_items = [], rf_error_message = [], rf_running = False, rf_last_start = 0\<rparr>"

definition set_page_result :: "'d list \<Rightarrow> string \<Rightarrow> 'd refresh_page \<Rightarrow> bool \<times> 'd refresh_page" where
  "set_page_result shown err p =
     (if rf_error_message p = err \<and> rf_items p = shown then (False, p)
      else (True, p\<lparr>rf_items := shown, rf_error_message := err\<rparr>))"

text \<open>The first half of every \<open>refresh ()\<close>: \<open>get ()\<close> leaves the future invalid.\<close>

definition take_result :: "'d refresh_env \<Rightarrow> 'd refresh_page \<Rightarrow> bool \<times> 'd refresh_page" where
  "take_result e p =
     (case re_ready e of
        Some (shown, err) \<Rightarrow> if rf_running p then set_page_result shown err (p\<lparr>rf_running := False\<rparr>) else (False, p)
      | None \<Rightarrow> (False, p))"

definition starts_task :: "'d refresh_env \<Rightarrow> bool \<Rightarrow> 'd refresh_page \<Rightarrow> bool" where
  "starts_task e force_refresh p \<longleftrightarrow>
     \<not> rf_running p \<and> (force_refresh \<or> refresh_interval_elapsed (re_now e) (rf_last_start p))"

definition start_task :: "'d refresh_env \<Rightarrow> 'd refresh_page \<Rightarrow> 'd refresh_page" where
  "start_task e p = p\<lparr>rf_last_start := re_start e, rf_running := True\<rparr>"

definition refresh_list_page :: "string \<Rightarrow> 'd refresh_env \<Rightarrow> bool \<Rightarrow> 'd refresh_page \<Rightarrow> bool \<times> 'd refresh_page" where
  "refresh_list_page scanning e force_refresh p =
     (let (changed, p1) = take_result e p in
      if starts_task e force_refresh p1 then
        (let p2 = start_task e p1 in
         if rf_items p2 = [] \<and> rf_error_message p2 = []
         then (let (changed2, p3) = set_page_result [] scanning p2 in (changed \<or> changed2, p3))
         else (changed, p2))
      else (changed, p1))"

definition refresh_wifi :: "scan_item refresh_env \<Rightarrow> bool \<Rightarrow> scan_item refresh_page \<Rightarrow> bool \<times> scan_item refresh_page" where
  "refresh_wifi = refresh_list_page ''Scanning Wi-Fi...''"

definition refresh_bluetooth :: "scan_item refresh_env \<Rightarrow> bool \<Rightarrow> scan_item refresh_page \<Rightarrow> bool \<times> scan_item refresh_page" where
  "refresh_bluetooth = refresh_list_page ''Scanning Bluetooth...''"

definition refresh_usb :: "scan_item refresh_env \<Rightarrow> bool \<Rightarrow> scan_item refresh_page \<Rightarrow> bool \<times> scan_item refresh_page" where
  "refresh_usb = refresh_list_page ''Scanning USB...''"

definition refresh_spi :: "scan_item refresh_env \<Rightarrow> bool \<Rightarrow> scan_item refresh_page \<Rightarrow> bool \<times> scan_item refresh_page" where
  "refresh_spi = refresh_list_page ''Scanning SPI...''"

definition refresh_ethernet :: "info_field refresh_env \<Rightarrow> bool \<Rightarrow> info_field refresh_page \<Rightarrow> bool \<times> info_field refresh_page" where
  "refresh_ethernet = refresh_list_page ''Reading Ethernet...''"

definition refresh_hdmi :: "info_field refresh_env \<Rightarrow> bool \<Rightarrow> info_field refresh_page \<Rightarrow> bool \<times> info_field refresh_page" where
  "refresh_hdmi = refresh_list_page ''Reading HDMI...''"

text \<open>The I2C page also reports a scan that starts or ends.\<close>

definition refresh_i2c :: "i2c_address refresh_env \<Rightarrow> bool \<Rightarrow> i2c_address refresh_page \<Rightarrow> bool \<times> i2c_address refresh_page" where
  "refresh_i2c e force_refresh p =
     (let was_scanning = rf_running p; (changed, p1) = take_result e p;
          started_scan = starts_task e force_refresh p1;
          p2 = (if started_scan then start_task e p1 else p1)
      in (changed \<or> started_scan \<or> was_scanning \<noteq> rf_running p2, p2))"

subsection \<open>The link test page\<close>

record link_page =
  lg_settings :: link_settings
  lg_snapshot :: link_snapshot
  lg_task :: "link_settings option" \<comment> \<open>the settings a running task was started with\<close>

definition default_link_settings :: link_settings where
  "default_link_settings = \<lparr>ls_iperf_host = ''192.168.10.187'', ls_iperf_port = 5201\<rparr>"

definition idle_metric :: link_metric where
  "idle_metric = \<lparr>lm_status = LINK_IDLE, lm_value = Fin 0, lm_detail = []\<rparr>"

definition initial_link :: link_page where
  "initial_link = \<lparr>lg_settings = default_link_settings,
     lg_snapshot = \<lparr>lk_internet = idle_metric, lk_wifi_iperf = idle_metric, lk_ethernet_iperf = idle_metric,
       lk_settings = default_link_settings, lk_running = False\<rparr>,
     lg_task = None\<rparr>"

text \<open>The code compares doubles: no value that is not a number equals itself, and both zeros are equal.\<close>

definition same_double :: "dbl \<Rightarrow> dbl \<Rightarrow> bool" where
  "same_double a b \<longleftrightarrow> a \<noteq> NaN \<and> b \<noteq> NaN \<and> (a = b \<or> {a, b} = {Fin 0, NegZero})"

definition same_link_metric :: "link_metric \<Rightarrow> link_metric \<Rightarrow> bool" where
  "same_link_metric a b \<longleftrightarrow> lm_status a = lm_status b \<and> same_double (lm_value a) (lm_value b) \<and> lm_detail a = lm_detail b"

definition same_link_snapshot :: "link_snapshot \<Rightarrow> link_snapshot \<Rightarrow> bool" where
  "same_link_snapshot a b \<longleftrightarrow> same_link_metric (lk_internet a) (lk_internet b) \<and>
     same_link_metric (lk_wifi_iperf a) (lk_wifi_iperf b) \<and>
     same_link_metric (lk_ethernet_iperf a) (lk_ethernet_iperf b) \<and>
     lk_settings a = lk_settings b \<and> lk_running a = lk_running b"

definition set_link_snapshot :: "link_snapshot \<Rightarrow> link_page \<Rightarrow> bool \<times> link_page" where
  "set_link_snapshot s p = (if same_link_snapshot (lg_snapshot p) s then (False, p) else (True, p\<lparr>lg_snapshot := s\<rparr>))"

definition running_metric :: "string \<Rightarrow> link_metric" where
  "running_metric text = \<lparr>lm_status = LINK_RUNNING, lm_value = Fin 0, lm_detail = text\<rparr>"

definition running_snapshot :: "link_page \<Rightarrow> link_snapshot" where
  "running_snapshot p = \<lparr>lk_internet = running_metric ''Checking public DNS...'',
     lk_wifi_iperf = running_metric ''Waiting for iperf...'', lk_ethernet_iperf = running_metric ''Waiting for iperf...'',
     lk_settings = lg_settings p, lk_running = True\<rparr>"

definition take_link_result :: "link_test_result option \<Rightarrow> link_page \<Rightarrow> bool \<times> link_page" where
  "take_link_result ready p =
     (case ready of
        None \<Rightarrow> (False, p)
      | Some result \<Rightarrow> (case lg_task p of
          None \<Rightarrow> (False, p)
        | Some settings \<Rightarrow> set_link_snapshot (read_link_test_result settings result) (p\<lparr>lg_task := None\<rparr>)))"

definition refresh_link :: "link_test_result option \<Rightarrow> bool \<Rightarrow> link_page \<Rightarrow> bool \<times> link_page" where
  "refresh_link ready force_refresh p =
     (let (changed, p1) = take_link_result ready p in
      if lg_task p1 = None \<and> (force_refresh \<or> lm_status (lk_internet (lg_snapshot p1)) = LINK_IDLE)
      then (let p2 = p1\<lparr>lg_task := Some (lg_settings p1)\<rparr>; (changed2, p3) = set_link_snapshot (running_snapshot p2) p2
            in (changed \<or> changed2, p3))
      else (changed, p1))"

definition set_link_settings :: "link_settings \<Rightarrow> link_page \<Rightarrow> link_page" where
  "set_link_settings settings p =
     (let s1 = (if ls_iperf_host settings = [] then settings\<lparr>ls_iperf_host := ''192.168.10.187''\<rparr> else settings);
          s2 = (if ls_iperf_port s1 \<le> 0 \<or> ls_iperf_port s1 > 65535 then s1\<lparr>ls_iperf_port := 5201\<rparr> else s1)
      in p\<lparr>lg_settings := s2, lg_snapshot := (lg_snapshot p)\<lparr>lk_settings := s2\<rparr>\<rparr>)"

subsection \<open>The view model of all pages (connectivity_test_viewmodel.cpp)\<close>

record connectivity_view =
  cv_menu :: "sub_page page_menu"
  cv_wifi :: "scan_item refresh_page"
  cv_bluetooth :: "scan_item refresh_page"
  cv_ethernet :: "info_field refresh_page"
  cv_usb :: "scan_item refresh_page"
  cv_hdmi :: "info_field refresh_page"
  cv_i2c :: "i2c_address refresh_page"
  cv_spi :: "scan_item refresh_page"
  cv_link :: link_page
  cv_link_restart_requests :: "32 word" \<comment> \<open>each also the value of its subject\<close>
  cv_link_settings_requests :: "32 word"
  cv_uart_settings_requests :: "32 word"

text \<open>What one call sees of the clock and of the tasks of every page.\<close>

record connectivity_env =
  ce_scans :: "scan_item refresh_env"
  ce_infos :: "info_field refresh_env"
  ce_i2c :: "i2c_address refresh_env"
  ce_link :: "link_test_result option"

definition refresh_active :: "connectivity_env \<Rightarrow> connectivity_view \<Rightarrow> bool \<times> connectivity_view" where
  "refresh_active e v = (case pm_active_page (cv_menu v) of
     SP_WIFI \<Rightarrow> (let (c, p) = refresh_wifi (ce_scans e) True (cv_wifi v) in (c, v\<lparr>cv_wifi := p\<rparr>))
   | SP_BLUETOOTH \<Rightarrow> (let (c, p) = refresh_bluetooth (ce_scans e) True (cv_bluetooth v) in (c, v\<lparr>cv_bluetooth := p\<rparr>))
   | SP_ETHERNET \<Rightarrow> (let (c, p) = refresh_ethernet (ce_infos e) True (cv_ethernet v) in (c, v\<lparr>cv_ethernet := p\<rparr>))
   | SP_USB \<Rightarrow> (let (c, p) = refresh_usb (ce_scans e) True (cv_usb v) in (c, v\<lparr>cv_usb := p\<rparr>))
   | SP_I2C \<Rightarrow> (let (c, p) = refresh_i2c (ce_i2c e) True (cv_i2c v) in (c, v\<lparr>cv_i2c := p\<rparr>))
   | SP_SPI \<Rightarrow> (let (c, p) = refresh_spi (ce_scans e) True (cv_spi v) in (c, v\<lparr>cv_spi := p\<rparr>))
   | SP_HDMI \<Rightarrow> (let (c, p) = refresh_hdmi (ce_infos e) True (cv_hdmi v) in (c, v\<lparr>cv_hdmi := p\<rparr>))
   | SP_LINK_TEST \<Rightarrow> (let (c, p) = refresh_link (ce_link e) True (cv_link v) in (c, v\<lparr>cv_link := p\<rparr>))
   | _ \<Rightarrow> (False, v))"

text \<open>The requests of the keys on a page: the screen watches the counts.\<close>

definition request_link_restart :: "connectivity_view \<Rightarrow> connectivity_view" where
  "request_link_restart v = v\<lparr>cv_link_restart_requests := cv_link_restart_requests v + 1\<rparr>"

definition request_link_settings :: "connectivity_view \<Rightarrow> connectivity_view" where
  "request_link_settings v = v\<lparr>cv_link_settings_requests := cv_link_settings_requests v + 1\<rparr>"

definition request_uart_settings :: "connectivity_view \<Rightarrow> connectivity_view" where
  "request_uart_settings v = v\<lparr>cv_uart_settings_requests := cv_uart_settings_requests v + 1\<rparr>"

subsection \<open>Pages polled again and again\<close>

text \<open>
  The polls of a page: its state after them, and what happened to its background task, the call
  of \<open>future_.get ()\<close> and the start of a task with its time.
\<close>

datatype task_event = TaskTaken | TaskStarted nat

fun poll_page :: "('d refresh_env \<Rightarrow> bool \<Rightarrow> 'd refresh_page \<Rightarrow> bool \<times> 'd refresh_page) \<Rightarrow>
    ('d refresh_env \<times> bool) list \<Rightarrow> 'd refresh_page \<Rightarrow> 'd refresh_page \<times> task_event list" where
  "poll_page refresh [] p = (p, [])"
| "poll_page refresh ((e, force) # rest) p =
     (let p1 = snd (refresh e force p); (q, events) = poll_page refresh rest p1
      in (q, (if rf_running p \<and> re_ready e \<noteq> None then [TaskTaken] else []) @
             (if starts_task e force (snd (take_result e p)) then [TaskStarted (re_start e)] else []) @ events))"

fun start_times :: "task_event list \<Rightarrow> nat list" where
  "start_times [] = []"
| "start_times (TaskTaken # evs) = start_times evs"
| "start_times (TaskStarted t # evs) = t # start_times evs"

text \<open>A task is started only where none runs, and a result taken only of a running one.\<close>

fun one_task :: "bool \<Rightarrow> task_event list \<Rightarrow> bool" where
  "one_task running [] = True"
| "one_task running (TaskTaken # evs) = (running \<and> one_task False evs)"
| "one_task running (TaskStarted t # evs) = (\<not> running \<and> one_task True evs)"

end
