(* ===== verification/ConnectivityTheorems.thy ===== *)
theory ConnectivityTheorems
  imports Connectivity
begin

section \<open>ConnectivityTheorems: polled pages\<close>

text \<open>
  What the seven pages with a list share is the locale \<open>polled_page\<close>: a call that reports no change
  shows what was shown, and a task is started where the code's test says so. Its clients: the
  result of a task is what is shown, and tasks that were not forced are started at least the
  refresh interval apart. The link test page keeps valid settings and shows a running test exactly
  while one runs.
\<close>

subsection \<open>Pages with a list\<close>

lemma set_page_result_effect:
  "snd (set_page_result shown err p) = p\<lparr>rf_items := shown, rf_error_message := err\<rparr>"
  "fst (set_page_result shown err p) \<longleftrightarrow> (rf_items p, rf_error_message p) \<noteq> (shown, err)"
  by (auto simp: set_page_result_def)

lemma take_result_effect:
  "snd (take_result e p) = (case re_ready e of
     Some (shown, err) \<Rightarrow> if rf_running p then p\<lparr>rf_items := shown, rf_error_message := err, rf_running := False\<rparr> else p
   | None \<Rightarrow> p)"
  "rf_last_start (snd (take_result e p)) = rf_last_start p"
  "\<not> fst (take_result e p) \<Longrightarrow> rf_items (snd (take_result e p)) = rf_items p \<and>
     rf_error_message (snd (take_result e p)) = rf_error_message p"
  by (auto simp: take_result_def set_page_result_def split: option.splits)

locale polled_page =
  fixes refresh :: "'d refresh_env \<Rightarrow> bool \<Rightarrow> 'd refresh_page \<Rightarrow> bool \<times> 'd refresh_page"
    and scanning :: string
  assumes started: "rf_last_start (snd (refresh e force p)) =
      (if starts_task e force (snd (take_result e p)) then re_start e else rf_last_start p)"
    and running: "rf_running (snd (refresh e force p)) \<longleftrightarrow>
      starts_task e force (snd (take_result e p)) \<or> rf_running (snd (take_result e p))"
    and quiet: "\<not> fst (refresh e force p) \<Longrightarrow>
      rf_items (snd (refresh e force p)) = rf_items p \<and> rf_error_message (snd (refresh e force p)) = rf_error_message p"
    and shown: "(rf_items (snd (refresh e force p)), rf_error_message (snd (refresh e force p))) =
      (let p1 = snd (take_result e p) in
       if starts_task e force p1 \<and> rf_items p1 = [] \<and> rf_error_message p1 = [] then ([], scanning)
       else (rf_items p1, rf_error_message p1))"
begin

text \<open>A result that has something to show is shown at once, as it is.\<close>

lemma result_shown:
  "rf_running p \<Longrightarrow> re_ready e = Some (shown, err) \<Longrightarrow> (shown, err) \<noteq> ([], []) \<Longrightarrow>
     (rf_items (snd (refresh e force p)), rf_error_message (snd (refresh e force p))) = (shown, err)"
  unfolding shown by (auto simp: take_result_effect Let_def)

lemma start_times_append [simp]: "start_times (xs @ ys) = start_times xs @ start_times ys"
  by (induction xs rule: start_times.induct) auto

lemma one_task_polls: "one_task (rf_running p) (snd (poll_page refresh polls p))"
proof (induction polls arbitrary: p)
  case (Cons poll polls)
  obtain e force where poll: "poll = (e, force)" by fastforce
  have ih: "one_task (starts_task e force (snd (take_result e p)) \<or> rf_running (snd (take_result e p)))
      (snd (poll_page refresh polls (snd (refresh e force p))))"
    using Cons.IH [of "snd (refresh e force p)"] by (simp add: running)
  show ?case
    using ih by (cases "re_ready e"; cases "rf_running p")
      (auto simp: poll case_prod_unfold Let_def starts_task_def take_result_effect)
qed simp

lemma starts_spaced:
  assumes "\<forall>(e, force)\<in>set polls. \<not> force \<and> 0 < re_now e \<and> re_now e \<le> re_start e"
  shows "sorted_wrt (\<lambda>a b. a + refresh_interval \<le> b) (start_times (snd (poll_page refresh polls p))) \<and>
    (\<forall>t\<in>set (start_times (snd (poll_page refresh polls p))).
       0 < t \<and> (rf_last_start p = 0 \<or> rf_last_start p + refresh_interval \<le> t))"
  using assms
proof (induction polls arbitrary: p)
  case (Cons poll polls)
  obtain e force where poll: "poll = (e, force)" by fastforce
  let ?p1 = "snd (refresh e force p)"
  let ?starts = "start_times (snd (poll_page refresh polls ?p1))"
  have e: "\<not> force" "0 < re_now e" "re_now e \<le> re_start e" using Cons.prems poll by auto
  have ih: "sorted_wrt (\<lambda>a b. a + refresh_interval \<le> b) ?starts"
    "\<forall>t\<in>set ?starts. 0 < t \<and> (rf_last_start ?p1 = 0 \<or> rf_last_start ?p1 + refresh_interval \<le> t)"
    using Cons.IH [of ?p1] Cons.prems by auto
  have starts: "start_times (snd (poll_page refresh (poll # polls) p)) =
      (if starts_task e force (snd (take_result e p)) then re_start e # ?starts else ?starts)"
    by (simp add: poll case_prod_unfold Let_def)
  show ?case
  proof (cases "starts_task e force (snd (take_result e p))")
    case True
    then have start: "rf_last_start p = 0 \<or> rf_last_start p + refresh_interval \<le> re_now e"
      using e by (simp add: starts_task_def refresh_interval_elapsed_def take_result_effect(2))
    have "rf_last_start ?p1 = re_start e" using True by (simp add: started)
    then have later: "\<forall>t\<in>set ?starts. re_start e + refresh_interval \<le> t" using ih(2) e by auto
    then show ?thesis unfolding starts using True ih start e by fastforce
  next
    case False
    then have "rf_last_start ?p1 = rf_last_start p" by (simp add: started)
    then show ?thesis unfolding starts using False ih by simp
  qed
qed simp

end

lemma list_page_effect:
  "refresh_list_page scanning e force p =
     (let p1 = snd (take_result e p); empty = rf_items p1 = [] \<and> rf_error_message p1 = [] in
      if starts_task e force p1
      then (fst (take_result e p) \<or> (empty \<and> scanning \<noteq> []),
            (start_task e p1)\<lparr>rf_error_message := (if empty then scanning else rf_error_message p1)\<rparr>)
      else (fst (take_result e p), p1))"
  by (auto simp: refresh_list_page_def start_task_def set_page_result_def case_prod_unfold Let_def)

lemma list_page_laws: "polled_page (refresh_list_page scanning) scanning"
  by unfold_locales (auto simp: list_page_effect start_task_def Let_def take_result_effect(2,3) split: if_splits)

interpretation wifi: polled_page refresh_wifi "''Scanning Wi-Fi...''"
  unfolding refresh_wifi_def by (rule list_page_laws)
interpretation bluetooth: polled_page refresh_bluetooth "''Scanning Bluetooth...''"
  unfolding refresh_bluetooth_def by (rule list_page_laws)
interpretation usb: polled_page refresh_usb "''Scanning USB...''"
  unfolding refresh_usb_def by (rule list_page_laws)
interpretation spi: polled_page refresh_spi "''Scanning SPI...''"
  unfolding refresh_spi_def by (rule list_page_laws)
interpretation ethernet: polled_page refresh_ethernet "''Reading Ethernet...''"
  unfolding refresh_ethernet_def by (rule list_page_laws)
interpretation hdmi: polled_page refresh_hdmi "''Reading HDMI...''"
  unfolding refresh_hdmi_def by (rule list_page_laws)
lemma i2c_effect:
  "snd (refresh_i2c e force p) = (let p1 = snd (take_result e p) in if starts_task e force p1 then start_task e p1 else p1)"
  "fst (take_result e p) \<or> starts_task e force (snd (take_result e p)) \<Longrightarrow> fst (refresh_i2c e force p)"
  by (auto simp: refresh_i2c_def case_prod_unfold Let_def)

interpretation i2c: polled_page refresh_i2c "[]"
proof
  show "rf_last_start (snd (refresh_i2c e force p)) =
      (if starts_task e force (snd (take_result e p)) then re_start e else rf_last_start p)" for e force p
    by (simp add: i2c_effect(1) start_task_def take_result_effect(2) Let_def)
  show "rf_running (snd (refresh_i2c e force p)) \<longleftrightarrow>
      starts_task e force (snd (take_result e p)) \<or> rf_running (snd (take_result e p))" for e force p
    by (simp add: i2c_effect(1) start_task_def Let_def)
  show "rf_items (snd (refresh_i2c e force p)) = rf_items p \<and> rf_error_message (snd (refresh_i2c e force p)) = rf_error_message p"
    if "\<not> fst (refresh_i2c e force p)" for e force p
    using that i2c_effect(2) [of e p force] take_result_effect(3) [of e p] unfolding i2c_effect(1) Let_def by auto
  show "(rf_items (snd (refresh_i2c e force p)), rf_error_message (snd (refresh_i2c e force p))) =
      (let p1 = snd (take_result e p) in
       if starts_task e force p1 \<and> rf_items p1 = [] \<and> rf_error_message p1 = [] then ([], [])
       else (rf_items p1, rf_error_message p1))" for e force p
    unfolding i2c_effect(1) Let_def by (cases "starts_task e force (snd (take_result e p))") (simp_all add: start_task_def)
qed

text \<open>C35: however a page is polled, with force or without, it never starts a task while one runs and
  takes each result once; polled without force and with a clock that runs on, every page starts
  its tasks at least the refresh interval apart.\<close>

theorem scans_spaced:
  assumes "\<forall>(e, force)\<in>set scans. \<not> force \<and> 0 < re_now e \<and> re_now e \<le> re_start e"
    and "\<forall>(e, force)\<in>set infos. \<not> force \<and> 0 < re_now e \<and> re_now e \<le> re_start e"
    and "\<forall>(e, force)\<in>set buses. \<not> force \<and> 0 < re_now e \<and> re_now e \<le> re_start e"
  shows "(\<forall>refresh\<in>{refresh_wifi, refresh_bluetooth, refresh_usb, refresh_spi}.
      one_task (rf_running p) (snd (poll_page refresh any_scans p)) \<and>
      sorted_wrt (\<lambda>a b. a + refresh_interval \<le> b) (start_times (snd (poll_page refresh scans p)))) \<and>
    (\<forall>refresh\<in>{refresh_ethernet, refresh_hdmi}.
      one_task (rf_running q) (snd (poll_page refresh any_infos q)) \<and>
      sorted_wrt (\<lambda>a b. a + refresh_interval \<le> b) (start_times (snd (poll_page refresh infos q)))) \<and>
    one_task (rf_running r) (snd (poll_page refresh_i2c any_buses r)) \<and>
    sorted_wrt (\<lambda>a b. a + refresh_interval \<le> b) (start_times (snd (poll_page refresh_i2c buses r)))"
  by (simp add: wifi.starts_spaced [OF assms(1)] bluetooth.starts_spaced [OF assms(1)] usb.starts_spaced [OF assms(1)]
      spi.starts_spaced [OF assms(1)] ethernet.starts_spaced [OF assms(2)] hdmi.starts_spaced [OF assms(2)]
      i2c.starts_spaced [OF assms(3)] wifi.one_task_polls bluetooth.one_task_polls usb.one_task_polls
      spi.one_task_polls ethernet.one_task_polls hdmi.one_task_polls i2c.one_task_polls)

text \<open>Four polls of the I2C page: a scan is started, still running when it would be due again, found
  finished later, and at that poll the next one is started.\<close>

definition four_polls :: "(i2c_address refresh_env \<times> bool) list" where
  "four_polls =
     [(\<lparr>re_ready = None, re_now = 10, re_start = 20\<rparr>, False),
      (\<lparr>re_ready = None, re_now = 6000000020, re_start = 6000000030\<rparr>, False),
      (\<lparr>re_ready = Some ([\<lparr>ia_address = 0x20, ia_state = I2C_PRESENT\<rparr>], []), re_now = 7000000020, re_start = 7000000030\<rparr>, False),
      (\<lparr>re_ready = None, re_now = 8000000020, re_start = 8000000030\<rparr>, False)]"

definition forced_polls :: "(i2c_address refresh_env \<times> bool) list" where
  "forced_polls = map (\<lambda>(e, _). (e, True)) four_polls"

lemma scans_spaced_witness:
  "snd (poll_page refresh_i2c four_polls initial_page) = [TaskStarted 20, TaskTaken, TaskStarted 7000000030] \<and>
   one_task False (snd (poll_page refresh_i2c forced_polls initial_page)) \<and>
   sorted_wrt (\<lambda>a b. a + refresh_interval \<le> b) (start_times (snd (poll_page refresh_i2c four_polls initial_page)))"
proof (intro conjI)
  show "snd (poll_page refresh_i2c four_polls initial_page) = [TaskStarted 20, TaskTaken, TaskStarted 7000000030]"
    by (simp add: four_polls_def initial_page_def refresh_i2c_def take_result_def set_page_result_def
        starts_task_def start_task_def refresh_interval_elapsed_def refresh_interval_def Let_def)
  show "one_task False (snd (poll_page refresh_i2c forced_polls initial_page))"
    "sorted_wrt (\<lambda>a b. a + refresh_interval \<le> b) (start_times (snd (poll_page refresh_i2c four_polls initial_page)))"
    using scans_spaced [of "[]" "[]" four_polls undefined "[]" undefined "[]" initial_page forced_polls]
    by (simp_all add: four_polls_def initial_page_def)
qed

subsection \<open>The active page\<close>

text \<open>A forced refresh reaches the page that is shown and no other, and a report of no change means
  that this page shows what it showed.\<close>

lemma refresh_active_only:
  "let v' = snd (refresh_active e v); p = pm_active_page (cv_menu v) in
   cv_menu v' = cv_menu v \<and>
   (p = SP_WIFI \<or> cv_wifi v' = cv_wifi v) \<and> (p = SP_BLUETOOTH \<or> cv_bluetooth v' = cv_bluetooth v) \<and>
   (p = SP_ETHERNET \<or> cv_ethernet v' = cv_ethernet v) \<and> (p = SP_USB \<or> cv_usb v' = cv_usb v) \<and>
   (p = SP_HDMI \<or> cv_hdmi v' = cv_hdmi v) \<and> (p = SP_I2C \<or> cv_i2c v' = cv_i2c v) \<and>
   (p = SP_SPI \<or> cv_spi v' = cv_spi v) \<and> (p = SP_LINK_TEST \<or> cv_link v' = cv_link v)"
  by (cases "pm_active_page (cv_menu v)") (simp_all add: refresh_active_def case_prod_unfold Let_def)

subsection \<open>The link test\<close>

datatype link_call = LinkRefresh "link_test_result option" bool | LinkSettings link_settings

fun call_link :: "link_call \<Rightarrow> link_page \<Rightarrow> link_page" where
  "call_link (LinkRefresh ready force) p = snd (refresh_link ready force p)"
| "call_link (LinkSettings settings) p = set_link_settings settings p"

definition valid_link :: "link_settings \<Rightarrow> bool" where
  "valid_link s \<longleftrightarrow> ls_iperf_host s \<noteq> [] \<and> 1 \<le> ls_iperf_port s \<and> ls_iperf_port s \<le> 65535"

definition link_inv :: "link_page \<Rightarrow> bool" where
  "link_inv p \<longleftrightarrow> valid_link (lg_settings p) \<and> valid_link (lk_settings (lg_snapshot p)) \<and>
     (case lg_task p of None \<Rightarrow> True | Some s \<Rightarrow> valid_link s) \<and>
     (lk_running (lg_snapshot p) \<longleftrightarrow> lg_task p \<noteq> None) \<and>
     (lm_status (lk_internet (lg_snapshot p)) = LINK_RUNNING \<longleftrightarrow> lg_task p \<noteq> None)"

lemma set_snapshot_shown:
  "snd (set_link_snapshot s p) = p \<and> same_link_snapshot (lg_snapshot p) s \<or>
   snd (set_link_snapshot s p) = p\<lparr>lg_snapshot := s\<rparr>"
  by (simp add: set_link_snapshot_def)

lemma set_snapshot_fields:
  "lk_settings (lg_snapshot (snd (set_link_snapshot s p))) = lk_settings s"
  "lk_running (lg_snapshot (snd (set_link_snapshot s p))) = lk_running s"
  "lm_status (lk_internet (lg_snapshot (snd (set_link_snapshot s p)))) = lm_status (lk_internet s)"
  "lg_settings (snd (set_link_snapshot s p)) = lg_settings p" "lg_task (snd (set_link_snapshot s p)) = lg_task p"
  using set_snapshot_shown [of s p] by (auto simp: same_link_snapshot_def same_link_metric_def)

lemma taken_inv:
  assumes "link_inv p" "lg_task p = Some settings"
  shows "link_inv (snd (set_link_snapshot (read_link_test_result settings result) (p\<lparr>lg_task := None\<rparr>)))"
  using assms by (auto simp: link_inv_def set_snapshot_fields read_link_test_result_def internet_metric_def)

lemma begun_inv:
  assumes "link_inv p" "lg_task p = None"
  shows "link_inv (snd (set_link_snapshot (running_snapshot (p\<lparr>lg_task := Some (lg_settings p)\<rparr>))
    (p\<lparr>lg_task := Some (lg_settings p)\<rparr>)))"
  using assms by (auto simp: link_inv_def set_snapshot_fields running_snapshot_def running_metric_def)

lemma call_link_inv: "link_inv p \<Longrightarrow> link_inv (call_link c p)"
proof (cases c)
  case (LinkRefresh ready force)
  assume inv: "link_inv p"
  have p1: "link_inv (snd (take_link_result ready p))"
    using inv taken_inv [OF inv] by (auto simp: take_link_result_def split: option.splits)
  then show ?thesis
    using begun_inv [OF p1] LinkRefresh by (auto simp: refresh_link_def case_prod_unfold Let_def)
next
  case (LinkSettings settings)
  assume "link_inv p"
  then show ?thesis using LinkSettings
    by (auto simp: link_inv_def set_link_settings_def valid_link_def Let_def)
qed

text \<open>After any refreshes, results and settings, whatever their values, the settings in use and
  those shown have a host and a port within 1 to 65535, and a running test is shown exactly while
  a task runs, with valid settings.\<close>

theorem link_page_consistent:
  "let p = fold call_link calls initial_link in
   ls_iperf_host (lg_settings p) \<noteq> [] \<and> 1 \<le> ls_iperf_port (lg_settings p) \<and> ls_iperf_port (lg_settings p) \<le> 65535 \<and>
   1 \<le> ls_iperf_port (lk_settings (lg_snapshot p)) \<and> ls_iperf_port (lk_settings (lg_snapshot p)) \<le> 65535 \<and>
   (lk_running (lg_snapshot p) \<longleftrightarrow> lg_task p \<noteq> None) \<and>
   (case lg_task p of None \<Rightarrow> lm_status (lk_internet (lg_snapshot p)) \<noteq> LINK_RUNNING
    | Some s \<Rightarrow> lm_status (lk_internet (lg_snapshot p)) = LINK_RUNNING \<and>
        ls_iperf_host s \<noteq> [] \<and> 1 \<le> ls_iperf_port s \<and> ls_iperf_port s \<le> 65535)"
proof -
  have "link_inv p \<Longrightarrow> link_inv (fold call_link calls p)" for p
    by (induction calls arbitrary: p) (auto intro: call_link_inv)
  moreover have "link_inv initial_link"
    by (simp add: link_inv_def initial_link_def valid_link_def default_link_settings_def idle_metric_def)
  ultimately have "link_inv (fold call_link calls initial_link)" by blast
  then show ?thesis by (auto simp: link_inv_def valid_link_def Let_def split: option.splits)
qed

text \<open>Settings changed during a test are shown until its result arrives, which shows the old ones
  again although the new ones are in use.\<close>

lemma old_settings_shown:
  fixes result :: link_test_result
  defines "s \<equiv> \<lparr>ls_iperf_host = ''10.0.0.1'', ls_iperf_port = 6000\<rparr>"
  defines "p \<equiv> call_link (LinkRefresh (Some result) False) (call_link (LinkSettings s)
    (call_link (LinkRefresh None True) initial_link))"
  shows "lg_settings p = s \<and> lk_settings (lg_snapshot p) = default_link_settings"
proof -
  define p1 where "p1 = call_link (LinkSettings s) (call_link (LinkRefresh None True) initial_link)"
  have p1: "lg_settings p1 = s" "lg_task p1 = Some default_link_settings"
    by (simp_all add: p1_def s_def set_link_settings_def refresh_link_def take_link_result_def initial_link_def
        case_prod_unfold set_snapshot_fields Let_def)
  then show ?thesis unfolding p_def p1_def [symmetric]
    by (auto simp: refresh_link_def take_link_result_def case_prod_unfold set_snapshot_fields read_link_test_result_def
        internet_metric_def Let_def split: if_splits)
qed

end
