(* ===== verification/Keys.thy ===== *)
theory Keys
  imports Prelude "HOL-Library.Word"
begin

section \<open>Keys: from the codes of the kernel to the keys of the program\<close>

text \<open>
  The tables of src/src/platform/linux_input.cpp, in its order, and the lookups in them. The codes
  of the kernel (linux/input.h) and the keys of the LVGL library are not part of the program: they
  are the parameters \<open>kc\<close> and \<open>lvk\<close>. Printable keys are their ASCII codes, as in the code.
\<close>

unbundle bit_operations_syntax

subsection \<open>Codes that are not the program's\<close>

datatype kernel_key =
  KEY_KPASTERISK | KEY_KPMINUS | KEY_KPPLUS | KEY_KPDOT | KEY_KPSLASH | KEY_ESC | KEY_ENTER |
  KEY_KPENTER | KEY_BACKSPACE | KEY_DELETE | KEY_INSERT | KEY_UP | KEY_DOWN | KEY_LEFT |
  KEY_RIGHT | KEY_HOME | KEY_END | KEY_PAGEUP | KEY_PAGEDOWN | KEY_TAB | KEY_FN | KEY_COMPOSE |
  KEY_LEFTCTRL | KEY_RIGHTCTRL | KEY_LEFTSHIFT | KEY_RIGHTSHIFT | KEY_LEFTMETA | KEY_RIGHTMETA |
  KEY_LEFTALT | KEY_RIGHTALT | KEY_MUTE | KEY_VOLUMEDOWN | KEY_VOLUMEUP | KEY_BRIGHTNESSDOWN |
  KEY_BRIGHTNESSUP | KEY_PLAYPAUSE | KEY_REWIND | KEY_PREVIOUSSONG | KEY_FASTFORWARD |
  KEY_NEXTSONG | KEY_SYSRQ | KEY_HELP | KEY_F1 | KEY_F2 | KEY_F3 | KEY_F4 | KEY_F5 | KEY_F6 |
  KEY_F7 | KEY_F8 | KEY_F9 | KEY_F10 | KEY_F11 | KEY_F12 | KEY_1 | KEY_2 | KEY_3 | KEY_4 |
  KEY_5 | KEY_6 | KEY_7 | KEY_8 | KEY_9 | KEY_0 | KEY_SPACE | KEY_MINUS | KEY_EQUAL |
  KEY_LEFTBRACE | KEY_RIGHTBRACE | KEY_BACKSLASH | KEY_SEMICOLON | KEY_APOSTROPHE | KEY_GRAVE |
  KEY_COMMA | KEY_DOT | KEY_SLASH | KEY_Q | KEY_P | KEY_A | KEY_L | KEY_Z | KEY_M

datatype lv_key =
  LV_KEY_UP | LV_KEY_DOWN | LV_KEY_RIGHT | LV_KEY_LEFT | LV_KEY_ESC | LV_KEY_DEL | LV_KEY_BACKSPACE |
  LV_KEY_ENTER | LV_KEY_NEXT | LV_KEY_PREV | LV_KEY_HOME | LV_KEY_END

subsection \<open>The program's own keys\<close>

definition evdev_key_base :: "32 word" where "evdev_key_base = 0x100000"
definition special_key_base :: "32 word" where "special_key_base = 0x200000"
definition key_ctrl :: "32 word" where "key_ctrl = special_key_base OR 1"
definition key_shift :: "32 word" where "key_shift = special_key_base OR 2"
definition key_super :: "32 word" where "key_super = special_key_base OR 3"
definition key_alt :: "32 word" where "key_alt = special_key_base OR 4"
definition key_fn :: "32 word" where "key_fn = special_key_base OR 5"
definition key_sym :: "32 word" where "key_sym = special_key_base OR 6"
definition key_insert :: "32 word" where "key_insert = special_key_base OR 7"
definition key_page_up :: "32 word" where "key_page_up = special_key_base OR 8"
definition key_page_down :: "32 word" where "key_page_down = special_key_base OR 9"
definition key_volume_mute :: "32 word" where "key_volume_mute = special_key_base OR 10"
definition key_volume_down :: "32 word" where "key_volume_down = special_key_base OR 11"
definition key_volume_up :: "32 word" where "key_volume_up = special_key_base OR 12"
definition key_brightness_down :: "32 word" where "key_brightness_down = special_key_base OR 13"
definition key_brightness_up :: "32 word" where "key_brightness_up = special_key_base OR 14"
definition key_play_pause :: "32 word" where "key_play_pause = special_key_base OR 15"
definition key_rewind :: "32 word" where "key_rewind = special_key_base OR 16"
definition key_fast_forward :: "32 word" where "key_fast_forward = special_key_base OR 17"
definition key_printscreen :: "32 word" where "key_printscreen = special_key_base OR 18"
definition key_help :: "32 word" where "key_help = special_key_base OR 19"
definition key_f_base :: "32 word" where "key_f_base = special_key_base OR 0x100"

subsection \<open>Tables\<close>

definition tca8418_symbol_keys :: "(16 word \<times> 32 word) list" where
  "tca8418_symbol_keys =
     [(26, 33), (27, 64), (39, 35), (40, 36), (41, 37), (43, 94), (51, 38), (52, 42), (53, 40),
      (94, 41), (55, 126), (69, 96), (70, 95), (71, 45), (72, 43), (73, 61), (74, 91), (75, 93),
      (76, 123), (77, 125), (79, 59), (80, 58), (81, 39), (82, 34), (83, 60), (85, 62), (86, 92),
      (89, 124), (90, 44), (91, 46), (92, 47), (93, 63)]"

definition printable_symbol_keys :: "(kernel_key \<Rightarrow> 16 word) \<Rightarrow> (16 word \<times> 32 word \<times> 32 word) list" where
  "printable_symbol_keys kc =
     [(kc KEY_1, 49, 33), (kc KEY_2, 50, 64), (kc KEY_3, 51, 35), (kc KEY_4, 52, 36),
      (kc KEY_5, 53, 37), (kc KEY_6, 54, 94), (kc KEY_7, 55, 38), (kc KEY_8, 56, 42),
      (kc KEY_9, 57, 40), (kc KEY_0, 48, 41), (kc KEY_SPACE, 32, 32), (kc KEY_MINUS, 45, 95),
      (kc KEY_EQUAL, 61, 43), (kc KEY_LEFTBRACE, 91, 123), (kc KEY_RIGHTBRACE, 93, 125),
      (kc KEY_BACKSLASH, 92, 124), (kc KEY_SEMICOLON, 59, 58), (kc KEY_APOSTROPHE, 39, 34),
      (kc KEY_GRAVE, 96, 126), (kc KEY_COMMA, 44, 60), (kc KEY_DOT, 46, 62), (kc KEY_SLASH, 47, 63)]"

definition keypad_symbol_keys :: "(kernel_key \<Rightarrow> 16 word) \<Rightarrow> (16 word \<times> 32 word) list" where
  "keypad_symbol_keys kc =
     [(kc KEY_KPASTERISK, 42), (kc KEY_KPMINUS, 45), (kc KEY_KPPLUS, 43), (kc KEY_KPDOT, 46),
      (kc KEY_KPSLASH, 47)]"

definition special_evdev_keys :: "(kernel_key \<Rightarrow> 16 word) \<Rightarrow> (lv_key \<Rightarrow> 32 word) \<Rightarrow> (16 word \<times> 32 word) list" where
  "special_evdev_keys kc lvk =
     [(kc KEY_ESC, lvk LV_KEY_ESC), (kc KEY_ENTER, lvk LV_KEY_ENTER),
      (kc KEY_KPENTER, lvk LV_KEY_ENTER), (kc KEY_BACKSPACE, lvk LV_KEY_BACKSPACE),
      (kc KEY_DELETE, lvk LV_KEY_DEL), (kc KEY_INSERT, key_insert), (kc KEY_UP, lvk LV_KEY_UP),
      (kc KEY_DOWN, lvk LV_KEY_DOWN), (kc KEY_LEFT, lvk LV_KEY_LEFT),
      (kc KEY_RIGHT, lvk LV_KEY_RIGHT), (kc KEY_HOME, lvk LV_KEY_HOME), (kc KEY_END, lvk LV_KEY_END),
      (kc KEY_PAGEUP, key_page_up), (kc KEY_PAGEDOWN, key_page_down), (kc KEY_TAB, 9),
      (kc KEY_FN, key_fn), (kc KEY_COMPOSE, key_sym), (kc KEY_LEFTCTRL, key_ctrl),
      (kc KEY_RIGHTCTRL, key_ctrl), (kc KEY_LEFTSHIFT, key_shift), (kc KEY_RIGHTSHIFT, key_shift),
      (kc KEY_LEFTMETA, key_super), (kc KEY_RIGHTMETA, key_super), (kc KEY_LEFTALT, key_alt),
      (kc KEY_RIGHTALT, key_alt), (kc KEY_MUTE, key_volume_mute),
      (kc KEY_VOLUMEDOWN, key_volume_down), (kc KEY_VOLUMEUP, key_volume_up),
      (kc KEY_BRIGHTNESSDOWN, key_brightness_down), (kc KEY_BRIGHTNESSUP, key_brightness_up),
      (kc KEY_PLAYPAUSE, key_play_pause), (kc KEY_REWIND, key_rewind),
      (kc KEY_PREVIOUSSONG, key_rewind), (kc KEY_FASTFORWARD, key_fast_forward),
      (kc KEY_NEXTSONG, key_fast_forward), (kc KEY_SYSRQ, key_printscreen), (kc KEY_HELP, key_help)]"

definition function_keys :: "(kernel_key \<Rightarrow> 16 word) \<Rightarrow> (16 word \<times> 32 word) list" where
  "function_keys kc =
     [(kc KEY_F1, (key_f_base OR 1)), (kc KEY_F2, (key_f_base OR 2)), (kc KEY_F3, (key_f_base OR 3)),
      (kc KEY_F4, (key_f_base OR 4)), (kc KEY_F5, (key_f_base OR 5)), (kc KEY_F6, (key_f_base OR 6)),
      (kc KEY_F7, (key_f_base OR 7)), (kc KEY_F8, (key_f_base OR 8)), (kc KEY_F9, (key_f_base OR 9)),
      (kc KEY_F10, (key_f_base OR 10)), (kc KEY_F11, (key_f_base OR 11)),
      (kc KEY_F12, (key_f_base OR 12))]"

definition scan_code_keys :: "(16 word \<times> 32 word) list" where
  "scan_code_keys =
     [(66, key_fn), (67, key_sym)]"

definition shift_state_keys :: "(kernel_key \<Rightarrow> 16 word) \<Rightarrow> (16 word \<times> 32 word) list" where
  "shift_state_keys kc =
     [(kc KEY_LEFTSHIFT, 1), (kc KEY_RIGHTSHIFT, 1)]"

definition lv_key_names :: "(lv_key \<Rightarrow> 32 word) \<Rightarrow> (32 word \<times> string) list" where
  "lv_key_names lvk =
     [(lvk LV_KEY_UP, ''Up''), (lvk LV_KEY_DOWN, ''Down''), (lvk LV_KEY_RIGHT, ''Right''),
      (lvk LV_KEY_LEFT, ''Left''), (lvk LV_KEY_ESC, ''Esc''), (lvk LV_KEY_DEL, ''Delete''),
      (lvk LV_KEY_BACKSPACE, ''Backspace''), (lvk LV_KEY_ENTER, ''Enter''),
      (lvk LV_KEY_NEXT, ''Next''), (lvk LV_KEY_PREV, ''Previous''), (lvk LV_KEY_HOME, ''Home''),
      (lvk LV_KEY_END, ''End'')]"

definition special_key_names :: "(32 word \<times> string) list" where
  "special_key_names =
     [(32, ''Space''), (9, ''Tab''), (key_ctrl, ''Ctrl''), (key_shift, ''Shift''),
      (key_super, ''Super''), (key_alt, ''Alt''), (key_fn, ''Fn''), (key_sym, ''Sym''),
      (key_insert, ''Insert''), (key_page_up, ''PageUp''), (key_page_down, ''PageDown''),
      (key_volume_mute, ''VolumeMute''), (key_volume_down, ''VolumeDown''),
      (key_volume_up, ''VolumeUp''), (key_brightness_down, ''BrightnessDown''),
      (key_brightness_up, ''BrightnessUp''), (key_play_pause, ''PlayPause''),
      (key_rewind, ''Rewind''), (key_fast_forward, ''FastForward''),
      (key_printscreen, ''PrintScreen''), (key_help, ''Help'')]"

definition alpha_key_ranges :: "(kernel_key \<Rightarrow> 16 word) \<Rightarrow> (16 word \<times> 16 word \<times> string \<times> string) list" where
  "alpha_key_ranges kc =
     [(kc KEY_Q, kc KEY_P, ''qwertyuiop'', ''QWERTYUIOP''),
      (kc KEY_A, kc KEY_L, ''asdfghjkl'', ''ASDFGHJKL''),
      (kc KEY_Z, kc KEY_M, ''zxcvbnm'', ''ZXCVBNM'')]"

subsection \<open>Lookups; 0 is no key\<close>

fun lookup_key :: "(16 word \<times> 32 word) list \<Rightarrow> 16 word \<Rightarrow> 32 word" where
  "lookup_key [] source = 0"
| "lookup_key ((s, key) # entries) source = (if s = source then key else lookup_key entries source)"

fun lookup_name :: "(32 word \<times> string) list \<Rightarrow> 32 word \<Rightarrow> string option" where
  "lookup_name [] key = None"
| "lookup_name ((k, name) # entries) key = (if k = key then Some name else lookup_name entries key)"

fun lookup_printable :: "(16 word \<times> 32 word \<times> 32 word) list \<Rightarrow> 16 word \<Rightarrow> bool \<Rightarrow> 32 word" where
  "lookup_printable [] code shift_pressed = 0"
| "lookup_printable ((c, key, shifted) # entries) code shift_pressed =
     (if c = code then (if shift_pressed then shifted else key) else lookup_printable entries code shift_pressed)"

text \<open>The strings have a letter for every code of their range; the character after the last is
  the terminating zero.\<close>

definition letter_key :: "string \<Rightarrow> nat \<Rightarrow> 32 word" where
  "letter_key letters i = (if i < length letters then word_of_nat (of_char (letters ! i)) else 0)"

fun lookup_alpha :: "(16 word \<times> 16 word \<times> string \<times> string) list \<Rightarrow> 16 word \<Rightarrow> bool \<Rightarrow> 32 word" where
  "lookup_alpha [] code shift_pressed = 0"
| "lookup_alpha ((first, last_code, letters, shifted) # ranges) code shift_pressed =
     (if first \<le> code \<and> code \<le> last_code
      then letter_key (if shift_pressed then shifted else letters) (unat (code - first))
      else lookup_alpha ranges code shift_pressed)"

definition printable_evdev_key :: "(kernel_key \<Rightarrow> 16 word) \<Rightarrow> 16 word \<Rightarrow> bool \<Rightarrow> 32 word" where
  "printable_evdev_key kc code shift_pressed =
     (let symbol = lookup_key tca8418_symbol_keys code in
      if symbol \<noteq> 0 then symbol
      else (let printable = lookup_printable (printable_symbol_keys kc) code shift_pressed in
        if printable \<noteq> 0 then printable
        else (let letter = lookup_alpha (alpha_key_ranges kc) code shift_pressed in
          if letter \<noteq> 0 then letter else lookup_key (keypad_symbol_keys kc) code)))"

definition map_evdev_key :: "(kernel_key \<Rightarrow> 16 word) \<Rightarrow> (lv_key \<Rightarrow> 32 word) \<Rightarrow> 16 word \<Rightarrow> bool \<Rightarrow> 32 word" where
  "map_evdev_key kc lvk code shift_pressed =
     (let printable = printable_evdev_key kc code shift_pressed in
      if printable \<noteq> 0 then printable
      else (let special = lookup_key (special_evdev_keys kc lvk) code in
        if special \<noteq> 0 then special
        else (let function_key = lookup_key (function_keys kc) code in
          if function_key \<noteq> 0 then function_key else evdev_key_base OR ucast code)))"

definition map_evdev_scan :: "32 word \<Rightarrow> 32 word" where
  "map_evdev_scan scan_code = lookup_key scan_code_keys (ucast scan_code)"

subsection \<open>Names (describe_key)\<close>

definition describe_key :: "(lv_key \<Rightarrow> 32 word) \<Rightarrow> 32 word \<Rightarrow> string" where
  "describe_key lvk key =
     (case lookup_name (lv_key_names lvk) key of
        Some name \<Rightarrow> name
      | None \<Rightarrow> (case lookup_name special_key_names key of
          Some name \<Rightarrow> name
        | None \<Rightarrow>
            if 32 \<le> key \<and> key \<le> 126 then [char_of (unat key)]
            else if key AND key_f_base = key_f_base then ''F'' @ nat_text (unat (key AND NOT key_f_base))
            else if key AND evdev_key_base = evdev_key_base then ''KEY_'' @ nat_text (unat (key AND NOT evdev_key_base))
            else ''Key '' @ nat_text (unat key)))"

end
