(* ===== verification/KeyRouter.thy ===== *)
theory KeyRouter
  imports Keys
begin

section \<open>KeyRouter: keyboards and the routing of keys\<close>

text \<open>
  The key router and the evdev keyboards of src/src/platform/linux_input.cpp. Listeners and buttons
  are numbers (a listener with its user data is one number); a call of a listener or an event sent
  to a button may call the router's own functions, so what it calls is part of the environment,
  like its answer, the clock and whether a button can be used. The long press timer is LVGL's: it
  runs \<open>long_press_timer_cb\<close> from time to time while it is not paused.
\<close>

subsection \<open>State\<close>

datatype nav_trigger_mode = NAV_CLICK | NAV_LONG_PRESS
datatype button_event = EV_PRESSED | EV_RELEASED | EV_CLICKED | EV_LONG_PRESSED
datatype press_timer = NO_TIMER | TIMER_PAUSED | TIMER_RUNNING

datatype router_event =
    PressSound
  | ToGlobal "32 word" bool \<comment> \<open>whether long pressed\<close>
  | ToListener "32 word"
  | ToReleaseListener "32 word"
  | ToLongListener "32 word"
  | ToButton nat button_event

record key_router =
  kr_nav_buttons :: "nat option list" \<comment> \<open>std::array of K_NAV_KEY_COUNT\<close>
  kr_last_key :: "32 word"
  kr_last_key_pressed :: bool
  kr_pressed_key :: "32 word"
  kr_press_started_at :: "32 word"
  kr_last_key_activity_at :: "32 word"
  kr_long_press_sent :: bool
  kr_timer :: press_timer
  kr_nav_trigger_mode :: nav_trigger_mode
  kr_aliases_enabled :: bool
  kr_key_listener :: "nat option"
  kr_key_release_listener :: "nat option"
  kr_long_key_listener :: "nat option"
  kr_global_key_listener :: "nat option"
  kr_modal_key_capture :: bool
  kr_consumed_by_global :: bool
  kr_steps :: nat
  kr_trace :: "router_event list"

definition nav_key_count :: nat where "nav_key_count = 5"
definition long_press_ms :: "32 word" where "long_press_ms = 700"

definition initial_router :: key_router where
  "initial_router = \<lparr>kr_nav_buttons = replicate nav_key_count None, kr_last_key = 0, kr_last_key_pressed = False,
     kr_pressed_key = 0, kr_press_started_at = 0, kr_last_key_activity_at = 0, kr_long_press_sent = False,
     kr_timer = NO_TIMER, kr_nav_trigger_mode = NAV_CLICK, kr_aliases_enabled = True, kr_key_listener = None,
     kr_key_release_listener = None, kr_long_key_listener = None, kr_global_key_listener = None,
     kr_modal_key_capture = False, kr_consumed_by_global = False, kr_steps = 0, kr_trace = []\<rparr>"

subsection \<open>The functions of the router's interface\<close>

datatype router_call =
    RegisterNavButton nat nat
  | UnregisterNavButton nat "nat option"
  | SetKeyListener "nat option" | ClearKeyListener "nat option"
  | SetKeyReleaseListener "nat option" | ClearKeyReleaseListener "nat option"
  | SetLongKeyListener "nat option" | ClearLongKeyListener "nat option"
  | SetGlobalKeyListener "nat option" | ClearGlobalKeyListener "nat option"
  | SetNavTriggerMode nav_trigger_mode | SetAliasesEnabled bool | SetModalKeyCapture bool | ResetKeyRouter

definition reset_key_router_state :: "key_router \<Rightarrow> key_router" where
  "reset_key_router_state w = w\<lparr>kr_last_key := 0, kr_last_key_pressed := False, kr_pressed_key := 0,
     kr_press_started_at := 0, kr_last_key_activity_at := 0, kr_long_press_sent := False,
     kr_timer := (if kr_timer w = NO_TIMER then NO_TIMER else TIMER_PAUSED)\<rparr>"

fun do_router_call :: "router_call \<Rightarrow> key_router \<Rightarrow> key_router" where
  "do_router_call (RegisterNavButton i b) w =
     (if i \<ge> length (kr_nav_buttons w) then w else w\<lparr>kr_nav_buttons := (kr_nav_buttons w)[i := Some b]\<rparr>)"
| "do_router_call (UnregisterNavButton i b) w =
     (if i \<ge> length (kr_nav_buttons w) then w
      else if b = None \<or> kr_nav_buttons w ! i = b then w\<lparr>kr_nav_buttons := (kr_nav_buttons w)[i := None]\<rparr> else w)"
| "do_router_call (SetKeyListener l) w = w\<lparr>kr_key_listener := l\<rparr>"
| "do_router_call (ClearKeyListener l) w = (if kr_key_listener w = l then w\<lparr>kr_key_listener := None\<rparr> else w)"
| "do_router_call (SetKeyReleaseListener l) w = w\<lparr>kr_key_release_listener := l\<rparr>"
| "do_router_call (ClearKeyReleaseListener l) w =
     (if kr_key_release_listener w = l then w\<lparr>kr_key_release_listener := None\<rparr> else w)"
| "do_router_call (SetLongKeyListener l) w = w\<lparr>kr_long_key_listener := l\<rparr>"
| "do_router_call (ClearLongKeyListener l) w =
     (if kr_long_key_listener w = l then w\<lparr>kr_long_key_listener := None\<rparr> else w)"
| "do_router_call (SetGlobalKeyListener l) w = w\<lparr>kr_global_key_listener := l\<rparr>"
| "do_router_call (ClearGlobalKeyListener l) w =
     (if kr_global_key_listener w = l then w\<lparr>kr_global_key_listener := None\<rparr> else w)"
| "do_router_call (SetNavTriggerMode m) w = reset_key_router_state (w\<lparr>kr_nav_trigger_mode := m\<rparr>)"
| "do_router_call (SetAliasesEnabled b) w = reset_key_router_state (w\<lparr>kr_aliases_enabled := b\<rparr>)"
| "do_router_call (SetModalKeyCapture b) w =
     (if kr_modal_key_capture w = b then w else reset_key_router_state (w\<lparr>kr_modal_key_capture := b\<rparr>))"
| "do_router_call ResetKeyRouter w = reset_key_router_state w"

subsection \<open>The environment\<close>

record router_env =
  ro_lvk :: "lv_key \<Rightarrow> 32 word"
  ro_consumes :: "nat \<Rightarrow> bool" \<comment> \<open>the answer of the global listener\<close>
  ro_calls :: "nat \<Rightarrow> router_call list" \<comment> \<open>what a called listener or button does to the router\<close>
  ro_usable :: "nat \<Rightarrow> bool" \<comment> \<open>lv_obj_is_valid and clickable\<close>
  ro_tick :: "nat \<Rightarrow> 32 word" \<comment> \<open>lv_tick_get in milliseconds\<close>

definition notify :: "router_env \<Rightarrow> router_event \<Rightarrow> key_router \<Rightarrow> bool \<times> key_router" where
  "notify e ev w =
     (ro_consumes e (kr_steps w),
      fold do_router_call (ro_calls e (kr_steps w)) (w\<lparr>kr_steps := Suc (kr_steps w), kr_trace := kr_trace w @ [ev]\<rparr>))"

definition tick_get :: "router_env \<Rightarrow> key_router \<Rightarrow> 32 word \<times> key_router" where
  "tick_get e w = (ro_tick e (kr_steps w), w\<lparr>kr_steps := Suc (kr_steps w)\<rparr>)"

definition play_press :: "key_router \<Rightarrow> key_router" where
  "play_press w = w\<lparr>kr_trace := kr_trace w @ [PressSound]\<rparr>"

subsection \<open>Dispatch\<close>

text \<open>\<open>K_NAV_KEY_MAP\<close>: the key and the button for a click and for a long press.\<close>

definition nav_key_map :: "(lv_key \<Rightarrow> 32 word) \<Rightarrow> (32 word \<times> nat \<times> nat) list" where
  "nav_key_map lvk =
     [(52, 0, 0), (lvk LV_KEY_ESC, 0, 0), (53, 1, 1), (122, 1, 1), (90, 1, 1), (lvk LV_KEY_LEFT, 1, 1),
      (54, 2, 2), (55, 3, 3), (56, 4, 4), (99, 3, 3), (67, 3, 3), (lvk LV_KEY_RIGHT, 3, 3)]"

fun find_nav_key :: "(32 word \<times> nat \<times> nat) list \<Rightarrow> nav_trigger_mode \<Rightarrow> 32 word \<Rightarrow> nat" where
  "find_nav_key [] mode key = nav_key_count"
| "find_nav_key ((k, click_index, long_index) # entries) mode key =
     (if k = key then (if mode = NAV_CLICK then click_index else long_index) else find_nav_key entries mode key)"

definition nav_key_to_index :: "router_env \<Rightarrow> 32 word \<Rightarrow> key_router \<Rightarrow> nat" where
  "nav_key_to_index e key w =
     (if \<not> kr_aliases_enabled w \<and> key \<in> {122, 90, 99, 67, ro_lvk e LV_KEY_LEFT, ro_lvk e LV_KEY_RIGHT}
      then nav_key_count
      else find_nav_key (nav_key_map (ro_lvk e)) (kr_nav_trigger_mode w) key)"

definition dispatch_nav_key :: "router_env \<Rightarrow> 32 word \<Rightarrow> button_event \<Rightarrow> key_router \<Rightarrow> key_router" where
  "dispatch_nav_key e key ev w =
     (let index = nav_key_to_index e key w in
      if index \<ge> length (kr_nav_buttons w) then w
      else case kr_nav_buttons w ! index of
        None \<Rightarrow> w
      | Some button \<Rightarrow> if ro_usable e button then snd (notify e (ToButton button ev) w) else w)"

text \<open>Whether the global listener consumed the key; if not, the page's listener is told.\<close>

definition emit_key :: "router_env \<Rightarrow> 32 word \<Rightarrow> key_router \<Rightarrow> bool \<times> key_router" where
  "emit_key e key w =
     (let (consumed, w1) = (case kr_global_key_listener w of
            Some l \<Rightarrow> notify e (ToGlobal key False) w
          | None \<Rightarrow> (False, w))
      in if consumed then (True, w1)
         else (False, case kr_key_listener w1 of Some l \<Rightarrow> snd (notify e (ToListener key) w1) | None \<Rightarrow> w1))"

definition emit_key_release :: "router_env \<Rightarrow> 32 word \<Rightarrow> key_router \<Rightarrow> key_router" where
  "emit_key_release e key w =
     (case kr_key_release_listener w of Some l \<Rightarrow> snd (notify e (ToReleaseListener key) w) | None \<Rightarrow> w)"

definition emit_long_key :: "router_env \<Rightarrow> 32 word \<Rightarrow> key_router \<Rightarrow> bool \<times> key_router" where
  "emit_long_key e key w =
     (let (consumed, w1) = (case kr_global_key_listener w of
            Some l \<Rightarrow> notify e (ToGlobal key True) w
          | None \<Rightarrow> (False, w))
      in if consumed then (True, w1)
         else (False, case kr_long_key_listener w1 of Some l \<Rightarrow> snd (notify e (ToLongListener key) w1) | None \<Rightarrow> w1))"

subsection \<open>Long presses\<close>

definition long_press_timer_cb :: "router_env \<Rightarrow> key_router \<Rightarrow> key_router" where
  "long_press_timer_cb e w =
     (if kr_pressed_key w = 0 \<or> kr_long_press_sent w then w
      else (let (now, w1) = tick_get e w in
        if now - kr_press_started_at w1 < long_press_ms then w1
        else (let w2 = w1\<lparr>kr_long_press_sent := True\<rparr> in
          if kr_modal_key_capture w2 then w2
          else if kr_consumed_by_global w2 then w2
          else (let (consumed, w3) = emit_long_key e (kr_pressed_key w2) w2 in
            if consumed then w3 else dispatch_nav_key e (kr_pressed_key w3) EV_LONG_PRESSED w3))))"

definition ensure_long_press_timer :: "key_router \<Rightarrow> key_router" where
  "ensure_long_press_timer w = w\<lparr>kr_timer := TIMER_RUNNING\<rparr>"

subsection \<open>Routing (route_key_state)\<close>

text \<open>The part of a press that starts a hold.\<close>

definition begin_hold :: "router_env \<Rightarrow> 32 word \<Rightarrow> bool \<Rightarrow> key_router \<Rightarrow> key_router" where
  "begin_hold e key modal_capture w =
     (let (now, w1) = tick_get e (w\<lparr>kr_pressed_key := key\<rparr>);
          w2 = play_press (w1\<lparr>kr_press_started_at := now, kr_long_press_sent := False, kr_consumed_by_global := False\<rparr>);
          (consumed, w3) = emit_key e key w2;
          w4 = w3\<lparr>kr_consumed_by_global := consumed\<rparr>
      in if \<not> modal_capture \<and> \<not> kr_consumed_by_global w4 then dispatch_nav_key e key EV_PRESSED w4 else w4)"

definition route_press :: "router_env \<Rightarrow> 32 word \<Rightarrow> bool \<Rightarrow> bool \<Rightarrow> key_router \<Rightarrow> key_router" where
  "route_press e key is_new_hold modal_capture w =
     (let w1 = (if is_new_hold then begin_hold e key modal_capture w else w);
          (now, w2) = tick_get e w1;
          w3 = ensure_long_press_timer (w2\<lparr>kr_last_key_activity_at := now\<rparr>)
      in if \<not> modal_capture \<and> \<not> kr_consumed_by_global w3 \<and> kr_nav_trigger_mode w3 = NAV_CLICK \<and>
            (\<not> kr_last_key_pressed w3 \<or> kr_last_key w3 \<noteq> key)
         then dispatch_nav_key e key EV_CLICKED w3 else w3)"

definition route_release :: "router_env \<Rightarrow> 32 word \<Rightarrow> bool \<Rightarrow> key_router \<Rightarrow> key_router" where
  "route_release e key modal_capture w =
     (let w1 = (if \<not> modal_capture \<and> \<not> kr_consumed_by_global w then dispatch_nav_key e key EV_RELEASED w else w);
          w2 = (if \<not> kr_consumed_by_global w1 then emit_key_release e key w1 else w1)
      in w2\<lparr>kr_pressed_key := 0, kr_consumed_by_global := False,
            kr_timer := (if kr_timer w2 = NO_TIMER then NO_TIMER else TIMER_PAUSED)\<rparr>)"

definition route_key_state :: "router_env \<Rightarrow> 32 word \<Rightarrow> bool \<Rightarrow> key_router \<Rightarrow> key_router" where
  "route_key_state e key pressed w =
     (let is_new_hold = (\<not> kr_last_key_pressed w \<or> key \<noteq> kr_pressed_key w);
          modal_capture = kr_modal_key_capture w;
          w1 = (if pressed then route_press e key is_new_hold modal_capture w
                else if kr_last_key_pressed w \<and> kr_pressed_key w = key then route_release e key modal_capture w
                else w)
      in w1\<lparr>kr_last_key := key, kr_last_key_pressed := pressed\<rparr>)"

subsection \<open>The evdev keyboard\<close>

record keypad =
  kp_pressed :: bool \<comment> \<open>LV_INDEV_STATE_PRESSED\<close>
  kp_key :: "32 word"
  kp_shift_pressed :: bool
  kp_synthetic_release_pending :: bool
  kp_router_event_pending :: bool
  kp_router_key :: "32 word"
  kp_router_pressed :: bool

definition initial_keypad :: keypad where
  "initial_keypad = \<lparr>kp_pressed = False, kp_key = 0, kp_shift_pressed = False, kp_synthetic_release_pending = False,
     kp_router_event_pending = False, kp_router_key = 0, kp_router_pressed = False\<rparr>"

datatype input_event = MscScan "32 word" | KeyEvent "16 word" int | OtherEvent

definition queue_router_event :: "32 word \<Rightarrow> bool \<Rightarrow> keypad \<Rightarrow> keypad" where
  "queue_router_event key pressed k = k\<lparr>kp_router_event_pending := True, kp_router_key := key, kp_router_pressed := pressed\<rparr>"

text \<open>The loop over what can be read, up to the first event of a key: whether to go on reading, the
  keypad and what is left.\<close>

fun read_input :: "(kernel_key \<Rightarrow> 16 word) \<Rightarrow> (lv_key \<Rightarrow> 32 word) \<Rightarrow> input_event list \<Rightarrow> keypad \<Rightarrow>
    bool \<times> keypad \<times> input_event list" where
  "read_input kc lvk [] k = (False, k, [])"
| "read_input kc lvk (MscScan v # rest) k =
     (let scan_key = map_evdev_scan v in
      if scan_key = 0 then read_input kc lvk rest k
      else (True, queue_router_event scan_key True
              (k\<lparr>kp_key := scan_key, kp_pressed := True, kp_synthetic_release_pending := True\<rparr>), rest))"
| "read_input kc lvk (OtherEvent # rest) k = read_input kc lvk rest k"
| "read_input kc lvk (KeyEvent code v # rest) k =
     (if v = 2 then read_input kc lvk rest k
      else (let k1 = (if lookup_key (shift_state_keys kc) code \<noteq> 0 then k\<lparr>kp_shift_pressed := (v \<noteq> 0)\<rparr> else k);
                key = map_evdev_key kc lvk code (kp_shift_pressed k1)
            in (True, queue_router_event key (v \<noteq> 0) (k1\<lparr>kp_key := key, kp_pressed := (v \<noteq> 0)\<rparr>), rest)))"

definition evdev_read_cb :: "(kernel_key \<Rightarrow> 16 word) \<Rightarrow> (lv_key \<Rightarrow> 32 word) \<Rightarrow> input_event list \<Rightarrow> keypad \<Rightarrow>
    bool \<times> keypad \<times> input_event list" where
  "evdev_read_cb kc lvk input k =
     (if kp_synthetic_release_pending k
      then (True, queue_router_event (kp_key k) False (k\<lparr>kp_synthetic_release_pending := False, kp_pressed := False\<rparr>), input)
      else read_input kc lvk input k)"

text \<open>The active input device when a key event arrives: one of the evdev keyboards (its driver data is
  the keypad), or another device of LVGL's with its key and whether that is pressed.\<close>

datatype input_source = Keypad keypad | LvglDevice "32 word" bool

definition keypad_event :: "router_env \<Rightarrow> keypad \<Rightarrow> key_router \<Rightarrow> keypad \<times> key_router" where
  "keypad_event e k w =
     (if \<not> kp_router_event_pending k then (k, w)
      else (k\<lparr>kp_router_event_pending := False\<rparr>, route_key_state e (kp_router_key k) (kp_router_pressed k) w))"

definition key_event_cb :: "router_env \<Rightarrow> input_source option \<Rightarrow> key_router \<Rightarrow> input_source option \<times> key_router" where
  "key_event_cb e active w =
     (case active of
        None \<Rightarrow> (None, w)
      | Some (Keypad k) \<Rightarrow> (let (k1, w1) = keypad_event e k w in (Some (Keypad k1), w1))
      | Some (LvglDevice key pressed) \<Rightarrow> (active, route_key_state e key pressed w))"

text \<open>The code relies on LVGL to read the keypad as long as \<open>continue_reading\<close> is set and to send the
  key event to \<open>key_event_cb\<close> after every read, with the keypad as the active device. A synthetic
  release needs a read of its own.\<close>

fun read_keypad :: "router_env \<Rightarrow> (kernel_key \<Rightarrow> 16 word) \<Rightarrow> nat \<Rightarrow> input_event list \<Rightarrow> keypad \<Rightarrow> key_router \<Rightarrow>
    keypad \<times> key_router" where
  "read_keypad e kc 0 input k w = (k, w)"
| "read_keypad e kc (Suc n) input k w =
     (let (more, k1, rest) = evdev_read_cb kc (ro_lvk e) input k;
          (k2, w2) = (case key_event_cb e (Some (Keypad k1)) w of
              (Some (Keypad k2), w2) \<Rightarrow> (k2, w2)
            | (_, w2) \<Rightarrow> (k1, w2))
      in if more then read_keypad e kc n rest k2 w2 else (k2, w2))"

subsection \<open>Which devices become keyboards\<close>

definition exclusive_input_requested :: "string option \<Rightarrow> bool" where
  "exclusive_input_requested value = (case value of
     None \<Rightarrow> False
   | Some v \<Rightarrow> v \<in> {''1'', ''true'', ''yes'', ''on''})"

definition exclusive_input_device_name :: "string option \<Rightarrow> string" where
  "exclusive_input_device_name value = (case value of
     None \<Rightarrow> ''tca8418c''
   | Some v \<Rightarrow> if v \<noteq> [] then v else ''tca8418c'')"

text \<open>What a device answers.\<close>

record input_device =
  id_entry :: string \<comment> \<open>its name under /dev/input\<close>
  id_opens :: bool
  id_keyboard_keys :: bool
  id_name :: string \<comment> \<open>empty when it cannot be read\<close>
  id_grabs :: bool
  id_created :: bool \<comment> \<open>lv_indev_create succeeds\<close>

record keypad_discovery =
  kd_initialized_count :: nat
  kd_target_found :: bool
  kd_target_grabbed :: bool
  kd_grabs :: "string list" \<comment> \<open>the devices grabbed, in order\<close>

definition try_create_keypad :: "bool \<Rightarrow> string \<Rightarrow> input_device \<Rightarrow> keypad_discovery \<Rightarrow> bool \<times> keypad_discovery" where
  "try_create_keypad exclusive_requested target d r =
     (if \<not> id_opens d then (False, r)
      else if \<not> id_keyboard_keys d then (False, r)
      else (let exclusive_target = (exclusive_requested \<and> id_name d = target) in
        if exclusive_requested \<and> \<not> exclusive_target then (False, r)
        else (let r1 = (if exclusive_target then r\<lparr>kd_target_found := True\<rparr> else r) in
          if exclusive_target \<and> \<not> id_grabs d then (False, r1)
          else (let r2 = (if exclusive_target then r1\<lparr>kd_grabs := kd_grabs r1 @ [id_entry d]\<rparr> else r1) in
            (id_created d, if id_created d \<and> exclusive_target then r2\<lparr>kd_target_grabbed := True\<rparr> else r2)))))"

fun discover_devices :: "bool \<Rightarrow> string \<Rightarrow> input_device list \<Rightarrow> keypad_discovery \<Rightarrow> keypad_discovery" where
  "discover_devices exclusive_requested target [] r = r"
| "discover_devices exclusive_requested target (d # ds) r =
     (if take 5 (id_entry d) \<noteq> ''event'' then discover_devices exclusive_requested target ds r
      else (let (created, r1) = try_create_keypad exclusive_requested target d r
            in discover_devices exclusive_requested target ds
                 (if created then r1\<lparr>kd_initialized_count := kd_initialized_count r1 + 1\<rparr> else r1)))"

definition empty_discovery :: keypad_discovery where
  "empty_discovery = \<lparr>kd_initialized_count = 0, kd_target_found = False, kd_target_grabbed = False, kd_grabs = []\<rparr>"

text \<open>\<open>configured\<close> is the device named at build time, if any; \<open>devices\<close> the directory's entries, or
  nothing where it cannot be read.\<close>

definition discover_keypads :: "input_device option \<Rightarrow> input_device list option \<Rightarrow> bool \<Rightarrow> string \<Rightarrow> keypad_discovery" where
  "discover_keypads configured devices exclusive_requested target =
     (case configured of
        Some d \<Rightarrow> (let (created, r) = try_create_keypad exclusive_requested target d empty_discovery
                  in if created then r\<lparr>kd_initialized_count := 1\<rparr> else r)
      | None \<Rightarrow> (case devices of
          None \<Rightarrow> empty_discovery
        | Some ds \<Rightarrow> discover_devices exclusive_requested target ds empty_discovery))"

definition init_key_input :: "input_device option \<Rightarrow> input_device list option \<Rightarrow> string option \<Rightarrow> string option \<Rightarrow>
    bool \<times> keypad_discovery" where
  "init_key_input configured devices exclusive_value device_value =
     (let exclusive = exclusive_input_requested exclusive_value;
          r = discover_keypads configured devices exclusive (exclusive_input_device_name device_value)
      in (\<not> (exclusive \<and> \<not> kd_target_grabbed r), r))"

end
