(* ===== verification/KeyRouterTheorems.thy ===== *)
theory KeyRouterTheorems
  imports KeyRouter
begin

section \<open>KeyRouterTheorems: what a key press tells, and to whom\<close>

subsection \<open>Calls back keep the trace\<close>

lemma router_call_trace [simp]: "kr_trace (do_router_call c w) = kr_trace w" "kr_steps (do_router_call c w) = kr_steps w"
  by (cases c; simp add: reset_key_router_state_def)+

lemma router_calls_trace [simp]:
  "kr_trace (fold do_router_call cs w) = kr_trace w" "kr_steps (fold do_router_call cs w) = kr_steps w"
  by (induction cs arbitrary: w) simp_all

lemma notify_trace [simp]: "kr_trace (snd (notify e ev w)) = kr_trace w @ [ev]"
  by (simp add: notify_def)

lemma tick_trace [simp]: "kr_trace (snd (tick_get e w)) = kr_trace w"
  by (simp add: tick_get_def)

definition adds :: "router_event set \<Rightarrow> key_router \<Rightarrow> key_router \<Rightarrow> bool" where
  "adds evs w w' \<longleftrightarrow> (\<exists>new. kr_trace w' = kr_trace w @ new \<and> set new \<subseteq> evs)"

lemma adds_refl: "kr_trace w' = kr_trace w \<Longrightarrow> adds evs w w'"
  by (simp add: adds_def)

lemma adds_trans: "adds evs u v \<Longrightarrow> adds evs v w \<Longrightarrow> adds evs u w"
  by (fastforce simp: adds_def)

lemma adds_notify: "ev \<in> evs \<Longrightarrow> adds evs w (snd (notify e ev w))"
  by (simp add: adds_def)

definition no_buttons :: "router_event set" where
  "no_buttons = {ev. \<forall>b code. ev \<noteq> ToButton b code}"

lemma emit_adds:
  "adds no_buttons w (snd (emit_key e key w))" "adds no_buttons w (emit_key_release e key w)"
proof -
  have step: "adds no_buttons u (snd (notify e ev u))" if "ev \<in> {ToGlobal key False, ToListener key, ToReleaseListener key}" for ev u
    using that by (intro adds_notify) (auto simp: no_buttons_def)
  have both: "adds no_buttons w (snd (notify e (ToListener key) (snd (notify e (ToGlobal key False) w))))"
    by (rule adds_trans [OF step step]) simp_all
  show "adds no_buttons w (snd (emit_key e key w))"
    using both step by (simp add: emit_key_def case_prod_unfold Let_def adds_refl split: option.splits)
  show "adds no_buttons w (emit_key_release e key w)"
    using step by (simp add: emit_key_release_def adds_refl split: option.splits)
qed

lemma tick_adds: "adds evs w (snd (tick_get e w))"
  by (simp add: adds_refl)

lemma begin_hold_adds: "adds no_buttons w (begin_hold e key True w)"
proof -
  let ?w1 = "snd (tick_get e (w\<lparr>kr_pressed_key := key\<rparr>))"
  let ?w2 = "play_press (?w1\<lparr>kr_press_started_at := fst (tick_get e (w\<lparr>kr_pressed_key := key\<rparr>)),
      kr_long_press_sent := False, kr_consumed_by_global := False\<rparr>)"
  have "adds no_buttons w ?w2"
    by (auto simp: adds_def play_press_def no_buttons_def)
  moreover have "adds no_buttons ?w2 (begin_hold e key True w)"
    using emit_adds(1) [of ?w2 e key]
    by (simp add: begin_hold_def case_prod_unfold Let_def adds_def)
  ultimately show ?thesis by (rule adds_trans)
qed

lemma route_press_adds: "adds no_buttons w (route_press e key new True w)"
  using begin_hold_adds [of w e key]
  by (auto simp: route_press_def case_prod_unfold Let_def ensure_long_press_timer_def adds_def)

lemma route_release_adds: "adds no_buttons w (route_release e key True w)"
  using emit_adds(2) [of w e key] by (auto simp: route_release_def Let_def adds_def)

text \<open>C36: while a modal dialog captures the keys no button of the navigation bar gets an event, from
  a key or from the timer, whatever the listeners that are told do to the router meanwhile.\<close>

theorem modal_captures_keys:
  "\<exists>new new'. kr_trace (route_key_state e key pressed (w\<lparr>kr_modal_key_capture := True\<rparr>)) = kr_trace w @ new \<and>
     kr_trace (long_press_timer_cb e (w\<lparr>kr_modal_key_capture := True\<rparr>)) = kr_trace w @ new' \<and>
     {ev \<in> set (new @ new'). \<exists>button code. ev = ToButton button code} = {}"
proof -
  let ?w = "w\<lparr>kr_modal_key_capture := True\<rparr>"
  have "adds no_buttons ?w (route_key_state e key pressed ?w)"
    using route_press_adds [of ?w e key] route_release_adds [of ?w e key]
    by (auto simp: route_key_state_def Let_def adds_def)
  moreover have "kr_trace (long_press_timer_cb e ?w) = kr_trace ?w"
    by (simp add: long_press_timer_cb_def case_prod_unfold Let_def tick_get_def)
  ultimately show ?thesis unfolding adds_def no_buttons_def
    by (elim exE) (rule_tac x = new in exI, rule_tac x = "[]" in exI, auto)
qed

subsection \<open>One key pressed and released\<close>

text \<open>Where the listeners and buttons leave the router alone.\<close>

definition no_calls :: "router_env \<Rightarrow> bool" where
  "no_calls e \<longleftrightarrow> (\<forall>n. ro_calls e n = [])"

lemma notify_quiet: "no_calls e \<Longrightarrow> notify e ev w =
    (ro_consumes e (kr_steps w), w\<lparr>kr_steps := Suc (kr_steps w), kr_trace := kr_trace w @ [ev]\<rparr>)"
  by (simp add: notify_def no_calls_def)

definition button_for :: "router_env \<Rightarrow> 32 word \<Rightarrow> key_router \<Rightarrow> nat option" where
  "button_for e key w =
     (let index = nav_key_to_index e key w in
      if index \<ge> length (kr_nav_buttons w) then None
      else case kr_nav_buttons w ! index of
        None \<Rightarrow> None
      | Some button \<Rightarrow> if ro_usable e button then Some button else None)"

definition told_button :: "nat option \<Rightarrow> button_event \<Rightarrow> router_event list" where
  "told_button b code = (case b of None \<Rightarrow> [] | Some button \<Rightarrow> [ToButton button code])"

lemma dispatch_quiet:
  "no_calls e \<Longrightarrow> dispatch_nav_key e key code w =
     w\<lparr>kr_steps := kr_steps w + length (told_button (button_for e key w) code),
       kr_trace := kr_trace w @ told_button (button_for e key w) code\<rparr>"
  by (auto simp: dispatch_nav_key_def button_for_def told_button_def notify_quiet Let_def split: option.splits)

definition told :: "nat option \<Rightarrow> router_event \<Rightarrow> router_event list" where
  "told listener ev = (case listener of None \<Rightarrow> [] | Some l \<Rightarrow> [ev])"

lemma button_for_cong:
  "kr_aliases_enabled w' = kr_aliases_enabled w \<Longrightarrow> kr_nav_trigger_mode w' = kr_nav_trigger_mode w \<Longrightarrow>
     kr_nav_buttons w' = kr_nav_buttons w \<Longrightarrow> button_for e key w' = button_for e key w"
  unfolding button_for_def nav_key_to_index_def by (simp only:)

definition consumed_key :: "router_env \<Rightarrow> key_router \<Rightarrow> bool" where
  "consumed_key e w \<longleftrightarrow> kr_global_key_listener w \<noteq> None \<and> ro_consumes e (kr_steps w + 1)"

text \<open>What is told of a key that is pressed with no other key held, and of its release.\<close>

definition told_press :: "router_env \<Rightarrow> 32 word \<Rightarrow> key_router \<Rightarrow> router_event list" where
  "told_press e key w = PressSound # told (kr_global_key_listener w) (ToGlobal key False) @
     (if consumed_key e w then []
      else told (kr_key_listener w) (ToListener key) @
        (if kr_modal_key_capture w then []
         else told_button (button_for e key w) EV_PRESSED @
           (if kr_nav_trigger_mode w = NAV_CLICK then told_button (button_for e key w) EV_CLICKED else [])))"

definition told_release :: "router_env \<Rightarrow> 32 word \<Rightarrow> key_router \<Rightarrow> router_event list" where
  "told_release e key w =
     (if consumed_key e w then []
      else (if kr_modal_key_capture w then [] else told_button (button_for e key w) EV_RELEASED) @
        told (kr_key_release_listener w) (ToReleaseListener key))"

definition same_setup :: "key_router \<Rightarrow> key_router \<Rightarrow> bool" where
  "same_setup w w' \<longleftrightarrow> kr_nav_buttons w' = kr_nav_buttons w \<and> kr_nav_trigger_mode w' = kr_nav_trigger_mode w \<and>
     kr_aliases_enabled w' = kr_aliases_enabled w \<and> kr_modal_key_capture w' = kr_modal_key_capture w \<and>
     kr_key_listener w' = kr_key_listener w \<and> kr_key_release_listener w' = kr_key_release_listener w \<and>
     kr_long_key_listener w' = kr_long_key_listener w \<and> kr_global_key_listener w' = kr_global_key_listener w"

definition quiet_step :: "router_event list \<Rightarrow> key_router \<Rightarrow> key_router \<Rightarrow> bool" where
  "quiet_step evs w w' \<longleftrightarrow> (\<exists>n. w' = w\<lparr>kr_steps := n, kr_trace := kr_trace w @ evs\<rparr>)"

lemma quiet_step_fields:
  assumes "quiet_step evs w w'"
  shows "kr_trace w' = kr_trace w @ evs" "same_setup w w'" "kr_pressed_key w' = kr_pressed_key w"
    "kr_last_key w' = kr_last_key w" "kr_last_key_pressed w' = kr_last_key_pressed w"
    "kr_long_press_sent w' = kr_long_press_sent w" "kr_consumed_by_global w' = kr_consumed_by_global w"
    "kr_timer w' = kr_timer w"
  using assms by (auto simp: quiet_step_def same_setup_def)

lemma quiet_step_trans: "quiet_step a u v \<Longrightarrow> quiet_step b v w \<Longrightarrow> quiet_step (a @ b) u w"
  by (auto simp: quiet_step_def)

lemma quiet_refl: "quiet_step [] w w"
  unfolding quiet_step_def by (rule exI [of _ "kr_steps w"]) simp

lemma notify_quiet_step: "no_calls e \<Longrightarrow> quiet_step [ev] w (snd (notify e ev w))"
  by (simp add: notify_quiet quiet_step_def) (rule exI, rule refl)

lemma emit_quiet:
  assumes "no_calls e"
  shows "fst (emit_key e key w) \<longleftrightarrow> kr_global_key_listener w \<noteq> None \<and> ro_consumes e (kr_steps w)"
    and "quiet_step (told (kr_global_key_listener w) (ToGlobal key False) @
      (if fst (emit_key e key w) then [] else told (kr_key_listener w) (ToListener key))) w (snd (emit_key e key w))"
proof -
  show "fst (emit_key e key w) \<longleftrightarrow> kr_global_key_listener w \<noteq> None \<and> ro_consumes e (kr_steps w)"
    using assms by (simp add: emit_key_def notify_quiet Let_def split: option.splits)
  define w1 where "w1 = (case kr_global_key_listener w of Some l \<Rightarrow> snd (notify e (ToGlobal key False) w) | None \<Rightarrow> w)"
  have g: "quiet_step (told (kr_global_key_listener w) (ToGlobal key False)) w w1"
    using notify_quiet_step [OF assms] quiet_refl by (simp add: w1_def told_def split: option.split)
  have l: "quiet_step (told (kr_key_listener w) (ToListener key)) w1
      (case kr_key_listener w1 of Some l \<Rightarrow> snd (notify e (ToListener key) w1) | None \<Rightarrow> w1)"
    using notify_quiet_step [OF assms] quiet_refl quiet_step_fields(2) [OF g]
    by (simp add: same_setup_def told_def split: option.split)
  have "snd (emit_key e key w) = (if fst (emit_key e key w) then w1
      else case kr_key_listener w1 of Some l \<Rightarrow> snd (notify e (ToListener key) w1) | None \<Rightarrow> w1)"
    by (simp add: emit_key_def w1_def case_prod_unfold Let_def split: option.split)
  then show "quiet_step (told (kr_global_key_listener w) (ToGlobal key False) @
      (if fst (emit_key e key w) then [] else told (kr_key_listener w) (ToListener key))) w (snd (emit_key e key w))"
    using g quiet_step_trans [OF g l] by simp
qed

lemma emit_release_quiet:
  "no_calls e \<Longrightarrow> quiet_step (told (kr_key_release_listener w) (ToReleaseListener key)) w (emit_key_release e key w)"
  using quiet_refl notify_quiet_step by (simp add: emit_key_release_def told_def split: option.split)

lemma dispatch_quiet_step:
  "no_calls e \<Longrightarrow> quiet_step (told_button (button_for e key w) code) w (dispatch_nav_key e key code w)"
  by (auto simp: dispatch_quiet quiet_step_def)

lemma button_for_setup: "same_setup w w' \<Longrightarrow> button_for e key w' = button_for e key w"
  by (rule button_for_cong) (simp_all add: same_setup_def)

lemma same_setup_trans: "same_setup u v \<Longrightarrow> same_setup v w \<Longrightarrow> same_setup u w"
  by (simp add: same_setup_def)

lemma begin_hold_quiet:
  assumes "no_calls e"
  shows "let w' = begin_hold e key modal w in
    kr_trace w' = kr_trace w @ PressSound # told (kr_global_key_listener w) (ToGlobal key False) @
      (if consumed_key e w then []
       else told (kr_key_listener w) (ToListener key) @
         (if modal then [] else told_button (button_for e key w) EV_PRESSED)) \<and>
    same_setup w w' \<and> kr_pressed_key w' = key \<and> \<not> kr_long_press_sent w' \<and>
    kr_consumed_by_global w' = consumed_key e w \<and> kr_last_key w' = kr_last_key w \<and>
    kr_last_key_pressed w' = kr_last_key_pressed w"
proof -
  define w2 where "w2 = play_press ((snd (tick_get e (w\<lparr>kr_pressed_key := key\<rparr>)))\<lparr>kr_press_started_at := ro_tick e (kr_steps w),
      kr_long_press_sent := False, kr_consumed_by_global := False\<rparr>)"
  have w2: "kr_steps w2 = kr_steps w + 1" "same_setup w w2" "kr_trace w2 = kr_trace w @ [PressSound]"
    "kr_pressed_key w2 = key" "\<not> kr_long_press_sent w2" "kr_last_key w2 = kr_last_key w"
    "kr_last_key_pressed w2 = kr_last_key_pressed w" "kr_global_key_listener w2 = kr_global_key_listener w"
    "kr_key_listener w2 = kr_key_listener w"
    by (simp_all add: w2_def play_press_def tick_get_def same_setup_def)
  have c: "fst (emit_key e key w2) = consumed_key e w"
    using emit_quiet(1) [OF assms, of key w2] w2 by (simp add: consumed_key_def)
  define w4 where "w4 = (snd (emit_key e key w2))\<lparr>kr_consumed_by_global := consumed_key e w\<rparr>"
  note em = quiet_step_fields [OF emit_quiet(2) [OF assms, of w2 key], unfolded c w2]
  have w4: "same_setup w w4" "kr_consumed_by_global w4 = consumed_key e w" "kr_pressed_key w4 = key"
    "\<not> kr_long_press_sent w4" "kr_last_key w4 = kr_last_key w" "kr_last_key_pressed w4 = kr_last_key_pressed w"
    "kr_trace w4 = kr_trace w @ PressSound # told (kr_global_key_listener w) (ToGlobal key False) @
      (if consumed_key e w then [] else told (kr_key_listener w) (ToListener key))"
    using em w2(2,5) by (simp_all add: w4_def same_setup_def)
  have hold: "begin_hold e key modal w =
      (if \<not> modal \<and> \<not> consumed_key e w then dispatch_nav_key e key EV_PRESSED w4 else w4)"
    using c by (simp add: begin_hold_def w2_def [symmetric] w4_def case_prod_unfold Let_def tick_get_def) (simp add: w2_def tick_get_def)
  note di = quiet_step_fields [OF dispatch_quiet_step [OF assms, of key w4 EV_PRESSED], unfolded w4 button_for_setup [OF w4(1)]]
  show ?thesis
    using di w4 same_setup_trans [OF w4(1) di(2)] unfolding hold Let_def by simp
qed

lemma press_quiet:
  assumes "no_calls e" "\<not> kr_last_key_pressed w"
  shows "let w' = route_key_state e key True w in
    kr_trace w' = kr_trace w @ told_press e key w \<and> same_setup w w' \<and> kr_pressed_key w' = key \<and>
    kr_last_key w' = key \<and> kr_last_key_pressed w' \<and> \<not> kr_long_press_sent w' \<and> kr_timer w' = TIMER_RUNNING \<and>
    kr_consumed_by_global w' = consumed_key e w"
proof -
  let ?m = "kr_modal_key_capture w"
  define w1 where "w1 = begin_hold e key ?m w"
  note h = begin_hold_quiet [OF assms(1), of key ?m w, folded w1_def, unfolded Let_def]
  define w3 where "w3 = ensure_long_press_timer ((snd (tick_get e w1))\<lparr>kr_last_key_activity_at := fst (tick_get e w1)\<rparr>)"
  have w3: "same_setup w w3" "kr_pressed_key w3 = key" "\<not> kr_long_press_sent w3" "kr_timer w3 = TIMER_RUNNING"
    "kr_consumed_by_global w3 = consumed_key e w" "kr_last_key_pressed w3 = kr_last_key_pressed w" "kr_trace w3 = kr_trace w1"
    "kr_nav_trigger_mode w3 = kr_nav_trigger_mode w"
    using h by (simp_all add: w3_def ensure_long_press_timer_def tick_get_def same_setup_def)
  have route: "route_press e key True ?m w =
      (if \<not> ?m \<and> \<not> consumed_key e w \<and> kr_nav_trigger_mode w = NAV_CLICK then dispatch_nav_key e key EV_CLICKED w3 else w3)"
    using w3 assms(2) by (simp add: route_press_def w1_def [symmetric] w3_def case_prod_unfold Let_def)
  note di = quiet_step_fields [OF dispatch_quiet_step [OF assms(1), of key w3 EV_CLICKED], unfolded w3 button_for_setup [OF w3(1)]]
  have frame: "same_setup w (u\<lparr>kr_last_key := k, kr_last_key_pressed := l\<rparr>) \<longleftrightarrow> same_setup w u" for u k l
    by (simp add: same_setup_def)
  show ?thesis
    using di w3 h same_setup_trans [OF w3(1) di(2)] assms(2)
    by (simp add: route_key_state_def route frame told_press_def)
qed

lemma release_quiet:
  assumes "no_calls e" "kr_last_key_pressed w" "kr_pressed_key w = key"
  shows "let w' = route_key_state e key False w in
    kr_trace w' = kr_trace w @ (if kr_consumed_by_global w then []
      else (if kr_modal_key_capture w then [] else told_button (button_for e key w) EV_RELEASED) @
        told (kr_key_release_listener w) (ToReleaseListener key)) \<and>
    same_setup w w' \<and> kr_pressed_key w' = 0 \<and> \<not> kr_last_key_pressed w' \<and> kr_timer w' \<noteq> TIMER_RUNNING"
proof -
  let ?m = "kr_modal_key_capture w"
  define w1 where "w1 = (if \<not> ?m \<and> \<not> kr_consumed_by_global w then dispatch_nav_key e key EV_RELEASED w else w)"
  have "quiet_step (if \<not> ?m \<and> \<not> kr_consumed_by_global w then told_button (button_for e key w) EV_RELEASED else []) w w1"
    using dispatch_quiet_step [OF assms(1), of key w EV_RELEASED] quiet_refl [of w] by (simp add: w1_def)
  note d = quiet_step_fields [OF this]
  have listener: "kr_key_release_listener w1 = kr_key_release_listener w" using d(2) by (simp add: same_setup_def)
  note r = quiet_step_fields [OF emit_release_quiet [OF assms(1), of w1 key], unfolded listener d]
  have frame: "same_setup w (u\<lparr>kr_pressed_key := p, kr_consumed_by_global := c, kr_timer := t, kr_last_key := k, kr_last_key_pressed := l\<rparr>)
      \<longleftrightarrow> same_setup w u" for u p c t k l
    by (simp add: same_setup_def)
  have route: "route_release e key ?m w =
      (let w2 = (if \<not> kr_consumed_by_global w then emit_key_release e key w1 else w1)
       in w2\<lparr>kr_pressed_key := 0, kr_consumed_by_global := False,
            kr_timer := (if kr_timer w2 = NO_TIMER then NO_TIMER else TIMER_PAUSED)\<rparr>)"
    unfolding route_release_def w1_def [symmetric] Let_def d(7) ..
  show ?thesis
    using d r same_setup_trans [OF d(2) r(2)] assms(2,3)
    by (simp add: route_key_state_def route frame Let_def)
qed

text \<open>C37: a key pressed while no other is held and released again, where the listeners and buttons
  that are told leave the router alone (none changes the page, a listener or the mode), is told as
  one press: the sound, then the global listener. If that consumes the key nothing more is told, of
  the press or of the release. Otherwise the page's listener is told and, outside a modal dialog,
  the button of the key, which gets PRESSED, CLICKED in click mode only, and RELEASED; in a modal
  dialog no button is told. The listener of releases comes last. Afterwards no key is held and the
  timer rests.\<close>

theorem key_told_once:
  assumes "\<forall>n. ro_calls e n = []" "\<not> kr_last_key_pressed w"
  shows "let w' = route_key_state e key False (route_key_state e key True w) in
    kr_trace w' = kr_trace w @ told_press e key w @ told_release e key w \<and>
    kr_pressed_key w' = 0 \<and> \<not> kr_last_key_pressed w' \<and> kr_timer w' \<noteq> TIMER_RUNNING"
proof -
  have quiet: "no_calls e" using assms(1) by (simp add: no_calls_def)
  define w1 where "w1 = route_key_state e key True w"
  note p = press_quiet [OF quiet assms(2), of key, folded w1_def, unfolded Let_def]
  note r = release_quiet [OF quiet, of w1 key, unfolded Let_def]
  show ?thesis
    using p r button_for_setup [of w w1 e key] unfolding Let_def w1_def [symmetric]
    by (simp add: told_release_def same_setup_def)
qed

definition plain_keys :: "lv_key \<Rightarrow> 32 word" where
  "plain_keys k = (case k of
     LV_KEY_UP \<Rightarrow> 17 | LV_KEY_DOWN \<Rightarrow> 18 | LV_KEY_RIGHT \<Rightarrow> 19 | LV_KEY_LEFT \<Rightarrow> 20 | LV_KEY_ESC \<Rightarrow> 27 |
     LV_KEY_DEL \<Rightarrow> 127 | LV_KEY_BACKSPACE \<Rightarrow> 8 | LV_KEY_ENTER \<Rightarrow> 10 | LV_KEY_NEXT \<Rightarrow> 9 | LV_KEY_PREV \<Rightarrow> 11 |
     LV_KEY_HOME \<Rightarrow> 2 | LV_KEY_END \<Rightarrow> 3)"

definition plain_env :: router_env where
  "plain_env = \<lparr>ro_lvk = plain_keys, ro_consumes = \<lambda>_. False, ro_calls = \<lambda>_. [], ro_usable = \<lambda>_. True,
     ro_tick = \<lambda>n. word_of_nat (100 * n)\<rparr>"

definition one_page :: key_router where
  "one_page = initial_router\<lparr>kr_nav_buttons := [Some 7, None, None, None, None], kr_key_listener := Some 1\<rparr>"

lemma key_told_once_witness:
  "kr_trace (route_key_state plain_env 52 False (route_key_state plain_env 52 True one_page)) =
     [PressSound, ToListener 52, ToButton 7 EV_PRESSED, ToButton 7 EV_CLICKED, ToButton 7 EV_RELEASED]"
  using key_told_once [of plain_env one_page 52]
  by (simp add: one_page_def plain_env_def initial_router_def told_press_def told_release_def consumed_key_def
      told_def told_button_def button_for_def nav_key_to_index_def nav_key_map_def nav_key_count_def Let_def)

subsection \<open>Two keys rolled over\<close>

lemma hold_begun:
  assumes "no_calls e" "\<not> kr_last_key_pressed w \<or> key \<noteq> kr_pressed_key w"
  shows "let w' = route_key_state e key True w in
    kr_pressed_key w' = key \<and> kr_timer w' = TIMER_RUNNING \<and> \<not> kr_long_press_sent w' \<and> kr_last_key_pressed w' \<and>
    kr_consumed_by_global w' = consumed_key e w"
proof -
  let ?m = "kr_modal_key_capture w"
  define w1 where "w1 = begin_hold e key ?m w"
  note h = begin_hold_quiet [OF assms(1), of key ?m w, folded w1_def, unfolded Let_def]
  define w3 where "w3 = ensure_long_press_timer ((snd (tick_get e w1))\<lparr>kr_last_key_activity_at := fst (tick_get e w1)\<rparr>)"
  have w3: "kr_pressed_key w3 = key" "\<not> kr_long_press_sent w3" "kr_timer w3 = TIMER_RUNNING"
    "kr_consumed_by_global w3 = consumed_key e w"
    using h by (simp_all add: w3_def ensure_long_press_timer_def tick_get_def)
  let ?d = "dispatch_nav_key e key EV_CLICKED w3"
  have d: "kr_pressed_key ?d = key" "\<not> kr_long_press_sent ?d" "kr_timer ?d = TIMER_RUNNING"
    "kr_consumed_by_global ?d = consumed_key e w"
    using quiet_step_fields [OF dispatch_quiet_step [OF assms(1), of key w3 EV_CLICKED], unfolded w3] w3 by simp_all
  have "route_press e key True ?m w = ?d \<or> route_press e key True ?m w = w3"
    unfolding route_press_def w1_def w3_def case_prod_unfold Let_def by simp
  then show ?thesis
    using d w3 assms(2) by (elim disjE) (simp_all add: route_key_state_def)
qed

lemma releases_ignored:
  assumes "kr_pressed_key w \<noteq> a"
  shows "route_key_state e b False (route_key_state e a False w) = w\<lparr>kr_last_key := b, kr_last_key_pressed := False\<rparr>"
  using assms by (simp add: route_key_state_def)

text \<open>What the timer tells of a key whose time is up.\<close>

definition told_long :: "router_env \<Rightarrow> 32 word \<Rightarrow> key_router \<Rightarrow> router_event list" where
  "told_long e key w = told (kr_global_key_listener w) (ToGlobal key True) @
     (if consumed_key e w then []
      else told (kr_long_key_listener w) (ToLongListener key) @ told_button (button_for e key w) EV_LONG_PRESSED)"

lemma emit_long_quiet:
  assumes "no_calls e"
  shows "fst (emit_long_key e key w) \<longleftrightarrow> kr_global_key_listener w \<noteq> None \<and> ro_consumes e (kr_steps w)"
    and "quiet_step (told (kr_global_key_listener w) (ToGlobal key True) @
      (if fst (emit_long_key e key w) then [] else told (kr_long_key_listener w) (ToLongListener key))) w
        (snd (emit_long_key e key w))"
proof -
  show "fst (emit_long_key e key w) \<longleftrightarrow> kr_global_key_listener w \<noteq> None \<and> ro_consumes e (kr_steps w)"
    using assms by (simp add: emit_long_key_def notify_quiet Let_def split: option.splits)
  define w1 where "w1 = (case kr_global_key_listener w of Some l \<Rightarrow> snd (notify e (ToGlobal key True) w) | None \<Rightarrow> w)"
  have g: "quiet_step (told (kr_global_key_listener w) (ToGlobal key True)) w w1"
    using notify_quiet_step [OF assms] quiet_refl by (simp add: w1_def told_def split: option.split)
  have l: "quiet_step (told (kr_long_key_listener w) (ToLongListener key)) w1
      (case kr_long_key_listener w1 of Some l \<Rightarrow> snd (notify e (ToLongListener key) w1) | None \<Rightarrow> w1)"
    using notify_quiet_step [OF assms] quiet_refl quiet_step_fields(2) [OF g]
    by (simp add: same_setup_def told_def split: option.split)
  have "snd (emit_long_key e key w) = (if fst (emit_long_key e key w) then w1
      else case kr_long_key_listener w1 of Some l \<Rightarrow> snd (notify e (ToLongListener key) w1) | None \<Rightarrow> w1)"
    by (simp add: emit_long_key_def w1_def case_prod_unfold Let_def split: option.split)
  then show "quiet_step (told (kr_global_key_listener w) (ToGlobal key True) @
      (if fst (emit_long_key e key w) then [] else told (kr_long_key_listener w) (ToLongListener key))) w
        (snd (emit_long_key e key w))"
    using g quiet_step_trans [OF g l] by simp
qed

lemma timer_tells:
  assumes "no_calls e" "kr_pressed_key w \<noteq> 0" "\<not> kr_long_press_sent w"
  shows "kr_trace (long_press_timer_cb e w) = kr_trace w @
      (if ro_tick e (kr_steps w) - kr_press_started_at w < long_press_ms \<or> kr_modal_key_capture w \<or> kr_consumed_by_global w
       then [] else told_long e (kr_pressed_key w) w)"
    and "kr_long_press_sent (long_press_timer_cb e w) \<longleftrightarrow> \<not> ro_tick e (kr_steps w) - kr_press_started_at w < long_press_ms"
proof -
  let ?key = "kr_pressed_key w"
  define w2 where "w2 = (snd (tick_get e w))\<lparr>kr_long_press_sent := True\<rparr>"
  have w2: "kr_steps w2 = kr_steps w + 1" "same_setup w w2" "kr_trace w2 = kr_trace w" "kr_pressed_key w2 = ?key"
    "kr_long_press_sent w2" "kr_consumed_by_global w2 = kr_consumed_by_global w"
    "kr_global_key_listener w2 = kr_global_key_listener w" "kr_long_key_listener w2 = kr_long_key_listener w"
    "kr_modal_key_capture w2 = kr_modal_key_capture w"
    by (simp_all add: w2_def tick_get_def same_setup_def)
  have c: "fst (emit_long_key e ?key w2) = consumed_key e w"
    using emit_long_quiet(1) [OF assms(1), of ?key w2] w2 by (simp add: consumed_key_def)
  define w3 where "w3 = snd (emit_long_key e ?key w2)"
  note em = quiet_step_fields [OF emit_long_quiet(2) [OF assms(1), of w2 ?key, folded w3_def], unfolded c w2]
  note di = quiet_step_fields [OF dispatch_quiet_step [OF assms(1), of ?key w3 EV_LONG_PRESSED],
      unfolded em(1,3) button_for_setup [OF same_setup_trans [OF w2(2) em(2)]]]
  have cb: "long_press_timer_cb e w =
      (if ro_tick e (kr_steps w) - kr_press_started_at w < long_press_ms then snd (tick_get e w)
       else if kr_modal_key_capture w \<or> kr_consumed_by_global w then w2
       else if consumed_key e w then w3 else dispatch_nav_key e ?key EV_LONG_PRESSED w3)"
    using assms(2,3) w2 em(3) c
    by (simp add: long_press_timer_cb_def case_prod_unfold Let_def w2_def [symmetric] w3_def tick_get_def)
      (simp add: w2_def w3_def tick_get_def)
  show "kr_trace (long_press_timer_cb e w) = kr_trace w @
      (if ro_tick e (kr_steps w) - kr_press_started_at w < long_press_ms \<or> kr_modal_key_capture w \<or> kr_consumed_by_global w
       then [] else told_long e ?key w)"
    unfolding cb using w2 em di by (simp add: told_long_def tick_get_def)
  show "kr_long_press_sent (long_press_timer_cb e w) \<longleftrightarrow> \<not> ro_tick e (kr_steps w) - kr_press_started_at w < long_press_ms"
    unfolding cb using w2 em di assms(3) by (simp add: tick_get_def)
qed

text \<open>C38: of two keys rolled over -- the second pressed before the first is released, both then
  released in that order -- neither release is told: the second stays the pressed key with the timer
  running though no key is down. The timer tells its long press when it runs after the time is up,
  and not before: the global listener, and unless that consumes it the listener of long presses and
  the key's button. In a modal dialog, or when the global listener consumed the second press,
  nothing is told. The listeners and buttons leave the router alone.\<close>

theorem rolled_over_key_sticks:
  assumes "\<forall>n. ro_calls e n = []" "a \<noteq> b" "b \<noteq> 0"
  shows "let w1 = route_key_state e a True w; w2 = route_key_state e b True w1;
      w4 = route_key_state e b False (route_key_state e a False w2);
      time_up = (\<not> ro_tick e (kr_steps w4) - kr_press_started_at w4 < long_press_ms)
    in kr_trace w4 = kr_trace w2 \<and> \<not> kr_last_key_pressed w4 \<and> kr_pressed_key w4 = b \<and> kr_timer w4 = TIMER_RUNNING \<and>
      kr_long_press_sent (long_press_timer_cb e w4) = time_up \<and>
      kr_trace (long_press_timer_cb e w4) = kr_trace w4 @
        (if time_up \<and> \<not> kr_modal_key_capture w4 \<and> \<not> consumed_key e w1 then told_long e b w4 else [])"
proof -
  have quiet: "no_calls e" using assms(1) by (simp add: no_calls_def)
  define w1 where "w1 = route_key_state e a True w"
  define w2 where "w2 = route_key_state e b True w1"
  have pressed: "kr_pressed_key w1 \<noteq> b \<or> \<not> kr_last_key_pressed w1"
  proof (cases "\<not> kr_last_key_pressed w \<or> a \<noteq> kr_pressed_key w")
    case True
    then show ?thesis using hold_begun [OF quiet True] assms(2) by (simp add: w1_def Let_def)
  next
    case False
    have "kr_pressed_key (route_press e a False m w) = kr_pressed_key w" for m
      using quiet_step_fields(3) [OF dispatch_quiet_step [OF quiet]]
      by (simp add: route_press_def case_prod_unfold Let_def ensure_long_press_timer_def tick_get_def)
    then show ?thesis using False assms(2) by (simp add: w1_def route_key_state_def)
  qed
  then have w2: "kr_pressed_key w2 = b" "kr_timer w2 = TIMER_RUNNING" "\<not> kr_long_press_sent w2"
    "kr_consumed_by_global w2 = consumed_key e w1"
    using hold_begun [OF quiet, of w1 b] by (auto simp: w2_def Let_def)
  define w4 where "w4 = w2\<lparr>kr_last_key := b, kr_last_key_pressed := False\<rparr>"
  have w4: "route_key_state e b False (route_key_state e a False w2) = w4"
    unfolding w4_def by (rule releases_ignored) (use w2 assms(2) in simp)
  have f4: "kr_pressed_key w4 = b" "kr_timer w4 = TIMER_RUNNING" "\<not> kr_long_press_sent w4"
    "kr_consumed_by_global w4 = consumed_key e w1" "kr_trace w4 = kr_trace w2" "\<not> kr_last_key_pressed w4"
    using w2 by (simp_all add: w4_def)
  show ?thesis
    unfolding Let_def w1_def [symmetric] w2_def [symmetric] w4
    using f4 assms(3) timer_tells [OF quiet, of w4] by simp
qed

definition slow_env :: router_env where
  "slow_env = plain_env\<lparr>ro_tick := \<lambda>n. word_of_nat (1000 * n)\<rparr>"

definition long_page :: key_router where
  "long_page = one_page\<lparr>kr_long_key_listener := Some 2\<rparr>"

text \<open>Keys 5 and 4 rolled over: after the clicks, with both keys up, the timer tells a long press.\<close>

definition rolled_over :: key_router where
  "rolled_over = route_key_state slow_env 52 False (route_key_state slow_env 53 False
     (route_key_state slow_env 52 True (route_key_state slow_env 53 True long_page)))"

lemmas routing_evaluated = route_key_state_def route_press_def begin_hold_def emit_key_def notify_def tick_get_def
  play_press_def dispatch_nav_key_def ensure_long_press_timer_def nav_key_to_index_def nav_key_map_def nav_key_count_def
  slow_env_def plain_env_def long_page_def one_page_def initial_router_def plain_keys_def

lemma rolled_over_fields:
  "kr_trace rolled_over = [PressSound, ToListener 53, PressSound, ToListener 52, ToButton 7 EV_PRESSED, ToButton 7 EV_CLICKED]"
  "kr_global_key_listener rolled_over = None" "kr_long_key_listener rolled_over = Some 2"
  "\<not> kr_modal_key_capture rolled_over" "kr_steps rolled_over = 8" "kr_press_started_at rolled_over = 3000"
  "button_for slow_env 52 rolled_over = Some 7"
  "kr_global_key_listener (route_key_state slow_env 53 True long_page) = None"
  by (simp_all add: rolled_over_def routing_evaluated button_for_def)

lemma rolled_over_key_sticks_witness:
  "kr_trace (long_press_timer_cb slow_env rolled_over) =
   [PressSound, ToListener 53, PressSound, ToListener 52, ToButton 7 EV_PRESSED, ToButton 7 EV_CLICKED,
    ToLongListener 52, ToButton 7 EV_LONG_PRESSED]"
proof -
  have quiet: "\<forall>n. ro_calls slow_env n = []" by (simp add: slow_env_def plain_env_def)
  have tick: "ro_tick slow_env 8 = 8000" by (simp add: slow_env_def)
  have up: "\<not> ro_tick slow_env (kr_steps rolled_over) - kr_press_started_at rolled_over < long_press_ms"
    by (simp add: rolled_over_fields tick long_press_ms_def)
  have passed: "\<not> consumed_key slow_env (route_key_state slow_env 53 True long_page)"
    by (simp add: consumed_key_def rolled_over_fields)
  have "kr_trace (long_press_timer_cb slow_env rolled_over) = kr_trace rolled_over @ told_long slow_env 52 rolled_over"
    using rolled_over_key_sticks [OF quiet, of 53 52 long_page, unfolded Let_def, folded rolled_over_def]
      up passed rolled_over_fields(4) by simp
  then show ?thesis
    using rolled_over_fields by (simp add: told_long_def told_def told_button_def consumed_key_def)
qed

subsection \<open>Long presses\<close>

definition spent :: "key_router \<Rightarrow> bool" where
  "spent w \<longleftrightarrow> kr_pressed_key w = 0 \<or> kr_long_press_sent w"

lemma spent_calls: "spent w \<Longrightarrow> spent (fold do_router_call cs w)"
proof (induction cs arbitrary: w)
  case (Cons c cs)
  have "spent (do_router_call c w)"
    using Cons.prems by (cases c) (auto simp: spent_def reset_key_router_state_def)
  then show ?case using Cons.IH by simp
qed simp

lemma spent_notify: "spent w \<Longrightarrow> spent (snd (notify e ev w))"
  by (simp add: notify_def) (rule spent_calls, simp add: spent_def)

fun long_listened :: "router_event \<Rightarrow> bool" where
  "long_listened (ToLongListener k) = True" | "long_listened _ = False"

fun long_pressed :: "router_event \<Rightarrow> bool" where
  "long_pressed (ToButton b EV_LONG_PRESSED) = True" | "long_pressed _ = False"

definition at_most_once :: "key_router \<Rightarrow> key_router \<Rightarrow> bool" where
  "at_most_once w w' \<longleftrightarrow> (\<exists>new. kr_trace w' = kr_trace w @ new \<and>
     length (filter long_listened new) \<le> 1 \<and> length (filter long_pressed new) \<le> 1)"

lemma emit_long_effect:
  "spent w \<Longrightarrow> spent (snd (emit_long_key e k w)) \<and> (\<exists>new. kr_trace (snd (emit_long_key e k w)) = kr_trace w @ new \<and>
     length (filter long_listened new) \<le> 1 \<and> filter long_pressed new = [])"
  by (auto simp: emit_long_key_def case_prod_unfold Let_def spent_notify split: option.split)

lemma dispatch_long_effect:
  "spent w \<Longrightarrow> spent (dispatch_nav_key e k EV_LONG_PRESSED w) \<and>
     (\<exists>new. kr_trace (dispatch_nav_key e k EV_LONG_PRESSED w) = kr_trace w @ new \<and>
       filter long_listened new = [] \<and> length (filter long_pressed new) \<le> 1)"
  by (auto simp: dispatch_nav_key_def Let_def spent_notify split: option.split)

lemma timer_cb_effect:
  "kr_trace (long_press_timer_cb e w) = kr_trace w \<or> (at_most_once w (long_press_timer_cb e w) \<and> spent (long_press_timer_cb e w))"
proof -
  let ?w2 = "(snd (tick_get e w))\<lparr>kr_long_press_sent := True\<rparr>"
  define w3 where "w3 = snd (emit_long_key e (kr_pressed_key ?w2) ?w2)"
  let ?d = "dispatch_nav_key e (kr_pressed_key w3) EV_LONG_PRESSED w3"
  have cb: "kr_trace (long_press_timer_cb e w) = kr_trace w \<or> long_press_timer_cb e w = w3 \<or> long_press_timer_cb e w = ?d"
    unfolding long_press_timer_cb_def w3_def case_prod_unfold Let_def by simp
  have "spent ?w2" by (simp add: spent_def)
  from emit_long_effect [OF this, of e "kr_pressed_key ?w2", folded w3_def]
  obtain new where n: "spent w3" "kr_trace w3 = kr_trace w @ new" "length (filter long_listened new) \<le> 1"
    "filter long_pressed new = []" by (auto simp: tick_get_def)
  from dispatch_long_effect [OF n(1), of e "kr_pressed_key w3"]
  obtain new' where n': "spent (dispatch_nav_key e (kr_pressed_key w3) EV_LONG_PRESSED w3)"
    "kr_trace (dispatch_nav_key e (kr_pressed_key w3) EV_LONG_PRESSED w3) = kr_trace w3 @ new'"
    "filter long_listened new' = []" "length (filter long_pressed new') \<le> 1" by auto
  have "at_most_once w w3" "at_most_once w (dispatch_nav_key e (kr_pressed_key w3) EV_LONG_PRESSED w3)"
    using n n' by (auto simp: at_most_once_def)
  then show ?thesis
    using n(1) n'(1) cb by (elim disjE) simp_all
qed

lemma timer_spent: "spent w \<Longrightarrow> long_press_timer_cb e w = w"
  by (auto simp: long_press_timer_cb_def spent_def)

text \<open>C39: however often the timer runs, whatever the clock says and whatever the listeners do to the
  router, one hold is told as a long press at most once, to the listener and to a button.\<close>

theorem long_press_told_once:
  "\<exists>new. kr_trace ((long_press_timer_cb e ^^ n) w) = kr_trace w @ new \<and>
     length (filter long_listened new) \<le> 1 \<and> length (filter long_pressed new) \<le> 1"
proof (induction n arbitrary: w)
  case (Suc n)
  let ?w1 = "long_press_timer_cb e w"
  have more: "(long_press_timer_cb e ^^ Suc n) w = (long_press_timer_cb e ^^ n) ?w1" by (simp add: funpow_swap1)
  have still: "(long_press_timer_cb e ^^ n) u = u" if "spent u" for u
    using that timer_spent [of u e] by (induction n) simp_all
  from timer_cb_effect [of e w] show ?case
  proof
    assume "kr_trace ?w1 = kr_trace w"
    then show ?thesis using Suc.IH [of ?w1] more by simp
  next
    assume "at_most_once w ?w1 \<and> spent ?w1"
    then show ?thesis using still [of ?w1] more by (simp add: at_most_once_def)
  qed
qed simp

subsection \<open>From the keyboard to the router\<close>

text \<open>What the events of a keyboard mean: a key and whether it is pressed. A scan code is a press and
  a release at once, a repeat is nothing.\<close>

fun decode_input :: "(kernel_key \<Rightarrow> 16 word) \<Rightarrow> (lv_key \<Rightarrow> 32 word) \<Rightarrow> bool \<Rightarrow> input_event list \<Rightarrow> (32 word \<times> bool) list" where
  "decode_input kc lvk shift [] = []"
| "decode_input kc lvk shift (MscScan v # rest) =
     (if map_evdev_scan v = 0 then [] else [(map_evdev_scan v, True), (map_evdev_scan v, False)]) @ decode_input kc lvk shift rest"
| "decode_input kc lvk shift (OtherEvent # rest) = decode_input kc lvk shift rest"
| "decode_input kc lvk shift (KeyEvent code v # rest) =
     (if v = 2 then decode_input kc lvk shift rest
      else (let now = (if lookup_key (shift_state_keys kc) code \<noteq> 0 then v \<noteq> 0 else shift)
            in (map_evdev_key kc lvk code now, v \<noteq> 0) # decode_input kc lvk now rest))"

lemma base_or_nonzero: "evdev_key_base OR x \<noteq> 0"
proof
  assume "evdev_key_base OR x = 0"
  then have "bit (evdev_key_base OR x) 20 = bit (0 :: 32 word) 20" by simp
  then show False by (simp add: evdev_key_base_def bit_or_iff)
qed

lemma map_evdev_key_nonzero: "map_evdev_key kc lvk code shift \<noteq> 0"
  by (simp add: map_evdev_key_def base_or_nonzero Let_def)

lemma decode_nonzero: "0 \<notin> fst ` set (decode_input kc lvk shift input)"
  by (induction kc lvk shift input rule: decode_input.induct)
    (simp_all add: Let_def map_evdev_key_nonzero map_evdev_key_nonzero [symmetric])

definition keypad_at_rest :: "keypad \<Rightarrow> bool" where
  "keypad_at_rest k \<longleftrightarrow> \<not> kp_synthetic_release_pending k \<and> \<not> kp_router_event_pending k"

lemma read_skipped:
  assumes "keypad_at_rest k" "read_input kc (ro_lvk e) (ev # rest) k = read_input kc (ro_lvk e) rest k"
  shows "read_keypad e kc (Suc n) (ev # rest) k w = read_keypad e kc (Suc n) rest k w"
  using assms by (simp add: keypad_at_rest_def evdev_read_cb_def key_event_cb_def keypad_event_def)

lemma read_keypad_decodes:
  "keypad_at_rest k \<Longrightarrow> 2 * length input < n \<Longrightarrow>
     snd (read_keypad e kc n input k w) =
       fold (\<lambda>(key, pressed). route_key_state e key pressed) (decode_input kc (ro_lvk e) (kp_shift_pressed k) input) w"
proof (induction input arbitrary: n k w)
  case Nil
  then obtain m where "n = Suc m" by (cases n) auto
  then show ?case using Nil by (simp add: evdev_read_cb_def key_event_cb_def keypad_event_def keypad_at_rest_def)
next
  case (Cons ev rest)
  then obtain m where n: "n = Suc (Suc m)" and left: "2 * length rest < m" by (cases n; cases "n - 1") auto
  have skipped: ?case if "read_input kc (ro_lvk e) (ev # rest) k = read_input kc (ro_lvk e) rest k"
    "decode_input kc (ro_lvk e) (kp_shift_pressed k) (ev # rest) = decode_input kc (ro_lvk e) (kp_shift_pressed k) rest"
    using read_skipped [OF Cons.prems(1) that(1), where n = "Suc m"] Cons.IH [of k n] Cons.prems n that(2) by simp
  show ?case
  proof (cases ev)
    case (MscScan v)
    show ?thesis
    proof (cases "map_evdev_scan v = 0")
      case True
      then show ?thesis using MscScan by (intro skipped) simp_all
    next
      case False
      then show ?thesis
        using Cons.prems Cons.IH n left MscScan
        by (simp add: evdev_read_cb_def key_event_cb_def keypad_event_def queue_router_event_def keypad_at_rest_def Let_def)
    qed
  next
    case (KeyEvent code v)
    show ?thesis
    proof (cases "v = 2")
      case True
      then show ?thesis using KeyEvent by (intro skipped) simp_all
    next
      case False
      obtain p where p: "n = Suc p" "2 * length rest < p" using n left by simp
      show ?thesis
        using False Cons.prems Cons.IH p KeyEvent
        by (simp add: evdev_read_cb_def key_event_cb_def keypad_event_def queue_router_event_def keypad_at_rest_def Let_def)
    qed
  next
    case OtherEvent
    then show ?thesis by (intro skipped) simp_all
  qed
qed

text \<open>C40: reading a keyboard until nothing is left, with the key event sent after each read, routes exactly the keys its events mean, each once
  and in order, a scan code as a press and its release; two reads for each event and one are enough.
  No event means the key 0, by which the router knows that no key is held.\<close>

theorem keyboard_read_through:
  "snd (read_keypad e kc (2 * length input + 1 + extra) input
       (k\<lparr>kp_synthetic_release_pending := False, kp_router_event_pending := False\<rparr>) w) =
     fold (\<lambda>(key, pressed). route_key_state e key pressed) (decode_input kc (ro_lvk e) (kp_shift_pressed k) input) w \<and>
   0 \<notin> fst ` set (decode_input kc (ro_lvk e) (kp_shift_pressed k) input)"
  using read_keypad_decodes [of "k\<lparr>kp_synthetic_release_pending := False, kp_router_event_pending := False\<rparr>"
      input "2 * length input + 1 + extra"] decode_nonzero
  by (simp add: keypad_at_rest_def)

subsection \<open>Symbols\<close>

text \<open>The codes of a plain keyboard's symbol keys (linux/input-event-codes.h).\<close>

definition linux_symbol_codes :: "(kernel_key \<Rightarrow> 16 word) \<Rightarrow> bool" where
  "linux_symbol_codes kc \<longleftrightarrow> map kc [KEY_LEFTBRACE, KEY_RIGHTBRACE, KEY_SEMICOLON, KEY_APOSTROPHE, KEY_GRAVE,
     KEY_BACKSLASH, KEY_COMMA, KEY_DOT, KEY_SLASH] = [26, 27, 39, 40, 41, 43, 51, 52, 53]"

text \<open>The table of the built-in keyboard takes these codes first: their entries in the table of
  printable keys are never reached, and a plain keyboard's bracket arrives as an exclamation mark.\<close>

lemma printable_symbols_shadowed:
  "linux_symbol_codes kc \<Longrightarrow>
     map (\<lambda>k. map_evdev_key kc lvk (kc k) shift) [KEY_LEFTBRACE, KEY_RIGHTBRACE, KEY_SEMICOLON, KEY_APOSTROPHE,
       KEY_GRAVE, KEY_BACKSLASH, KEY_COMMA, KEY_DOT, KEY_SLASH] =
     map (word_of_nat \<circ> of_char) ''!@#$%^&*(''"
  by (simp add: linux_symbol_codes_def map_evdev_key_def printable_evdev_key_def tca8418_symbol_keys_def Let_def)

subsection \<open>Which devices are grabbed\<close>

lemma discover_shared: "kd_grabs (discover_devices False t ds r) = kd_grabs r"
  by (induction ds arbitrary: r) (auto simp: try_create_keypad_def Let_def)

lemma discover_targets:
  "set (kd_grabs (discover_devices excl t ds r)) \<subseteq> set (kd_grabs r) \<union> {id_entry d | d. d \<in> set ds \<and> id_name d = t \<and> id_grabs d}"
proof (induction ds arbitrary: r)
  case (Cons d ds)
  let ?r1 = "snd (try_create_keypad excl t d r)"
  have step: "x \<in> set (kd_grabs ?r1) \<Longrightarrow> x \<in> set (kd_grabs r) \<or> (x = id_entry d \<and> id_name d = t \<and> id_grabs d)" for x
    by (auto simp: try_create_keypad_def Let_def split: if_splits)
  have "\<exists>r2. discover_devices excl t (d # ds) r = discover_devices excl t ds r2 \<and> (r2 = r \<or> kd_grabs r2 = kd_grabs ?r1)"
    by (auto simp: case_prod_unfold Let_def)
  then obtain r2 where r2: "discover_devices excl t (d # ds) r = discover_devices excl t ds r2"
    "r2 = r \<or> kd_grabs r2 = kd_grabs ?r1" by blast
  have "x \<in> set (kd_grabs r2) \<Longrightarrow> x \<in> set (kd_grabs r) \<or> (x = id_entry d \<and> id_name d = t \<and> id_grabs d)" for x
    using r2(2) step by (metis (full_types))
  then show ?case
    using Cons.IH [of r2] unfolding r2(1) by fastforce
qed simp

end
