(* ===== verification/Spec2Isabelle.thy ===== *)
theory Spec2Isabelle
  imports SessionRuns AppConfigTheorems CapRuns CapCancel PrecheckTheorems UploadRuns AppSequence
    IrReceiverTheorems Cc1101Theorems MenusTheorems ConnectivityTheorems KeyRouterTheorems
begin

text \<open>
  \<^bold>\<open>The factory test application: a model of its core in Isabelle/HOL.\<close>

  The program (src/src, C++) runs on the device under test. An operator takes it through a fixed
  sequence of tests; a session records attempts, evidence and results in a file that survives a
  restart; the finished result is uploaded over USB serial. Two tests drive a fixture of their own
  (CAP over I2C and UART, IR over the infrared service), and a second program runs an automatic
  pre-inspection that contains both. Settings live in a configuration file.

  \<^bold>\<open>Theories and what they model.\<close>

  \<^item> Prelude (text helpers, the ordered map behind \<open>std::map\<close> as locale \<open>std_map\<close>), Actions (the
    state monad of the workers with triples and invariants), Numbers (doubles as rationals with the
    special values), Json (the cJSON library as a parameter), Paths, Device (the product models).
  \<^item> Storage: files replaced atomically; the interfaces \<open>atomic_writer\<close> and \<open>strict_writer\<close>,
    interpreted on \<open>write_text_file_atomic\<close> of model/test_session.cpp (strict) and on \<open>write_atomic\<close>
    of model/app_config.cpp (not strict: it may report a failure after the file was replaced).
  \<^item> Session: \<open>SessionManager\<close> of model/test_session.cpp; record \<open>session_manager\<close> with the
    members, the files and a step counter. SessionProps (case rules of the operations, the
    invariant \<open>session_inv\<close>), SessionFile (the document through the file), SessionTheorems,
    SessionRuns (all public operations in any order, \<open>load_latest_recoverable\<close> included).
  \<^item> Serialization: \<open>OutputValue\<close>, its conversion from JSON and its two printers
    (serialization/serialization.cpp). JsonText: a reader of JSON text as the standard defines it,
    the yardstick for the printers.
  \<^item> AppConfig: model/app_config.cpp, load with repair and save; AppConfigTheorems.
  \<^item> CapFrame (UART frames and CRC), CapFixture (the whole of model/cap_fixture_test_model.cpp);
    CapLogic (a hierarchy of locales for invariants of its actions), CapTheorems, CapEval and
    CapRuns (runs on good and bad fixtures), CapCancel (runs canceled at a bad moment).
  \<^item> IrFixture: model/ir_fixture_test_model.cpp; IrFixtureTheorems.
  \<^item> Precheck: factory_precheck/precheck_model.cpp over the two fixture models; PrecheckTheorems.
  \<^item> Upload: platform/factory_upload_service.cpp; UploadTheorems (line assembly, bounds),
    UploadProtocol (the request protocol as an automaton and the abstraction that every action of
    the worker keeps; a handshake rejected while an outcome is awaited leaves the automaton in a
    disturbed state, which it tracks), UploadRuns (one upload from the queue to its acknowledgement).
  \<^item> Translation: model/translation_service.cpp. Texts: the string functions of the services.
  \<^item> IrCodec (NEC frames as pulse trains) and IrReceiver (devices, sender and receiver session):
    platform/ir_service.cpp; IrReceiverTheorems, with the locale \<open>frame_taker\<close> of its two modes.
  \<^item> CapRadio (the world and the supply of the two radio tests), Cc1101
    (platform/cap_cc1101_service.cpp, model/cap_cc1101_test_model.cpp), Nmea and Lora1262
    (platform/cap_lora_1262_service.cpp, model/cap_lora_1262_test_model.cpp); CapRadioTheorems and
    Cc1101Theorems.
  \<^item> AppFlow: viewmodel/app_viewmodel.cpp and model/app_model.cpp over the session manager, the
    configuration store, the translations and the upload service; AppFlowTheorems (the position in
    the sequence), AppRuns (the calls of the screens as a step relation), AppSequence.

  \<^item> Menus: the start menu, the menus with sub-pages and the display test with their view models
    (model/ and viewmodel/: start_menu, connectivity_test, perf_test, lcd_test); MenusTheorems, with
    the locale \<open>page_table\<close> of the two menus. Connectivity: the eight pages that refresh themselves
    (model/connectivity_test_model.cpp); ConnectivityTheorems, with the locale \<open>polled_page\<close>.
  \<^item> Keys and KeyRouter: platform/linux_input.cpp, its tables and lookups, the keyboards and the
    routing of keys; KeyRouterTheorems.

  \<^bold>\<open>How code becomes definitions.\<close> Members (and the locals of a worker's \<open>run ()\<close>) are a record; an
  operation is a function on it or an action of the state monad, one definition per function of the
  code or per part of a long one. What the code cannot determine -- the clock, system calls,
  services, the other thread -- is an environment that answers by the number of the interaction, so a
  theorem for every environment covers every pattern of failures, and where a worker and the user
  interface share state, every interleaving at the worker's interactions. Libraries (cJSON, LVGL)
  are parameters. Loops with a bounded number of rounds are structural; loops bounded by the clock
  are recursive functions with a measure, where each round's wait makes time pass; loops that wait
  for another thread or for a random address may not end and are \<open>partial_function (option)\<close>, with
  theorems that say when they do.

  \<^bold>\<open>What is shown.\<close>

  \<^item> Sessions: after any calls, restores included, under any failures the file of a session is exactly
    the document of its state, or the one it was restored from while nothing has been saved since (if
    the session names a result file of its own, as every session the program starts does);
    a failed call rolls back, a restart resumes the session field by field, the invariant
    of the records, the effect of each operation, what the directory scan picks.
  \<^item> Configuration: a load ends with a valid configuration, files are replaced whole, save and load
    are inverse, a repair converges. Printers: what they print is read back.
  \<^item> CAP fixture: a run passes only with all eight items, ends with everything released, toggles
    each channel an even number of times; frames are found however the bytes are split; a run on a
    good fixture is followed to its end as an example. IR fixture: a pass needs the four frames and the five replies in order.
  \<^item> IR service: the decoder finds exactly the packets within the tolerances; what is sent comes
    back; in raw and in scancode mode the polls show every changed packet once and in order, however
    the samples are cut and until a read fails, so that the replies of the IR fixture are verified;
    the bytes of each packet are those of its address and command after any calls.
  \<^item> Radio tests: the supply is switched on first and off last, whatever fails; a run gives a
    verdict that agrees with its items; the CC1101 test passes only by the whole sequence of bus
    operations. GPS: a sentence is accepted exactly with its form and checksum, and damage of
    one character of the checked part is noticed.
  \<^item> Pre-inspection: the counts of passed and failed items and the verdict agree with the items
    between the operations, the progress count adds the skipped items once for each retry; every run
    returns once the fixture models come to an end.
  \<^item> Upload: the service refines the request protocol under every interleaving; every line written
    is within the protocol's bound; receiving is independent of how the stream is cut, and of an
    overlong line the part after the last multiple of 1025 characters is handled.
  \<^item> Application: in the sequence the item, the page and the session's current test are the same
    test; what is shown is the state (of the title the 47 bytes its buffer holds); a sequence with saves that succeed ends with the given results.
  \<^item> Menus and pages: the selection exists after any calls, what is published is the state, a page never
    runs two tasks and unforced ones start the interval apart, brightness and settings stay in range. Keys: reading a keyboard
    routes what its events mean; a press is told once, if nobody it is told to calls the router, and as one
    long press at most; a modal dialog
    keeps keys from the navigation bar.
  \<^item> Flaws, each with a theorem or a run that exhibits it: control characters are not escaped; a
    failed directory sync is reported after the replacement; one unreadable entry hides the rest of
    the scan; a run canceled while the fixture is prepared stays RUNNING; a failed preparation is
    blamed on the USB item; a canceled switch is toggled a third time; a retry counts skipped items
    again; a late acknowledgement reports the next result, which was never sent; an open IR session
    is shown as closed from the first packet on, signals that do not decode are not shown, and a
    new expected address is ignored while the session is open; of two keys rolled over none is
    released and the second is told as long pressed; the rest of an overlong received line is taken
    for a line of its own; the symbols of a plain keyboard are hidden by the table of the built-in one; a running
    link test brings the old settings back.

  \<^bold>\<open>Bounds.\<close> The fuel of \<open>json_read\<close> is twice the length of the text plus one, one unit for each
  character and nesting step. The widths of counters are those of the code where they can wrap
  (\<open>64 word\<close> revisions and counts, CRC and registers as words); times are natural numbers.

  \<^bold>\<open>Not modelled.\<close> Log output. YAML in serialization.cpp (a library's parser). The hardware services
  under platform/, which wrap the kernel, other processes and vendor libraries: what the modelled
  code asks of them is its environment. LVGL views and widgets under view/ and app/ (a subject is the last
  value set to it): the calls they make are the steps of AppRuns and of the menus. The keyboard test (a text), the
  desktop build's SDL keyboard, the ioctl calls of the keyboards. The session's files and
  the configuration's files are separate maps: they are never the same path. Data races inside the
  sections a mutex protects are excluded by construction.
\<close>

end
